(* ===== verification/Prelude.thy ===== *)
theory Prelude
  imports Main "HOL-Library.Word"
begin

text \<open>
  What every component shares: the machine integers, results, byte strings and decimal
  numbers of the Rust source, the crates the source calls but does not contain (as one record of
  functions), and the discipline in which the PostgreSQL adapters run their statements. The simp
  rules and the collections \<open>run_simps\<close> and \<open>str_simps\<close> declared here carry the
  proofs of the component theories.
\<close>

named_theorems run_simps \<open>unfolding rules for repository and service operations\<close>
named_theorems str_simps \<open>unfolding rules for string validation\<close>


section \<open>Machine integers\<close>

text \<open>
  An \<open>i64\<close> is an integer together with the operations Rust gives it: \<open>checked_add\<close>
  returns \<open>None\<close> outside the range, \<open>saturating_add\<close> clamps, and a plain \<open>+\<close>
  wraps (release build) at 64 bits.
\<close>

type_synonym i64 = int

definition i64_min :: i64 where
  "i64_min = - (2 ^ 63)"

definition i64_max :: i64 where
  "i64_max = 2 ^ 63 - 1"

definition in_i64 :: "int \<Rightarrow> bool" where
  "in_i64 n \<longleftrightarrow> i64_min \<le> n \<and> n \<le> i64_max"

definition checked_add :: "i64 \<Rightarrow> i64 \<Rightarrow> i64 option" where
  "checked_add a b = (if in_i64 (a + b) then Some (a + b) else None)"

definition saturating_add :: "i64 \<Rightarrow> i64 \<Rightarrow> i64" where
  "saturating_add a b = max i64_min (min i64_max (a + b))"

definition wrapping_add :: "i64 \<Rightarrow> i64 \<Rightarrow> i64" where
  "wrapping_add a b = (a + b + 2 ^ 63) mod 2 ^ 64 - 2 ^ 63"

lemma checked_add_Some_iff [simp]:
  "checked_add a b = Some c \<longleftrightarrow> c = a + b \<and> in_i64 (a + b)"
  by (auto simp: checked_add_def)

lemma checked_add_None_iff [simp]: "checked_add a b = None \<longleftrightarrow> \<not> in_i64 (a + b)"
  by (simp add: checked_add_def)

lemma in_i64_interval: "in_i64 n \<longleftrightarrow> - 9223372036854775808 \<le> n \<and> n \<le> 9223372036854775807"
  by (simp add: in_i64_def i64_min_def i64_max_def)

lemma in_i64_between:
  assumes "in_i64 a" and "in_i64 b" and "a \<le> n" and "n \<le> b"
  shows "in_i64 n"
  using assms by (simp add: in_i64_def)

lemma wrapping_add_in_i64: "in_i64 (wrapping_add a b)"
proof -
  have "0 \<le> (a + b + 2 ^ 63) mod 2 ^ 64" and "(a + b + 2 ^ 63) mod 2 ^ 64 < (2 ^ 64 :: int)"
    by simp_all
  then show ?thesis
    by (simp add: wrapping_add_def in_i64_interval)
qed

lemma wrapping_add_exact:
  assumes "in_i64 (a + b)"
  shows "wrapping_add a b = a + b"
proof -
  have "0 \<le> a + b + 2 ^ 63" and "a + b + 2 ^ 63 < 2 ^ 64"
    using assms by (simp_all add: in_i64_interval)
  then show ?thesis
    by (simp add: wrapping_add_def)
qed

text \<open>An increment that came out positive did not wrap.\<close>

lemma wrapping_add_1_pos:
  assumes "in_i64 n" and "1 \<le> n" and "1 \<le> wrapping_add n 1"
  shows "wrapping_add n 1 = n + 1"
proof (cases "n = i64_max")
  case True
  with assms(3) show ?thesis by (simp add: wrapping_add_def i64_max_def)
next
  case False
  with assms(1,2) have "in_i64 (n + 1)" by (simp add: in_i64_interval i64_max_def)
  then show ?thesis by (rule wrapping_add_exact)
qed

lemma saturating_add_le_iff:
  assumes "in_i64 c"
  shows "c \<le> saturating_add a b \<longleftrightarrow> c \<le> a + b \<or> c = i64_min"
  using assms by (auto simp: saturating_add_def in_i64_def)


section \<open>Results\<close>

text \<open>\<open>Result<T, E>\<close> is \<open>'e + 'a\<close> with \<open>Inl\<close> for \<open>Err\<close>; a stateful
  operation returns the new state beside it.\<close>

type_synonym ('e, 'a) result = "'e + 'a"

definition map_err :: "('e \<Rightarrow> 'f) \<Rightarrow> 'e + 'a \<Rightarrow> 'f + 'a" where
  "map_err f r = (case r of Inl e \<Rightarrow> Inl (f e) | Inr x \<Rightarrow> Inr x)"

lemma map_err_simps [simp]: "map_err f (Inl e) = Inl (f e)" "map_err f (Inr x) = Inr x"
  by (simp_all add: map_err_def)

lemma map_err_Inr_iff [simp]: "map_err f r = Inr x \<longleftrightarrow> r = Inr x"
  by (cases r) auto

lemma map_err_Inl_iff [simp]: "map_err f r = Inl e \<longleftrightarrow> (\<exists>e'. r = Inl e' \<and> e = f e')"
  by (cases r) auto

definition bind_result :: "'e + 'a \<Rightarrow> ('a \<Rightarrow> 'e + 'b) \<Rightarrow> 'e + 'b" where
  "bind_result r f = (case r of Inl e \<Rightarrow> Inl e | Inr x \<Rightarrow> f x)"

lemma bind_result_simps [simp]: "bind_result (Inl e) f = Inl e" "bind_result (Inr x) f = f x"
  by (simp_all add: bind_result_def)

lemma bind_result_Inr_iff [simp]:
  "bind_result r f = Inr y \<longleftrightarrow> (\<exists>x. r = Inr x \<and> f x = Inr y)"
  by (cases r) auto

lemma bind_result_Inl_iff [simp]:
  "bind_result r f = Inl e \<longleftrightarrow> r = Inl e \<or> (\<exists>x. r = Inr x \<and> f x = Inl e)"
  by (cases r) auto

definition ok_or :: "'e \<Rightarrow> 'a option \<Rightarrow> 'e + 'a" where
  "ok_or e r = (case r of None \<Rightarrow> Inl e | Some x \<Rightarrow> Inr x)"

lemma ok_or_simps [simp]: "ok_or e None = Inl e" "ok_or e (Some x) = Inr x"
  by (simp_all add: ok_or_def)

lemma ok_or_Inr_iff [simp]: "ok_or e r = Inr x \<longleftrightarrow> r = Some x"
  by (cases r) auto

lemma ok_or_Inl_iff [simp]: "ok_or e r = Inl e' \<longleftrightarrow> r = None \<and> e' = e"
  by (cases r) auto

text \<open>\<open>iter().map(f).collect::<Result<Vec<_>, _>>()\<close>: the first error wins.\<close>

fun collect_results :: "('a \<Rightarrow> 'e + 'b) \<Rightarrow> 'a list \<Rightarrow> 'e + 'b list" where
  "collect_results f [] = Inr []"
| "collect_results f (x # xs) =
     (case f x of Inl e \<Rightarrow> Inl e
      | Inr y \<Rightarrow> (case collect_results f xs of Inl e \<Rightarrow> Inl e | Inr ys \<Rightarrow> Inr (y # ys)))"

lemma collect_results_all_Inr:
  "(\<And>x. x \<in> set xs \<Longrightarrow> f x = Inr (g x)) \<Longrightarrow> collect_results f xs = Inr (map g xs)"
  by (induction xs) auto

lemma collect_results_Inr_iff:
  "collect_results f xs = Inr ys \<longleftrightarrow> list_all2 (\<lambda>x y. f x = Inr y) xs ys"
proof (induction xs arbitrary: ys)
  case Nil
  then show ?case by auto
next
  case (Cons x xs)
  have "collect_results f (x # xs) = Inr ys \<longleftrightarrow>
        (\<exists>y zs. f x = Inr y \<and> collect_results f xs = Inr zs \<and> ys = y # zs)"
    by (auto split: sum.splits)
  then show ?case
    by (auto simp: Cons.IH list_all2_Cons1 simp del: collect_results.simps)
qed

lemma collect_results_Inr_map:
  "collect_results f xs = Inr ys \<Longrightarrow> (\<And>x y. f x = Inr y \<Longrightarrow> y = g x) \<Longrightarrow> ys = map g xs"
  by (induction xs arbitrary: ys) (auto split: sum.splits)

text \<open>\<open>Option<Result<..>>::transpose\<close>.\<close>

definition transpose_option :: "('e + 'a) option \<Rightarrow> 'e + 'a option" where
  "transpose_option r =
     (case r of None \<Rightarrow> Inr None | Some (Inl e) \<Rightarrow> Inl e | Some (Inr x) \<Rightarrow> Inr (Some x))"

lemma transpose_option_simps [simp]:
  "transpose_option None = Inr None"
  "transpose_option (Some (Inl e)) = Inl e"
  "transpose_option (Some (Inr x)) = Inr (Some x)"
  by (simp_all add: transpose_option_def)


section \<open>Byte strings\<close>

text \<open>
  A Rust \<open>str\<close> is its UTF-8 bytes. A byte is a \<open>char\<close> of HOL (exactly 256 values), so
  \<open>len()\<close> is \<open>length\<close>, \<open>as_bytes()\<close> is the identity and source literals are HOL string
  literals. Operations that look at characters (\<open>trim\<close>, \<open>chars().count()\<close>) are written
  on the encoding.
\<close>

type_synonym u8 = char
type_synonym bytes = "u8 list"

definition byte_val :: "u8 \<Rightarrow> nat" where
  "byte_val c = of_char c"

definition in_byte_range :: "nat \<Rightarrow> nat \<Rightarrow> u8 \<Rightarrow> bool" where
  "in_byte_range lo hi c \<longleftrightarrow> lo \<le> byte_val c \<and> byte_val c \<le> hi"

definition is_ascii_lowercase :: "u8 \<Rightarrow> bool" where
  "is_ascii_lowercase c \<longleftrightarrow> in_byte_range 97 122 c"

definition is_ascii_uppercase :: "u8 \<Rightarrow> bool" where
  "is_ascii_uppercase c \<longleftrightarrow> in_byte_range 65 90 c"

definition is_ascii_digit :: "u8 \<Rightarrow> bool" where
  "is_ascii_digit c \<longleftrightarrow> in_byte_range 48 57 c"

definition is_ascii_alphanumeric :: "u8 \<Rightarrow> bool" where
  "is_ascii_alphanumeric c \<longleftrightarrow>
     is_ascii_lowercase c \<or> is_ascii_uppercase c \<or> is_ascii_digit c"

lemmas ascii_defs [str_simps] =
  is_ascii_lowercase_def is_ascii_uppercase_def is_ascii_digit_def is_ascii_alphanumeric_def
  in_byte_range_def byte_val_def

text \<open>\<open>to_ascii_lowercase\<close> of one byte, and \<open>eq_ignore_ascii_case\<close>.\<close>

definition to_ascii_lowercase :: "u8 \<Rightarrow> u8" where
  "to_ascii_lowercase c = (if is_ascii_uppercase c then char_of (byte_val c + 32) else c)"

definition eq_ignore_ascii_case :: "string \<Rightarrow> string \<Rightarrow> bool" where
  "eq_ignore_ascii_case a b \<longleftrightarrow> map to_ascii_lowercase a = map to_ascii_lowercase b"

text \<open>\<open>chars().count()\<close>: the bytes of a UTF-8 text that are not continuation bytes.\<close>

definition chars_count :: "string \<Rightarrow> nat" where
  "chars_count s = length (filter (\<lambda>c. \<not> in_byte_range 128 191 c) s)"

lemma chars_count_le: "chars_count s \<le> length s"
  by (simp add: chars_count_def)

text \<open>
  \<open>trim\<close> removes the characters with the Unicode property White\_Space at both ends. Their
  encodings have one, two or three bytes; \<open>ws_len\<close> gives the length of the white space
  character a text starts with (0 for none), \<open>ws_len_rev\<close> the same at the end, on the reversed
  text.
\<close>

definition ws1 :: "u8 \<Rightarrow> bool" where
  "ws1 a \<longleftrightarrow> in_byte_range 9 13 a \<or> byte_val a = 32"

definition ws2 :: "u8 \<Rightarrow> u8 \<Rightarrow> bool" where
  "ws2 a b \<longleftrightarrow> byte_val a = 194 \<and> (byte_val b = 133 \<or> byte_val b = 160)"

definition ws3 :: "u8 \<Rightarrow> u8 \<Rightarrow> u8 \<Rightarrow> bool" where
  "ws3 a b c \<longleftrightarrow>
     byte_val a = 225 \<and> byte_val b = 154 \<and> byte_val c = 128 \<or>
     byte_val a = 226 \<and> byte_val b = 128 \<and>
       (in_byte_range 128 138 c \<or> byte_val c = 168 \<or> byte_val c = 169 \<or> byte_val c = 175) \<or>
     byte_val a = 226 \<and> byte_val b = 129 \<and> byte_val c = 159 \<or>
     byte_val a = 227 \<and> byte_val b = 128 \<and> byte_val c = 128"

fun ws_len :: "string \<Rightarrow> nat" where
  "ws_len [] = 0"
| "ws_len [a] = (if ws1 a then 1 else 0)"
| "ws_len [a, b] = (if ws1 a then 1 else if ws2 a b then 2 else 0)"
| "ws_len (a # b # c # cs) =
     (if ws1 a then 1 else if ws2 a b then 2 else if ws3 a b c then 3 else 0)"

fun ws_len_rev :: "string \<Rightarrow> nat" where
  "ws_len_rev [] = 0"
| "ws_len_rev [a] = (if ws1 a then 1 else 0)"
| "ws_len_rev [a, b] = (if ws1 a then 1 else if ws2 b a then 2 else 0)"
| "ws_len_rev (a # b # c # cs) =
     (if ws1 a then 1 else if ws2 b a then 2 else if ws3 c b a then 3 else 0)"

function trim_start :: "string \<Rightarrow> string" where
  "trim_start s = (if s = [] \<or> ws_len s = 0 then s else trim_start (drop (ws_len s) s))"
  by pat_completeness auto
termination
  by (relation "measure length") auto

function trim_start_rev :: "string \<Rightarrow> string" where
  "trim_start_rev s =
     (if s = [] \<or> ws_len_rev s = 0 then s else trim_start_rev (drop (ws_len_rev s) s))"
  by pat_completeness auto
termination
  by (relation "measure length") auto

declare trim_start.simps [simp del] trim_start_rev.simps [simp del]

definition trim_end :: "string \<Rightarrow> string" where
  "trim_end s = rev (trim_start_rev (rev s))"

definition str_trim :: "string \<Rightarrow> string" where
  "str_trim s = trim_end (trim_start s)"

text \<open>A text whose first and last byte are visible ASCII is its own \<open>trim\<close>.\<close>

definition visible :: "u8 \<Rightarrow> bool" where
  "visible c \<longleftrightarrow> in_byte_range 33 126 c"

lemma ws_len_visible:
  assumes "visible a"
  shows "ws_len (a # s) = 0" and "ws_len_rev (a # s) = 0"
proof -
  have not: "\<not> ws1 a" "\<not> ws2 a b" "\<not> ws2 b a" "\<not> ws3 a b c" "\<not> ws3 c b a" for b c
    using assms by (auto simp: visible_def ws1_def ws2_def ws3_def in_byte_range_def)
  show "ws_len (a # s) = 0"
    using not by (cases "a # s" rule: ws_len.cases) auto
  show "ws_len_rev (a # s) = 0"
    using not by (cases "a # s" rule: ws_len_rev.cases) auto
qed

lemma trim_start_visible: "visible a \<Longrightarrow> trim_start (a # s) = a # s"
  by (simp add: trim_start.simps ws_len_visible)

lemma trim_start_rev_visible: "visible a \<Longrightarrow> trim_start_rev (a # s) = a # s"
  by (simp add: trim_start_rev.simps ws_len_visible)

lemma str_trim_visible:
  assumes "s \<noteq> []" and "list_all visible s"
  shows "str_trim s = s"
proof -
  obtain a t where s: "s = a # t"
    using assms(1) by (cases s) auto
  obtain u b where r: "s = u @ [b]"
    using assms(1) by (metis rev_exhaust)
  have "trim_start s = s"
    using assms(2) s by (simp add: trim_start_visible)
  moreover have "trim_end s = s"
    using assms(2) r by (simp add: trim_end_def trim_start_rev_visible)
  ultimately show ?thesis
    by (simp add: str_trim_def)
qed

lemma str_trim_Nil [simp]: "str_trim [] = []"
  by (simp add: str_trim_def trim_end_def trim_start.simps trim_start_rev.simps)

lemma length_trim_start: "length (trim_start s) \<le> length s"
proof (induction s rule: trim_start.induct)
  case (1 s)
  show ?case
  proof (cases "s = [] \<or> ws_len s = 0")
    case True
    then show ?thesis by (simp add: trim_start.simps [of s])
  next
    case False
    then have "length (trim_start (drop (ws_len s) s)) \<le> length (drop (ws_len s) s)"
      by (intro 1) auto
    with False show ?thesis by (simp add: trim_start.simps [of s])
  qed
qed

text \<open>Trimming is idempotent.\<close>

lemma trim_start_fixed: "trim_start s = [] \<or> ws_len (trim_start s) = 0"
proof (induction s rule: trim_start.induct)
  case (1 s)
  show ?case
  proof (cases "s = [] \<or> ws_len s = 0")
    case True
    then show ?thesis by (auto simp: trim_start.simps [of s])
  next
    case False
    with 1 show ?thesis by (simp add: trim_start.simps [of s])
  qed
qed

lemma trim_start_rev_fixed: "trim_start_rev s = [] \<or> ws_len_rev (trim_start_rev s) = 0"
proof (induction s rule: trim_start_rev.induct)
  case (1 s)
  show ?case
  proof (cases "s = [] \<or> ws_len_rev s = 0")
    case True
    then show ?thesis by (auto simp: trim_start_rev.simps [of s])
  next
    case False
    with 1 show ?thesis by (simp add: trim_start_rev.simps [of s])
  qed
qed

lemma trim_start_rev_suffix: "\<exists>n. trim_start_rev s = drop n s"
proof (induction s rule: trim_start_rev.induct)
  case (1 s)
  show ?case
  proof (cases "s = [] \<or> ws_len_rev s = 0")
    case True
    then have "trim_start_rev s = drop 0 s" by (simp add: trim_start_rev.simps [of s])
    then show ?thesis ..
  next
    case False
    from 1 [OF this] obtain n
      where "trim_start_rev (drop (ws_len_rev s) s) = drop n (drop (ws_len_rev s) s)" ..
    with False have "trim_start_rev s = drop (n + ws_len_rev s) s"
      by (simp add: trim_start_rev.simps [of s])
    then show ?thesis ..
  qed
qed

lemma ws_len_0_prefix: "ws_len (s @ t) = 0 \<Longrightarrow> ws_len s = 0"
proof (cases s rule: ws_len.cases)
  case (2 a)
  moreover assume "ws_len (s @ t) = 0"
  ultimately show ?thesis by (cases t; cases "tl t") (auto split: if_splits)
next
  case (3 a b)
  moreover assume "ws_len (s @ t) = 0"
  ultimately show ?thesis by (cases t) (auto split: if_splits)
qed auto

lemma str_trim_idem [simp]: "str_trim (str_trim s) = str_trim s"
proof -
  define u where "u = trim_start s"
  obtain n where n: "trim_start_rev (rev u) = drop n (rev u)"
    using trim_start_rev_suffix by blast
  have v: "str_trim s = rev (drop n (rev u))"
    by (simp add: str_trim_def trim_end_def u_def [symmetric] n)
  then have pre: "u = str_trim s @ rev (take n (rev u))"
    by (metis append_take_drop_id rev_append rev_rev_ident)
  have "str_trim s = [] \<or> ws_len (str_trim s) = 0"
    using trim_start_fixed [of s] pre ws_len_0_prefix unfolding u_def [symmetric]
    by (metis append_is_Nil_conv)
  then have "trim_start (str_trim s) = str_trim s"
    by (simp add: trim_start.simps [of "str_trim s"])
  moreover have "trim_start_rev (rev (str_trim s)) = rev (str_trim s)"
    using trim_start_rev_fixed [of "rev u"] v n
    by (simp add: trim_start_rev.simps [of "drop n (rev u)"])
  ultimately show ?thesis
    by (simp add: str_trim_def [of "str_trim s"] trim_end_def)
qed


subsection \<open>Searching and splitting\<close>

fun strip_prefix :: "string \<Rightarrow> string \<Rightarrow> string option" where
  "strip_prefix [] s = Some s"
| "strip_prefix (p # ps) [] = None"
| "strip_prefix (p # ps) (c # cs) = (if p = c then strip_prefix ps cs else None)"

definition strip_suffix :: "string \<Rightarrow> string \<Rightarrow> string option" where
  "strip_suffix p s = map_option rev (strip_prefix (rev p) (rev s))"

definition starts_with :: "string \<Rightarrow> string \<Rightarrow> bool" where
  "starts_with p s \<longleftrightarrow> strip_prefix p s \<noteq> None"

definition ends_with :: "string \<Rightarrow> string \<Rightarrow> bool" where
  "ends_with p s \<longleftrightarrow> strip_suffix p s \<noteq> None"

lemma strip_prefix_Some_iff [simp]: "strip_prefix p s = Some r \<longleftrightarrow> s = p @ r"
  by (induction p s rule: strip_prefix.induct) auto

lemma strip_prefix_append [simp]: "strip_prefix p (p @ r) = Some r"
  by (induction p) auto

lemma strip_suffix_Some_iff [simp]: "strip_suffix p s = Some r \<longleftrightarrow> s = r @ p"
proof -
  have "strip_suffix p s = Some r \<longleftrightarrow> rev s = rev p @ rev r"
    by (auto simp: strip_suffix_def)
  also have "\<dots> \<longleftrightarrow> s = r @ p"
    by (metis rev_append rev_rev_ident)
  finally show ?thesis .
qed

lemma starts_with_iff: "starts_with p s \<longleftrightarrow> (\<exists>r. s = p @ r)"
  by (simp add: starts_with_def not_None_eq)

text \<open>\<open>split_once\<close> at the first occurrence of a pattern.\<close>

fun split_once :: "string \<Rightarrow> string \<Rightarrow> (string \<times> string) option" where
  "split_once p [] = (if p = [] then Some ([], []) else None)"
| "split_once p (c # cs) =
     (case strip_prefix p (c # cs) of
        Some r \<Rightarrow> Some ([], r)
      | None \<Rightarrow> map_option (\<lambda>(a, b). (c # a, b)) (split_once p cs))"

lemma split_once_SomeD: "split_once p s = Some (a, b) \<Longrightarrow> s = a @ p @ b"
proof (induction s arbitrary: a b)
  case Nil
  then show ?case by (auto split: if_splits)
next
  case (Cons c cs)
  then show ?case by (auto split: option.splits)
qed

text \<open>A prefix without the pattern's first byte does not hide an earlier occurrence.\<close>

lemma split_once_append:
  assumes "q \<notin> set a"
  shows "split_once (q # p) (a @ (q # p) @ b) = Some (a, b)"
  using assms
proof (induction a)
  case Nil
  show ?case by simp
next
  case (Cons x a)
  then show ?case by auto
qed

text \<open>Two texts cut at the first occurrence of a byte.\<close>

lemma append_sep_inj:
  "d \<notin> set a \<Longrightarrow> d \<notin> set b \<Longrightarrow> a @ d # r = b @ d # s \<longleftrightarrow> a = b \<and> r = s"
proof (induction a arbitrary: b)
  case Nil
  then show ?case by (cases b) auto
next
  case (Cons x a)
  then show ?case by (cases b) auto
qed

text \<open>\<open>split(c)\<close> on one byte: always at least one piece.\<close>

fun split_on :: "u8 \<Rightarrow> string \<Rightarrow> string list" where
  "split_on d [] = [[]]"
| "split_on d (c # cs) =
     (if c = d then [] # split_on d cs
      else (case split_on d cs of [] \<Rightarrow> [[c]] | p # ps \<Rightarrow> (c # p) # ps))"

lemma split_on_not_Nil [simp]: "split_on d s \<noteq> []"
  by (induction s) (auto split: list.splits)

lemma split_on_no_sep: "p \<in> set (split_on d s) \<Longrightarrow> d \<notin> set p"
proof (induction s arbitrary: p)
  case Nil
  then show ?case by auto
next
  case (Cons c cs)
  show ?case
  proof (cases "c = d")
    case True
    with Cons show ?thesis by auto
  next
    case False
    with Cons show ?thesis by (auto split: list.splits)
  qed
qed

lemma split_on_bytes: "c \<in> set s \<Longrightarrow> c \<noteq> d \<Longrightarrow> \<exists>p \<in> set (split_on d s). c \<in> set p"
proof (induction s)
  case Nil
  then show ?case by simp
next
  case (Cons x xs)
  then show ?case
    by (cases "split_on d xs") auto
qed


section \<open>Decimal numbers and fixed-width big-endian integers\<close>

definition digit_char :: "nat \<Rightarrow> u8" where
  "digit_char d = char_of (48 + d)"

fun show_nat :: "nat \<Rightarrow> string" where
  "show_nat n = (if n < 10 then [digit_char n] else show_nat (n div 10) @ [digit_char (n mod 10)])"

declare show_nat.simps [simp del]

text \<open>\<open>Display\<close> for \<open>i64\<close>.\<close>

definition show_i64 :: "i64 \<Rightarrow> string" where
  "show_i64 n = (if n < 0 then CHR ''-'' # show_nat (nat (- n)) else show_nat (nat n))"

definition digit_val :: "u8 \<Rightarrow> nat" where
  "digit_val c = byte_val c - 48"

definition digits_val :: "string \<Rightarrow> nat" where
  "digits_val s = foldl (\<lambda>n c. 10 * n + digit_val c) 0 s"

text \<open>\<open>str::parse::<i64>\<close> on a text already known to be decimal digits.\<close>

definition parse_i64_digits :: "string \<Rightarrow> i64 option" where
  "parse_i64_digits s = (if in_i64 (int (digits_val s)) then Some (int (digits_val s)) else None)"

lemma byte_val_digit_char [simp]: "d < 10 \<Longrightarrow> byte_val (digit_char d) = 48 + d"
  by (simp add: byte_val_def digit_char_def)

lemma is_ascii_digit_digit_char: "d < 10 \<Longrightarrow> is_ascii_digit (digit_char d)"
  by (simp add: is_ascii_digit_def in_byte_range_def)

lemma show_nat_digits: "list_all is_ascii_digit (show_nat n)"
proof (induction n rule: show_nat.induct)
  case (1 n)
  then show ?case
    by (subst show_nat.simps) (auto intro: is_ascii_digit_digit_char)
qed

lemma show_nat_not_Nil [simp]: "show_nat n \<noteq> []"
  by (subst show_nat.simps) simp

lemma digits_val_snoc [simp]: "digits_val (s @ [c]) = 10 * digits_val s + digit_val c"
  by (simp add: digits_val_def)

lemma digits_val_show_nat [simp]: "digits_val (show_nat n) = n"
proof (induction n rule: show_nat.induct)
  case (1 n)
  show ?case
  proof (cases "n < 10")
    case True
    then show ?thesis
      by (simp add: show_nat.simps [of n] digits_val_def digit_val_def)
  next
    case False
    then have "digits_val (show_nat (n div 10)) = n div 10"
      by (rule 1)
    with False show ?thesis
      by (simp add: show_nat.simps [of n] digit_val_def)
  qed
qed

lemma show_nat_inj: "show_nat m = show_nat n \<Longrightarrow> m = n"
  by (metis digits_val_show_nat)

text \<open>\<open>to_be_bytes\<close>: the \<open>k\<close> low bytes of a number, most significant first.\<close>

fun be_bytes :: "nat \<Rightarrow> nat \<Rightarrow> bytes" where
  "be_bytes 0 n = []"
| "be_bytes (Suc k) n = be_bytes k (n div 256) @ [char_of (n mod 256)]"

lemma length_be_bytes [simp]: "length (be_bytes k n) = k"
  by (induction k arbitrary: n) auto

lemma be_bytes_inj: "be_bytes k m = be_bytes k n \<Longrightarrow> m mod 256 ^ k = n mod 256 ^ k"
proof (induction k arbitrary: m n)
  case 0
  then show ?case by simp
next
  case (Suc k)
  then have hi: "be_bytes k (m div 256) = be_bytes k (n div 256)"
    and lo: "char_of (m mod 256) = (char_of (n mod 256) :: char)"
    by auto
  from lo have "of_char (char_of (m mod 256) :: char) = (of_char (char_of (n mod 256) :: char) :: nat)"
    by simp
  then have lo': "m mod 256 = n mod 256"
    by simp
  from hi have "m div 256 mod 256 ^ k = n div 256 mod 256 ^ k"
    by (rule Suc.IH)
  with lo' show ?case
    by (simp add: mod_mult2_eq)
qed

text \<open>\<open>i64::to_be_bytes\<close>: two's complement.\<close>

definition i64_be_bytes :: "i64 \<Rightarrow> bytes" where
  "i64_be_bytes n = be_bytes 8 (nat (n mod 2 ^ 64))"

text \<open>Length-prefixed fields, as the source encodes what it signs: the length as a big-endian
  integer of \<open>k\<close> bytes, then the field.\<close>

definition len_prefixed :: "nat \<Rightarrow> bytes \<Rightarrow> bytes" where
  "len_prefixed k f = be_bytes k (length f) @ f"

lemma len_prefixed_append_inj:
  assumes "len_prefixed k f @ r = len_prefixed k g @ r'"
    and "length f < 256 ^ k" and "length g < 256 ^ k"
  shows "f = g \<and> r = r'"
proof -
  have pre: "be_bytes k (length f) = be_bytes k (length g)" and post: "f @ r = g @ r'"
    using assms(1) by (simp_all add: len_prefixed_def append_eq_append_conv)
  from pre have "length f mod 256 ^ k = length g mod 256 ^ k"
    by (rule be_bytes_inj)
  with assms(2,3) have "length f = length g"
    by simp
  with post show ?thesis by simp
qed

lemma concat_len_prefixed_inj:
  assumes "concat (map (len_prefixed k) fs) = concat (map (len_prefixed k) gs)"
    and "length fs = length gs"
    and "\<And>f. f \<in> set fs \<union> set gs \<Longrightarrow> length f < 256 ^ k"
  shows "fs = gs"
  using assms(2,1,3)
proof (induction fs gs rule: list_induct2)
  case Nil
  show ?case by simp
next
  case (Cons f fs g gs)
  have "len_prefixed k f @ concat (map (len_prefixed k) fs) =
        len_prefixed k g @ concat (map (len_prefixed k) gs)"
    using Cons.prems(1) by simp
  then have "f = g \<and> concat (map (len_prefixed k) fs) = concat (map (len_prefixed k) gs)"
    by (rule len_prefixed_append_inj) (auto intro: Cons.prems(2))
  with Cons.IH Cons.prems(2) show ?case by auto
qed


section \<open>The crates the source calls\<close>

text \<open>
  A UUID is the 128-bit value of the \<open>uuid\<close> crate (\<open>from_u128\<close>). Everything else of the
  crates \<open>uuid\<close>, \<open>sha2\<close>, \<open>ed25519-dalek\<close> and \<open>base64\<close> is a function of this
  record, an argument of the definitions that use it. What the source relies on of them is a named
  predicate over the record, a hypothesis where a theorem needs it.
\<close>

type_synonym Uuid = "128 word"
type_synonym SigningKey = bytes

record Crates =
  uuid_parse :: "string \<Rightarrow> Uuid option"
  uuid_show :: "Uuid \<Rightarrow> string"
  uuid_as_bytes :: "Uuid \<Rightarrow> bytes"
  sha256 :: "bytes \<Rightarrow> bytes"
  ed_key_ok :: "bytes \<Rightarrow> bool"
  ed_verify_strict :: "bytes \<Rightarrow> bytes \<Rightarrow> bytes \<Rightarrow> bool"
  ed_public :: "SigningKey \<Rightarrow> bytes"
  ed_sign :: "SigningKey \<Rightarrow> bytes \<Rightarrow> bytes"
  b64_encode :: "bytes \<Rightarrow> string"
  b64_decode :: "string \<Rightarrow> bytes option"
  b64url_encode :: "bytes \<Rightarrow> string"
  b64url_decode :: "string \<Rightarrow> bytes option"

text \<open>The hyphenated form a \<open>Uuid\<close> is displayed in parses back, and is made of lower-case
  hexadecimal digits and hyphens.\<close>

definition uuid_text_ok :: "Crates \<Rightarrow> bool" where
  "uuid_text_ok X \<longleftrightarrow>
     (\<forall>u. uuid_parse X (uuid_show X u) = Some u \<and>
          list_all (\<lambda>c. is_ascii_digit c \<or> in_byte_range 97 102 c \<or> c = CHR ''-'') (uuid_show X u))"

definition uuid_bytes_ok :: "Crates \<Rightarrow> bool" where
  "uuid_bytes_ok X \<longleftrightarrow> (\<forall>u. length (uuid_as_bytes X u) = 16) \<and> inj (uuid_as_bytes X)"

definition sha256_ok :: "Crates \<Rightarrow> bool" where
  "sha256_ok X \<longleftrightarrow> (\<forall>m. length (sha256 X m) = 32)"

text \<open>What a key signs verifies under its own public key, which is a valid one.\<close>

definition ed25519_ok :: "Crates \<Rightarrow> bool" where
  "ed25519_ok X \<longleftrightarrow>
     (\<forall>k m. ed_key_ok X (ed_public X k) \<and> length (ed_public X k) = 32 \<and>
            length (ed_sign X k m) = 64 \<and>
            ed_verify_strict X (ed_public X k) m (ed_sign X k m))"

text \<open>Standard base64 decodes what it encodes, and its alphabet is letters, digits, \<open>+\<close>,
  \<open>/\<close> and \<open>=\<close>.\<close>

definition base64_ok :: "Crates \<Rightarrow> bool" where
  "base64_ok X \<longleftrightarrow>
     (\<forall>b. b64_decode X (b64_encode X b) = Some b \<and>
          list_all (\<lambda>c. is_ascii_alphanumeric c \<or> c \<in> set ''+/='') (b64_encode X b))"


section \<open>Statements of a PostgreSQL adapter\<close>

text \<open>
  An adapter runs its statements one after the other, each of which may fail (connection, query,
  commit). \<open>io k = Some m\<close> says that the \<open>k\<close>-th statement of the operation, in source
  order, fails with message \<open>m\<close>; the adapter then returns its \<open>Repository\<close> error and
  PostgreSQL rolls the transaction back, so the tables are as they were. A failed
  \<open>commit\<close> is one whose transaction was rolled back.
\<close>

type_synonym faults = "nat \<Rightarrow> string option"

definition no_faults :: faults where
  "no_faults = (\<lambda>_. None)"

definition db_stmt ::
  "faults \<Rightarrow> nat \<Rightarrow> (string \<Rightarrow> 'e) \<Rightarrow> 's \<Rightarrow> 's \<times> ('e + 'a) \<Rightarrow> 's \<times> ('e + 'a)" where
  "db_stmt io k mk s rest = (case io k of Some m \<Rightarrow> (s, Inl (mk m)) | None \<Rightarrow> rest)"

lemma db_stmt_no_faults [simp]: "db_stmt no_faults k mk s rest = rest"
  by (simp add: db_stmt_def no_faults_def)

lemma db_stmt_None [simp]: "io k = None \<Longrightarrow> db_stmt io k mk s rest = rest"
  by (simp add: db_stmt_def)

lemma db_stmt_Inr_iff [simp]:
  "db_stmt io k mk s rest = (s', Inr x) \<longleftrightarrow> io k = None \<and> rest = (s', Inr x)"
  by (auto simp: db_stmt_def split: option.splits)

lemma db_stmt_fst_cases:
  "fst (db_stmt io k mk s rest) = s \<or> fst (db_stmt io k mk s rest) = fst rest"
  by (simp add: db_stmt_def split: option.splits)

text \<open>Keeping a state predicate through a statement, whether it fails or not.\<close>

lemma db_stmt_inv:
  assumes "P s" and "P (fst rest)"
  shows "P (fst (db_stmt io k mk s rest))"
  using assms by (simp add: db_stmt_def split: option.splits)

lemma db_stmt_split:
  "P (db_stmt io k mk s rest) \<longleftrightarrow>
     (\<forall>m. io k = Some m \<longrightarrow> P (s, Inl (mk m))) \<and> (io k = None \<longrightarrow> P rest)"
  by (auto simp: db_stmt_def split: option.splits)

lemma db_stmt_split_asm:
  "P (db_stmt io k mk s rest) \<longleftrightarrow>
     \<not> ((\<exists>m. io k = Some m \<and> \<not> P (s, Inl (mk m))) \<or> (io k = None \<and> \<not> P rest))"
  by (auto simp: db_stmt_def split: option.splits)

lemmas db_stmt_splits = db_stmt_split db_stmt_split_asm


section \<open>Tables\<close>

text \<open>A table is the list of its rows in insertion order. \<open>UPDATE ... WHERE\<close> maps the rows
  that satisfy the condition; a keyed lookup is \<open>find\<close>.\<close>

definition update_where :: "('r \<Rightarrow> bool) \<Rightarrow> ('r \<Rightarrow> 'r) \<Rightarrow> 'r list \<Rightarrow> 'r list" where
  "update_where c f rs = map (\<lambda>r. if c r then f r else r) rs"

definition count_where :: "('r \<Rightarrow> bool) \<Rightarrow> 'r list \<Rightarrow> nat" where
  "count_where c rs = length (filter c rs)"

lemma set_update_where: "set (update_where c f rs) = (\<lambda>r. if c r then f r else r) ` set rs"
  by (simp add: update_where_def)

lemma length_update_where [simp]: "length (update_where c f rs) = length rs"
  by (simp add: update_where_def)

lemma map_update_where:
  "(\<And>r. r \<in> set rs \<Longrightarrow> c r \<Longrightarrow> k (f r) = k r) \<Longrightarrow> map k (update_where c f rs) = map k rs"
  by (simp add: update_where_def)

lemma update_where_id: "(\<And>r. r \<in> set rs \<Longrightarrow> \<not> c r) \<Longrightarrow> update_where c f rs = rs"
  by (simp add: update_where_def map_idI)

lemma count_where_0_iff [simp]: "count_where c rs = 0 \<longleftrightarrow> (\<forall>r \<in> set rs. \<not> c r)"
  by (simp add: count_where_def filter_empty_conv)

lemma find_Some_unique:
  assumes "distinct (map k rs)" and "r \<in> set rs"
  shows "find (\<lambda>x. k x = k r) rs = Some r"
  using assms
proof (induction rs)
  case Nil
  then show ?case by simp
next
  case (Cons a rs)
  show ?case
  proof (cases "k a = k r")
    case True
    with Cons.prems have "a = r"
      by (metis distinct.simps(2) image_eqI list.simps(9) list.set_map set_ConsD)
    with True show ?thesis by simp
  next
    case False
    with Cons show ?thesis by auto
  qed
qed

lemma find_SomeD: "find P rs = Some r \<Longrightarrow> r \<in> set rs \<and> P r"
  by (auto simp: find_Some_iff)

text \<open>\<open>ORDER BY k DESC LIMIT 1\<close>.\<close>

fun top_by :: "('r \<Rightarrow> int) \<Rightarrow> 'r list \<Rightarrow> 'r option" where
  "top_by k [] = None"
| "top_by k (r # rs) =
     (case top_by k rs of
        None \<Rightarrow> Some r
      | Some t \<Rightarrow> Some (if k t \<le> k r then r else t))"

lemma top_by_None_iff [simp]: "top_by k rs = None \<longleftrightarrow> rs = []"
  by (cases rs) (auto split: option.splits)

lemma top_by_Some: "top_by k rs = Some t \<Longrightarrow> t \<in> set rs \<and> (\<forall>r \<in> set rs. k r \<le> k t)"
proof (induction rs arbitrary: t)
  case Nil
  then show ?case by simp
next
  case (Cons r rs)
  then show ?case
    by (cases "top_by k rs") (auto split: if_splits)
qed

text \<open>Lookups and updates seen through a projection of the rows.\<close>

lemma find_map_proj: "find P (map f rs) = map_option f (find (\<lambda>r. P (f r)) rs)"
  by (induction rs) auto

lemma top_by_map: "top_by k (map f rs) = map_option f (top_by (\<lambda>r. k (f r)) rs)"
  by (induction rs) (auto split: option.splits)

lemma map_update_where_proj:
  assumes "\<And>r. r \<in> set rs \<Longrightarrow> c' (f r) = c r" and "\<And>r. r \<in> set rs \<Longrightarrow> c r \<Longrightarrow> f (g r) = g' (f r)"
  shows "map f (update_where c g rs) = update_where c' g' (map f rs)"
  using assms by (induction rs) (auto simp: update_where_def)

lemma find_update_where:
  assumes "\<And>r. r \<in> set rs \<Longrightarrow> P r \<Longrightarrow> P (f r)"
  shows "find P (update_where P f rs) = map_option f (find P rs)"
  using assms by (induction rs) (auto simp: update_where_def)

lemma find_append_single: "find P (rs @ [r]) = (case find P rs of None \<Rightarrow> if P r then Some r else None | Some x \<Rightarrow> Some x)"
  by (induction rs) auto

lemma find_update_other:
  assumes "\<And>r. c r \<Longrightarrow> \<not> P r" and "\<And>r. c r \<Longrightarrow> \<not> P (f r)"
  shows "find P (update_where c f rs) = find P rs"
  using assms by (induction rs) (auto simp: update_where_def)

lemma update_where_cong:
  "(\<And>r. r \<in> set rs \<Longrightarrow> c r = c' r) \<Longrightarrow> update_where c f rs = update_where c' f rs"
  by (simp add: update_where_def)

text \<open>Where keys are distinct, a condition that includes the key and holds of one row selects
  exactly the row with that key.\<close>

lemma count_where_keyed:
  assumes "distinct (map k rs)" and "count_where (\<lambda>r. k r = i \<and> P r) rs \<noteq> 0"
  obtains r where "find (\<lambda>r. k r = i) rs = Some r" and "r \<in> set rs" and "k r = i" and "P r"
    and "update_where (\<lambda>r. k r = i \<and> P r) f rs = update_where (\<lambda>r. k r = i) f rs"
proof -
  from assms(2) obtain r where r: "r \<in> set rs" "k r = i" "P r" by auto
  have eq: "q = r" if "q \<in> set rs" "k q = i" for q
    using assms(1) that(1) r(1) unfolding distinct_map by (metis inj_onD that(2) r(2))
  have "update_where (\<lambda>r. k r = i \<and> P r) f rs = update_where (\<lambda>r. k r = i) f rs"
  proof (rule update_where_cong)
    fix q
    assume "q \<in> set rs"
    then show "(k q = i \<and> P q) = (k q = i)" using eq r(3) by blast
  qed
  moreover have "find (\<lambda>x. k x = i) rs = Some r"
    using find_Some_unique [OF assms(1) r(1)] unfolding r(2) .
  ultimately show thesis using that r by blast
qed

lemma count_where_one:
  assumes "distinct (map k rs)" and "count_where (\<lambda>r. k r = i \<and> P r) rs \<noteq> 0"
  shows "count_where (\<lambda>r. k r = i \<and> P r) rs = 1"
proof -
  have "count_where (\<lambda>r. k r = i \<and> P r) rs \<le> 1"
    using assms(1)
  proof (induction rs)
    case (Cons r rs)
    show ?case
    proof (cases "k r = i")
      case True
      with Cons.prems have "\<forall>q \<in> set rs. \<not> (k q = i \<and> P q)" by (metis distinct.simps(2) image_eqI list.set_map list.simps(9))
      then have "count_where (\<lambda>r. k r = i \<and> P r) rs = 0" by simp
      then show ?thesis by (simp add: count_where_def)
    next
      case False
      with Cons show ?thesis by (simp add: count_where_def)
    qed
  qed (simp add: count_where_def)
  with assms(2) show ?thesis by linarith
qed

lemma find_update_key:
  assumes "\<And>r. k (f r) = k r"
  shows "find (\<lambda>r. k r = j) (update_where (\<lambda>r. k r = i) f rs) =
    (if j = i then map_option f (find (\<lambda>r. k r = i) rs) else find (\<lambda>r. k r = j) rs)"
  using assms by (induction rs) (auto simp: update_where_def)

end
