(* ===== verification/Identity.thy ===== *)
theory Identity
  imports Prelude
begin

text \<open>
  \<open>src/kernel/identity.rs\<close> (ILK-001): stable service identities. The domain type with its
  validation, the repository trait as the locale \<open>identity_repository\<close>, and the
  operations of \<open>IdentityService\<close>, written over the repository's operations as the Rust
  service is generic over the trait.
\<close>

section \<open>Identities\<close>

datatype ActorId = ActorId Uuid

primrec ActorId_as_uuid :: "ActorId \<Rightarrow> Uuid" where
  "ActorId_as_uuid (ActorId u) = u"

lemma ActorId_as_uuid_inj [simp]: "ActorId_as_uuid a = ActorId_as_uuid b \<longleftrightarrow> a = b"
  by (cases a; cases b) auto

definition ActorId_show :: "Crates \<Rightarrow> ActorId \<Rightarrow> string" where
  "ActorId_show X a = uuid_show X (ActorId_as_uuid a)"

datatype ActorKind = Service | Worker

primrec ActorKind_as_str :: "ActorKind \<Rightarrow> string" where
  "ActorKind_as_str Service = ''service''"
| "ActorKind_as_str Worker = ''worker''"

datatype IdentityStatus = IdActive | IdDisabled

primrec IdentityStatus_as_str :: "IdentityStatus \<Rightarrow> string" where
  "IdentityStatus_as_str IdActive = ''active''"
| "IdentityStatus_as_str IdDisabled = ''disabled''"

datatype IdentityError =
    IE_AlreadyExists ActorId
  | IE_Disabled ActorId
  | IE_InvalidActorId
  | IE_InvalidActorKind string
  | IE_InvalidDisplayName
  | IE_InvalidIdentityStatus string
  | IE_NotFound ActorId
  | IE_Repository string

definition ActorId_from_str :: "Crates \<Rightarrow> string \<Rightarrow> IdentityError + ActorId" where
  "ActorId_from_str X value =
     (case uuid_parse X value of None \<Rightarrow> Inl IE_InvalidActorId | Some u \<Rightarrow> Inr (ActorId u))"

definition ActorKind_from_str :: "string \<Rightarrow> IdentityError + ActorKind" where
  "ActorKind_from_str value =
     (if value = ''service'' then Inr Service
      else if value = ''worker'' then Inr Worker
      else Inl (IE_InvalidActorKind value))"

definition IdentityStatus_from_str :: "string \<Rightarrow> IdentityError + IdentityStatus" where
  "IdentityStatus_from_str value =
     (if value = ''active'' then Inr IdActive
      else if value = ''disabled'' then Inr IdDisabled
      else Inl (IE_InvalidIdentityStatus value))"

definition MAX_DISPLAY_NAME_LENGTH :: nat where
  "MAX_DISPLAY_NAME_LENGTH = 200"

definition validate_display_name :: "string \<Rightarrow> IdentityError + string" where
  "validate_display_name display_name =
     (let display_name = str_trim display_name in
      if display_name = [] \<or> chars_count display_name > MAX_DISPLAY_NAME_LENGTH
      then Inl IE_InvalidDisplayName else Inr display_name)"

record Identity =
  id_id :: ActorId
  id_kind :: ActorKind
  id_display_name :: string
  id_status :: IdentityStatus

definition Identity_create :: "ActorId \<Rightarrow> ActorKind \<Rightarrow> string \<Rightarrow> IdentityError + Identity" where
  "Identity_create i kind display_name =
     bind_result (validate_display_name display_name) (\<lambda>name.
       Inr \<lparr>id_id = i, id_kind = kind, id_display_name = name, id_status = IdActive\<rparr>)"

definition Identity_restore ::
  "ActorId \<Rightarrow> ActorKind \<Rightarrow> string \<Rightarrow> IdentityStatus \<Rightarrow> IdentityError + Identity" where
  "Identity_restore i kind display_name status =
     bind_result (validate_display_name display_name) (\<lambda>name.
       Inr \<lparr>id_id = i, id_kind = kind, id_display_name = name, id_status = status\<rparr>)"

definition Identity_is_active :: "Identity \<Rightarrow> bool" where
  "Identity_is_active i \<longleftrightarrow> id_status i = IdActive"

definition Identity_rename :: "Identity \<Rightarrow> string \<Rightarrow> IdentityError + Identity" where
  "Identity_rename i display_name =
     bind_result (validate_display_name display_name) (\<lambda>name. Inr (i\<lparr>id_display_name := name\<rparr>))"

definition Identity_disable :: "Identity \<Rightarrow> Identity" where
  "Identity_disable i = i\<lparr>id_status := IdDisabled\<rparr>"

lemma ActorKind_round_trip [simp]: "ActorKind_from_str (ActorKind_as_str k) = Inr k"
  by (cases k) (simp_all add: ActorKind_from_str_def)

lemma IdentityStatus_round_trip [simp]:
  "IdentityStatus_from_str (IdentityStatus_as_str s) = Inr s"
  by (cases s) (simp_all add: IdentityStatus_from_str_def)

text \<open>Names are stored trimmed: restoring a stored name gives it back.\<close>

lemma validate_display_name_bounds:
  "validate_display_name s = Inr t \<Longrightarrow>
     t = str_trim s \<and> t \<noteq> [] \<and> chars_count t \<le> MAX_DISPLAY_NAME_LENGTH"
  by (auto simp: validate_display_name_def Let_def split: if_splits)

definition identity_wf :: "Identity \<Rightarrow> bool" where
  "identity_wf i \<longleftrightarrow>
     id_display_name i \<noteq> [] \<and> chars_count (id_display_name i) \<le> MAX_DISPLAY_NAME_LENGTH \<and>
     str_trim (id_display_name i) = id_display_name i"

lemma Identity_create_wf: "Identity_create i k n = Inr x \<Longrightarrow> identity_wf x"
  by (auto simp: Identity_create_def identity_wf_def dest: validate_display_name_bounds)

lemma Identity_restore_wf [simp]:
  "identity_wf x \<Longrightarrow> Identity_restore (id_id x) (id_kind x) (id_display_name x) (id_status x) = Inr x"
  by (simp add: Identity_restore_def identity_wf_def validate_display_name_def Let_def)

lemma Identity_rename_wf: "Identity_rename i n = Inr x \<Longrightarrow> identity_wf x"
  by (auto simp: Identity_rename_def identity_wf_def dest: validate_display_name_bounds)


section \<open>The service\<close>

definition find_required ::
  "('s \<Rightarrow> ActorId \<Rightarrow> IdentityError + Identity option) \<Rightarrow> 's \<Rightarrow> ActorId \<Rightarrow> IdentityError + Identity" where
  "find_required repo_find s i = bind_result (repo_find s i) (ok_or (IE_NotFound i))"

definition IdentityService_create ::
  "('s \<Rightarrow> Identity \<Rightarrow> 's \<times> (IdentityError + unit)) \<Rightarrow> ActorId \<Rightarrow> 's \<Rightarrow> ActorKind \<Rightarrow> string
   \<Rightarrow> 's \<times> (IdentityError + Identity)" where
  "IdentityService_create repo_insert new_id s kind display_name =
     (case Identity_create new_id kind display_name of
        Inl e \<Rightarrow> (s, Inl e)
      | Inr identity \<Rightarrow>
          (case repo_insert s identity of
             (s', Inl e) \<Rightarrow> (s', Inl e)
           | (s', Inr _) \<Rightarrow> (s', Inr identity)))"

definition resolve_active ::
  "('s \<Rightarrow> ActorId \<Rightarrow> IdentityError + Identity option) \<Rightarrow> 's \<Rightarrow> ActorId \<Rightarrow> IdentityError + Identity" where
  "resolve_active repo_find s i =
     bind_result (find_required repo_find s i) (\<lambda>identity.
       if \<not> Identity_is_active identity then Inl (IE_Disabled i) else Inr identity)"

definition IdentityService_rename ::
  "('s \<Rightarrow> ActorId \<Rightarrow> IdentityError + Identity option) \<Rightarrow>
   ('s \<Rightarrow> Identity \<Rightarrow> 's \<times> (IdentityError + unit)) \<Rightarrow> 's \<Rightarrow> ActorId \<Rightarrow> string
   \<Rightarrow> 's \<times> (IdentityError + Identity)" where
  "IdentityService_rename repo_find repo_save s i display_name =
     (case bind_result (find_required repo_find s i)
             (\<lambda>identity. Identity_rename identity display_name) of
        Inl e \<Rightarrow> (s, Inl e)
      | Inr identity \<Rightarrow>
          (case repo_save s identity of
             (s', Inl e) \<Rightarrow> (s', Inl e)
           | (s', Inr _) \<Rightarrow> (s', Inr identity)))"

definition IdentityService_disable ::
  "('s \<Rightarrow> ActorId \<Rightarrow> IdentityError + Identity option) \<Rightarrow>
   ('s \<Rightarrow> Identity \<Rightarrow> 's \<times> (IdentityError + unit)) \<Rightarrow> 's \<Rightarrow> ActorId
   \<Rightarrow> 's \<times> (IdentityError + Identity)" where
  "IdentityService_disable repo_find repo_save s i =
     (case find_required repo_find s i of
        Inl e \<Rightarrow> (s, Inl e)
      | Inr identity \<Rightarrow>
          (case repo_save s (Identity_disable identity) of
             (s', Inl e) \<Rightarrow> (s', Inl e)
           | (s', Inr _) \<Rightarrow> (s', Inr (Identity_disable identity))))"

text \<open>
  What the service needs of \<open>IdentityRepository\<close>: on a good state, a successful insert or
  save of a well-formed identity is what a later find returns for its ID, other IDs are untouched,
  and what find returns carries the ID it was asked for.
\<close>

locale identity_repository =
  fixes good :: "'s \<Rightarrow> bool"
    and insert_op :: "'s \<Rightarrow> Identity \<Rightarrow> 's \<times> (IdentityError + unit)"
    and find_op :: "'s \<Rightarrow> ActorId \<Rightarrow> IdentityError + Identity option"
    and save_op :: "'s \<Rightarrow> Identity \<Rightarrow> 's \<times> (IdentityError + unit)"
  assumes find_id: "good s \<Longrightarrow> find_op s i = Inr (Some x) \<Longrightarrow> id_id x = i \<and> identity_wf x"
    and find_stored: "good s \<Longrightarrow> (\<exists>r. find_op s i = Inr r)"
    and insert_good: "good s \<Longrightarrow> identity_wf x \<Longrightarrow> insert_op s x = (s', r) \<Longrightarrow> good s'"
    and save_good: "good s \<Longrightarrow> identity_wf x \<Longrightarrow> save_op s x = (s', r) \<Longrightarrow> good s'"
    and insert_find: "good s \<Longrightarrow> identity_wf x \<Longrightarrow> insert_op s x = (s', Inr u) \<Longrightarrow>
      find_op s' i = (if i = id_id x then Inr (Some x) else find_op s i)"
    and save_find: "good s \<Longrightarrow> identity_wf x \<Longrightarrow> save_op s x = (s', Inr u) \<Longrightarrow>
      find_op s' i = (if i = id_id x then Inr (Some x) else find_op s i)"
begin

lemma disabled_not_resolved:
  assumes "good s" and dis: "IdentityService_disable find_op save_op s i = (s', Inr x)"
  shows "resolve_active find_op s' i = Inl (IE_Disabled i)"
proof -
  from dis obtain y u where y: "find_op s i = Inr (Some y)"
    and save: "save_op s (Identity_disable y) = (s', Inr u)"
    by (auto simp: IdentityService_disable_def find_required_def split: sum.splits prod.splits)
  from find_id [OF assms(1) y] have i: "id_id y = i" and "identity_wf y"
    by auto
  then have wf: "identity_wf (Identity_disable y)"
    by (simp add: identity_wf_def Identity_disable_def)
  from save_find [OF assms(1) wf save, of i] show ?thesis
    by (simp add: i resolve_active_def find_required_def Identity_is_active_def Identity_disable_def)
qed

lemma rename_keeps_id:
  assumes "good s" and ren: "IdentityService_rename find_op save_op s i name = (s', Inr x)"
  shows "id_id x = i \<and> id_display_name x = str_trim name"
proof -
  from ren obtain y where y: "find_op s i = Inr (Some y)" and x: "Identity_rename y name = Inr x"
    by (auto simp: IdentityService_rename_def find_required_def split: sum.splits prod.splits)
  from find_id [OF assms(1) y] have "id_id y = i" by simp
  with x show ?thesis
    by (auto simp: Identity_rename_def dest: validate_display_name_bounds)
qed

lemma created_resolves:
  assumes "good s" and cre: "IdentityService_create insert_op i s kind name = (s', Inr x)"
  shows "\<exists>y. resolve_active find_op s' i = Inr y \<and> id_id y = i \<and> id_kind y = kind"
proof -
  from cre obtain u where x: "Identity_create i kind name = Inr x"
    and ins: "insert_op s x = (s', Inr u)"
    by (auto simp: IdentityService_create_def split: sum.splits prod.splits)
  from x have wf: "identity_wf x" by (rule Identity_create_wf)
  from x have xs: "id_id x = i" "id_kind x = kind" "id_status x = IdActive"
    by (auto simp: Identity_create_def)
  from insert_find [OF assms(1) wf ins, of i] xs show ?thesis
    by (simp add: resolve_active_def find_required_def Identity_is_active_def)
qed

end

end
