(* ===== verification/Subscriptions.thy ===== *)
theory Subscriptions
  imports Identity
begin

text \<open>
  \<open>src/kernel/subscriptions.rs\<close> (ILK-010): event types, subscriptions and
  \<open>SubscriptionService\<close>. The repository trait is the locale \<open>subscription_repository\<close>.
\<close>

datatype DeliveryMode = Inclusive

datatype SubscriptionId = SubscriptionId Uuid

primrec SubscriptionId_as_uuid :: "SubscriptionId \<Rightarrow> Uuid" where
  "SubscriptionId_as_uuid (SubscriptionId u) = u"

datatype EventType = EventType string

primrec EventType_as_str :: "EventType \<Rightarrow> string" where
  "EventType_as_str (EventType s) = s"

datatype SubscriptionError =
    SE_AlreadyExists SubscriptionId
  | SE_AlreadyDisabled SubscriptionId
  | SE_DuplicateActive ActorId EventType
  | SE_InvalidEventType
  | SE_InvalidSubscriptionId
  | SE_InvalidTimestamp
  | SE_NotFound SubscriptionId
  | SE_Repository string
  | SE_UnknownService ActorId

definition SubscriptionId_from_str :: "Crates \<Rightarrow> string \<Rightarrow> SubscriptionError + SubscriptionId" where
  "SubscriptionId_from_str X value =
     (case uuid_parse X value of
        None \<Rightarrow> Inl SE_InvalidSubscriptionId | Some u \<Rightarrow> Inr (SubscriptionId u))"

definition MAX_EVENT_TYPE_LENGTH :: nat where
  "MAX_EVENT_TYPE_LENGTH = 200"

fun valid_event_segment :: "string \<Rightarrow> bool" where
  "valid_event_segment [] = False"
| "valid_event_segment (c # cs) \<longleftrightarrow>
     is_ascii_lowercase c \<and>
     list_all (\<lambda>c. is_ascii_lowercase c \<or> is_ascii_digit c \<or> c = CHR ''-'' \<or> c = CHR ''_'') cs"

definition EventType_new :: "string \<Rightarrow> SubscriptionError + EventType" where
  "EventType_new value =
     (let value = str_trim value in
      if value = [] \<or> chars_count value > MAX_EVENT_TYPE_LENGTH
         \<or> \<not> list_all valid_event_segment (split_on (CHR ''.'') value)
      then Inl SE_InvalidEventType else Inr (EventType value))"

definition event_type_wf :: "EventType \<Rightarrow> bool" where
  "event_type_wf t \<longleftrightarrow> EventType_new (EventType_as_str t) = Inr t"

lemma EventType_new_wf: "EventType_new s = Inr t \<Longrightarrow> event_type_wf t"
  by (auto simp: EventType_new_def event_type_wf_def Let_def split: if_splits)

record Subscription =
  sub_id :: SubscriptionId
  sub_service_id :: ActorId
  sub_event_type :: EventType
  sub_delivery_mode :: DeliveryMode
  sub_created_at :: i64
  sub_disabled_at :: "i64 option"

definition Subscription_restore ::
  "SubscriptionId \<Rightarrow> ActorId \<Rightarrow> EventType \<Rightarrow> DeliveryMode \<Rightarrow> i64 \<Rightarrow> i64 option
   \<Rightarrow> SubscriptionError + Subscription" where
  "Subscription_restore i service_id event_type delivery_mode created_at disabled_at =
     (if created_at < 0 \<or> (case disabled_at of None \<Rightarrow> False | Some value \<Rightarrow> value < created_at)
      then Inl SE_InvalidTimestamp
      else Inr \<lparr>sub_id = i, sub_service_id = service_id, sub_event_type = event_type,
                sub_delivery_mode = delivery_mode, sub_created_at = created_at,
                sub_disabled_at = disabled_at\<rparr>)"

definition Subscription_create ::
  "SubscriptionId \<Rightarrow> ActorId \<Rightarrow> EventType \<Rightarrow> DeliveryMode \<Rightarrow> i64
   \<Rightarrow> SubscriptionError + Subscription" where
  "Subscription_create new_id service_id event_type delivery_mode now =
     Subscription_restore new_id service_id event_type delivery_mode now None"

definition Subscription_is_active :: "Subscription \<Rightarrow> bool" where
  "Subscription_is_active s \<longleftrightarrow> sub_disabled_at s = None"

definition subscription_wf :: "Subscription \<Rightarrow> bool" where
  "subscription_wf s \<longleftrightarrow>
     event_type_wf (sub_event_type s) \<and> 0 \<le> sub_created_at s \<and>
     (case sub_disabled_at s of None \<Rightarrow> True | Some t \<Rightarrow> sub_created_at s \<le> t)"

lemma Subscription_restore_wf [simp]:
  "subscription_wf s \<Longrightarrow>
   Subscription_restore (sub_id s) (sub_service_id s) (sub_event_type s) (sub_delivery_mode s)
     (sub_created_at s) (sub_disabled_at s) = Inr s"
  by (auto simp: Subscription_restore_def subscription_wf_def split: option.splits)

lemma Subscription_create_Inr:
  "Subscription_create i a t m now = Inr x \<longleftrightarrow>
     0 \<le> now \<and> x = \<lparr>sub_id = i, sub_service_id = a, sub_event_type = t, sub_delivery_mode = m,
                     sub_created_at = now, sub_disabled_at = None\<rparr>"
  by (auto simp: Subscription_create_def Subscription_restore_def)


section \<open>The service\<close>

definition SubscriptionService_create ::
  "('s \<Rightarrow> Subscription \<Rightarrow> 's \<times> (SubscriptionError + unit)) \<Rightarrow> SubscriptionId \<Rightarrow>
   's \<Rightarrow> ActorId \<Rightarrow> EventType \<Rightarrow> DeliveryMode \<Rightarrow> i64 \<Rightarrow> 's \<times> (SubscriptionError + Subscription)" where
  "SubscriptionService_create repo_insert new_id s service_id event_type delivery_mode now =
     (case Subscription_create new_id service_id event_type delivery_mode now of
        Inl e \<Rightarrow> (s, Inl e)
      | Inr subscription \<Rightarrow>
          (case repo_insert s subscription of
             (s', Inl e) \<Rightarrow> (s', Inl e)
           | (s', Inr _) \<Rightarrow> (s', Inr subscription)))"

definition SubscriptionService_disable ::
  "('s \<Rightarrow> ActorId \<Rightarrow> SubscriptionId \<Rightarrow> i64 \<Rightarrow> 's \<times> (SubscriptionError + Subscription)) \<Rightarrow>
   's \<Rightarrow> ActorId \<Rightarrow> SubscriptionId \<Rightarrow> i64 \<Rightarrow> 's \<times> (SubscriptionError + Subscription)" where
  "SubscriptionService_disable repo_disable s service_id subscription_id now =
     (if now < 0 then (s, Inl SE_InvalidTimestamp)
      else repo_disable s service_id subscription_id now)"

text \<open>
  The laws of \<open>SubscriptionRepository\<close> the services rely on: at most one active subscription
  per owner and event type, an insert appears among the active subscriptions of its event type, and
  a disabled one disappears from them, everything else staying.
\<close>

locale subscription_repository =
  fixes good_sub :: "'s \<Rightarrow> bool"
    and insert_op :: "'s \<Rightarrow> Subscription \<Rightarrow> 's \<times> (SubscriptionError + unit)"
    and active_op :: "'s \<Rightarrow> EventType \<Rightarrow> SubscriptionError + Subscription list"
    and disable_op :: "'s \<Rightarrow> ActorId \<Rightarrow> SubscriptionId \<Rightarrow> i64 \<Rightarrow> 's \<times> (SubscriptionError + Subscription)"
  assumes active_ok: "good_sub s \<Longrightarrow> \<exists>xs. active_op s t = Inr xs \<and> distinct (map sub_service_id xs) \<and>
      (\<forall>x \<in> set xs. sub_event_type x = t \<and> Subscription_is_active x)"
    and sub_insert: "good_sub s \<Longrightarrow> subscription_wf x \<Longrightarrow> Subscription_is_active x \<Longrightarrow>
      insert_op s x = (s', Inr u) \<Longrightarrow> active_op s t = Inr xs \<Longrightarrow>
      good_sub s' \<and> (\<exists>ys. active_op s' t = Inr ys \<and>
        set ys = (if t = sub_event_type x then {x} else {}) \<union> set xs)"
    and sub_disable: "good_sub s \<Longrightarrow> disable_op s a i now = (s', Inr y) \<Longrightarrow> active_op s t = Inr xs \<Longrightarrow>
      good_sub s' \<and> sub_id y = i \<and> sub_service_id y = a \<and>
      (\<exists>ys. active_op s' t = Inr ys \<and> set ys = {x \<in> set xs. sub_id x \<noteq> i})"
begin

lemma created_is_active:
  assumes "good_sub s" and "event_type_wf t"
    and "SubscriptionService_create insert_op i s a t m now = (s', Inr x)"
  shows "\<exists>ys. active_op s' t = Inr ys \<and> x \<in> set ys"
proof -
  from assms(3) obtain u where c: "Subscription_create i a t m now = Inr x"
    and ins: "insert_op s x = (s', Inr u)"
    by (auto simp: SubscriptionService_create_def split: sum.splits prod.splits)
  have wf: "subscription_wf x" and act: "Subscription_is_active x" and t: "sub_event_type x = t"
    using c assms(2) by (auto simp: Subscription_create_Inr subscription_wf_def Subscription_is_active_def)
  obtain xs where "active_op s t = Inr xs" using active_ok [OF assms(1)] by blast
  from sub_insert [OF assms(1) wf act ins this] t show ?thesis by auto
qed

lemma disabled_not_active:
  assumes "good_sub s" and "SubscriptionService_disable disable_op s a i now = (s', Inr y)"
  shows "\<exists>ys. active_op s' t = Inr ys \<and> (\<forall>x \<in> set ys. sub_id x \<noteq> i)"
proof -
  from assms(2) have dis: "disable_op s a i now = (s', Inr y)"
    by (auto simp: SubscriptionService_disable_def split: if_splits)
  obtain xs where "active_op s t = Inr xs" using active_ok [OF assms(1)] by blast
  from sub_disable [OF assms(1) dis this] show ?thesis by auto
qed

end

end
