(* ===== verification/Action_Names.thy ===== *)
theory Action_Names
  imports Subscriptions
begin

text \<open>
  The part of \<open>src/kernel/requests.rs\<close> that authority decisions need as well: request IDs,
  the request errors, and action names in canonical dotted form. In the source the modules
  \<open>requests\<close> and \<open>authority\<close> import each other; here this theory precedes both.
\<close>

datatype RequestId = RequestId Uuid

primrec RequestId_as_uuid :: "RequestId \<Rightarrow> Uuid" where
  "RequestId_as_uuid (RequestId u) = u"

lemma RequestId_as_uuid_inj [simp]: "RequestId_as_uuid a = RequestId_as_uuid b \<longleftrightarrow> a = b"
  by (cases a; cases b) auto

datatype RequestError =
    RE_InvalidRequestId
  | RE_InvalidActionName
  | RE_InvalidAcceptedAt
  | RE_InvalidRouteId
  | RE_RequestIdConflict RequestId
  | RE_Repository string
  | RE_UnknownSource ActorId
  | RE_UnknownSchemaVersion
  | RE_UnknownSubscription

definition RequestId_from_str :: "Crates \<Rightarrow> string \<Rightarrow> RequestError + RequestId" where
  "RequestId_from_str X value =
     (case uuid_parse X value of None \<Rightarrow> Inl RE_InvalidRequestId | Some u \<Rightarrow> Inr (RequestId u))"

datatype ActionName = ActionName string

primrec ActionName_as_str :: "ActionName \<Rightarrow> string" where
  "ActionName_as_str (ActionName s) = s"

lemma ActionName_as_str_inj [simp]: "ActionName_as_str a = ActionName_as_str b \<longleftrightarrow> a = b"
  by (cases a; cases b) auto

definition MAX_ACTION_NAME_LENGTH :: nat where
  "MAX_ACTION_NAME_LENGTH = 200"

fun is_valid_action_segment :: "string \<Rightarrow> bool" where
  "is_valid_action_segment [] = False"
| "is_valid_action_segment (c # cs) \<longleftrightarrow>
     in_byte_range 97 122 c \<and>
     list_all (\<lambda>c. is_ascii_lowercase c \<or> is_ascii_digit c \<or> c \<in> set ''_-'') cs"

definition is_valid_action_name :: "string \<Rightarrow> bool" where
  "is_valid_action_name value \<longleftrightarrow>
     (if value = [] \<or> length value > MAX_ACTION_NAME_LENGTH then False
      else case split_on (CHR ''.'') value of
          namespace # first_action_segment # segments \<Rightarrow>
            is_valid_action_segment namespace \<and> is_valid_action_segment first_action_segment \<and>
            list_all is_valid_action_segment segments
        | _ \<Rightarrow> False)"

definition ActionName_new :: "string \<Rightarrow> RequestError + ActionName" where
  "ActionName_new value =
     (if \<not> is_valid_action_name value then Inl RE_InvalidActionName else Inr (ActionName value))"

definition action_name_wf :: "ActionName \<Rightarrow> bool" where
  "action_name_wf a \<longleftrightarrow> is_valid_action_name (ActionName_as_str a)"

lemma ActionName_new_Inr [simp]: "ActionName_new s = Inr a \<longleftrightarrow> a = ActionName s \<and> is_valid_action_name s"
  by (auto simp: ActionName_new_def)

lemma action_segments:
  "is_valid_action_name s \<Longrightarrow> list_all is_valid_action_segment (split_on (CHR ''.'') s)"
  by (auto simp: is_valid_action_name_def split: if_splits list.splits)

lemma action_segment_event_segment: "is_valid_action_segment s = valid_event_segment s"
  by (cases s) (auto simp: is_ascii_lowercase_def list_all_iff)

text \<open>The bytes of a name whose dotted segments are valid are visible ASCII characters.\<close>

lemma valid_segment_visible: "valid_event_segment s \<Longrightarrow> list_all visible s"
  by (cases s) (auto simp: visible_def ascii_defs list_all_iff)

lemma action_name_visible:
  assumes "is_valid_action_name s"
  shows "list_all visible s"
proof (unfold list_all_iff, intro ballI)
  fix c
  assume "c \<in> set s"
  then consider "c = CHR ''.''" | p where "p \<in> set (split_on (CHR ''.'') s)" "c \<in> set p"
    using split_on_bytes by blast
  then show "visible c"
  proof cases
    case 1
    then show ?thesis by (simp add: visible_def in_byte_range_def byte_val_def)
  next
    case 2
    with action_segments [OF assms] show ?thesis
      by (auto simp: list_all_iff action_segment_event_segment dest!: valid_segment_visible)
  qed
qed

lemma action_name_event_type:
  assumes "is_valid_action_name s"
  shows "EventType_new s = Inr (EventType s)"
proof -
  have ne: "s \<noteq> []" and len: "length s \<le> MAX_ACTION_NAME_LENGTH"
    using assms by (auto simp: is_valid_action_name_def split: if_splits)
  have trim: "str_trim s = s"
    using action_name_visible [OF assms] ne by (simp add: str_trim_visible)
  have "chars_count s \<le> MAX_EVENT_TYPE_LENGTH"
    using len chars_count_le [of s]
    by (simp add: MAX_ACTION_NAME_LENGTH_def MAX_EVENT_TYPE_LENGTH_def)
  with action_segments [OF assms] ne show ?thesis
    by (auto simp: EventType_new_def Let_def trim action_segment_event_segment list_all_iff)
qed

end
