(* ===== verification/Authority.thy ===== *)
theory Authority
  imports Action_Names
begin

text \<open>
  \<open>src/kernel/authority.rs\<close> (ILK-002): scopes, grants, schema versions, policy facts and
  pinned decisions, with \<open>AuthorityService::authorize\<close> and \<open>SchemaService::publish\<close>.
  The policy evaluator, a separate service, is a function argument.
\<close>

section \<open>Facts and grants\<close>

datatype GrantId = GrantId Uuid
datatype SchemaVersionId = SchemaVersionId Uuid
datatype DecisionId = DecisionId Uuid
datatype SchemaName = SchemaName string
datatype Scope = Scope string
datatype PolicyBundleVersion = PolicyBundleVersion string
datatype ContentDigest = ContentDigest bytes

datatype AuthorityError =
    AE_InvalidScope
  | AE_InvalidPolicyBundleVersion
  | AE_InvalidValidityWindow
  | AE_InvalidGrantId
  | AE_InvalidSchemaName
  | AE_InvalidSchemaVersionId
  | AE_InvalidSchemaVersion
  | AE_InvalidDecisionId
  | AE_SchemaNamespaceConflict SchemaName
  | AE_Repository string
  | AE_Evaluator string

primrec SchemaVersionId_as_uuid :: "SchemaVersionId \<Rightarrow> Uuid" where
  "SchemaVersionId_as_uuid (SchemaVersionId u) = u"

primrec Scope_as_str :: "Scope \<Rightarrow> string" where
  "Scope_as_str (Scope s) = s"

primrec PolicyBundleVersion_as_str :: "PolicyBundleVersion \<Rightarrow> string" where
  "PolicyBundleVersion_as_str (PolicyBundleVersion s) = s"

primrec SchemaName_as_str :: "SchemaName \<Rightarrow> string" where
  "SchemaName_as_str (SchemaName s) = s"

primrec ContentDigest_as_bytes :: "ContentDigest \<Rightarrow> bytes" where
  "ContentDigest_as_bytes (ContentDigest b) = b"

lemma authority_accessors_inj [simp]:
  "SchemaVersionId_as_uuid v = SchemaVersionId_as_uuid v' \<longleftrightarrow> v = v'"
  "Scope_as_str s = Scope_as_str s' \<longleftrightarrow> s = s'"
  "SchemaName_as_str n = SchemaName_as_str n' \<longleftrightarrow> n = n'"
  by (cases v; cases v'; cases s; cases s'; cases n; cases n'; simp)+

definition MAX_SCOPE_LENGTH :: nat where
  "MAX_SCOPE_LENGTH = 200"

definition MAX_POLICY_BUNDLE_VERSION_LENGTH :: nat where
  "MAX_POLICY_BUNDLE_VERSION_LENGTH = 200"

definition Scope_new :: "string \<Rightarrow> AuthorityError + Scope" where
  "Scope_new value =
     (if value = [] \<or> length value > MAX_SCOPE_LENGTH \<or> str_trim value \<noteq> value
      then Inl AE_InvalidScope else Inr (Scope value))"

definition Scope_wildcard :: Scope where
  "Scope_wildcard = Scope ''*''"

definition Scope_matches :: "Scope \<Rightarrow> Scope \<Rightarrow> bool" where
  "Scope_matches s requested \<longleftrightarrow> Scope_as_str s = ''*'' \<or> Scope_as_str s = Scope_as_str requested"

definition PolicyBundleVersion_new :: "string \<Rightarrow> AuthorityError + PolicyBundleVersion" where
  "PolicyBundleVersion_new value =
     (if value = [] \<or> length value > MAX_POLICY_BUNDLE_VERSION_LENGTH
      then Inl AE_InvalidPolicyBundleVersion else Inr (PolicyBundleVersion value))"

record SchemaVersionRefs =
  svr_artifact :: SchemaVersionId
  svr_permission_policy :: SchemaVersionId

definition NO_ARTIFACT_SCHEMA_VERSION :: SchemaVersionId where
  "NO_ARTIFACT_SCHEMA_VERSION = SchemaVersionId 1"

definition NO_ARTIFACT_PERMISSION_POLICY_SCHEMA_VERSION :: SchemaVersionId where
  "NO_ARTIFACT_PERMISSION_POLICY_SCHEMA_VERSION = SchemaVersionId 2"

definition no_artifact_schema_versions :: SchemaVersionRefs where
  "no_artifact_schema_versions =
     \<lparr>svr_artifact = NO_ARTIFACT_SCHEMA_VERSION,
      svr_permission_policy = NO_ARTIFACT_PERMISSION_POLICY_SCHEMA_VERSION\<rparr>"

record PolicyFacts =
  pf_source :: ActorId
  pf_action :: ActionName
  pf_scope :: Scope
  pf_schema_versions :: SchemaVersionRefs
  pf_destination :: "ActorId option"

definition for_request_acceptance ::
  "ActorId \<Rightarrow> ActionName \<Rightarrow> Scope \<Rightarrow> SchemaVersionRefs \<Rightarrow> PolicyFacts" where
  "for_request_acceptance source action scope schema_versions =
     \<lparr>pf_source = source, pf_action = action, pf_scope = scope,
      pf_schema_versions = schema_versions, pf_destination = None\<rparr>"

definition for_route ::
  "ActorId \<Rightarrow> ActionName \<Rightarrow> Scope \<Rightarrow> SchemaVersionRefs \<Rightarrow> ActorId \<Rightarrow> PolicyFacts" where
  "for_route source action scope schema_versions destination =
     \<lparr>pf_source = source, pf_action = action, pf_scope = scope,
      pf_schema_versions = schema_versions, pf_destination = Some destination\<rparr>"

record Grant =
  gr_id :: GrantId
  gr_source :: ActorId
  gr_action :: ActionName
  gr_scope :: Scope
  gr_schema_versions :: SchemaVersionRefs
  gr_destination :: "ActorId option"
  gr_valid_from :: i64
  gr_valid_until :: "i64 option"

definition Grant_restore ::
  "GrantId \<Rightarrow> ActorId \<Rightarrow> ActionName \<Rightarrow> Scope \<Rightarrow> SchemaVersionRefs \<Rightarrow> ActorId option \<Rightarrow> i64
   \<Rightarrow> i64 option \<Rightarrow> AuthorityError + Grant" where
  "Grant_restore i source action scope schema_versions destination valid_from valid_until =
     (if valid_from < 0 \<or> (case valid_until of None \<Rightarrow> False | Some until \<Rightarrow> until \<le> valid_from)
      then Inl AE_InvalidValidityWindow
      else Inr \<lparr>gr_id = i, gr_source = source, gr_action = action, gr_scope = scope,
                gr_schema_versions = schema_versions, gr_destination = destination,
                gr_valid_from = valid_from, gr_valid_until = valid_until\<rparr>)"

definition permits :: "Grant \<Rightarrow> PolicyFacts \<Rightarrow> i64 \<Rightarrow> bool" where
  "permits g facts now \<longleftrightarrow>
     gr_source g = pf_source facts \<and> gr_action g = pf_action facts \<and>
     Scope_matches (gr_scope g) (pf_scope facts) \<and>
     gr_schema_versions g = pf_schema_versions facts \<and>
     gr_destination g = pf_destination facts \<and>
     gr_valid_from g \<le> now \<and>
     (case gr_valid_until g of None \<Rightarrow> True | Some until \<Rightarrow> now < until)"


section \<open>Schema versions\<close>

datatype SchemaKind = Artifact | PermissionPolicy

definition MAX_SCHEMA_NAME_LENGTH :: nat where
  "MAX_SCHEMA_NAME_LENGTH = 200"

fun is_valid_schema_segment :: "string \<Rightarrow> bool" where
  "is_valid_schema_segment [] = False"
| "is_valid_schema_segment (c # cs) \<longleftrightarrow>
     in_byte_range 97 122 c \<and>
     list_all (\<lambda>c. is_ascii_lowercase c \<or> is_ascii_digit c \<or> c \<in> set ''_-'') cs"

definition is_valid_schema_name :: "string \<Rightarrow> bool" where
  "is_valid_schema_name value \<longleftrightarrow>
     (if value = [] \<or> length value > MAX_SCHEMA_NAME_LENGTH then False
      else case split_on (CHR ''.'') value of
          namespace # first_segment # segments \<Rightarrow>
            is_valid_schema_segment namespace \<and> is_valid_schema_segment first_segment \<and>
            list_all is_valid_schema_segment segments
        | _ \<Rightarrow> False)"

definition SchemaName_new :: "string \<Rightarrow> AuthorityError + SchemaName" where
  "SchemaName_new value =
     (if \<not> is_valid_schema_name value then Inl AE_InvalidSchemaName else Inr (SchemaName value))"

record SchemaVersion =
  sv_id :: SchemaVersionId
  sv_kind :: SchemaKind
  sv_name :: SchemaName
  sv_version :: i64
  sv_owner :: ActorId
  sv_content_digest :: ContentDigest
  sv_predecessor :: "SchemaVersionId option"
  sv_published_at :: i64

definition SchemaVersion_restore ::
  "SchemaVersionId \<Rightarrow> SchemaKind \<Rightarrow> SchemaName \<Rightarrow> i64 \<Rightarrow> ActorId \<Rightarrow> ContentDigest
   \<Rightarrow> SchemaVersionId option \<Rightarrow> i64 \<Rightarrow> AuthorityError + SchemaVersion" where
  "SchemaVersion_restore i kind name version owner content_digest predecessor published_at =
     (if version < 1 \<or> published_at < 0 then Inl AE_InvalidSchemaVersion
      else Inr \<lparr>sv_id = i, sv_kind = kind, sv_name = name, sv_version = version, sv_owner = owner,
                sv_content_digest = content_digest, sv_predecessor = predecessor,
                sv_published_at = published_at\<rparr>)"

datatype SchemaStatus = Published | SchemaActive | Suspended | Superseded | Retired

record SchemaRecord =
  sr_version :: SchemaVersion
  sr_status :: SchemaStatus

definition SchemaRecord_is_active :: "SchemaRecord \<Rightarrow> bool" where
  "SchemaRecord_is_active r \<longleftrightarrow> sr_status r = SchemaActive"

definition SchemaService_publish ::
  "('s \<Rightarrow> SchemaKind \<Rightarrow> SchemaName \<Rightarrow> ActorId \<Rightarrow> ContentDigest \<Rightarrow> i64 \<Rightarrow> 's \<times> (AuthorityError + SchemaRecord)) \<Rightarrow>
   's \<Rightarrow> SchemaKind \<Rightarrow> SchemaName \<Rightarrow> ActorId \<Rightarrow> ContentDigest \<Rightarrow> i64 \<Rightarrow>
   's \<times> (AuthorityError + SchemaRecord)" where
  "SchemaService_publish repo_publish s kind name owner content_digest published_at =
     (if published_at < 0 then (s, Inl AE_InvalidSchemaVersion)
      else repo_publish s kind name owner content_digest published_at)"


section \<open>Decisions\<close>

datatype Verdict = Allow | Deny

record AuthorityDecision =
  ad_id :: DecisionId
  ad_facts :: PolicyFacts
  ad_verdict :: Verdict
  ad_evaluator :: ActorId
  ad_policy_bundle_version :: "PolicyBundleVersion option"
  ad_decided_at :: i64

definition is_allowed :: "AuthorityDecision \<Rightarrow> bool" where
  "is_allowed d \<longleftrightarrow> ad_verdict d = Allow"

record PolicyEvaluation =
  pe_verdict :: Verdict
  pe_policy_bundle_version :: PolicyBundleVersion

definition authorize ::
  "('s \<Rightarrow> PolicyFacts \<Rightarrow> i64 \<Rightarrow> AuthorityError + Grant list) \<Rightarrow>
   (PolicyFacts \<Rightarrow> Grant list \<Rightarrow> AuthorityError + PolicyEvaluation) \<Rightarrow> ActorId \<Rightarrow>
   ('s \<Rightarrow> AuthorityDecision \<Rightarrow> 's \<times> (AuthorityError + unit)) \<Rightarrow> DecisionId \<Rightarrow>
   's \<Rightarrow> PolicyFacts \<Rightarrow> i64 \<Rightarrow> 's \<times> (AuthorityError + AuthorityDecision)" where
  "authorize repo_matching_grants evaluate evaluator_id record_decision new_id s facts now =
     (case repo_matching_grants s facts now of
        Inl e \<Rightarrow> (s, Inl e)
      | Inr grants \<Rightarrow>
          (let (verdict, version) =
             (case evaluate facts grants of
                Inr evaluation \<Rightarrow> (pe_verdict evaluation, Some (pe_policy_bundle_version evaluation))
              | Inl _ \<Rightarrow> (Deny, None));
             decision = \<lparr>ad_id = new_id, ad_facts = facts, ad_verdict = verdict,
                         ad_evaluator = evaluator_id, ad_policy_bundle_version = version,
                         ad_decided_at = now\<rparr>
           in case record_decision s decision of
                (s', Inl e) \<Rightarrow> (s', Inl e)
              | (s', Inr _) \<Rightarrow> (s', Inr decision)))"

text \<open>
  The grant source and the decision recorder as \<open>AuthorityService\<close> sees them: the matching
  grants are among the live grants and permit the facts; a successful record appends exactly the
  decision, a failed one nothing, and the live grants stay.
\<close>

locale authority_repository =
  fixes good_auth :: "'s \<Rightarrow> bool"
    and live_grants :: "'s \<Rightarrow> Grant list"
    and decisions :: "'s \<Rightarrow> AuthorityDecision list"
    and grants_op :: "'s \<Rightarrow> PolicyFacts \<Rightarrow> i64 \<Rightarrow> AuthorityError + Grant list"
    and record_op :: "'s \<Rightarrow> AuthorityDecision \<Rightarrow> 's \<times> (AuthorityError + unit)"
  assumes grants_match: "good_auth s \<Longrightarrow> grants_op s facts now = Inr gs \<Longrightarrow>
      gs = filter (\<lambda>g. permits g facts now) (live_grants s)"
    and record_appends: "good_auth s \<Longrightarrow> record_op s d = (s', Inr u) \<Longrightarrow> decisions s' = decisions s @ [d]"
    and record_fails: "good_auth s \<Longrightarrow> record_op s d = (s', Inl e) \<Longrightarrow> decisions s' = decisions s"
begin

text \<open>Every decision returned was recorded, and an allow came from the evaluator on the exact list
  of grants that permit the facts.\<close>

lemma authorize_recorded:
  assumes "good_auth s" and "authorize grants_op evaluate ev record_op i s facts now = (s', Inr d)"
  shows "decisions s' = decisions s @ [d] \<and> ad_facts d = facts \<and> ad_decided_at d = now"
proof -
  from assms(2) obtain gs verdict version u where
    "d = \<lparr>ad_id = i, ad_facts = facts, ad_verdict = verdict, ad_evaluator = ev,
          ad_policy_bundle_version = version, ad_decided_at = now\<rparr>"
    and rec: "record_op s d = (s', Inr u)"
    by (auto simp: authorize_def Let_def split: sum.splits prod.splits)
  with record_appends [OF assms(1) rec] show ?thesis by simp
qed

lemma authorize_allow:
  assumes "good_auth s" and "authorize grants_op evaluate ev record_op i s facts now = (s', Inr d)"
    and "is_allowed d"
  shows "\<exists>evaluation. evaluate facts (filter (\<lambda>g. permits g facts now) (live_grants s)) = Inr evaluation
           \<and> pe_verdict evaluation = Allow
           \<and> ad_policy_bundle_version d = Some (pe_policy_bundle_version evaluation)"
proof -
  from assms(2) obtain gs where gs: "grants_op s facts now = Inr gs"
    by (auto simp: authorize_def split: sum.splits)
  with assms(2,3) have "\<exists>evaluation. evaluate facts gs = Inr evaluation \<and> pe_verdict evaluation = Allow
      \<and> ad_policy_bundle_version d = Some (pe_policy_bundle_version evaluation)"
    by (auto simp: authorize_def Let_def is_allowed_def split: sum.splits prod.splits)
  with grants_match [OF assms(1) gs] show ?thesis by simp
qed

text \<open>Fail closed: an evaluator without an answer gives a recorded denial without a bundle version;
  a decision that could not be recorded is not returned.\<close>

lemma authorize_no_answer_denies:
  assumes "authorize grants_op evaluate ev record_op i s facts now = (s', Inr d)"
    and "\<And>gs. \<exists>e. evaluate facts gs = Inl e"
  shows "ad_verdict d = Deny \<and> ad_policy_bundle_version d = None"
  using assms(1) assms(2)
  by (auto simp: authorize_def Let_def split: sum.splits prod.splits dest!: spec)
    (metis Inl_Inr_False)+

end

end
