(* ===== verification/Requests.thy ===== *)
theory Requests
  imports Authority
begin

text \<open>
  \<open>src/kernel/requests.rs\<close> (ILK-003): immutable accepted requests with their semantic
  fingerprint, and the routes materialized for them. The traits \<open>RequestRepository\<close> and
  \<open>RouteRepository\<close> are locales.
\<close>

section \<open>Requests and their fingerprint\<close>

record Request =
  rq_id :: RequestId
  rq_source_service :: ActorId
  rq_action :: ActionName
  rq_scope :: Scope
  rq_schema_versions :: SchemaVersionRefs

datatype RequestFingerprint = RequestFingerprint bytes

primrec RequestFingerprint_as_bytes :: "RequestFingerprint \<Rightarrow> bytes" where
  "RequestFingerprint_as_bytes (RequestFingerprint b) = b"

definition Request_restore ::
  "RequestId \<Rightarrow> ActorId \<Rightarrow> string \<Rightarrow> Scope \<Rightarrow> SchemaVersionRefs \<Rightarrow> RequestError + Request" where
  "Request_restore i source_service action scope schema_versions =
     bind_result (ActionName_new action) (\<lambda>action.
       Inr \<lparr>rq_id = i, rq_source_service = source_service, rq_action = action, rq_scope = scope,
            rq_schema_versions = schema_versions\<rparr>)"

text \<open>\<open>Request::create\<close> restores with a fresh ID.\<close>

definition Request_create ::
  "RequestId \<Rightarrow> ActorId \<Rightarrow> string \<Rightarrow> Scope \<Rightarrow> SchemaVersionRefs \<Rightarrow> RequestError + Request" where
  "Request_create new_id source_service action scope schema_versions =
     Request_restore new_id source_service action scope schema_versions"

text \<open>What \<open>hash_field\<close> feeds the hasher: the length as a big-endian \<open>u64\<close>, then the
  field. The hasher digests the concatenation of everything it was fed.\<close>

definition hash_field :: "bytes \<Rightarrow> bytes" where
  "hash_field b = len_prefixed 8 b"

definition fingerprint_input :: "Crates \<Rightarrow> Request \<Rightarrow> bytes" where
  "fingerprint_input X r =
     uuid_as_bytes X (ActorId_as_uuid (rq_source_service r)) @
     hash_field (ActionName_as_str (rq_action r)) @
     hash_field (Scope_as_str (rq_scope r)) @
     uuid_as_bytes X (SchemaVersionId_as_uuid (svr_artifact (rq_schema_versions r))) @
     uuid_as_bytes X (SchemaVersionId_as_uuid (svr_permission_policy (rq_schema_versions r)))"

definition Request_fingerprint :: "Crates \<Rightarrow> Request \<Rightarrow> RequestFingerprint" where
  "Request_fingerprint X r = RequestFingerprint (sha256 X (fingerprint_input X r))"

definition request_wf :: "Request \<Rightarrow> bool" where
  "request_wf r \<longleftrightarrow> action_name_wf (rq_action r) \<and> Scope_new (Scope_as_str (rq_scope r)) = Inr (rq_scope r)"

lemma request_wf_lengths:
  assumes "request_wf r"
  shows "length (ActionName_as_str (rq_action r)) < 256 ^ 8" and "length (Scope_as_str (rq_scope r)) < 256 ^ 8"
  using assms
  by (auto simp: request_wf_def action_name_wf_def is_valid_action_name_def Scope_new_def
      MAX_ACTION_NAME_LENGTH_def MAX_SCOPE_LENGTH_def split: if_splits)

text \<open>No two requests of different content feed the hasher the same bytes.\<close>

lemma fingerprint_input_inj:
  assumes "uuid_bytes_ok X" and "request_wf r" and "request_wf r'"
    and eq: "fingerprint_input X r = fingerprint_input X r'"
  shows "r\<lparr>rq_id := i\<rparr> = r'\<lparr>rq_id := i\<rparr>"
proof -
  have len: "length (uuid_as_bytes X u) = 16" and inj: "inj (uuid_as_bytes X)" for u
    using assms(1) by (simp_all add: uuid_bytes_ok_def)
  note wf = request_wf_lengths [OF assms(2)] request_wf_lengths [OF assms(3)]
  from eq have s: "rq_source_service r = rq_source_service r'"
    and rest: "hash_field (ActionName_as_str (rq_action r)) @ hash_field (Scope_as_str (rq_scope r)) @
       uuid_as_bytes X (SchemaVersionId_as_uuid (svr_artifact (rq_schema_versions r))) @
       uuid_as_bytes X (SchemaVersionId_as_uuid (svr_permission_policy (rq_schema_versions r))) =
       hash_field (ActionName_as_str (rq_action r')) @ hash_field (Scope_as_str (rq_scope r')) @
       uuid_as_bytes X (SchemaVersionId_as_uuid (svr_artifact (rq_schema_versions r'))) @
       uuid_as_bytes X (SchemaVersionId_as_uuid (svr_permission_policy (rq_schema_versions r')))"
    by (auto simp: fingerprint_input_def len dest: injD [OF inj])
  from len_prefixed_append_inj [OF rest [unfolded hash_field_def] wf(1) wf(3)]
  have a: "rq_action r = rq_action r'"
    and rest': "len_prefixed 8 (Scope_as_str (rq_scope r)) @
       uuid_as_bytes X (SchemaVersionId_as_uuid (svr_artifact (rq_schema_versions r))) @
       uuid_as_bytes X (SchemaVersionId_as_uuid (svr_permission_policy (rq_schema_versions r))) =
       len_prefixed 8 (Scope_as_str (rq_scope r')) @
       uuid_as_bytes X (SchemaVersionId_as_uuid (svr_artifact (rq_schema_versions r'))) @
       uuid_as_bytes X (SchemaVersionId_as_uuid (svr_permission_policy (rq_schema_versions r')))"
    by auto
  from len_prefixed_append_inj [OF rest' wf(2) wf(4)]
  have "rq_scope r = rq_scope r'" and "svr_artifact (rq_schema_versions r) = svr_artifact (rq_schema_versions r')"
    and "svr_permission_policy (rq_schema_versions r) = svr_permission_policy (rq_schema_versions r')"
    by (auto simp: len dest: injD [OF inj])
  with s a show ?thesis by simp
qed


section \<open>Acceptance\<close>

record AcceptedRequest =
  ar_request :: Request
  ar_fingerprint :: RequestFingerprint
  ar_accepted_at :: i64

definition AcceptedRequest_restore ::
  "Request \<Rightarrow> RequestFingerprint \<Rightarrow> i64 \<Rightarrow> RequestError + AcceptedRequest" where
  "AcceptedRequest_restore request fingerprint accepted_at =
     (if accepted_at < 0 then Inl RE_InvalidAcceptedAt
      else Inr \<lparr>ar_request = request, ar_fingerprint = fingerprint, ar_accepted_at = accepted_at\<rparr>)"

datatype RequestAcceptance = RA_Accepted AcceptedRequest | RA_SafeRetry AcceptedRequest

primrec RequestAcceptance_record :: "RequestAcceptance \<Rightarrow> AcceptedRequest" where
  "RequestAcceptance_record (RA_Accepted r) = r"
| "RequestAcceptance_record (RA_SafeRetry r) = r"

primrec RequestAcceptance_is_fresh :: "RequestAcceptance \<Rightarrow> bool" where
  "RequestAcceptance_is_fresh (RA_Accepted r) = True"
| "RequestAcceptance_is_fresh (RA_SafeRetry r) = False"

text \<open>A sequence of acceptances, each with its database time.\<close>

fun accept_all ::
  "('s \<Rightarrow> i64 \<Rightarrow> Request \<Rightarrow> RequestFingerprint \<Rightarrow> 's \<times> (RequestError + RequestAcceptance)) \<Rightarrow>
   's \<Rightarrow> (i64 \<times> Request \<times> RequestFingerprint) list \<Rightarrow> 's" where
  "accept_all accept s [] = s"
| "accept_all accept s ((t, r, f) # rest) = accept_all accept (fst (accept s t r f)) rest"

text \<open>
  The laws of \<open>RequestRepository\<close>: the first acceptance of an ID by a source stores the
  request; the same content again is a safe retry of the stored record; other content is a
  conflict; nothing ever changes a stored record.
\<close>

locale request_repository =
  fixes good_req :: "'s \<Rightarrow> bool"
    and accept_op :: "'s \<Rightarrow> i64 \<Rightarrow> Request \<Rightarrow> RequestFingerprint \<Rightarrow> 's \<times> (RequestError + RequestAcceptance)"
    and find_op :: "'s \<Rightarrow> ActorId \<Rightarrow> RequestId \<Rightarrow> RequestError + AcceptedRequest option"
  assumes accept_good: "good_req s \<Longrightarrow> request_wf r \<Longrightarrow> accept_op s t r f = (s', x) \<Longrightarrow> good_req s'"
    and accept_fresh: "good_req s \<Longrightarrow> request_wf r \<Longrightarrow> accept_op s t r f = (s', Inr (RA_Accepted a)) \<Longrightarrow>
      find_op s (rq_source_service r) (rq_id r) = Inr None \<and> ar_request a = r \<and> ar_fingerprint a = f \<and>
      find_op s' src i = (if src = rq_source_service r \<and> i = rq_id r then Inr (Some a) else find_op s src i)"
    and accept_retry: "good_req s \<Longrightarrow> request_wf r \<Longrightarrow> accept_op s t r f = (s', Inr (RA_SafeRetry a)) \<Longrightarrow>
      find_op s (rq_source_service r) (rq_id r) = Inr (Some a) \<and> ar_request a = r \<and> ar_fingerprint a = f \<and>
      find_op s' src i = find_op s src i"
    and accept_error: "good_req s \<Longrightarrow> request_wf r \<Longrightarrow> accept_op s t r f = (s', Inl e) \<Longrightarrow>
      find_op s' src i = find_op s src i"
begin

lemma accepted_immutable:
  assumes "good_req s" and "request_wf r" and "accept_op s t r f = (s', x)"
    and "find_op s src i = Inr (Some a)"
  shows "find_op s' src i = Inr (Some a)"
proof (cases x)
  case (Inl e)
  with accept_error [OF assms(1,2), of t f s' e] assms(3,4) show ?thesis by simp
next
  case (Inr y)
  show ?thesis
  proof (cases y)
    case (RA_Accepted b)
    with accept_fresh [OF assms(1,2), of t f s' b src i] assms(3,4) Inr show ?thesis
      by (auto split: if_splits)
  next
    case (RA_SafeRetry b)
    with accept_retry [OF assms(1,2), of t f s' b] assms(3,4) Inr show ?thesis by simp
  qed
qed

text \<open>Any sequence of acceptances, with whatever outcome, leaves a stored record as it is.\<close>

lemma accept_all_immutable:
  assumes "good_req s" and "\<And>t r f. (t, r, f) \<in> set calls \<Longrightarrow> request_wf r"
    and "find_op s src i = Inr (Some a)"
  shows "find_op (accept_all accept_op s calls) src i = Inr (Some a)"
  using assms
proof (induction calls arbitrary: s)
  case Nil
  then show ?case by simp
next
  case (Cons c calls)
  obtain t r f where c: "c = (t, r, f)" by (cases c) auto
  obtain s' x where s': "accept_op s t r f = (s', x)" by (cases "accept_op s t r f") auto
  have wf: "request_wf r" using Cons.prems(2) c by auto
  have "good_req s'" by (rule accept_good [OF Cons.prems(1) wf s'])
  moreover have "find_op s' src i = Inr (Some a)"
    by (rule accepted_immutable [OF Cons.prems(1) wf s' Cons.prems(3)])
  ultimately have "find_op (accept_all accept_op s' calls) src i = Inr (Some a)"
    using Cons.prems(2) by (intro Cons.IH) auto
  with c s' show ?case by simp
qed

text \<open>After an acceptance, the same source can bind the ID to no other content.\<close>

lemma accepted_not_rebound:
  assumes "good_req s" and "request_wf r" and "accept_op s t r f = (s', Inr x)"
    and "request_wf r'" and "rq_source_service r' = rq_source_service r" and "rq_id r' = rq_id r"
    and "accept_op s' t' r' f' = (s'', Inr y)"
  shows "r' = r \<and> f' = f \<and> y = RA_SafeRetry (RequestAcceptance_record x)"
proof -
  have good: "good_req s'" by (rule accept_good [OF assms(1-3)])
  have st: "find_op s' (rq_source_service r) (rq_id r) = Inr (Some (RequestAcceptance_record x))"
    and r: "ar_request (RequestAcceptance_record x) = r" "ar_fingerprint (RequestAcceptance_record x) = f"
    using assms(3)
    by (cases x; auto dest: accept_fresh [OF assms(1,2), where src = "rq_source_service r" and i = "rq_id r"]
        accept_retry [OF assms(1,2), where src = "rq_source_service r" and i = "rq_id r"])+
  show ?thesis
  proof (cases y)
    case (RA_Accepted b)
    with accept_fresh [OF good assms(4), of t' f' s''] assms(5-7) st show ?thesis by simp
  next
    case (RA_SafeRetry b)
    with assms(7) have "accept_op s' t' r' f' = (s'', Inr (RA_SafeRetry b))" by simp
    from accept_retry [OF good assms(4) this]
    have b: "find_op s' (rq_source_service r) (rq_id r) = Inr (Some b)" and "ar_request b = r'" "ar_fingerprint b = f'"
      unfolding assms(5,6) by auto
    moreover from b st have "b = RequestAcceptance_record x" by simp
    ultimately show ?thesis using r RA_SafeRetry by blast
  qed
qed

end


section \<open>Routes\<close>

datatype RouteId = RouteId Uuid

primrec RouteId_as_uuid :: "RouteId \<Rightarrow> Uuid" where
  "RouteId_as_uuid (RouteId u) = u"

lemma RouteId_as_uuid_inj [simp]: "RouteId_as_uuid a = RouteId_as_uuid b \<longleftrightarrow> a = b"
  by (cases a; cases b) auto

definition RouteId_from_str :: "Crates \<Rightarrow> string \<Rightarrow> RequestError + RouteId" where
  "RouteId_from_str X value =
     (case uuid_parse X value of None \<Rightarrow> Inl RE_InvalidRouteId | Some u \<Rightarrow> Inr (RouteId u))"

record Route =
  rt_id :: RouteId
  rt_source_service :: ActorId
  rt_request_id :: RequestId
  rt_subscription_id :: SubscriptionId
  rt_destination_service :: ActorId
  rt_created_at :: i64

definition Route_restore ::
  "RouteId \<Rightarrow> ActorId \<Rightarrow> RequestId \<Rightarrow> SubscriptionId \<Rightarrow> ActorId \<Rightarrow> i64 \<Rightarrow> RequestError + Route" where
  "Route_restore i source_service request_id subscription_id destination_service created_at =
     (if created_at < 0 then Inl RE_InvalidAcceptedAt
      else Inr \<lparr>rt_id = i, rt_source_service = source_service, rt_request_id = request_id,
                rt_subscription_id = subscription_id, rt_destination_service = destination_service,
                rt_created_at = created_at\<rparr>)"

definition Route_create ::
  "RouteId \<Rightarrow> ActorId \<Rightarrow> RequestId \<Rightarrow> SubscriptionId \<Rightarrow> ActorId \<Rightarrow> i64 \<Rightarrow> RequestError + Route" where
  "Route_create new_id source_service request_id subscription_id destination_service created_at =
     Route_restore new_id source_service request_id subscription_id destination_service created_at"

definition match_key :: "Route \<Rightarrow> RequestId \<times> SubscriptionId" where
  "match_key r = (rt_request_id r, rt_subscription_id r)"

definition RouteService_materialize ::
  "('s \<Rightarrow> Route \<Rightarrow> 's \<times> (RequestError + Route)) \<Rightarrow> RouteId \<Rightarrow>
   's \<Rightarrow> ActorId \<Rightarrow> RequestId \<Rightarrow> SubscriptionId \<Rightarrow> ActorId \<Rightarrow> i64 \<Rightarrow> 's \<times> (RequestError + Route)" where
  "RouteService_materialize repo_materialize new_id s source_service request_id subscription_id
      destination_service now =
     (case Route_create new_id source_service request_id subscription_id destination_service now of
        Inl e \<Rightarrow> (s, Inl e)
      | Inr route \<Rightarrow> repo_materialize s route)"

text \<open>
  The law of \<open>RouteRepository::materialize\<close>: the stored routes keep distinct match keys; a
  call returns the one route with the key of the route it was given, which is the given one only
  when there was none, and stores nothing else.
\<close>

locale route_repository =
  fixes good_rt :: "'s \<Rightarrow> bool"
    and stored_routes :: "'s \<Rightarrow> Route list"
    and materialize_op :: "'s \<Rightarrow> Route \<Rightarrow> 's \<times> (RequestError + Route)"
  assumes routes_distinct: "good_rt s \<Longrightarrow> distinct (map match_key (stored_routes s))"
    and mat_good: "good_rt s \<Longrightarrow> materialize_op s r = (s', x) \<Longrightarrow> good_rt s'"
    and mat_new: "good_rt s \<Longrightarrow> materialize_op s r = (s', Inr r') \<Longrightarrow>
      match_key r \<notin> match_key ` set (stored_routes s) \<Longrightarrow>
      r' = r \<and> stored_routes s' = stored_routes s @ [r]"
    and mat_old: "good_rt s \<Longrightarrow> materialize_op s r = (s', Inr r') \<Longrightarrow>
      match_key r \<in> match_key ` set (stored_routes s) \<Longrightarrow>
      r' \<in> set (stored_routes s) \<and> match_key r' = match_key r \<and> stored_routes s' = stored_routes s"
    and mat_error: "good_rt s \<Longrightarrow> materialize_op s r = (s', Inl e) \<Longrightarrow> stored_routes s' = stored_routes s"
begin

lemma materialized_stored:
  assumes "good_rt s" and "materialize_op s r = (s', Inr r')"
  shows "r' \<in> set (stored_routes s') \<and> match_key r' = match_key r"
  using mat_new [OF assms] mat_old [OF assms] by (cases "match_key r \<in> match_key ` set (stored_routes s)") auto

lemma materialize_keeps:
  assumes "good_rt s" and "materialize_op s r = (s', x)"
  shows "set (stored_routes s) \<subseteq> set (stored_routes s')"
proof (cases x)
  case (Inl e)
  with mat_error [OF assms(1), of r s' e] assms(2) show ?thesis by simp
next
  case (Inr r')
  with mat_new [of s r s' r'] mat_old [of s r s' r'] assms show ?thesis
    by (cases "match_key r \<in> match_key ` set (stored_routes s)") auto
qed

lemma materialize_new:
  assumes "good_rt s" and "materialize_op s q = (s', x)"
    and "r \<in> set (stored_routes s')" and "r \<notin> set (stored_routes s)"
  shows "r = q"
proof (cases x)
  case (Inl e)
  with mat_error [OF assms(1), of q s' e] assms show ?thesis by simp
next
  case (Inr r')
  with mat_new [of s q s' r'] mat_old [of s q s' r'] assms show ?thesis
    by (cases "match_key q \<in> match_key ` set (stored_routes s)") auto
qed

text \<open>Materializing the same match again returns the route of the first call and stores nothing.\<close>

lemma materialize_idempotent:
  assumes "good_rt s" and first: "materialize_op s r = (s', Inr r1)"
    and again: "materialize_op s' q = (s'', Inr r2)" and key: "match_key q = match_key r"
  shows "r2 = r1 \<and> stored_routes s'' = stored_routes s'"
proof -
  have good: "good_rt s'" by (rule mat_good [OF assms(1) first])
  have r1: "r1 \<in> set (stored_routes s')" "match_key r1 = match_key q"
    using materialized_stored [OF assms(1) first] key by auto
  have "match_key q \<in> match_key ` set (stored_routes s')"
    using r1 by (intro image_eqI [where x = r1]) simp_all
  from mat_old [OF good again this] have "r2 \<in> set (stored_routes s')" "match_key r2 = match_key q"
    and st: "stored_routes s'' = stored_routes s'" by auto
  moreover have "inj_on match_key (set (stored_routes s'))"
    using routes_distinct [OF good] by (simp add: distinct_map)
  ultimately have "r2 = r1"
    using r1 by (metis inj_onD)
  with st show ?thesis by simp
qed

end

end
