(* ===== verification/Instance_Keys.thy ===== *)
theory Instance_Keys
  imports Identity
begin

text \<open>
  \<open>src/kernel/instance_keys.rs\<close>: the ephemeral Ed25519 key of one running instance. The
  curve operations, the digest and the random choices of \<open>generate\<close> are arguments.
\<close>

datatype InstanceId = InstanceId Uuid
datatype KeyId = KeyId Uuid

primrec InstanceId_as_uuid :: "InstanceId \<Rightarrow> Uuid" where
  "InstanceId_as_uuid (InstanceId u) = u"

primrec KeyId_as_uuid :: "KeyId \<Rightarrow> Uuid" where
  "KeyId_as_uuid (KeyId u) = u"

lemma InstanceId_as_uuid_inj [simp]:
  "InstanceId_as_uuid a = InstanceId_as_uuid b \<longleftrightarrow> a = b"
  by (cases a; cases b) auto

lemma KeyId_as_uuid_inj [simp]: "KeyId_as_uuid a = KeyId_as_uuid b \<longleftrightarrow> a = b"
  by (cases a; cases b) auto

datatype InstanceKeyError =
    IKE_InvalidInstanceId
  | IKE_InvalidKeyId
  | IKE_InvalidPublicKey
  | IKE_InvalidSignature

definition InstanceId_from_str :: "Crates \<Rightarrow> string \<Rightarrow> InstanceKeyError + InstanceId" where
  "InstanceId_from_str X value =
     (case uuid_parse X value of None \<Rightarrow> Inl IKE_InvalidInstanceId | Some u \<Rightarrow> Inr (InstanceId u))"

definition KeyId_from_str :: "Crates \<Rightarrow> string \<Rightarrow> InstanceKeyError + KeyId" where
  "KeyId_from_str X value =
     (case uuid_parse X value of None \<Rightarrow> Inl IKE_InvalidKeyId | Some u \<Rightarrow> Inr (KeyId u))"

definition InstanceId_show :: "Crates \<Rightarrow> InstanceId \<Rightarrow> string" where
  "InstanceId_show X i = uuid_show X (InstanceId_as_uuid i)"

definition KeyId_show :: "Crates \<Rightarrow> KeyId \<Rightarrow> string" where
  "KeyId_show X k = uuid_show X (KeyId_as_uuid k)"

definition ALGORITHM :: string where
  "ALGORITHM = ''ed25519''"

definition PUBLIC_KEY_LENGTH :: nat where
  "PUBLIC_KEY_LENGTH = 32"

definition SIGNATURE_LENGTH :: nat where
  "SIGNATURE_LENGTH = 64"

text \<open>The arrays \<open>[u8; 32]\<close> and \<open>[u8; 64]\<close> are byte lists; a conversion from a slice
  (\<open>try_into\<close>) checks the length where the source does it.\<close>

record InstancePublicKey =
  ipk_service_id :: ActorId
  ipk_instance_id :: InstanceId
  ipk_key_id :: KeyId
  ipk_public_key :: bytes

datatype InstanceSignature = InstanceSignature bytes

primrec InstanceSignature_as_bytes :: "InstanceSignature \<Rightarrow> bytes" where
  "InstanceSignature_as_bytes (InstanceSignature b) = b"

definition InstancePublicKey_restore ::
  "Crates \<Rightarrow> ActorId \<Rightarrow> InstanceId \<Rightarrow> KeyId \<Rightarrow> bytes \<Rightarrow> InstanceKeyError + InstancePublicKey" where
  "InstancePublicKey_restore X service_id instance_id key_id public_key =
     (if \<not> ed_key_ok X public_key then Inl IKE_InvalidPublicKey
      else Inr \<lparr>ipk_service_id = service_id, ipk_instance_id = instance_id, ipk_key_id = key_id,
                ipk_public_key = public_key\<rparr>)"

definition InstancePublicKey_fingerprint :: "Crates \<Rightarrow> InstancePublicKey \<Rightarrow> bytes" where
  "InstancePublicKey_fingerprint X k = sha256 X (ipk_public_key k)"

definition InstancePublicKey_verify ::
  "Crates \<Rightarrow> InstancePublicKey \<Rightarrow> bytes \<Rightarrow> InstanceSignature \<Rightarrow> InstanceKeyError + unit" where
  "InstancePublicKey_verify X k message signature =
     (if \<not> ed_key_ok X (ipk_public_key k) then Inl IKE_InvalidPublicKey
      else if \<not> ed_verify_strict X (ipk_public_key k) message (InstanceSignature_as_bytes signature)
      then Inl IKE_InvalidSignature
      else Inr ())"

record InstanceCredential =
  ic_public_key :: InstancePublicKey
  ic_signing_key :: SigningKey

definition InstanceCredential_generate ::
  "Crates \<Rightarrow> SigningKey \<Rightarrow> InstanceId \<Rightarrow> KeyId \<Rightarrow> ActorId \<Rightarrow> InstanceCredential" where
  "InstanceCredential_generate X signing_key instance_id key_id service_id =
     \<lparr>ic_public_key =
        \<lparr>ipk_service_id = service_id, ipk_instance_id = instance_id, ipk_key_id = key_id,
         ipk_public_key = ed_public X signing_key\<rparr>,
      ic_signing_key = signing_key\<rparr>"

definition InstanceCredential_sign ::
  "Crates \<Rightarrow> InstanceCredential \<Rightarrow> bytes \<Rightarrow> InstanceSignature" where
  "InstanceCredential_sign X c message = InstanceSignature (ed_sign X (ic_signing_key c) message)"

text \<open>A generated credential's signatures verify under its public key.\<close>

lemma generated_credential_verifies:
  assumes "ed25519_ok X" and "c = InstanceCredential_generate X sk i k a"
  shows "InstancePublicKey_verify X (ic_public_key c) m (InstanceCredential_sign X c m) = Inr ()"
  using assms
  by (simp add: InstanceCredential_generate_def InstanceCredential_sign_def
      InstancePublicKey_verify_def ed25519_ok_def)

definition public_key_wf :: "Crates \<Rightarrow> InstancePublicKey \<Rightarrow> bool" where
  "public_key_wf X k \<longleftrightarrow> length (ipk_public_key k) = PUBLIC_KEY_LENGTH \<and> ed_key_ok X (ipk_public_key k)"

lemma InstancePublicKey_restore_wf [simp]:
  "public_key_wf X k \<Longrightarrow>
   InstancePublicKey_restore X (ipk_service_id k) (ipk_instance_id k) (ipk_key_id k)
     (ipk_public_key k) = Inr k"
  by (simp add: InstancePublicKey_restore_def public_key_wf_def)

lemma InstancePublicKey_verify_Inr_iff [simp]:
  "InstancePublicKey_verify X k m s = Inr u \<longleftrightarrow>
     ed_key_ok X (ipk_public_key k) \<and>
     ed_verify_strict X (ipk_public_key k) m (InstanceSignature_as_bytes s)"
  by (auto simp: InstancePublicKey_verify_def)

end
