(* ===== verification/Work_Claims.thy ===== *)
theory Work_Claims
  imports Requests Instance_Keys
begin

text \<open>
  \<open>src/kernel/work_claims.rs\<close> (ILK-011): claims with leases and fencing tokens, and
  \<open>WorkClaimService\<close>. What \<open>WorkClaimRepository\<close> promises is written twice: as pure
  operations on the list of all claims (\<open>spec_claim\<close>, \<open>spec_renew\<close>,
  \<open>spec_transition\<close>), with the invariant they keep, and as the locale
  \<open>work_claim_repository\<close>, whose laws say that a repository refines them.
\<close>

section \<open>Claims\<close>

datatype ClaimId = ClaimId Uuid

datatype WorkClaimStatus = WcActive | WcCompleted | WcReleased | WcExpired

datatype WorkClaimError =
    WCE_InvalidClaimId
  | WCE_InvalidFencingToken
  | WCE_InvalidLease
  | WCE_InvalidTimestamp
  | WCE_RouteNotFound RouteId
  | WCE_AlreadyClaimed RouteId
  | WCE_AlreadyCompleted RouteId
  | WCE_NotFound ClaimId
  | WCE_Fenced
  | WCE_Repository string

definition ClaimId_from_str :: "Crates \<Rightarrow> string \<Rightarrow> WorkClaimError + ClaimId" where
  "ClaimId_from_str X value =
     (case uuid_parse X value of None \<Rightarrow> Inl WCE_InvalidClaimId | Some u \<Rightarrow> Inr (ClaimId u))"

record WorkClaim =
  wc_id :: ClaimId
  wc_route_id :: RouteId
  wc_worker_service :: ActorId
  wc_worker_instance :: InstanceId
  wc_fencing_token :: i64
  wc_status :: WorkClaimStatus
  wc_claimed_at :: i64
  wc_lease_expires_at :: i64

definition WorkClaim_restore ::
  "ClaimId \<Rightarrow> RouteId \<Rightarrow> ActorId \<Rightarrow> InstanceId \<Rightarrow> i64 \<Rightarrow> WorkClaimStatus \<Rightarrow> i64 \<Rightarrow> i64
   \<Rightarrow> WorkClaimError + WorkClaim" where
  "WorkClaim_restore i route_id worker_service worker_instance fencing_token status claimed_at
      lease_expires_at =
     (if fencing_token < 1 then Inl WCE_InvalidFencingToken
      else if claimed_at < 0 \<or> lease_expires_at \<le> claimed_at then Inl WCE_InvalidLease
      else Inr \<lparr>wc_id = i, wc_route_id = route_id, wc_worker_service = worker_service,
                wc_worker_instance = worker_instance, wc_fencing_token = fencing_token,
                wc_status = status, wc_claimed_at = claimed_at,
                wc_lease_expires_at = lease_expires_at\<rparr>)"

definition is_current :: "WorkClaim \<Rightarrow> i64 \<Rightarrow> bool" where
  "is_current c now \<longleftrightarrow> wc_status c = WcActive \<and> wc_lease_expires_at c > now"


section \<open>The service\<close>

definition WorkClaimService_claim ::
  "('s \<Rightarrow> RouteId \<Rightarrow> ActorId \<Rightarrow> InstanceId \<Rightarrow> i64 \<Rightarrow> i64 \<Rightarrow> 's \<times> (WorkClaimError + WorkClaim)) \<Rightarrow>
   's \<Rightarrow> RouteId \<Rightarrow> ActorId \<Rightarrow> InstanceId \<Rightarrow> i64 \<Rightarrow> i64 \<Rightarrow> 's \<times> (WorkClaimError + WorkClaim)" where
  "WorkClaimService_claim repo_claim s route_id worker_service worker_instance lease_expires_at now =
     (if now < 0 \<or> lease_expires_at \<le> now then (s, Inl WCE_InvalidLease)
      else repo_claim s route_id worker_service worker_instance lease_expires_at now)"

definition WorkClaimService_renew ::
  "('s \<Rightarrow> ClaimId \<Rightarrow> i64 \<Rightarrow> i64 \<Rightarrow> i64 \<Rightarrow> 's \<times> (WorkClaimError + WorkClaim)) \<Rightarrow>
   's \<Rightarrow> ClaimId \<Rightarrow> i64 \<Rightarrow> i64 \<Rightarrow> i64 \<Rightarrow> 's \<times> (WorkClaimError + WorkClaim)" where
  "WorkClaimService_renew repo_renew s claim_id fencing_token lease_expires_at now =
     (if now < 0 \<or> lease_expires_at \<le> now then (s, Inl WCE_InvalidLease)
      else repo_renew s claim_id fencing_token lease_expires_at now)"

definition WorkClaimService_release ::
  "('s \<Rightarrow> ClaimId \<Rightarrow> i64 \<Rightarrow> i64 \<Rightarrow> 's \<times> (WorkClaimError + WorkClaim)) \<Rightarrow>
   's \<Rightarrow> ClaimId \<Rightarrow> i64 \<Rightarrow> i64 \<Rightarrow> 's \<times> (WorkClaimError + WorkClaim)" where
  "WorkClaimService_release repo_release s claim_id fencing_token now =
     (if now < 0 then (s, Inl WCE_InvalidLease) else repo_release s claim_id fencing_token now)"

definition WorkClaimService_complete ::
  "('s \<Rightarrow> ClaimId \<Rightarrow> i64 \<Rightarrow> i64 \<Rightarrow> 's \<times> (WorkClaimError + WorkClaim)) \<Rightarrow>
   's \<Rightarrow> ClaimId \<Rightarrow> i64 \<Rightarrow> i64 \<Rightarrow> 's \<times> (WorkClaimError + WorkClaim)" where
  "WorkClaimService_complete repo_complete s claim_id fencing_token now =
     (if now < 0 then (s, Inl WCE_InvalidLease) else repo_complete s claim_id fencing_token now)"

definition WorkClaimService_active_route_ids ::
  "('s \<Rightarrow> RouteId list \<Rightarrow> i64 \<Rightarrow> WorkClaimError + RouteId set) \<Rightarrow>
   's \<Rightarrow> RouteId list \<Rightarrow> i64 \<Rightarrow> WorkClaimError + RouteId set" where
  "WorkClaimService_active_route_ids repo_active_route_ids s route_ids now =
     (if now < 0 then Inl WCE_InvalidTimestamp else repo_active_route_ids s route_ids now)"


section \<open>The contract on lists of claims\<close>

definition latest_claim :: "WorkClaim list \<Rightarrow> RouteId \<Rightarrow> WorkClaim option" where
  "latest_claim cs r = top_by wc_fencing_token (filter (\<lambda>c. wc_route_id c = r) cs)"

abbreviation with_id :: "ClaimId \<Rightarrow> WorkClaim \<Rightarrow> bool" where
  "with_id i \<equiv> (\<lambda>c. wc_id c = i)"

definition expire_claim :: "WorkClaim \<Rightarrow> WorkClaim list \<Rightarrow> WorkClaim list" where
  "expire_claim c cs =
     (if wc_status c = WcActive then update_where (with_id (wc_id c)) (\<lambda>c. c\<lparr>wc_status := WcExpired\<rparr>) cs
      else cs)"

definition new_claim :: "ClaimId \<Rightarrow> RouteId \<Rightarrow> ActorId \<Rightarrow> InstanceId \<Rightarrow> i64 \<Rightarrow> i64 \<Rightarrow> i64 \<Rightarrow> WorkClaim" where
  "new_claim i r a w token lease now =
     \<lparr>wc_id = i, wc_route_id = r, wc_worker_service = a, wc_worker_instance = w,
      wc_fencing_token = token, wc_status = WcActive, wc_claimed_at = now, wc_lease_expires_at = lease\<rparr>"

definition spec_claim ::
  "ClaimId \<Rightarrow> WorkClaim list \<Rightarrow> RouteId \<Rightarrow> ActorId \<Rightarrow> InstanceId \<Rightarrow> i64 \<Rightarrow> i64
   \<Rightarrow> WorkClaimError + WorkClaim list \<times> WorkClaim" where
  "spec_claim new_id cs r a w lease now =
     (let fresh = (\<lambda>n. new_claim new_id r a w n lease now)
      in case latest_claim cs r of
           None \<Rightarrow> Inr (cs @ [fresh 1], fresh 1)
         | Some c \<Rightarrow>
             if is_current c now then Inl (WCE_AlreadyClaimed r)
             else if wc_status c = WcCompleted then Inl (WCE_AlreadyCompleted r)
             else Inr (expire_claim c cs @ [fresh (wc_fencing_token c + 1)],
                       fresh (wc_fencing_token c + 1)))"

definition spec_change ::
  "(WorkClaim \<Rightarrow> WorkClaim) \<Rightarrow> WorkClaim list \<Rightarrow> ClaimId \<Rightarrow> i64 \<Rightarrow> i64
   \<Rightarrow> WorkClaimError + WorkClaim list \<times> WorkClaim" where
  "spec_change f cs i token now =
     (case find (with_id i) cs of
        None \<Rightarrow> Inl (WCE_NotFound i)
      | Some c \<Rightarrow>
          if wc_fencing_token c \<noteq> token \<or> \<not> is_current c now then Inl WCE_Fenced
          else Inr (update_where (with_id i) f cs, f c))"

definition spec_renew ::
  "WorkClaim list \<Rightarrow> ClaimId \<Rightarrow> i64 \<Rightarrow> i64 \<Rightarrow> i64 \<Rightarrow> WorkClaimError + WorkClaim list \<times> WorkClaim" where
  "spec_renew cs i token lease now = spec_change (\<lambda>c. c\<lparr>wc_lease_expires_at := lease\<rparr>) cs i token now"

definition spec_transition ::
  "WorkClaimStatus \<Rightarrow> WorkClaim list \<Rightarrow> ClaimId \<Rightarrow> i64 \<Rightarrow> i64
   \<Rightarrow> WorkClaimError + WorkClaim list \<times> WorkClaim" where
  "spec_transition st cs i token now = spec_change (\<lambda>c. c\<lparr>wc_status := st\<rparr>) cs i token now"

text \<open>
  The invariant: IDs are distinct, tokens are positive and distinct on a route, and only the claim
  with a route's highest token may be active or completed.
\<close>

definition claims_inv :: "WorkClaim list \<Rightarrow> bool" where
  "claims_inv cs \<longleftrightarrow>
     distinct (map wc_id cs) \<and>
     distinct (map (\<lambda>c. (wc_route_id c, wc_fencing_token c)) cs) \<and>
     (\<forall>c \<in> set cs. 1 \<le> wc_fencing_token c) \<and>
     (\<forall>c \<in> set cs. wc_status c \<in> {WcActive, WcCompleted} \<longrightarrow>
        (\<forall>d \<in> set cs. wc_route_id d = wc_route_id c \<longrightarrow> wc_fencing_token d \<le> wc_fencing_token c))"

lemma claims_inv_Nil: "claims_inv []"
  by (simp add: claims_inv_def)

lemma new_claim_simps [simp]:
  "wc_id (new_claim i r a w n lease now) = i" "wc_route_id (new_claim i r a w n lease now) = r"
  "wc_worker_service (new_claim i r a w n lease now) = a"
  "wc_worker_instance (new_claim i r a w n lease now) = w"
  "wc_fencing_token (new_claim i r a w n lease now) = n"
  "wc_status (new_claim i r a w n lease now) = WcActive"
  "wc_lease_expires_at (new_claim i r a w n lease now) = lease"
  by (simp_all add: new_claim_def)

lemma latest_claim_Some:
  assumes "latest_claim cs r = Some c"
  shows "c \<in> set cs" and "wc_route_id c = r"
    and "\<And>d. d \<in> set cs \<Longrightarrow> wc_route_id d = r \<Longrightarrow> wc_fencing_token d \<le> wc_fencing_token c"
  using top_by_Some [OF assms [unfolded latest_claim_def]] by auto

lemma latest_claim_None: "latest_claim cs r = None \<longleftrightarrow> (\<forall>c \<in> set cs. wc_route_id c \<noteq> r)"
  by (auto simp: latest_claim_def filter_empty_conv)

lemma claims_inv_id:
  assumes "claims_inv cs" and "c \<in> set cs" and "d \<in> set cs" and "wc_id c = wc_id d"
  shows "c = d"
  using assms by (auto simp: claims_inv_def distinct_map dest: inj_onD)

lemma claims_inv_token:
  assumes "claims_inv cs" and "c \<in> set cs" and "d \<in> set cs"
    and "wc_route_id c = wc_route_id d" and "wc_fencing_token c = wc_fencing_token d"
  shows "c = d"
  using assms by (auto simp: claims_inv_def distinct_map inj_on_def)

lemma latest_claim_top:
  assumes "claims_inv cs" and "c \<in> set cs" and "wc_status c \<in> {WcActive, WcCompleted}"
  shows "latest_claim cs (wc_route_id c) = Some c"
proof (cases "latest_claim cs (wc_route_id c)")
  case None
  with assms(2) show ?thesis by (auto simp: latest_claim_None)
next
  case (Some d)
  note d = latest_claim_Some [OF this]
  have "wc_fencing_token d \<le> wc_fencing_token c"
    using assms d by (auto simp: claims_inv_def)
  moreover have "wc_fencing_token c \<le> wc_fencing_token d"
    using assms(2) d by simp
  ultimately have "d = c"
    using claims_inv_token [OF assms(1) d(1) assms(2) d(2)] by simp
  with Some show ?thesis by simp
qed

lemma active_claim_unique:
  assumes "claims_inv cs" and "c \<in> set cs" and "d \<in> set cs" and "wc_route_id c = wc_route_id d"
    and "wc_status c \<in> {WcActive, WcCompleted}" and "wc_status d \<in> {WcActive, WcCompleted}"
  shows "c = d"
  using latest_claim_top [OF assms(1,2,5)] latest_claim_top [OF assms(1,3,6)] assms(4)
  by (metis option.inject)

text \<open>A change of the claim with a given ID that keeps its ID, route and token, and makes it active
  or completed only if it was active, keeps the invariant.\<close>

lemma claims_inv_update:
  assumes inv: "claims_inv cs"
    and keep: "\<And>c. wc_id (f c) = wc_id c \<and> wc_route_id (f c) = wc_route_id c
      \<and> wc_fencing_token (f c) = wc_fencing_token c"
    and status: "\<And>c. c \<in> set cs \<Longrightarrow> wc_id c = i \<Longrightarrow> wc_status (f c) \<in> {WcActive, WcCompleted} \<Longrightarrow>
      wc_status c \<in> {WcActive, WcCompleted}"
  shows "claims_inv (update_where (with_id i) f cs)"
proof -
  let ?g = "\<lambda>c. if wc_id c = i then f c else c"
  have g: "wc_id (?g c) = wc_id c" "wc_route_id (?g c) = wc_route_id c"
    "wc_fencing_token (?g c) = wc_fencing_token c" for c
    by (simp_all add: keep)
  have "map wc_id (update_where (with_id i) f cs) = map wc_id cs"
    and "map (\<lambda>c. (wc_route_id c, wc_fencing_token c)) (update_where (with_id i) f cs) =
         map (\<lambda>c. (wc_route_id c, wc_fencing_token c)) cs"
    by (simp_all add: update_where_def keep)
  moreover have "wc_status (?g c) \<in> {WcActive, WcCompleted} \<Longrightarrow> c \<in> set cs \<Longrightarrow>
      wc_status c \<in> {WcActive, WcCompleted}" for c
    using status by (cases "wc_id c = i") auto
  ultimately show ?thesis
    using inv unfolding claims_inv_def set_update_where by (fastforce simp: g)
qed

text \<open>A fresh claim whose token exceeds every token of its route, where the route has no active or
  completed claim, keeps it too.\<close>

lemma claims_inv_snoc:
  assumes inv: "claims_inv cs" and "wc_id n \<notin> wc_id ` set cs" and "1 \<le> wc_fencing_token n"
    and new: "\<And>c. c \<in> set cs \<Longrightarrow> wc_route_id c = wc_route_id n \<Longrightarrow>
      wc_fencing_token c < wc_fencing_token n \<and> wc_status c \<notin> {WcActive, WcCompleted}"
  shows "claims_inv (cs @ [n])"
proof -
  have "(wc_route_id n, wc_fencing_token n) \<notin> (\<lambda>c. (wc_route_id c, wc_fencing_token c)) ` set cs"
    using new by force
  then show ?thesis
    using assms unfolding claims_inv_def by (auto dest: new less_imp_le)
qed

lemma claims_inv_expire:
  assumes "claims_inv cs"
  shows "claims_inv (expire_claim c cs)"
  unfolding expire_claim_def by (auto intro!: claims_inv_update assms)

lemma expire_claim_set:
  "set (expire_claim c cs) =
     (if wc_status c = WcActive
      then (\<lambda>d. if wc_id d = wc_id c then d\<lparr>wc_status := WcExpired\<rparr> else d) ` set cs else set cs)"
  by (simp add: expire_claim_def set_update_where)

lemma spec_claim_inv:
  assumes inv: "claims_inv cs" and new: "i \<notin> wc_id ` set cs"
    and ok: "spec_claim i cs r a w lease now = Inr (cs', n)"
  shows "claims_inv cs'"
proof (cases "latest_claim cs r")
  case None
  with ok have cs': "cs' = cs @ [n]" and n: "wc_id n = i" "wc_route_id n = r" "wc_fencing_token n = 1"
    by (auto simp: spec_claim_def Let_def)
  show ?thesis
    unfolding cs' by (rule claims_inv_snoc [OF inv]) (use None n new in \<open>auto simp: latest_claim_None\<close>)
next
  case (Some c)
  note c = latest_claim_Some [OF this]
  have st: "wc_status c \<noteq> WcCompleted" and cs': "cs' = expire_claim c cs @ [n]"
    and n: "wc_id n = i" "wc_route_id n = r" "wc_fencing_token n = wc_fencing_token c + 1"
    using ok Some by (auto simp: spec_claim_def Let_def split: if_splits)
  have bound: "wc_fencing_token d \<le> wc_fencing_token c \<and> wc_status d \<notin> {WcActive, WcCompleted}"
    if d: "d \<in> set (expire_claim c cs)" "wc_route_id d = r" for d
  proof -
    obtain d0 where d0: "d0 \<in> set cs" "wc_route_id d0 = r" "wc_fencing_token d = wc_fencing_token d0"
      "d = d0 \<or> (wc_id d0 = wc_id c \<and> wc_status d = WcExpired)"
      "wc_status c = WcActive \<longrightarrow> wc_id d0 = wc_id c \<longrightarrow> wc_status d = WcExpired"
      using d by (auto simp: expire_claim_set split: if_splits)
    have "wc_status d \<notin> {WcActive, WcCompleted}"
    proof
      assume top: "wc_status d \<in> {WcActive, WcCompleted}"
      with d0(4) have "d = d0" by auto
      with top d0 latest_claim_top [OF inv d0(1)] Some have "d0 = c" by auto
      with top \<open>d = d0\<close> st d0(5) show False by auto
    qed
    with d0 c(3) show ?thesis by simp
  qed
  have "\<forall>d \<in> set cs. wc_id d \<noteq> i" using new by blast
  then have "i \<notin> wc_id ` set (expire_claim c cs)"
    by (auto simp: expire_claim_set split: if_splits)
  moreover have "1 \<le> wc_fencing_token c" using inv c(1) by (auto simp: claims_inv_def)
  ultimately show ?thesis
    unfolding cs' using bound
    by (intro claims_inv_snoc claims_inv_expire inv) (auto simp: n dest!: bound)
qed

lemma spec_claim_token:
  assumes "spec_claim i cs r a w lease now = Inr (cs', n)"
  shows "n = new_claim i r a w (wc_fencing_token n) lease now" and "n \<in> set cs'"
    and "wc_fencing_token n = (case latest_claim cs r of None \<Rightarrow> 1 | Some d \<Rightarrow> wc_fencing_token d + 1)"
    and "\<And>d. d \<in> set cs \<Longrightarrow> wc_route_id d = r \<Longrightarrow> wc_fencing_token d < wc_fencing_token n"
  using assms latest_claim_Some [of cs r] latest_claim_None [of cs r]
  by (cases "latest_claim cs r";
      fastforce simp: spec_claim_def Let_def split: if_splits)+

lemma spec_change_Inr:
  assumes "spec_change f cs i token now = Inr (cs', n)"
  obtains c where "c \<in> set cs" "wc_id c = i" "wc_fencing_token c = token" "is_current c now"
    "cs' = update_where (with_id i) f cs" "n = f c"
  using assms
  by (auto simp: spec_change_def dest: find_SomeD split: option.splits if_splits)

lemma spec_change_inv:
  assumes inv: "claims_inv cs" and ok: "spec_change f cs i token now = Inr (cs', n)"
    and "\<And>c. wc_id (f c) = wc_id c \<and> wc_route_id (f c) = wc_route_id c
      \<and> wc_fencing_token (f c) = wc_fencing_token c"
  shows "claims_inv cs'"
proof -
  from ok obtain c where c: "c \<in> set cs" "wc_id c = i" "is_current c now"
    and cs': "cs' = update_where (with_id i) f cs"
    by (rule spec_change_Inr) auto
  have "wc_status d = WcActive" if "d \<in> set cs" "wc_id d = i" for d
    using claims_inv_id [OF inv that(1) c(1)] c that by (simp add: is_current_def)
  then show ?thesis
    unfolding cs' by (intro claims_inv_update [OF inv assms(3)]) auto
qed


section \<open>Histories of claims\<close>

text \<open>One successful operation, as a step on the list of claims.\<close>

inductive claims_step :: "WorkClaim list \<Rightarrow> WorkClaim list \<Rightarrow> bool" where
  step_claim: "i \<notin> wc_id ` set cs \<Longrightarrow> spec_claim i cs r a w lease now = Inr (cs', n) \<Longrightarrow> claims_step cs cs'"
| step_renew: "spec_renew cs i token lease now = Inr (cs', n) \<Longrightarrow> claims_step cs cs'"
| step_transition: "st \<noteq> WcActive \<Longrightarrow> spec_transition st cs i token now = Inr (cs', n) \<Longrightarrow> claims_step cs cs'"

lemma claims_step_inv: "claims_step cs cs' \<Longrightarrow> claims_inv cs \<Longrightarrow> claims_inv cs'"
proof (induction rule: claims_step.induct)
  case step_claim
  then show ?case by (metis spec_claim_inv)
next
  case step_renew
  then show ?case
    unfolding spec_renew_def by (elim spec_change_inv [rotated]) simp_all
next
  case step_transition
  then show ?case
    unfolding spec_transition_def by (elim spec_change_inv [rotated]) simp_all
qed

lemma claims_reach_inv: "claims_step\<^sup>*\<^sup>* cs cs' \<Longrightarrow> claims_inv cs \<Longrightarrow> claims_inv cs'"
  by (induction rule: rtranclp_induct) (auto dest: claims_step_inv)

text \<open>How a claim may change: never its ID, route, worker, token or time; and not at all once it has
  left the active status.\<close>

definition evolves :: "WorkClaim \<Rightarrow> WorkClaim \<Rightarrow> bool" where
  "evolves c c' \<longleftrightarrow>
     wc_id c' = wc_id c \<and> wc_route_id c' = wc_route_id c \<and>
     wc_worker_service c' = wc_worker_service c \<and> wc_worker_instance c' = wc_worker_instance c \<and>
     wc_fencing_token c' = wc_fencing_token c \<and> wc_claimed_at c' = wc_claimed_at c \<and>
     (wc_status c \<noteq> WcActive \<longrightarrow> c' = c)"

lemma evolves_refl [simp]: "evolves c c"
  by (simp add: evolves_def)

lemma evolves_trans: "evolves a b \<Longrightarrow> evolves b c \<Longrightarrow> evolves a c"
  by (auto simp: evolves_def)

lemma update_evolves:
  assumes "c \<in> set cs" and "\<And>d. d \<in> set cs \<Longrightarrow> wc_id d = i \<Longrightarrow> evolves d (f d)"
  shows "\<exists>c' \<in> set (update_where (with_id i) f cs). evolves c c'"
proof
  show "evolves c (if wc_id c = i then f c else c)"
    using assms by simp
  show "(if wc_id c = i then f c else c) \<in> set (update_where (with_id i) f cs)"
    using assms(1) unfolding set_update_where by (rule imageI)
qed

lemma spec_change_evolves:
  assumes "claims_inv cs" and "spec_change f cs i token now = Inr (cs', n)" and "c \<in> set cs"
    and f: "\<And>c. wc_status c = WcActive \<Longrightarrow> evolves c (f c)"
  shows "\<exists>c' \<in> set cs'. evolves c c'"
proof -
  from assms(2) obtain d where d: "d \<in> set cs" "wc_id d = i" "is_current d now"
    and cs': "cs' = update_where (with_id i) f cs"
    by (rule spec_change_Inr) auto
  have "evolves e (f e)" if "e \<in> set cs" "wc_id e = i" for e
    using claims_inv_id [OF assms(1) that(1) d(1)] d that by (intro f) (simp add: is_current_def)
  then show ?thesis
    unfolding cs' by (intro update_evolves assms(3))
qed

lemma spec_claim_evolves:
  assumes "claims_inv cs" and "spec_claim i cs r a w lease now = Inr (cs', n)" and "c \<in> set cs"
  shows "\<exists>c' \<in> set cs'. evolves c c'"
proof (cases "latest_claim cs r")
  case None
  with assms have "c \<in> set cs'" by (auto simp: spec_claim_def Let_def)
  then show ?thesis by (auto intro: bexI [of _ c])
next
  case (Some d)
  note d = latest_claim_Some [OF this]
  have "cs' = expire_claim d cs @ [n]"
    using assms(2) Some by (auto simp: spec_claim_def Let_def split: if_splits)
  moreover have "\<exists>c' \<in> set (expire_claim d cs). evolves c c'"
  proof (cases "wc_status d = WcActive")
    case True
    then have "evolves e (e\<lparr>wc_status := WcExpired\<rparr>)" if "e \<in> set cs" "wc_id e = wc_id d" for e
      using claims_inv_id [OF assms(1) that(1) d(1) that(2)] by (simp add: evolves_def)
    with update_evolves [OF assms(3)] True show ?thesis
      unfolding expire_claim_def by simp
  next
    case False
    with assms(3) show ?thesis
      unfolding expire_claim_def by (auto intro: bexI [of _ c])
  qed
  ultimately show ?thesis by auto
qed

lemma claims_step_evolves:
  "claims_step cs cs' \<Longrightarrow> claims_inv cs \<Longrightarrow> c \<in> set cs \<Longrightarrow> \<exists>c' \<in> set cs'. evolves c c'"
proof (induction rule: claims_step.induct)
  case step_claim
  then show ?case by (metis spec_claim_evolves)
next
  case (step_renew cs i token lease now cs' n)
  then show ?case
    unfolding spec_renew_def by (elim spec_change_evolves [rotated]) (simp_all add: evolves_def)
next
  case (step_transition st cs i token now cs' n)
  then show ?case
    unfolding spec_transition_def by (elim spec_change_evolves [rotated]) (simp_all add: evolves_def)
qed

lemma claims_reach_evolves:
  assumes "claims_step\<^sup>*\<^sup>* cs cs'" and "claims_inv cs" and "c \<in> set cs"
  shows "\<exists>c' \<in> set cs'. evolves c c'"
  using assms(1)
proof (induction rule: rtranclp_induct)
  case base
  from assms(3) show ?case by (auto intro: bexI [of _ c])
next
  case (step xs ys)
  then obtain d where "d \<in> set xs" "evolves c d" by blast
  with claims_step_evolves [OF step.hyps(2) claims_reach_inv [OF step.hyps(1) assms(2)]]
  show ?case by (blast intro: evolves_trans)
qed

text \<open>A completed route stays completed: no claim on it ever succeeds again.\<close>

lemma completed_forever:
  assumes "claims_step\<^sup>*\<^sup>* cs cs'" and "claims_inv cs" and "c \<in> set cs" and "wc_status c = WcCompleted"
  shows "c \<in> set cs' \<and> spec_claim i cs' (wc_route_id c) a w lease now = Inl (WCE_AlreadyCompleted (wc_route_id c))"
proof -
  have c': "c \<in> set cs'"
    using claims_reach_evolves [OF assms(1-3)] assms(4) by (auto simp: evolves_def)
  have "latest_claim cs' (wc_route_id c) = Some c"
    using latest_claim_top [OF claims_reach_inv [OF assms(1,2)] c'] assms(4) by simp
  with c' assms(4) show ?thesis
    by (simp add: spec_claim_def Let_def is_current_def)
qed

text \<open>A superseded holder is fenced off for good.\<close>

lemma superseded_fenced:
  assumes "claims_step\<^sup>*\<^sup>* cs cs'" and "claims_inv cs" and "c \<in> set cs" and "d \<in> set cs"
    and "wc_route_id d = wc_route_id c" and "wc_fencing_token c < wc_fencing_token d"
  shows "spec_change f cs' (wc_id c) token now = Inl WCE_Fenced"
proof -
  have inv: "claims_inv cs'" by (rule claims_reach_inv [OF assms(1,2)])
  obtain c' where c': "c' \<in> set cs'" "evolves c c'" using claims_reach_evolves [OF assms(1-3)] by blast
  obtain d' where d': "d' \<in> set cs'" "evolves d d'" using claims_reach_evolves [OF assms(1,2,4)] by blast
  have "wc_status c' \<noteq> WcActive"
  proof
    assume "wc_status c' = WcActive"
    with inv c'(1) d'(1) have "wc_route_id d' = wc_route_id c' \<Longrightarrow> wc_fencing_token d' \<le> wc_fencing_token c'"
      by (auto simp: claims_inv_def)
    with c'(2) d'(2) assms(5,6) show False by (auto simp: evolves_def)
  qed
  moreover have "find (with_id (wc_id c)) cs' = Some c'"
    using find_Some_unique [of wc_id cs' c'] inv c' by (simp add: claims_inv_def evolves_def)
  ultimately show ?thesis
    by (simp add: spec_change_def is_current_def)
qed


section \<open>The repository contract\<close>

text \<open>
  A repository refines the contract when each operation that succeeds makes the step of the
  specification and returns its claim, and each one that fails leaves the claims as they were. The
  first argument of \<open>claim_op\<close> is the ID drawn by \<open>ClaimId::new\<close>.
\<close>

locale work_claim_repository =
  fixes good_wc :: "'s \<Rightarrow> bool"
    and claims :: "'s \<Rightarrow> WorkClaim list"
    and claim_op :: "ClaimId \<Rightarrow> 's \<Rightarrow> RouteId \<Rightarrow> ActorId \<Rightarrow> InstanceId \<Rightarrow> i64 \<Rightarrow> i64 \<Rightarrow> 's \<times> (WorkClaimError + WorkClaim)"
    and renew_op :: "'s \<Rightarrow> ClaimId \<Rightarrow> i64 \<Rightarrow> i64 \<Rightarrow> i64 \<Rightarrow> 's \<times> (WorkClaimError + WorkClaim)"
    and release_op :: "'s \<Rightarrow> ClaimId \<Rightarrow> i64 \<Rightarrow> i64 \<Rightarrow> 's \<times> (WorkClaimError + WorkClaim)"
    and complete_op :: "'s \<Rightarrow> ClaimId \<Rightarrow> i64 \<Rightarrow> i64 \<Rightarrow> 's \<times> (WorkClaimError + WorkClaim)"
  assumes wc_good_inv: "good_wc s \<Longrightarrow> claims_inv (claims s)"
    and claim_refines: "good_wc s \<Longrightarrow> claim_op i s r a w lease now = (s', Inr c) \<Longrightarrow>
      good_wc s' \<and> i \<notin> wc_id ` set (claims s) \<and> spec_claim i (claims s) r a w lease now = Inr (claims s', c)"
    and claim_failed: "good_wc s \<Longrightarrow> claim_op i s r a w lease now = (s', Inl e) \<Longrightarrow> s' = s"
    and renew_refines: "good_wc s \<Longrightarrow> renew_op s i token lease now = (s', Inr c) \<Longrightarrow>
      good_wc s' \<and> spec_renew (claims s) i token lease now = Inr (claims s', c)"
    and renew_failed: "good_wc s \<Longrightarrow> renew_op s i token lease now = (s', Inl e) \<Longrightarrow> s' = s"
    and release_refines: "good_wc s \<Longrightarrow> release_op s i token now = (s', Inr c) \<Longrightarrow>
      good_wc s' \<and> spec_transition WcReleased (claims s) i token now = Inr (claims s', c)"
    and release_failed: "good_wc s \<Longrightarrow> release_op s i token now = (s', Inl e) \<Longrightarrow> s' = s"
    and complete_refines: "good_wc s \<Longrightarrow> complete_op s i token now = (s', Inr c) \<Longrightarrow>
      good_wc s' \<and> spec_transition WcCompleted (claims s) i token now = Inr (claims s', c)"
    and complete_failed: "good_wc s \<Longrightarrow> complete_op s i token now = (s', Inl e) \<Longrightarrow> s' = s"
begin

lemma claim_simulates:
  "good_wc s \<Longrightarrow> claim_op i s r a w lease now = (s', x) \<Longrightarrow> good_wc s' \<and> claims_step\<^sup>*\<^sup>* (claims s) (claims s')"
  by (cases x) (auto dest: claim_failed claim_refines intro: r_into_rtranclp step_claim)

lemma renew_simulates:
  "good_wc s \<Longrightarrow> renew_op s i token lease now = (s', x) \<Longrightarrow> good_wc s' \<and> claims_step\<^sup>*\<^sup>* (claims s) (claims s')"
  by (cases x) (auto dest: renew_failed renew_refines intro: r_into_rtranclp step_renew)

lemma release_simulates:
  "good_wc s \<Longrightarrow> release_op s i token now = (s', x) \<Longrightarrow> good_wc s' \<and> claims_step\<^sup>*\<^sup>* (claims s) (claims s')"
  by (cases x) (auto dest: release_failed release_refines intro: r_into_rtranclp step_transition [of WcReleased])

lemma complete_simulates:
  "good_wc s \<Longrightarrow> complete_op s i token now = (s', x) \<Longrightarrow> good_wc s' \<and> claims_step\<^sup>*\<^sup>* (claims s) (claims s')"
  by (cases x) (auto dest: complete_failed complete_refines intro: r_into_rtranclp step_transition [of WcCompleted])

end

end
