(* ===== verification/Instance_Registry.thy ===== *)
theory Instance_Registry
  imports Instance_Keys
begin

text \<open>
  \<open>src/kernel/instance_registry.rs\<close>: registered instances, their bounded leases, and
  \<open>InstanceRegistryService\<close>. The repository trait is the locale
  \<open>instance_registry_repository\<close>.
\<close>

datatype InstanceRegistryError =
    IRE_AlreadyExists InstanceId
  | IRE_Expired InstanceId
  | IRE_InvalidEndpoint
  | IRE_InvalidLeaseDuration
  | IRE_InvalidStoredRecord
  | IRE_InvalidTimestamp
  | IRE_Key InstanceKeyError
  | IRE_NotFound InstanceId
  | IRE_Repository string
  | IRE_RevisionConflict InstanceId
  | IRE_Revoked InstanceId
  | IRE_UnknownService ActorId

definition DEFAULT_LEASE_SECONDS :: i64 where
  "DEFAULT_LEASE_SECONDS = 60"

definition MAX_LEASE_SECONDS :: i64 where
  "MAX_LEASE_SECONDS = 300"

definition MAX_ENDPOINT_LENGTH :: nat where
  "MAX_ENDPOINT_LENGTH = 2048"

record LeasePolicy =
  lp_duration_seconds :: i64

definition LeasePolicy_new :: "i64 \<Rightarrow> InstanceRegistryError + LeasePolicy" where
  "LeasePolicy_new duration_seconds =
     (if \<not> (1 \<le> duration_seconds \<and> duration_seconds \<le> MAX_LEASE_SECONDS)
      then Inl IRE_InvalidLeaseDuration
      else Inr \<lparr>lp_duration_seconds = duration_seconds\<rparr>)"

definition LeasePolicy_default :: LeasePolicy where
  "LeasePolicy_default = \<lparr>lp_duration_seconds = DEFAULT_LEASE_SECONDS\<rparr>"

record RegisteredInstance =
  ri_public_key :: InstancePublicKey
  ri_endpoint :: string
  ri_registered_at :: i64
  ri_lease_expires_at :: i64
  ri_lease_revision :: i64
  ri_revoked_at :: "i64 option"

definition validate_endpoint :: "string \<Rightarrow> InstanceRegistryError + string" where
  "validate_endpoint endpoint =
     (let endpoint = str_trim endpoint in
      if \<not> starts_with ''https://'' endpoint \<or> length endpoint > MAX_ENDPOINT_LENGTH
         \<or> length endpoint = length ''https://''
      then Inl IRE_InvalidEndpoint else Inr endpoint)"

definition RegisteredInstance_restore ::
  "InstancePublicKey \<Rightarrow> string \<Rightarrow> i64 \<Rightarrow> i64 \<Rightarrow> i64 \<Rightarrow> i64 option
   \<Rightarrow> InstanceRegistryError + RegisteredInstance" where
  "RegisteredInstance_restore public_key endpoint registered_at lease_expires_at lease_revision revoked_at =
     bind_result (validate_endpoint endpoint) (\<lambda>endpoint.
       if registered_at < 0 \<or> lease_expires_at \<le> registered_at \<or> lease_revision \<le> 0
          \<or> (case revoked_at of None \<Rightarrow> False | Some value \<Rightarrow> value < registered_at)
       then Inl IRE_InvalidStoredRecord
       else Inr \<lparr>ri_public_key = public_key, ri_endpoint = endpoint,
                 ri_registered_at = registered_at, ri_lease_expires_at = lease_expires_at,
                 ri_lease_revision = lease_revision, ri_revoked_at = revoked_at\<rparr>)"

definition RegisteredInstance_create ::
  "InstancePublicKey \<Rightarrow> string \<Rightarrow> i64 \<Rightarrow> i64 \<Rightarrow> InstanceRegistryError + RegisteredInstance" where
  "RegisteredInstance_create public_key endpoint registered_at lease_expires_at =
     RegisteredInstance_restore public_key endpoint registered_at lease_expires_at 1 None"

definition is_eligible_at :: "RegisteredInstance \<Rightarrow> i64 \<Rightarrow> bool" where
  "is_eligible_at r now \<longleftrightarrow>
     ri_revoked_at r = None \<and> now \<ge> ri_registered_at r \<and> now < ri_lease_expires_at r"

abbreviation ri_id :: "RegisteredInstance \<Rightarrow> InstanceId" where
  "ri_id r \<equiv> ipk_instance_id (ri_public_key r)"

text \<open>What \<open>restore\<close> guarantees of an instance it returns.\<close>

definition instance_wf :: "RegisteredInstance \<Rightarrow> bool" where
  "instance_wf r \<longleftrightarrow>
     validate_endpoint (ri_endpoint r) = Inr (ri_endpoint r) \<and>
     0 \<le> ri_registered_at r \<and> ri_registered_at r < ri_lease_expires_at r \<and>
     0 < ri_lease_revision r \<and>
     (case ri_revoked_at r of None \<Rightarrow> True | Some t \<Rightarrow> ri_registered_at r \<le> t)"

lemma validate_endpoint_idem: "validate_endpoint s = Inr t \<Longrightarrow> validate_endpoint t = Inr t"
  by (auto simp: validate_endpoint_def Let_def split: if_splits)

lemma RegisteredInstance_restore_Inr:
  "RegisteredInstance_restore k e r l v d = Inr x \<Longrightarrow>
     instance_wf x \<and> ri_public_key x = k \<and> ri_registered_at x = r \<and> ri_lease_expires_at x = l \<and>
     ri_lease_revision x = v \<and> ri_revoked_at x = d"
  by (auto simp: RegisteredInstance_restore_def instance_wf_def validate_endpoint_idem
      split: if_splits option.splits)

lemma RegisteredInstance_restore_wf [simp]:
  "instance_wf r \<Longrightarrow>
   RegisteredInstance_restore (ri_public_key r) (ri_endpoint r) (ri_registered_at r)
     (ri_lease_expires_at r) (ri_lease_revision r) (ri_revoked_at r) = Inr r"
  by (auto simp: RegisteredInstance_restore_def instance_wf_def split: option.splits)


section \<open>The service\<close>

definition validate_registry_timestamp :: "i64 \<Rightarrow> InstanceRegistryError + unit" where
  "validate_registry_timestamp timestamp =
     (if timestamp < 0 then Inl IRE_InvalidTimestamp else Inr ())"

definition register_verified ::
  "LeasePolicy \<Rightarrow> ('s \<Rightarrow> RegisteredInstance \<Rightarrow> 's \<times> (InstanceRegistryError + unit)) \<Rightarrow>
   's \<Rightarrow> InstancePublicKey \<Rightarrow> string \<Rightarrow> i64 \<Rightarrow> 's \<times> (InstanceRegistryError + RegisteredInstance)" where
  "register_verified policy repo_insert s public_key endpoint now =
     (case bind_result (validate_registry_timestamp now) (\<lambda>_.
             bind_result (ok_or IRE_InvalidTimestamp (checked_add now (lp_duration_seconds policy)))
               (\<lambda>expires_at. RegisteredInstance_create public_key endpoint now expires_at)) of
        Inl e \<Rightarrow> (s, Inl e)
      | Inr instance \<Rightarrow>
          (case repo_insert s instance of
             (s', Inl e) \<Rightarrow> (s', Inl e)
           | (s', Inr _) \<Rightarrow> (s', Inr instance)))"

definition find_eligible ::
  "('s \<Rightarrow> InstanceId \<Rightarrow> InstanceRegistryError + RegisteredInstance option) \<Rightarrow>
   's \<Rightarrow> InstanceId \<Rightarrow> i64 \<Rightarrow> InstanceRegistryError + RegisteredInstance" where
  "find_eligible repo_find s instance_id now =
     bind_result (validate_registry_timestamp now) (\<lambda>_.
     bind_result (repo_find s instance_id) (\<lambda>r.
     bind_result (ok_or (IRE_NotFound instance_id) r) (\<lambda>instance.
       if ri_revoked_at instance \<noteq> None then Inl (IRE_Revoked instance_id)
       else if \<not> is_eligible_at instance now then Inl (IRE_Expired instance_id)
       else Inr instance)))"

definition InstanceRegistryService_renew ::
  "LeasePolicy \<Rightarrow>
   ('s \<Rightarrow> InstanceId \<Rightarrow> i64 \<Rightarrow> i64 \<Rightarrow> i64 \<Rightarrow> 's \<times> (InstanceRegistryError + RegisteredInstance)) \<Rightarrow>
   's \<Rightarrow> InstanceId \<Rightarrow> i64 \<Rightarrow> i64 \<Rightarrow> 's \<times> (InstanceRegistryError + RegisteredInstance)" where
  "InstanceRegistryService_renew policy repo_renew s instance_id expected_revision now =
     (case bind_result (validate_registry_timestamp now) (\<lambda>_.
             if expected_revision \<le> 0 then Inl (IRE_RevisionConflict instance_id)
             else ok_or IRE_InvalidTimestamp (checked_add now (lp_duration_seconds policy))) of
        Inl e \<Rightarrow> (s, Inl e)
      | Inr expires_at \<Rightarrow> repo_renew s instance_id expected_revision now expires_at)"

definition InstanceRegistryService_revoke ::
  "('s \<Rightarrow> InstanceId \<Rightarrow> i64 \<Rightarrow> 's \<times> (InstanceRegistryError + RegisteredInstance)) \<Rightarrow>
   's \<Rightarrow> InstanceId \<Rightarrow> i64 \<Rightarrow> 's \<times> (InstanceRegistryError + RegisteredInstance)" where
  "InstanceRegistryService_revoke repo_revoke s instance_id now =
     (case validate_registry_timestamp now of
        Inl e \<Rightarrow> (s, Inl e)
      | Inr _ \<Rightarrow> repo_revoke s instance_id now)"

lemma validate_registry_timestamp_Inr [simp]:
  "validate_registry_timestamp t = Inr u \<longleftrightarrow> 0 \<le> t"
  by (auto simp: validate_registry_timestamp_def)

text \<open>
  The laws of \<open>InstanceRegistryRepository\<close>: an insert is what find returns afterwards; a
  renewal succeeds only on the stored revision, inside the lease and before any revocation, and
  replaces exactly the lease and the revision; a revocation sets \<open>revoked_at\<close> once; a failed
  operation leaves every instance as it was.
\<close>

locale instance_registry_repository =
  fixes good_reg :: "'s \<Rightarrow> bool"
    and key_ok :: "InstancePublicKey \<Rightarrow> bool"
    and insert_op :: "'s \<Rightarrow> RegisteredInstance \<Rightarrow> 's \<times> (InstanceRegistryError + unit)"
    and find_op :: "'s \<Rightarrow> InstanceId \<Rightarrow> InstanceRegistryError + RegisteredInstance option"
    and renew_op :: "'s \<Rightarrow> InstanceId \<Rightarrow> i64 \<Rightarrow> i64 \<Rightarrow> i64 \<Rightarrow>
        's \<times> (InstanceRegistryError + RegisteredInstance)"
    and revoke_op :: "'s \<Rightarrow> InstanceId \<Rightarrow> i64 \<Rightarrow> 's \<times> (InstanceRegistryError + RegisteredInstance)"
  assumes reg_insert: "good_reg s \<Longrightarrow> instance_wf x \<Longrightarrow> key_ok (ri_public_key x) \<Longrightarrow> ri_revoked_at x = None \<Longrightarrow>
      insert_op s x = (s', Inr u) \<Longrightarrow> good_reg s' \<and> find_op s' i = (if i = ri_id x then Inr (Some x) else find_op s i)"
    and reg_renew: "good_reg s \<Longrightarrow> t < e \<Longrightarrow> renew_op s i v t e = (s', Inr y) \<Longrightarrow>
      good_reg s' \<and>
      (\<exists>x. find_op s i = Inr (Some x) \<and> ri_lease_revision x = v \<and> is_eligible_at x t \<and>
           y = x\<lparr>ri_lease_expires_at := e, ri_lease_revision := v + 1\<rparr>) \<and>
      find_op s' j = (if j = i then Inr (Some y) else find_op s j)"
    and reg_revoke: "good_reg s \<Longrightarrow> revoke_op s i t = (s', Inr y) \<Longrightarrow>
      good_reg s' \<and>
      (\<exists>x. find_op s i = Inr (Some x) \<and> ri_revoked_at x = None \<and> y = x\<lparr>ri_revoked_at := Some t\<rparr>) \<and>
      find_op s' j = (if j = i then Inr (Some y) else find_op s j)"
    and reg_renew_error: "good_reg s \<Longrightarrow> renew_op s i v t e = (s', Inl err) \<Longrightarrow> s' = s"
    and reg_revoke_error: "good_reg s \<Longrightarrow> revoke_op s i t = (s', Inl err) \<Longrightarrow> s' = s"
begin

lemma registered_is_eligible:
  assumes "good_reg s" and "key_ok k"
    and reg: "register_verified p insert_op s k ep now = (s', Inr x)"
    and "now \<le> t" and "t < now + lp_duration_seconds p"
  shows "find_eligible find_op s' (ipk_instance_id k) t = Inr x"
proof -
  from reg obtain u where x: "RegisteredInstance_create k ep now (now + lp_duration_seconds p) = Inr x"
    and ins: "insert_op s x = (s', Inr u)" and "0 \<le> now"
    by (auto simp: register_verified_def split: sum.splits prod.splits)
  from RegisteredInstance_restore_Inr [OF x [unfolded RegisteredInstance_create_def]]
  have xs: "instance_wf x" "ri_public_key x = k" "ri_registered_at x = now"
    "ri_lease_expires_at x = now + lp_duration_seconds p" "ri_revoked_at x = None"
    by auto
  from reg_insert [OF assms(1) xs(1) _ xs(5) ins, of "ipk_instance_id k"] assms(2) xs \<open>0 \<le> now\<close> assms(4,5)
  show ?thesis
    by (auto simp: find_eligible_def is_eligible_at_def validate_registry_timestamp_def)
qed

text \<open>After a renewal, the revision it was given is no longer renewable.\<close>

lemma renew_revision_consumed:
  assumes "good_reg s" and "t < e" and ren: "renew_op s i v t e = (s', Inr y)" and "t' < e'"
  shows "renew_op s' i v t' e' \<noteq> (s'', Inr z)"
proof
  assume again: "renew_op s' i v t' e' = (s'', Inr z)"
  from reg_renew [OF assms(1,2) ren, of i] have "good_reg s'" and f: "find_op s' i = Inr (Some y)"
    and "ri_lease_revision y = v + 1"
    by auto
  with reg_renew [OF _ assms(4) again, of i] show False by auto
qed

text \<open>After a revocation the instance is never eligible, renewable or revocable again.\<close>

lemma revoked_not_eligible:
  assumes "good_reg s" and "revoke_op s i t = (s', Inr y)" and "0 \<le> t'"
  shows "find_eligible find_op s' i t' = Inl (IRE_Revoked i)"
  using reg_revoke [OF assms(1,2), of i] assms(3)
  by (auto simp: find_eligible_def validate_registry_timestamp_def)

lemma revoked_not_renewable:
  assumes "good_reg s" and "revoke_op s i t = (s', Inr y)" and "t' < e'"
  shows "renew_op s' i v t' e' \<noteq> (s'', Inr z)"
  using reg_revoke [OF assms(1,2), of i] reg_renew [OF _ assms(3), of s' i v s'' z i]
  by (auto simp: is_eligible_at_def)

end

end
