(* ===== verification/Database.thy ===== *)
theory Database
  imports Work_Claims Instance_Registry "HOL-Library.Product_Lexorder"
begin

text \<open>
  The PostgreSQL state behind the adapters of \<open>src/infrastructure\<close>: one record of tables,
  each the list of its rows, with the columns the adapters read or write. \<open>uuid\<close> columns carry
  the typed IDs (their text form is rendered and parsed back by \<open>$n::text::uuid\<close> and
  \<open>id::text\<close>, which is the identity on them), \<open>text\<close>, \<open>bytea\<close> and
  \<open>bigint\<close> columns carry strings, bytes and integers. The \<open>CHECK\<close> constraints,
  unique indexes, foreign keys and triggers of \<open>migrations/*.sql\<close> that an adapter's
  statement can run into are predicates next to that adapter's model.
\<close>

section \<open>Rows\<close>

record identity_row =
  idr_id :: ActorId
  idr_kind :: string
  idr_display_name :: string
  idr_status :: string

record instance_row =
  sir_instance_id :: InstanceId
  sir_service_id :: ActorId
  sir_endpoint :: string
  sir_registered_at :: i64
  sir_lease_expires_at :: i64
  sir_lease_revision :: i64
  sir_revoked_at :: "i64 option"

record instance_key_row =
  sik_key_id :: KeyId
  sik_instance_id :: InstanceId
  sik_algorithm :: string
  sik_public_key :: bytes
  sik_fingerprint :: bytes
  sik_valid_from :: i64
  sik_revoked_at :: "i64 option"

record registry_audit_row =
  sia_service_id :: ActorId
  sia_instance_id :: InstanceId
  sia_key_id :: KeyId
  sia_action :: string
  sia_lease_revision :: i64
  sia_recorded_at :: i64

record subscription_row =
  sbr_id :: SubscriptionId
  sbr_service_id :: ActorId
  sbr_event_type :: string
  sbr_delivery_mode :: string
  sbr_created_at :: i64
  sbr_disabled_at :: "i64 option"

record subscription_audit_row =
  sba_subscription_id :: SubscriptionId
  sba_service_id :: ActorId
  sba_event_type :: string
  sba_delivery_mode :: string
  sba_action :: string
  sba_recorded_at :: i64

record request_id_row =
  rir_service_id :: ActorId
  rir_request_id :: Uuid
  rir_request_fingerprint :: bytes
  rir_first_seen_at :: i64

record nonce_row =
  nr_key_id :: KeyId
  nr_nonce_digest :: bytes
  nr_service_id :: ActorId
  nr_instance_id :: InstanceId
  nr_request_id :: Uuid
  nr_request_fingerprint :: bytes
  nr_signature_created :: i64
  nr_signature_expires :: i64
  nr_reserved_at :: i64

record replay_audit_row =
  rpa_service_id :: ActorId
  rpa_instance_id :: InstanceId
  rpa_key_id :: KeyId
  rpa_request_id :: Uuid
  rpa_nonce_digest :: bytes
  rpa_request_fingerprint :: bytes
  rpa_outcome :: string
  rpa_recorded_at :: i64

record admission_row =
  amr_service_id :: ActorId
  amr_communication_enabled :: bool
  amr_revision :: i64
  amr_updated_at :: i64

record accepted_request_row =
  arr_source_service_id :: ActorId
  arr_request_id :: RequestId
  arr_action :: string
  arr_scope :: string
  arr_artifact_schema_version_id :: SchemaVersionId
  arr_permission_policy_schema_version_id :: SchemaVersionId
  arr_semantic_fingerprint :: bytes
  arr_accepted_at :: i64

record acceptance_audit_row =
  aar_source_service_id :: ActorId
  aar_request_id :: RequestId
  aar_attempted_action :: string
  aar_attempted_scope :: string
  aar_attempted_artifact_schema_version_id :: SchemaVersionId
  aar_attempted_permission_policy_schema_version_id :: SchemaVersionId
  aar_attempted_fingerprint :: bytes
  aar_outcome :: string

record grant_row =
  agr_grant_id :: GrantId
  agr_source_service_id :: ActorId
  agr_action :: string
  agr_scope :: string
  agr_artifact_schema_version_id :: SchemaVersionId
  agr_permission_policy_schema_version_id :: SchemaVersionId
  agr_destination_service_id :: "ActorId option"
  agr_valid_from :: i64
  agr_valid_until :: "i64 option"
  agr_revoked_at :: "i64 option"

record schema_version_row =
  svw_schema_version_id :: SchemaVersionId
  svw_kind :: string
  svw_name :: string
  svw_version :: i64
  svw_owner_service_id :: ActorId
  svw_content_digest :: bytes
  svw_predecessor_id :: "SchemaVersionId option"
  svw_published_at :: i64
  svw_status :: string

record decision_row =
  adr_decision_id :: DecisionId
  adr_source_service_id :: ActorId
  adr_action :: string
  adr_scope :: string
  adr_artifact_schema_version_id :: SchemaVersionId
  adr_permission_policy_schema_version_id :: SchemaVersionId
  adr_destination_service_id :: "ActorId option"
  adr_verdict :: string
  adr_evaluator_service_id :: ActorId
  adr_policy_bundle_version :: "string option"
  adr_decided_at :: i64

record route_row =
  rrw_route_id :: RouteId
  rrw_source_service_id :: ActorId
  rrw_request_id :: RequestId
  rrw_subscription_id :: SubscriptionId
  rrw_destination_service_id :: ActorId
  rrw_created_at :: i64

record work_claim_row =
  wcr_claim_id :: ClaimId
  wcr_route_id :: RouteId
  wcr_worker_service_id :: ActorId
  wcr_worker_instance_id :: InstanceId
  wcr_fencing_token :: i64
  wcr_status :: string
  wcr_claimed_at :: i64
  wcr_lease_expires_at :: i64

record binding_row =
  ebr_service_id :: ActorId
  ebr_namespace :: string
  ebr_service_account :: string
  ebr_service_account_uid :: string
  ebr_enabled :: bool

record enrollment_challenge_row =
  ecr_challenge_digest :: bytes
  ecr_service_id :: ActorId
  ecr_expires_at :: i64
  ecr_consumed_at :: "i64 option"

record handshake_challenge_row =
  hcr_challenge_digest :: bytes
  hcr_kernel_instance_id :: InstanceId
  hcr_target_instance_id :: InstanceId
  hcr_target_key_id :: KeyId
  hcr_issued_at :: i64
  hcr_expires_at :: i64
  hcr_consumed_at :: "i64 option"

record handshake_row =
  hsr_challenge_digest :: bytes
  hsr_kernel_instance_id :: InstanceId
  hsr_target_instance_id :: InstanceId
  hsr_target_key_id :: KeyId
  hsr_verified_at :: i64
  hsr_expires_at :: i64

record handshake_audit_row =
  hsa_challenge_digest :: bytes
  hsa_kernel_instance_id :: InstanceId
  hsa_target_instance_id :: InstanceId
  hsa_action :: string
  hsa_recorded_at :: i64


section \<open>The database\<close>

record Db =
  identities :: "identity_row list"
  service_instances :: "instance_row list"
  service_instance_keys :: "instance_key_row list"
  service_instance_registry_audit :: "registry_audit_row list"
  service_enrollment_bindings :: "binding_row list"
  service_enrollment_challenges :: "enrollment_challenge_row list"
  subscriptions :: "subscription_row list"
  subscription_audit :: "subscription_audit_row list"
  service_instance_handshake_challenges :: "handshake_challenge_row list"
  service_instance_handshakes :: "handshake_row list"
  service_instance_handshake_audit :: "handshake_audit_row list"
  service_request_ids :: "request_id_row list"
  service_request_nonces :: "nonce_row list"
  service_request_replay_audit :: "replay_audit_row list"
  service_communication_admission :: "admission_row list"
  accepted_requests :: "accepted_request_row list"
  request_acceptance_audit :: "acceptance_audit_row list"
  authority_grants :: "grant_row list"
  authority_schema_versions :: "schema_version_row list"
  authority_decisions :: "decision_row list"
  request_routes :: "route_row list"
  work_claims :: "work_claim_row list"

definition empty_db :: Db where
  "empty_db =
     \<lparr>identities = [], service_instances = [], service_instance_keys = [],
      service_instance_registry_audit = [], service_enrollment_bindings = [],
      service_enrollment_challenges = [], subscriptions = [], subscription_audit = [],
      service_instance_handshake_challenges = [], service_instance_handshakes = [],
      service_instance_handshake_audit = [], service_request_ids = [], service_request_nonces = [],
      service_request_replay_audit = [], service_communication_admission = [],
      accepted_requests = [], request_acceptance_audit = [], authority_grants = [],
      authority_schema_versions = [], authority_decisions = [], request_routes = [],
      work_claims = []\<rparr>"

text \<open>The driver's own message for a statement the database rejects is not modelled further.\<close>

definition db_error :: string where
  "db_error = ''db error''"

text \<open>A reference \<open>REFERENCES t (k)\<close> holds when a row of \<open>t\<close> has the key.\<close>

definition fk :: "('r \<Rightarrow> 'k) \<Rightarrow> 'r list \<Rightarrow> 'k \<Rightarrow> bool" where
  "fk key rs k \<longleftrightarrow> list_ex (\<lambda>r. key r = k) rs"

lemma fk_iff: "fk key rs k \<longleftrightarrow> k \<in> key ` set rs"
  by (auto simp: fk_def list_ex_iff)

text \<open>
  Text checks of the migrations. PostgreSQL accepts no NUL byte in a \<open>text\<close> value;
  \<open>btrim\<close> removes spaces only.
\<close>

definition sql_text :: "string \<Rightarrow> bool" where
  "sql_text s \<longleftrightarrow> CHR 0x00 \<notin> set s"

definition btrim :: "string \<Rightarrow> string" where
  "btrim s = rev (dropWhile (\<lambda>c. c = CHR '' '') (rev (dropWhile (\<lambda>c. c = CHR '' '') s)))"

definition length_between :: "nat \<Rightarrow> nat \<Rightarrow> string \<Rightarrow> bool" where
  "length_between lo hi s \<longleftrightarrow> lo \<le> chars_count s \<and> chars_count s \<le> hi"

text \<open>The pattern \<open>^[a-z][a-z0-9_-]*(\.[a-z][a-z0-9_-]*)+$\<close> with at most 200 characters.\<close>

definition action_check :: "string \<Rightarrow> bool" where
  "action_check s \<longleftrightarrow>
     sql_text s \<and> length_between 3 200 s \<and>
     (case split_on (CHR ''.'') s of
        a # b # cs \<Rightarrow> list_all valid_event_segment (a # b # cs) | _ \<Rightarrow> False)"

text \<open>The pattern \<open>^[a-z][a-z0-9_-]*(\.[a-z][a-z0-9_-]*)*$\<close>.\<close>

definition event_type_check :: "string \<Rightarrow> bool" where
  "event_type_check s \<longleftrightarrow>
     sql_text s \<and> length_between 1 200 s \<and> list_all valid_event_segment (split_on (CHR ''.'') s)"

definition scope_check :: "string \<Rightarrow> bool" where
  "scope_check s \<longleftrightarrow> sql_text s \<and> length_between 1 200 s \<and> s = btrim s"

lemma visible_sql_text: "list_all visible s \<Longrightarrow> sql_text s"
  by (auto simp: list_all_iff sql_text_def visible_def in_byte_range_def byte_val_def)

text \<open>What the constructors of the domain types let through passes the checks, except a scope with
  a NUL byte.\<close>

lemma chars_count_visible: "list_all visible s \<Longrightarrow> chars_count s = length s"
  by (induction s) (auto simp: chars_count_def visible_def in_byte_range_def)

lemma split_on_length_2:
  assumes "split_on d s = a # b # cs" and "a \<noteq> []" and "b \<noteq> []"
  shows "3 \<le> length s"
proof -
  have len: "length s = length (concat (split_on d s)) + length (split_on d s) - 1" for s
  proof (induction s)
    case Nil
    then show ?case by simp
  next
    case (Cons x s)
    obtain p ps where "split_on d s = p # ps" by (metis split_on_not_Nil neq_Nil_conv)
    with Cons show ?case by auto
  qed
  from assms(2,3) have "1 \<le> length a" "1 \<le> length b" by (simp_all add: Suc_le_eq)
  then show ?thesis using len [of s] assms(1) by simp
qed

lemma action_check_valid:
  assumes "is_valid_action_name s"
  shows "action_check s"
proof -
  have vis: "list_all visible s" by (rule action_name_visible [OF assms])
  obtain a b cs where sp: "split_on (CHR ''.'') s = a # b # cs" and len: "length s \<le> 200"
    using assms
    by (auto simp: is_valid_action_name_def MAX_ACTION_NAME_LENGTH_def split: if_splits list.splits)
  have seg: "list_all valid_event_segment (a # b # cs)"
    using action_segments [OF assms] sp by (auto simp: action_segment_event_segment list_all_iff)
  then have "a \<noteq> []" and "b \<noteq> []" by auto
  from split_on_length_2 [OF sp this] have "3 \<le> length s" .
  with vis len seg sp show ?thesis
    by (simp add: action_check_def visible_sql_text length_between_def chars_count_visible)
qed


section \<open>A populated database\<close>

text \<open>
  A small database in which service 1 has had a request accepted and routed to service 2, which
  subscribes to its action and runs instance 10. The concrete instances of the theorems evaluate
  the operations on it.
\<close>

definition sample_action :: string where
  "sample_action = ''billing.invoice.submit''"

definition sample_db :: Db where
  "sample_db = empty_db
     \<lparr>identities :=
        [\<lparr>idr_id = ActorId 0, idr_kind = ''service'', idr_display_name = ''kernel'', idr_status = ''active''\<rparr>,
         \<lparr>idr_id = ActorId 1, idr_kind = ''service'', idr_display_name = ''billing'', idr_status = ''active''\<rparr>,
         \<lparr>idr_id = ActorId 2, idr_kind = ''worker'', idr_display_name = ''ledger'', idr_status = ''active''\<rparr>],
      service_instances :=
        [\<lparr>sir_instance_id = InstanceId 10, sir_service_id = ActorId 2, sir_endpoint = ''https://ledger'',
          sir_registered_at = 100, sir_lease_expires_at = 160, sir_lease_revision = 1,
          sir_revoked_at = None\<rparr>],
      service_instance_keys :=
        [\<lparr>sik_key_id = KeyId 11, sik_instance_id = InstanceId 10, sik_algorithm = ''ed25519'',
          sik_public_key = replicate 32 (CHR 0x07), sik_fingerprint = replicate 32 (CHR 0x08),
          sik_valid_from = 100, sik_revoked_at = None\<rparr>],
      service_communication_admission :=
        [\<lparr>amr_service_id = ActorId 2, amr_communication_enabled = True, amr_revision = 1, amr_updated_at = 90\<rparr>],
      authority_schema_versions :=
        [\<lparr>svw_schema_version_id = NO_ARTIFACT_SCHEMA_VERSION, svw_kind = ''artifact'',
          svw_name = ''kernel.no-artifact'', svw_version = 1, svw_owner_service_id = ActorId 0,
          svw_content_digest = replicate 32 (CHR 0x01), svw_predecessor_id = None,
          svw_published_at = 0, svw_status = ''active''\<rparr>,
         \<lparr>svw_schema_version_id = NO_ARTIFACT_PERMISSION_POLICY_SCHEMA_VERSION,
          svw_kind = ''permission_policy'', svw_name = ''kernel.no-artifact-permission-policy'',
          svw_version = 1, svw_owner_service_id = ActorId 0,
          svw_content_digest = replicate 32 (CHR 0x02), svw_predecessor_id = None,
          svw_published_at = 0, svw_status = ''active''\<rparr>],
      subscriptions :=
        [\<lparr>sbr_id = SubscriptionId 20, sbr_service_id = ActorId 2, sbr_event_type = sample_action,
          sbr_delivery_mode = ''inclusive'', sbr_created_at = 100, sbr_disabled_at = None\<rparr>],
      accepted_requests :=
        [\<lparr>arr_source_service_id = ActorId 1, arr_request_id = RequestId 30, arr_action = sample_action,
          arr_scope = ''invoice'', arr_artifact_schema_version_id = NO_ARTIFACT_SCHEMA_VERSION,
          arr_permission_policy_schema_version_id = NO_ARTIFACT_PERMISSION_POLICY_SCHEMA_VERSION,
          arr_semantic_fingerprint = replicate 32 (CHR 0x05), arr_accepted_at = 110\<rparr>],
      request_routes :=
        [\<lparr>rrw_route_id = RouteId 40, rrw_source_service_id = ActorId 1, rrw_request_id = RequestId 30,
          rrw_subscription_id = SubscriptionId 20, rrw_destination_service_id = ActorId 2,
          rrw_created_at = 111\<rparr>]\<rparr>"

end
