(* ===== verification/Pg_Work_Claims.thy ===== *)
theory Pg_Work_Claims
  imports Database
begin

text \<open>
  \<open>src/infrastructure/postgres_work_claim_repository.rs\<close> on the tables of \<open>Database\<close>,
  with the constraints and the trigger of migration 0017. Each operation runs in one transaction:
  the argument \<open>io\<close> says which statement fails, in source order. The interpretation
  \<open>pgwc\<close> shows that the adapter refines the contract of \<open>Work_Claims\<close>.
\<close>

section \<open>Rows and constraints\<close>

definition status_from_sql :: "string \<Rightarrow> WorkClaimError + WorkClaimStatus" where
  "status_from_sql value =
     (if value = ''active'' then Inr WcActive
      else if value = ''completed'' then Inr WcCompleted
      else if value = ''released'' then Inr WcReleased
      else if value = ''expired'' then Inr WcExpired
      else Inl (WCE_Repository (''unknown stored work claim status: '' @ value)))"

definition claim_from_row :: "work_claim_row \<Rightarrow> WorkClaimError + WorkClaim" where
  "claim_from_row row =
     bind_result (status_from_sql (wcr_status row)) (\<lambda>status.
       map_err (\<lambda>_. WCE_Repository ''stored work claim is invalid'')
         (WorkClaim_restore (wcr_claim_id row) (wcr_route_id row) (wcr_worker_service_id row)
            (wcr_worker_instance_id row) (wcr_fencing_token row) status (wcr_claimed_at row)
            (wcr_lease_expires_at row)))"

text \<open>The \<open>CHECK\<close> constraints of \<open>work_claims\<close>.\<close>

definition work_claims_check :: "work_claim_row \<Rightarrow> bool" where
  "work_claims_check r \<longleftrightarrow>
     1 \<le> wcr_fencing_token r \<and> in_i64 (wcr_fencing_token r) \<and>
     wcr_status r \<in> set [''active'', ''completed'', ''released'', ''expired''] \<and>
     0 \<le> wcr_claimed_at r \<and> wcr_claimed_at r < wcr_lease_expires_at r"

text \<open>Primary key, \<open>UNIQUE (route_id, fencing_token)\<close>, the partial unique index on active
  claims, and the three foreign keys.\<close>

definition work_claims_insert_ok :: "Db \<Rightarrow> work_claim_row \<Rightarrow> bool" where
  "work_claims_insert_ok db n \<longleftrightarrow>
     work_claims_check n \<and>
     list_all (\<lambda>r. wcr_claim_id r \<noteq> wcr_claim_id n) (work_claims db) \<and>
     list_all (\<lambda>r. \<not> (wcr_route_id r = wcr_route_id n \<and> wcr_fencing_token r = wcr_fencing_token n))
       (work_claims db) \<and>
     (wcr_status n = ''active'' \<longrightarrow>
        list_all (\<lambda>r. \<not> (wcr_route_id r = wcr_route_id n \<and> wcr_status r = ''active'')) (work_claims db)) \<and>
     fk rrw_route_id (request_routes db) (wcr_route_id n) \<and>
     fk idr_id (identities db) (wcr_worker_service_id n) \<and>
     fk sir_instance_id (service_instances db) (wcr_worker_instance_id n)"

text \<open>The trigger \<open>protect_work_claim()\<close> on an update of one row.\<close>

definition protect_work_claim :: "work_claim_row \<Rightarrow> work_claim_row \<Rightarrow> bool" where
  "protect_work_claim old new \<longleftrightarrow>
     wcr_claim_id new = wcr_claim_id old \<and> wcr_route_id new = wcr_route_id old \<and>
     wcr_worker_service_id new = wcr_worker_service_id old \<and>
     wcr_worker_instance_id new = wcr_worker_instance_id old \<and>
     wcr_fencing_token new = wcr_fencing_token old \<and> wcr_claimed_at new = wcr_claimed_at old \<and>
     wcr_status old = ''active'' \<and>
     (if wcr_status new = ''active'' then wcr_lease_expires_at new > wcr_lease_expires_at old
      else wcr_lease_expires_at new = wcr_lease_expires_at old)"

text \<open>\<open>UPDATE work_claims SET ... WHERE claim_id = $1\<close>: \<open>None\<close> when the trigger or a
  check rejects a row. (The unique indexes cannot be hit: the trigger keeps their columns and lets
  only active rows change.)\<close>

definition update_work_claims ::
  "ClaimId \<Rightarrow> (work_claim_row \<Rightarrow> work_claim_row) \<Rightarrow> Db \<Rightarrow> Db option" where
  "update_work_claims i f db =
     (if list_all (\<lambda>r. wcr_claim_id r = i \<longrightarrow> protect_work_claim r (f r) \<and> work_claims_check (f r))
           (work_claims db)
      then Some (db\<lparr>work_claims := update_where (\<lambda>r. wcr_claim_id r = i) f (work_claims db)\<rparr>)
      else None)"


section \<open>The operations\<close>

abbreviation claim_stmt ::
  "faults \<Rightarrow> nat \<Rightarrow> Db \<Rightarrow> Db \<times> (WorkClaimError + 'a) \<Rightarrow> Db \<times> (WorkClaimError + 'a)" where
  "claim_stmt io k db rest \<equiv> db_stmt io k WCE_Repository db rest"

text \<open>Insertion of the new row with \<open>RETURNING\<close>, decoding, commit (statements 5 and 6).\<close>

definition insert_claim ::
  "faults \<Rightarrow> ClaimId \<Rightarrow> Db \<Rightarrow> Db \<Rightarrow> RouteId \<Rightarrow> ActorId \<Rightarrow> InstanceId \<Rightarrow> i64 \<Rightarrow> i64 \<Rightarrow> i64
   \<Rightarrow> Db \<times> (WorkClaimError + WorkClaim)" where
  "insert_claim io new_id before db route_id worker_service worker_instance next_fencing_token
      lease_expires_at now =
     (let n = \<lparr>wcr_claim_id = new_id, wcr_route_id = route_id, wcr_worker_service_id = worker_service,
               wcr_worker_instance_id = worker_instance, wcr_fencing_token = next_fencing_token,
               wcr_status = ''active'', wcr_claimed_at = now, wcr_lease_expires_at = lease_expires_at\<rparr>
      in claim_stmt io 5 before
           (if \<not> work_claims_insert_ok db n then (before, Inl (WCE_Repository db_error))
            else case claim_from_row n of
                Inl e \<Rightarrow> (before, Inl e)
              | Inr claim \<Rightarrow>
                  claim_stmt io 6 before (db\<lparr>work_claims := work_claims db @ [n]\<rparr>, Inr claim)))"

definition pg_claim ::
  "faults \<Rightarrow> ClaimId \<Rightarrow> Db \<Rightarrow> RouteId \<Rightarrow> ActorId \<Rightarrow> InstanceId \<Rightarrow> i64 \<Rightarrow> i64
   \<Rightarrow> Db \<times> (WorkClaimError + WorkClaim)" where
  "pg_claim io new_id db route_id worker_service worker_instance lease_expires_at now =
     claim_stmt io 0 db (claim_stmt io 1 db (claim_stmt io 2 db (
       let owns_route =
         (case find (\<lambda>r. rrw_route_id r = route_id) (request_routes db) of
            Some row \<Rightarrow> rrw_destination_service_id row = worker_service
          | None \<Rightarrow> False)
       in if \<not> owns_route then (db, Inl (WCE_RouteNotFound route_id))
          else claim_stmt io 3 db (
            case transpose_option (map_option claim_from_row
                   (top_by wcr_fencing_token (filter (\<lambda>r. wcr_route_id r = route_id) (work_claims db)))) of
              Inl e \<Rightarrow> (db, Inl e)
            | Inr None \<Rightarrow>
                insert_claim io new_id db db route_id worker_service worker_instance 1 lease_expires_at now
            | Inr (Some claim) \<Rightarrow>
                if is_current claim now then (db, Inl (WCE_AlreadyClaimed route_id))
                else if wc_status claim = WcCompleted then (db, Inl (WCE_AlreadyCompleted route_id))
                else if wc_status claim = WcActive then
                  claim_stmt io 4 db (
                    case update_work_claims (wc_id claim) (\<lambda>r. r\<lparr>wcr_status := ''expired''\<rparr>) db of
                      None \<Rightarrow> (db, Inl (WCE_Repository db_error))
                    | Some db' \<Rightarrow>
                        insert_claim io new_id db db' route_id worker_service worker_instance
                          (wrapping_add (wc_fencing_token claim) 1) lease_expires_at now)
                else insert_claim io new_id db db route_id worker_service worker_instance
                       (wrapping_add (wc_fencing_token claim) 1) lease_expires_at now))))"

definition lock_current ::
  "Db \<Rightarrow> ClaimId \<Rightarrow> i64 \<Rightarrow> i64 \<Rightarrow> WorkClaimError + WorkClaim" where
  "lock_current db claim_id fencing_token now =
     bind_result (ok_or (WCE_NotFound claim_id) (find (\<lambda>r. wcr_claim_id r = claim_id) (work_claims db)))
       (\<lambda>row. bind_result (claim_from_row row) (\<lambda>claim.
          if wc_fencing_token claim \<noteq> fencing_token \<or> \<not> is_current claim now then Inl WCE_Fenced
          else Inr claim))"

text \<open>Update of the locked row with \<open>RETURNING\<close>, decoding, commit (statements 3 and 4).\<close>

definition update_locked ::
  "faults \<Rightarrow> Db \<Rightarrow> ClaimId \<Rightarrow> i64 \<Rightarrow> i64 \<Rightarrow> (work_claim_row \<Rightarrow> work_claim_row)
   \<Rightarrow> Db \<times> (WorkClaimError + WorkClaim)" where
  "update_locked io db claim_id fencing_token now f =
     claim_stmt io 0 db (claim_stmt io 1 db (claim_stmt io 2 db (
       case lock_current db claim_id fencing_token now of
         Inl e \<Rightarrow> (db, Inl e)
       | Inr current \<Rightarrow>
           claim_stmt io 3 db (
             case update_work_claims (wc_id current) f db of
               None \<Rightarrow> (db, Inl (WCE_Repository db_error))
             | Some db' \<Rightarrow>
                 (case find (\<lambda>r. wcr_claim_id r = wc_id current) (work_claims db') of
                    None \<Rightarrow> (db, Inl (WCE_Repository db_error))
                  | Some row \<Rightarrow>
                      (case claim_from_row row of
                         Inl e \<Rightarrow> (db, Inl e)
                       | Inr claim \<Rightarrow> claim_stmt io 4 db (db', Inr claim)))))))"

definition pg_renew ::
  "faults \<Rightarrow> Db \<Rightarrow> ClaimId \<Rightarrow> i64 \<Rightarrow> i64 \<Rightarrow> i64 \<Rightarrow> Db \<times> (WorkClaimError + WorkClaim)" where
  "pg_renew io db claim_id fencing_token lease_expires_at now =
     update_locked io db claim_id fencing_token now (\<lambda>r. r\<lparr>wcr_lease_expires_at := lease_expires_at\<rparr>)"

definition pg_transition ::
  "faults \<Rightarrow> string \<Rightarrow> Db \<Rightarrow> ClaimId \<Rightarrow> i64 \<Rightarrow> i64 \<Rightarrow> Db \<times> (WorkClaimError + WorkClaim)" where
  "pg_transition io status db claim_id fencing_token now =
     update_locked io db claim_id fencing_token now (\<lambda>r. r\<lparr>wcr_status := status\<rparr>)"

definition pg_release ::
  "faults \<Rightarrow> Db \<Rightarrow> ClaimId \<Rightarrow> i64 \<Rightarrow> i64 \<Rightarrow> Db \<times> (WorkClaimError + WorkClaim)" where
  "pg_release io db claim_id fencing_token now = pg_transition io ''released'' db claim_id fencing_token now"

definition pg_complete ::
  "faults \<Rightarrow> Db \<Rightarrow> ClaimId \<Rightarrow> i64 \<Rightarrow> i64 \<Rightarrow> Db \<times> (WorkClaimError + WorkClaim)" where
  "pg_complete io db claim_id fencing_token now = pg_transition io ''completed'' db claim_id fencing_token now"

definition pg_find_claim :: "faults \<Rightarrow> Db \<Rightarrow> ClaimId \<Rightarrow> WorkClaimError + WorkClaim option" where
  "pg_find_claim io db claim_id =
     snd (claim_stmt io 0 db (claim_stmt io 1 db
       (db, transpose_option (map_option claim_from_row
              (find (\<lambda>r. wcr_claim_id r = claim_id) (work_claims db))))))"

definition pg_active_route_ids ::
  "faults \<Rightarrow> Db \<Rightarrow> RouteId list \<Rightarrow> i64 \<Rightarrow> WorkClaimError + RouteId set" where
  "pg_active_route_ids io db route_ids now =
     (if route_ids = [] then Inr {}
      else snd (claim_stmt io 0 db (claim_stmt io 1 db
        (db, Inr (set (map wcr_route_id (filter (\<lambda>r.
               wcr_route_id r \<in> set route_ids \<and> wcr_status r = ''active'' \<and> wcr_lease_expires_at r > now)
               (work_claims db))))))))"

definition pg_completed_route_ids ::
  "faults \<Rightarrow> Db \<Rightarrow> RouteId list \<Rightarrow> WorkClaimError + RouteId set" where
  "pg_completed_route_ids io db route_ids =
     (if route_ids = [] then Inr {}
      else snd (claim_stmt io 0 db (claim_stmt io 1 db
        (db, Inr (set (map wcr_route_id (filter (\<lambda>r.
               wcr_route_id r \<in> set route_ids \<and> wcr_status r = ''completed'')
               (work_claims db))))))))"


section \<open>Refinement of the contract\<close>

definition row_claim :: "work_claim_row \<Rightarrow> WorkClaim" where
  "row_claim r =
     \<lparr>wc_id = wcr_claim_id r, wc_route_id = wcr_route_id r, wc_worker_service = wcr_worker_service_id r,
      wc_worker_instance = wcr_worker_instance_id r, wc_fencing_token = wcr_fencing_token r,
      wc_status = (case status_from_sql (wcr_status r) of Inr st \<Rightarrow> st | Inl _ \<Rightarrow> WcExpired),
      wc_claimed_at = wcr_claimed_at r, wc_lease_expires_at = wcr_lease_expires_at r\<rparr>"

definition pg_claims :: "Db \<Rightarrow> WorkClaim list" where
  "pg_claims db = map row_claim (work_claims db)"

definition good_claims :: "Db \<Rightarrow> bool" where
  "good_claims db \<longleftrightarrow> list_all work_claims_check (work_claims db) \<and> claims_inv (pg_claims db)"

lemma row_claim_simps [simp]:
  "wc_id (row_claim r) = wcr_claim_id r" "wc_route_id (row_claim r) = wcr_route_id r"
  "wc_worker_service (row_claim r) = wcr_worker_service_id r"
  "wc_fencing_token (row_claim r) = wcr_fencing_token r"
  "wc_lease_expires_at (row_claim r) = wcr_lease_expires_at r"
  by (simp_all add: row_claim_def)

lemma row_claim_status [simp]:
  "wc_status (row_claim r) = WcActive \<longleftrightarrow> wcr_status r = ''active''"
  "wc_status (row_claim r) = WcCompleted \<longleftrightarrow> wcr_status r = ''completed''"
  by (auto simp: row_claim_def status_from_sql_def split: sum.splits if_splits)

lemma claim_from_row_check: "work_claims_check r \<Longrightarrow> claim_from_row r = Inr (row_claim r)"
  by (auto simp: work_claims_check_def claim_from_row_def status_from_sql_def WorkClaim_restore_def
      row_claim_def)

lemma row_claim_updates:
  "row_claim (r\<lparr>wcr_status := ''expired''\<rparr>) = (row_claim r)\<lparr>wc_status := WcExpired\<rparr>"
  "row_claim (r\<lparr>wcr_status := ''released''\<rparr>) = (row_claim r)\<lparr>wc_status := WcReleased\<rparr>"
  "row_claim (r\<lparr>wcr_status := ''completed''\<rparr>) = (row_claim r)\<lparr>wc_status := WcCompleted\<rparr>"
  "row_claim (r\<lparr>wcr_lease_expires_at := t\<rparr>) = (row_claim r)\<lparr>wc_lease_expires_at := t\<rparr>"
  by (simp_all add: row_claim_def status_from_sql_def)

lemma good_claims_row: "good_claims db \<Longrightarrow> r \<in> set (work_claims db) \<Longrightarrow> work_claims_check r"
  by (simp add: good_claims_def list_all_iff)

lemma pg_latest_claim:
  assumes "good_claims db"
  shows "transpose_option (map_option claim_from_row
      (top_by wcr_fencing_token (filter (\<lambda>r. wcr_route_id r = i) (work_claims db)))) =
    Inr (latest_claim (pg_claims db) i)"
proof -
  let ?t = "top_by wcr_fencing_token (filter (\<lambda>r. wcr_route_id r = i) (work_claims db))"
  have l: "latest_claim (pg_claims db) i = map_option row_claim ?t"
    by (simp add: latest_claim_def pg_claims_def filter_map o_def top_by_map)
  show ?thesis
  proof (cases ?t)
    case None
    with l show ?thesis by simp
  next
    case (Some r)
    then have "r \<in> set (work_claims db)" using top_by_Some by fastforce
    with Some l show ?thesis
      by (simp add: claim_from_row_check good_claims_row [OF assms])
  qed
qed

lemma pg_find_row: "find (with_id i) (pg_claims db) = map_option row_claim (find (\<lambda>r. wcr_claim_id r = i) (work_claims db))"
  by (simp add: pg_claims_def find_map_proj)

lemma update_work_claims_Some:
  assumes "good_claims db" and "update_work_claims i f db = Some db'"
    and "\<And>r. r \<in> set (work_claims db) \<Longrightarrow> row_claim (f r) = g (row_claim r)"
  shows "db' = db\<lparr>work_claims := work_claims db'\<rparr>" and "list_all work_claims_check (work_claims db')"
    and "pg_claims db' = update_where (with_id i) g (pg_claims db)"
proof -
  from assms(2) have ok: "\<And>r. r \<in> set (work_claims db) \<Longrightarrow> wcr_claim_id r = i \<Longrightarrow> work_claims_check (f r)"
    and db': "db' = db\<lparr>work_claims := update_where (\<lambda>r. wcr_claim_id r = i) f (work_claims db)\<rparr>"
    by (auto simp: update_work_claims_def list_all_iff split: if_splits)
  show "db' = db\<lparr>work_claims := work_claims db'\<rparr>" unfolding db' by simp
  show "list_all work_claims_check (work_claims db')"
    using ok good_claims_row [OF assms(1)] by (auto simp: db' list_all_iff set_update_where)
  show "pg_claims db' = update_where (with_id i) g (pg_claims db)"
    unfolding pg_claims_def db' using assms(3) by (simp add: map_update_where_proj)
qed

lemma lock_current_spec:
  assumes "good_claims db"
  shows "lock_current db i token now =
    (case find (with_id i) (pg_claims db) of
       None \<Rightarrow> Inl (WCE_NotFound i)
     | Some c \<Rightarrow> if wc_fencing_token c \<noteq> token \<or> \<not> is_current c now then Inl WCE_Fenced else Inr c)"
proof (cases "find (\<lambda>r. wcr_claim_id r = i) (work_claims db)")
  case None
  then show ?thesis by (simp add: lock_current_def pg_find_row)
next
  case (Some r)
  then have "work_claims_check r" using find_SomeD good_claims_row [OF assms] by fastforce
  with Some show ?thesis
    by (simp add: lock_current_def pg_find_row claim_from_row_check)
qed

lemma update_locked_refines:
  assumes good: "good_claims db" and ok: "update_locked io db i token now f = (db', Inr c)"
    and proj: "\<And>r. row_claim (f r) = g (row_claim r)" and keep: "\<And>r. wcr_claim_id (f r) = wcr_claim_id r"
  shows "db' = db\<lparr>work_claims := work_claims db'\<rparr> \<and> list_all work_claims_check (work_claims db') \<and>
     spec_change g (pg_claims db) i token now = Inr (pg_claims db', c)"
proof -
  from ok obtain d row where lock: "lock_current db i token now = Inr d"
    and upd: "update_work_claims (wc_id d) f db = Some db'"
    and row: "find (\<lambda>r. wcr_claim_id r = wc_id d) (work_claims db') = Some row" "claim_from_row row = Inr c"
    by (auto simp: update_locked_def split: sum.splits option.splits)
  from lock have d: "find (with_id i) (pg_claims db) = Some d" "wc_fencing_token d = token" "is_current d now"
    by (auto simp: lock_current_spec [OF good] split: option.splits if_splits)
  then have di: "wc_id d = i" using find_SomeD by fastforce
  note u = update_work_claims_Some [OF good upd proj]
  have "work_claims_check row" using u(2) find_SomeD [OF row(1)] by (auto simp: list_all_iff)
  with row(2) have c: "c = row_claim row" by (simp add: claim_from_row_check)
  have "\<And>r. r \<in> set (pg_claims db) \<Longrightarrow> with_id i r \<Longrightarrow> with_id i (g r)"
    using proj keep by (auto simp: pg_claims_def) (metis row_claim_simps(1))
  then have "find (with_id i) (pg_claims db') = Some (g d)"
    unfolding u(3) di by (simp add: find_update_where d)
  with row(1) di c have "c = g d" by (simp add: pg_find_row)
  with d u di show ?thesis by (simp add: spec_change_def)
qed

text \<open>What the success of \<open>insert_claim\<close> says.\<close>

lemma insert_claim_Inr:
  assumes "insert_claim io i before db r a w token lease now = (db', Inr c)"
    and "list_all work_claims_check (work_claims db)"
  shows "db' = db\<lparr>work_claims := work_claims db'\<rparr> \<and> list_all work_claims_check (work_claims db') \<and>
     c = new_claim i r a w token lease now \<and> pg_claims db' = pg_claims db @ [c] \<and>
     i \<notin> wc_id ` set (pg_claims db) \<and> 1 \<le> token"
proof -
  define n where "n = \<lparr>wcr_claim_id = i, wcr_route_id = r, wcr_worker_service_id = a,
               wcr_worker_instance_id = w, wcr_fencing_token = token,
               wcr_status = ''active'', wcr_claimed_at = now, wcr_lease_expires_at = lease\<rparr>"
  from assms(1) have ok: "work_claims_insert_ok db n" and c: "claim_from_row n = Inr c"
    and db': "db' = db\<lparr>work_claims := work_claims db @ [n]\<rparr>"
    by (auto simp: insert_claim_def Let_def n_def [symmetric] split: if_splits sum.splits)
  from ok have chk: "work_claims_check n" and new: "list_all (\<lambda>r. wcr_claim_id r \<noteq> i) (work_claims db)"
    by (auto simp: work_claims_insert_ok_def n_def)
  have cn: "c = row_claim n" using c claim_from_row_check [OF chk] by simp
  moreover have "row_claim n = new_claim i r a w token lease now"
    by (simp add: n_def row_claim_def new_claim_def status_from_sql_def)
  moreover have "1 \<le> token" using chk by (simp add: work_claims_check_def n_def)
  ultimately show ?thesis
    using assms(2) chk new by (auto simp: db' pg_claims_def list_all_iff)
qed

lemma pg_claim_refines:
  assumes good: "good_claims db" and ok: "pg_claim io i db r a w lease now = (db', Inr c)"
  shows "db' = db\<lparr>work_claims := work_claims db'\<rparr> \<and> list_all work_claims_check (work_claims db') \<and>
     i \<notin> wc_id ` set (pg_claims db) \<and>
     spec_claim i (pg_claims db) r a w lease now = Inr (pg_claims db', c)"
proof -
  have chk: "list_all work_claims_check (work_claims db)" using good by (simp add: good_claims_def)
  show ?thesis
  proof (cases "latest_claim (pg_claims db) r")
    case None
    with ok have ins: "insert_claim io i db db r a w 1 lease now = (db', Inr c)"
      by (auto simp: pg_claim_def pg_latest_claim [OF good] Let_def split: if_splits)
    from insert_claim_Inr [OF ins chk] None show ?thesis
      by (simp add: spec_claim_def)
  next
    case (Some d)
    note d = latest_claim_Some [OF this]
    from ok Some have cur: "\<not> is_current d now" "wc_status d \<noteq> WcCompleted"
      by (auto simp: pg_claim_def pg_latest_claim [OF good] Let_def split: if_splits)
    obtain row where row: "row \<in> set (work_claims db)" "d = row_claim row"
      using d(1) by (auto simp: pg_claims_def)
    then have "in_i64 (wc_fencing_token d)" "1 \<le> wc_fencing_token d"
      using good_claims_row [OF good row(1)] by (simp_all add: work_claims_check_def)
    then have wrap: "wrapping_add (wc_fencing_token d) 1 = wc_fencing_token d + 1"
      if "1 \<le> wrapping_add (wc_fencing_token d) 1"
      using that by (intro wrapping_add_1_pos)
    show ?thesis
    proof (cases "wc_status d = WcActive")
      case True
      with ok Some cur obtain db1 where
        upd: "update_work_claims (wc_id d) (\<lambda>r. r\<lparr>wcr_status := ''expired''\<rparr>) db = Some db1"
        and ins: "insert_claim io i db db1 r a w (wrapping_add (wc_fencing_token d) 1) lease now = (db', Inr c)"
        by (auto simp: pg_claim_def pg_latest_claim [OF good] Let_def split: if_splits option.splits)
      note u = update_work_claims_Some [OF good upd row_claim_updates(1)]
      note ins' = insert_claim_Inr [OF ins u(2)]
      have ids: "wc_id ` set (pg_claims db1) = wc_id ` set (pg_claims db)"
        unfolding u(3) set_update_where image_image by (intro image_cong) auto
      have "db' = db\<lparr>work_claims := work_claims db'\<rparr>"
        using ins' u(1) by (metis (no_types, lifting) Db.surjective Db.update_convs(22))
      with ins' ids wrap Some cur True u(3) show ?thesis
        by (simp add: spec_claim_def expire_claim_def)
    next
      case False
      with ok Some cur
      have ins: "insert_claim io i db db r a w (wrapping_add (wc_fencing_token d) 1) lease now = (db', Inr c)"
        by (auto simp: pg_claim_def pg_latest_claim [OF good] Let_def split: if_splits)
      from insert_claim_Inr [OF ins chk] wrap Some cur False show ?thesis
        by (simp add: spec_claim_def expire_claim_def)
    qed
  qed
qed

lemma insert_claim_Inl: "insert_claim io i before db r a w token lease now = (db', Inl e) \<Longrightarrow> db' = before"
  by (auto simp: insert_claim_def Let_def split: if_splits sum.splits db_stmt_splits)

lemma pg_claim_Inl: "pg_claim io i db r a w lease now = (db', Inl e) \<Longrightarrow> db' = db"
  by (auto simp: pg_claim_def Let_def split: if_splits sum.splits option.splits db_stmt_splits
      dest: insert_claim_Inl)

lemma update_locked_Inl: "update_locked io db i token now f = (db', Inl e) \<Longrightarrow> db' = db"
  by (auto simp: update_locked_def split: if_splits sum.splits option.splits db_stmt_splits)

lemmas pg_change_defs = pg_renew_def pg_release_def pg_complete_def pg_transition_def

interpretation pgwc: work_claim_repository good_claims pg_claims "pg_claim io" "pg_renew io"
  "pg_release io" "pg_complete io" for io
proof
  fix s s' i r a w lease now token c e
  show "claims_inv (pg_claims s)" if "good_claims s" using that by (simp add: good_claims_def)
  show "good_claims s' \<and> i \<notin> wc_id ` set (pg_claims s) \<and>
      spec_claim i (pg_claims s) r a w lease now = Inr (pg_claims s', c)"
    if "good_claims s" "pg_claim io i s r a w lease now = (s', Inr c)"
    using pg_claim_refines [OF that] that(1)
    by (auto simp: good_claims_def intro: spec_claim_inv)
  show "s' = s" if "pg_claim io i s r a w lease now = (s', Inl e)" using pg_claim_Inl [OF that] .
  show "good_claims s' \<and> spec_renew (pg_claims s) i token lease now = Inr (pg_claims s', c)"
    if "good_claims s" "pg_renew io s i token lease now = (s', Inr c)"
    using update_locked_refines [OF that(1) that(2) [unfolded pg_change_defs] row_claim_updates(4)] that(1)
    by (auto simp: good_claims_def spec_renew_def intro: spec_change_inv)
  show "s' = s" if "pg_renew io s i token lease now = (s', Inl e)"
    using update_locked_Inl [OF that [unfolded pg_change_defs]] .
  show "good_claims s' \<and> spec_transition WcReleased (pg_claims s) i token now = Inr (pg_claims s', c)"
    if "good_claims s" "pg_release io s i token now = (s', Inr c)"
    using update_locked_refines [OF that(1) that(2) [unfolded pg_change_defs] row_claim_updates(2)] that(1)
    by (auto simp: good_claims_def spec_transition_def intro: spec_change_inv)
  show "s' = s" if "pg_release io s i token now = (s', Inl e)"
    using update_locked_Inl [OF that [unfolded pg_change_defs]] .
  show "good_claims s' \<and> spec_transition WcCompleted (pg_claims s) i token now = Inr (pg_claims s', c)"
    if "good_claims s" "pg_complete io s i token now = (s', Inr c)"
    using update_locked_refines [OF that(1) that(2) [unfolded pg_change_defs] row_claim_updates(3)] that(1)
    by (auto simp: good_claims_def spec_transition_def intro: spec_change_inv)
  show "s' = s" if "pg_complete io s i token now = (s', Inl e)"
    using update_locked_Inl [OF that [unfolded pg_change_defs]] .
qed


section \<open>Runs of the service over the database\<close>

text \<open>One step of the running system: an operation of \<open>WorkClaimService\<close>, with any
  arguments, any fresh ID and any statement failing, or any change of the database that leaves the
  table \<open>work_claims\<close> alone, which every other adapter does.\<close>

inductive work_claims_run :: "Db \<Rightarrow> Db \<Rightarrow> bool" where
  run_claim: "WorkClaimService_claim (pg_claim io i) db r a w lease now = (db', x) \<Longrightarrow> work_claims_run db db'"
| run_renew: "WorkClaimService_renew (pg_renew io) db c token lease now = (db', x) \<Longrightarrow> work_claims_run db db'"
| run_release: "WorkClaimService_release (pg_release io) db c token now = (db', x) \<Longrightarrow> work_claims_run db db'"
| run_complete: "WorkClaimService_complete (pg_complete io) db c token now = (db', x) \<Longrightarrow> work_claims_run db db'"
| run_other: "work_claims db' = work_claims db \<Longrightarrow> work_claims_run db db'"

lemma good_claims_cong: "work_claims db' = work_claims db \<Longrightarrow> pg_claims db' = pg_claims db \<and> good_claims db' = good_claims db"
  by (simp add: good_claims_def pg_claims_def)

lemma good_claims_empty [simp]: "good_claims empty_db"
  by (simp add: good_claims_def pg_claims_def empty_db_def claims_inv_Nil)

lemma work_claims_run_simulates:
  "work_claims_run db db' \<Longrightarrow> good_claims db \<Longrightarrow>
     good_claims db' \<and> claims_step\<^sup>*\<^sup>* (pg_claims db) (pg_claims db')"
proof (induction rule: work_claims_run.induct)
  case run_claim
  then show ?case
    by (auto simp: WorkClaimService_claim_def dest: pgwc.claim_simulates split: if_splits)
next
  case run_renew
  then show ?case
    by (auto simp: WorkClaimService_renew_def dest: pgwc.renew_simulates split: if_splits)
next
  case run_release
  then show ?case
    by (auto simp: WorkClaimService_release_def dest: pgwc.release_simulates split: if_splits)
next
  case run_complete
  then show ?case
    by (auto simp: WorkClaimService_complete_def dest: pgwc.complete_simulates split: if_splits)
next
  case (run_other db' db)
  from good_claims_cong [OF run_other(1)] run_other(2) show ?case by simp
qed

lemma work_claims_runs_simulate:
  assumes "work_claims_run\<^sup>*\<^sup>* db db'" and "good_claims db"
  shows "good_claims db' \<and> claims_step\<^sup>*\<^sup>* (pg_claims db) (pg_claims db')"
  using assms
  by (induction rule: rtranclp_induct) (auto dest: work_claims_run_simulates intro: rtranclp_trans)

lemma good_claims_reachable: "work_claims_run\<^sup>*\<^sup>* empty_db db \<Longrightarrow> good_claims db"
  using work_claims_runs_simulate by simp

lemma claims_inv_reachable: "work_claims_run\<^sup>*\<^sup>* empty_db db \<Longrightarrow> claims_inv (pg_claims db)"
  using good_claims_reachable by (simp add: good_claims_def)

lemma update_locked_fenced:
  assumes "good_claims db" and "spec_change g (pg_claims db) i token now = Inl WCE_Fenced"
  shows "update_locked no_faults db i token now f = (db, Inl WCE_Fenced)"
  using assms(2)
  by (auto simp: update_locked_def lock_current_spec [OF assms(1)] spec_change_def
      split: option.splits if_splits)

lemma pg_claim_completed:
  assumes "good_claims db" and "spec_claim i (pg_claims db) r a w lease now = Inl e"
    and "find (\<lambda>q. rrw_route_id q = r) (request_routes db) = Some row" and "rrw_destination_service_id row = a"
  shows "pg_claim no_faults i db r a w lease now = (db, Inl e)"
  using assms
  by (auto simp: pg_claim_def pg_latest_claim [OF assms(1)] spec_claim_def Let_def
      split: option.splits if_splits)

section \<open>Claims that succeed\<close>

text \<open>Nothing but a failing statement keeps a registered worker from claiming an open route of its
  service: the row meets every constraint.\<close>

lemma insert_claim_succeeds:
  assumes "work_claims_check n" and n: "n = \<lparr>wcr_claim_id = i, wcr_route_id = r, wcr_worker_service_id = a,
      wcr_worker_instance_id = w, wcr_fencing_token = token, wcr_status = ''active'', wcr_claimed_at = now,
      wcr_lease_expires_at = lease\<rparr>"
    and "i \<notin> wc_id ` set (pg_claims db)"
    and below: "\<And>c. c \<in> set (pg_claims db) \<Longrightarrow> wc_route_id c = r \<Longrightarrow> wc_fencing_token c < token \<and> wc_status c \<noteq> WcActive"
    and fks: "fk rrw_route_id (request_routes db) r" "fk idr_id (identities db) a" "fk sir_instance_id (service_instances db) w"
  shows "snd (insert_claim no_faults i before db r a w token lease now) = Inr (new_claim i r a w token lease now)"
proof -
  have "wcr_claim_id q \<noteq> i" if "q \<in> set (work_claims db)" for q
    using assms(3) that unfolding pg_claims_def by (auto simp: image_image)
  moreover have "wcr_fencing_token q < token \<and> wcr_status q \<noteq> ''active''"
    if "q \<in> set (work_claims db)" "wcr_route_id q = r" for q
    using below [of "row_claim q"] that by (simp add: pg_claims_def)
  ultimately have "work_claims_insert_ok db n"
    using assms(1) fks by (auto simp: work_claims_insert_ok_def list_all_iff n)
  moreover have "row_claim n = new_claim i r a w token lease now"
    by (simp add: n row_claim_def new_claim_def status_from_sql_def)
  ultimately show ?thesis
    using claim_from_row_check [OF assms(1)] unfolding insert_claim_def Let_def n [symmetric] by simp
qed

lemma expire_update_ok:
  assumes good: "good_claims db" and "d \<in> set (pg_claims db)" and "wc_status d = WcActive"
  shows "\<exists>db1. update_work_claims (wc_id d) (\<lambda>r. r\<lparr>wcr_status := ''expired''\<rparr>) db = Some db1"
proof -
  have "protect_work_claim q (q\<lparr>wcr_status := ''expired''\<rparr>) \<and> work_claims_check (q\<lparr>wcr_status := ''expired''\<rparr>)"
    if q: "q \<in> set (work_claims db)" "wcr_claim_id q = wc_id d" for q
  proof -
    have "row_claim q \<in> set (pg_claims db)" using q(1) by (simp add: pg_claims_def)
    then have "row_claim q = d"
      using claims_inv_id [of "pg_claims db" "row_claim q" d] assms(2) good q(2) by (simp add: good_claims_def)
    then have "wcr_status q = ''active''" using assms(3) row_claim_status(1) [of q] by simp
    with good_claims_row [OF good q(1)] show ?thesis
      by (simp add: protect_work_claim_def work_claims_check_def)
  qed
  then show ?thesis by (simp add: update_work_claims_def list_all_iff)
qed

lemma pg_claim_succeeds:
  assumes good: "good_claims db"
    and route: "find (\<lambda>q. rrw_route_id q = r) (request_routes db) = Some row" "rrw_destination_service_id row = a"
    and open_r: "\<And>c. c \<in> set (pg_claims db) \<Longrightarrow> wc_route_id c = r \<Longrightarrow> \<not> is_current c now \<and> wc_status c \<noteq> WcCompleted"
    and tokens: "\<And>c. c \<in> set (pg_claims db) \<Longrightarrow> wc_route_id c = r \<Longrightarrow> wc_fencing_token c < i64_max"
    and fresh: "i \<notin> wc_id ` set (pg_claims db)"
    and fks: "fk idr_id (identities db) a" "fk sir_instance_id (service_instances db) w"
    and times: "0 \<le> now" "now < lease"
  shows "\<exists>token. snd (pg_claim no_faults i db r a w lease now) = Inr (new_claim i r a w token lease now)"
proof -
  have rk: "fk rrw_route_id (request_routes db) r" using find_SomeD [OF route(1)] by (auto simp: fk_iff)
  have inv: "claims_inv (pg_claims db)" using good by (simp add: good_claims_def)
  let ?n = "\<lambda>token. \<lparr>wcr_claim_id = i, wcr_route_id = r, wcr_worker_service_id = a,
      wcr_worker_instance_id = w, wcr_fencing_token = token, wcr_status = ''active'', wcr_claimed_at = now,
      wcr_lease_expires_at = lease\<rparr>"
  have chk: "work_claims_check (?n token)" if "1 \<le> token" "token \<le> i64_max" for token
    using that times by (simp add: work_claims_check_def in_i64_def i64_min_def)
  show ?thesis
  proof (cases "latest_claim (pg_claims db) r")
    case None
    then have "snd (insert_claim no_faults i db db r a w 1 lease now) = Inr (new_claim i r a w 1 lease now)"
      by (intro insert_claim_succeeds [OF chk refl fresh] rk fks) (auto simp: latest_claim_None i64_max_def)
    with None route show ?thesis by (intro exI [of _ 1]) (simp add: pg_claim_def pg_latest_claim [OF good])
  next
    case (Some d)
    note d = latest_claim_Some [OF this]
    have d': "\<not> is_current d now" "wc_status d \<noteq> WcCompleted" "wc_fencing_token d < i64_max" "1 \<le> wc_fencing_token d"
      using open_r [OF d(1,2)] tokens [OF d(1,2)] inv d(1) by (auto simp: claims_inv_def)
    then have next_token: "wrapping_add (wc_fencing_token d) 1 = wc_fencing_token d + 1"
      by (intro wrapping_add_exact) (simp add: in_i64_interval i64_max_def)
    let ?token = "wc_fencing_token d + 1"
    have tok: "1 \<le> ?token" "?token \<le> i64_max" using d' by simp_all
    have top: "c = d" if "c \<in> set (pg_claims db)" "wc_route_id c = r" "wc_status c = WcActive" for c
      using latest_claim_top [OF inv that(1)] that(2,3) Some by simp
    have below: "wc_fencing_token c < ?token" if "c \<in> set (pg_claims db)" "wc_route_id c = r" for c
      using d(3) [OF that] by simp
    show ?thesis
    proof (cases "wc_status d = WcActive")
      case False
      then have "wc_status c \<noteq> WcActive" if "c \<in> set (pg_claims db)" "wc_route_id c = r" for c
        using top [OF that] by blast
      with below have "snd (insert_claim no_faults i db db r a w ?token lease now) = Inr (new_claim i r a w ?token lease now)"
        by (intro insert_claim_succeeds [OF chk refl fresh] rk fks tok) blast
      with Some route d' False show ?thesis
        by (intro exI [of _ ?token]) (simp add: pg_claim_def pg_latest_claim [OF good] next_token)
    next
      case True
      obtain db1 where upd: "update_work_claims (wc_id d) (\<lambda>r. r\<lparr>wcr_status := ''expired''\<rparr>) db = Some db1"
        using expire_update_ok [OF good d(1) True] by blast
      note u = update_work_claims_Some [OF good upd row_claim_updates(1)]
      have ids: "wc_id ` set (pg_claims db1) = wc_id ` set (pg_claims db)"
        unfolding u(3) set_update_where image_image by (intro image_cong) auto
      have open1: "wc_fencing_token c < ?token \<and> wc_status c \<noteq> WcActive"
        if "c \<in> set (pg_claims db1)" "wc_route_id c = r" for c
        using that below top unfolding u(3) set_update_where by (auto split: if_splits)
      have same: "request_routes db1 = request_routes db" "identities db1 = identities db"
        "service_instances db1 = service_instances db"
        by (subst u(1), simp)+
      have "snd (insert_claim no_faults i db db1 r a w ?token lease now) = Inr (new_claim i r a w ?token lease now)"
        by (rule insert_claim_succeeds [OF chk [OF tok] refl]) (use fresh rk fks open1 in \<open>auto simp: ids same\<close>)
      with Some route d' True upd show ?thesis
        by (intro exI [of _ ?token]) (simp add: pg_claim_def pg_latest_claim [OF good] next_token)
    qed
  qed
qed

end
