(* ===== verification/Claim_Properties.thy ===== *)
theory Claim_Properties
  imports Pg_Work_Claims
begin

text \<open>
  What ILK-011 promises, proved of the PostgreSQL adapter behind \<open>WorkClaimService\<close>: one
  active claim per route, fencing tokens that only grow, stale holders locked out, completion that
  is final. Each theorem holds for every sequence of operations, IDs, times and failing statements;
  each has an instance on the populated database.
\<close>

section \<open>A concrete history\<close>

text \<open>Route 40 is claimed at 120 until 150 under ID 50, and again at 155 until 180 under ID 51.\<close>

definition claimed_db :: Db where
  "claimed_db = fst (pg_claim no_faults (ClaimId 50) sample_db (RouteId 40) (ActorId 2) (InstanceId 10) 150 120)"

definition reclaimed_db :: Db where
  "reclaimed_db = fst (pg_claim no_faults (ClaimId 51) claimed_db (RouteId 40) (ActorId 2) (InstanceId 10) 180 155)"

definition first_claim :: WorkClaim where
  "first_claim = new_claim (ClaimId 50) (RouteId 40) (ActorId 2) (InstanceId 10) 1 150 120"

definition second_claim :: WorkClaim where
  "second_claim = new_claim (ClaimId 51) (RouteId 40) (ActorId 2) (InstanceId 10) 2 180 155"

definition completed_db :: Db where
  "completed_db = fst (pg_complete no_faults reclaimed_db (ClaimId 51) 2 160)"

lemma sample_claim:
  "pg_claim no_faults (ClaimId 50) sample_db (RouteId 40) (ActorId 2) (InstanceId 10) 150 120 =
     (claimed_db, Inr first_claim)"
  by code_simp

lemma sample_reclaim:
  "pg_claim no_faults (ClaimId 51) claimed_db (RouteId 40) (ActorId 2) (InstanceId 10) 180 155 =
     (reclaimed_db, Inr second_claim)"
  by code_simp

lemma sample_complete:
  "pg_complete no_faults reclaimed_db (ClaimId 51) 2 160 =
     (completed_db, Inr (second_claim\<lparr>wc_status := WcCompleted\<rparr>))"
  by code_simp

lemma claimed_claims: "pg_claims claimed_db = [first_claim]"
  by code_simp

lemma reclaimed_claims: "pg_claims reclaimed_db = [first_claim\<lparr>wc_status := WcExpired\<rparr>, second_claim]"
  by code_simp

lemma claimed_reachable: "work_claims_run\<^sup>*\<^sup>* empty_db claimed_db"
proof -
  have "work_claims_run empty_db sample_db" by (rule run_other) (simp add: sample_db_def)
  moreover have "work_claims_run sample_db claimed_db"
    by (rule run_claim [of no_faults "ClaimId 50" _ "RouteId 40" "ActorId 2" "InstanceId 10" 150 120])
      (simp add: WorkClaimService_claim_def sample_claim)
  ultimately show ?thesis by auto
qed

lemma reclaimed_step: "work_claims_run claimed_db reclaimed_db"
  by (rule run_claim [of no_faults "ClaimId 51" _ "RouteId 40" "ActorId 2" "InstanceId 10" 180 155])
    (simp add: WorkClaimService_claim_def sample_reclaim)

lemma reclaimed_reachable: "work_claims_run\<^sup>*\<^sup>* empty_db reclaimed_db"
  using claimed_reachable reclaimed_step by (rule rtranclp.rtrancl_into_rtrancl)

lemma completed_step: "work_claims_run reclaimed_db completed_db"
  by (rule run_complete [of no_faults _ "ClaimId 51" 2 160])
    (simp add: WorkClaimService_complete_def sample_complete)


section \<open>Mutual exclusion\<close>

text \<open>C2: In every database the service can reach, at most one claim of a route is active, and a
  route with a completed claim has no active one: two claims of a route that are active or
  completed are the same claim.\<close>

theorem at_most_one_active_claim:
  assumes "work_claims_run\<^sup>*\<^sup>* empty_db db"
    and "c \<in> set (pg_claims db)" and "d \<in> set (pg_claims db)" and "wc_route_id c = wc_route_id d"
    and "wc_status c \<in> {WcActive, WcCompleted}" and "wc_status d \<in> {WcActive, WcCompleted}"
  shows "c = d"
  using active_claim_unique [OF claims_inv_reachable [OF assms(1)] assms(2-6)] .

theorem at_most_one_active_claim_witness:
  "wc_status second_claim = WcActive \<and> pg_claims reclaimed_db ! 1 = second_claim"
proof -
  have c: "pg_claims reclaimed_db ! 1 \<in> set (pg_claims reclaimed_db)"
    and d: "second_claim \<in> set (pg_claims reclaimed_db)"
    and st: "wc_status second_claim = WcActive"
    by (simp_all add: reclaimed_claims) (simp add: second_claim_def)
  have "pg_claims reclaimed_db ! 1 = second_claim"
    by (rule at_most_one_active_claim [OF reclaimed_reachable c d]) (simp_all add: reclaimed_claims st)
  with st show ?thesis by simp
qed

text \<open>While a claim is current, nobody can claim its route: with a claim \<open>c\<close> on the
  route that is active with its lease running at \<open>now\<close>, a further claim at \<open>now\<close> by
  anyone, under any failure, never succeeds, and without failures the route's owner is told
  \<open>AlreadyClaimed\<close>; the database is unchanged.\<close>

theorem current_claim_excludes:
  assumes "work_claims_run\<^sup>*\<^sup>* empty_db db" and "c \<in> set (pg_claims db)" and "is_current c now"
  shows "fst (pg_claim io i db (wc_route_id c) a w lease now) = db \<and>
    snd (pg_claim io i db (wc_route_id c) a w lease now) \<noteq> Inr d \<and>
    (\<forall>row. find (\<lambda>q. rrw_route_id q = wc_route_id c) (request_routes db) = Some row \<longrightarrow>
       rrw_destination_service_id row = a \<longrightarrow>
       pg_claim no_faults i db (wc_route_id c) a w lease now = (db, Inl (WCE_AlreadyClaimed (wc_route_id c))))"
proof -
  note good = good_claims_reachable [OF assms(1)]
  have "latest_claim (pg_claims db) (wc_route_id c) = Some c"
    using latest_claim_top [OF claims_inv_reachable [OF assms(1)] assms(2)] assms(3)
    by (simp add: is_current_def)
  with assms(3) have spec: "spec_claim i (pg_claims db) (wc_route_id c) a w lease now =
      Inl (WCE_AlreadyClaimed (wc_route_id c))" for i a w lease
    by (simp add: spec_claim_def)
  obtain db' x where p: "pg_claim io i db (wc_route_id c) a w lease now = (db', x)"
    by (cases "pg_claim io i db (wc_route_id c) a w lease now") auto
  have "\<exists>e. x = Inl e"
  proof (cases x)
    case (Inr b)
    with pgwc.claim_refines [OF good, of io i "wc_route_id c" a w lease now db' b] p spec
    show ?thesis by simp
  qed simp
  then have "db' = db" and "x \<noteq> Inr d" using p pgwc.claim_failed [OF good] by auto
  with p show ?thesis using pg_claim_completed [OF good spec] by auto
qed

theorem current_claim_excludes_witness:
  "pg_claim no_faults (ClaimId 51) claimed_db (RouteId 40) (ActorId 2) (InstanceId 10) 180 130 =
     (claimed_db, Inl (WCE_AlreadyClaimed (RouteId 40)))"
proof -
  have "first_claim \<in> set (pg_claims claimed_db)" and "is_current first_claim 130"
    and r: "wc_route_id first_claim = RouteId 40"
    by (simp_all add: claimed_claims) (simp_all add: first_claim_def new_claim_def is_current_def)
  note ex = current_claim_excludes [OF claimed_reachable this(1,2), where io = no_faults and a = "ActorId 2"]
  have "find (\<lambda>q. rrw_route_id q = RouteId 40) (request_routes claimed_db) =
      Some (hd (request_routes claimed_db)) \<and>
      rrw_destination_service_id (hd (request_routes claimed_db)) = ActorId 2"
    by code_simp
  with ex [unfolded r] show ?thesis by blast
qed


section \<open>Fencing\<close>

text \<open>A successful claim returns an active claim of the route, for that worker, until the lease
  it asked for, whose fencing token is one more than the highest token the route ever had (and 1 on
  an unclaimed route), so it exceeds every earlier token of the route.\<close>

theorem claim_token_increases:
  assumes "work_claims_run\<^sup>*\<^sup>* empty_db db"
    and "WorkClaimService_claim (pg_claim io i) db r a w lease now = (db', Inr c)"
  shows "c = new_claim i r a w (wc_fencing_token c) lease now \<and> c \<in> set (pg_claims db') \<and>
    (case latest_claim (pg_claims db) r of
       None \<Rightarrow> wc_fencing_token c = 1 | Some d \<Rightarrow> wc_fencing_token c = wc_fencing_token d + 1) \<and>
    (\<forall>d \<in> set (pg_claims db). wc_route_id d = r \<longrightarrow> wc_fencing_token d < wc_fencing_token c)"
proof -
  from assms(2) have "pg_claim io i db r a w lease now = (db', Inr c)"
    by (auto simp: WorkClaimService_claim_def split: if_splits)
  from pgwc.claim_refines [OF good_claims_reachable [OF assms(1)] this]
  have spec: "spec_claim i (pg_claims db) r a w lease now = Inr (pg_claims db', c)" by simp
  note tok = spec_claim_token [OF spec]
  show ?thesis
    using tok(1,2) tok(3) by (auto split: option.splits dest: tok(4))
qed

theorem claim_token_increases_witness:
  "wc_fencing_token second_claim = 2 \<and> first_claim \<in> set (pg_claims claimed_db) \<and>
   wc_fencing_token first_claim < wc_fencing_token second_claim"
proof -
  have "WorkClaimService_claim (pg_claim no_faults (ClaimId 51)) claimed_db (RouteId 40) (ActorId 2)
      (InstanceId 10) 180 155 = (reclaimed_db, Inr second_claim)"
    by (simp add: WorkClaimService_claim_def sample_reclaim)
  from claim_token_increases [OF claimed_reachable this]
  have "\<forall>d \<in> set (pg_claims claimed_db). wc_route_id d = RouteId 40 \<longrightarrow>
      wc_fencing_token d < wc_fencing_token second_claim" by simp
  then show ?thesis
    by (simp add: claimed_claims) (simp add: first_claim_def second_claim_def new_claim_def)
qed

text \<open>C4: A superseded holder stays locked out. If a route has a claim with a higher token than
  \<open>c\<close>, then in every later database renewing, releasing or completing \<open>c\<close>, with whatever
  token, is \<open>Fenced\<close> and changes nothing.\<close>

theorem superseded_holder_fenced:
  assumes "work_claims_run\<^sup>*\<^sup>* empty_db db" and "work_claims_run\<^sup>*\<^sup>* db db'"
    and "c \<in> set (pg_claims db)" and "d \<in> set (pg_claims db)"
    and "wc_route_id d = wc_route_id c" and "wc_fencing_token c < wc_fencing_token d"
  shows "pg_renew no_faults db' (wc_id c) token lease now = (db', Inl WCE_Fenced) \<and>
    pg_release no_faults db' (wc_id c) token now = (db', Inl WCE_Fenced) \<and>
    pg_complete no_faults db' (wc_id c) token now = (db', Inl WCE_Fenced)"
proof -
  from work_claims_runs_simulate [OF assms(2) good_claims_reachable [OF assms(1)]]
  have good: "good_claims db'" and steps: "claims_step\<^sup>*\<^sup>* (pg_claims db) (pg_claims db')" by auto
  have "spec_change id (pg_claims db') (wc_id c) token now = Inl WCE_Fenced"
    by (rule superseded_fenced [OF steps claims_inv_reachable [OF assms(1)] assms(3-6)])
  from update_locked_fenced [OF good this] show ?thesis
    by (simp add: pg_change_defs)
qed

theorem superseded_holder_fenced_witness:
  "pg_complete no_faults completed_db (ClaimId 50) 1 170 = (completed_db, Inl WCE_Fenced)"
proof -
  have "work_claims_run\<^sup>*\<^sup>* reclaimed_db completed_db" using completed_step by auto
  from superseded_holder_fenced [OF reclaimed_reachable this, of "first_claim\<lparr>wc_status := WcExpired\<rparr>" second_claim]
  show ?thesis
    by (simp add: reclaimed_claims) (simp add: first_claim_def second_claim_def new_claim_def)
qed

text \<open>A lapsed lease alone locks the holder out: a claim whose lease has expired at \<open>now\<close>,
  or a token that is not the claim's, is \<open>Fenced\<close> on renew, release and complete, even before
  anyone else claims the route.\<close>

theorem lapsed_or_foreign_token_fenced:
  assumes "work_claims_run\<^sup>*\<^sup>* empty_db db" and "c \<in> set (pg_claims db)"
    and "wc_lease_expires_at c \<le> now \<or> token \<noteq> wc_fencing_token c"
  shows "pg_renew no_faults db (wc_id c) token lease now = (db, Inl WCE_Fenced) \<and>
    pg_release no_faults db (wc_id c) token now = (db, Inl WCE_Fenced) \<and>
    pg_complete no_faults db (wc_id c) token now = (db, Inl WCE_Fenced)"
proof -
  have "find (with_id (wc_id c)) (pg_claims db) = Some c"
    using find_Some_unique [of wc_id "pg_claims db" c] claims_inv_reachable [OF assms(1)] assms(2)
    by (simp add: claims_inv_def)
  with assms(3) have "spec_change id (pg_claims db) (wc_id c) token now = Inl WCE_Fenced"
    by (auto simp: spec_change_def is_current_def)
  from update_locked_fenced [OF good_claims_reachable [OF assms(1)] this] show ?thesis
    by (simp add: pg_change_defs)
qed

theorem lapsed_or_foreign_token_fenced_witness:
  "pg_complete no_faults claimed_db (ClaimId 50) 1 150 = (claimed_db, Inl WCE_Fenced)"
  using lapsed_or_foreign_token_fenced [OF claimed_reachable, of first_claim 150 1]
  by (simp add: claimed_claims) (simp add: first_claim_def new_claim_def)


section \<open>Finality\<close>

text \<open>C10: Completion is permanent. Once a claim is completed, it is still there, unchanged, in every
  later database, and its route can never be claimed again, whatever the time and whoever asks: no
  claim succeeds, and without failures the owner is told \<open>AlreadyCompleted\<close>.\<close>

theorem completion_is_permanent:
  assumes "work_claims_run\<^sup>*\<^sup>* empty_db db" and "work_claims_run\<^sup>*\<^sup>* db db'"
    and "c \<in> set (pg_claims db)" and "wc_status c = WcCompleted"
  shows "c \<in> set (pg_claims db') \<and>
    snd (pg_claim io i db' (wc_route_id c) a w lease now) \<noteq> Inr d \<and>
    (\<forall>row. find (\<lambda>q. rrw_route_id q = wc_route_id c) (request_routes db') = Some row \<longrightarrow>
       rrw_destination_service_id row = a \<longrightarrow>
       pg_claim no_faults i db' (wc_route_id c) a w lease now = (db', Inl (WCE_AlreadyCompleted (wc_route_id c))))"
proof -
  from work_claims_runs_simulate [OF assms(2) good_claims_reachable [OF assms(1)]]
  have good: "good_claims db'" and steps: "claims_step\<^sup>*\<^sup>* (pg_claims db) (pg_claims db')" by auto
  from completed_forever [OF steps claims_inv_reachable [OF assms(1)] assms(3,4)]
  have c: "c \<in> set (pg_claims db')"
    and spec: "spec_claim i (pg_claims db') (wc_route_id c) a w lease now = Inl (WCE_AlreadyCompleted (wc_route_id c))"
    for i a w lease by auto
  have "snd (pg_claim io i db' (wc_route_id c) a w lease now) \<noteq> Inr d"
    using pgwc.claim_refines [OF good, of io i "wc_route_id c" a w lease now _ d] spec
    by (cases "pg_claim io i db' (wc_route_id c) a w lease now") auto
  with c pg_claim_completed [OF good spec] show ?thesis by blast
qed

theorem completion_is_permanent_witness:
  "second_claim\<lparr>wc_status := WcCompleted\<rparr> \<in> set (pg_claims completed_db) \<and>
   pg_claim no_faults (ClaimId 52) completed_db (RouteId 40) (ActorId 2) (InstanceId 10) 9000 8000 =
     (completed_db, Inl (WCE_AlreadyCompleted (RouteId 40)))"
proof -
  have c: "second_claim\<lparr>wc_status := WcCompleted\<rparr> \<in> set (pg_claims completed_db)"
    and row: "find (\<lambda>q. rrw_route_id q = RouteId 40) (request_routes completed_db) =
      Some (hd (request_routes completed_db)) \<and>
      rrw_destination_service_id (hd (request_routes completed_db)) = ActorId 2"
    by code_simp+
  have "work_claims_run\<^sup>*\<^sup>* empty_db completed_db"
    using reclaimed_reachable completed_step by (rule rtranclp.rtrancl_into_rtrancl)
  from completion_is_permanent [OF this rtranclp.rtrancl_refl c, where a = "ActorId 2"] row
  show ?thesis using c by (simp add: second_claim_def new_claim_def)
qed

text \<open>Claim history is append-only. From any reachable database, every claim is still present in
  every later one with the same ID, route, worker, token and claim time, and unchanged altogether
  once it has left the active status.\<close>

theorem claim_history_append_only:
  assumes "work_claims_run\<^sup>*\<^sup>* empty_db db" and "work_claims_run\<^sup>*\<^sup>* db db'" and "c \<in> set (pg_claims db)"
  shows "\<exists>c' \<in> set (pg_claims db'). evolves c c'"
  using work_claims_runs_simulate [OF assms(2) good_claims_reachable [OF assms(1)]]
    claims_reach_evolves [OF _ claims_inv_reachable [OF assms(1)] assms(3)] by blast

theorem claim_history_append_only_witness:
  "\<exists>c' \<in> set (pg_claims reclaimed_db). evolves first_claim c'"
proof -
  have "work_claims_run\<^sup>*\<^sup>* claimed_db reclaimed_db" using reclaimed_step by auto
  then show ?thesis
    using claim_history_append_only [OF claimed_reachable, of reclaimed_db first_claim]
    by (simp add: claimed_claims)
qed


section \<open>Refinement\<close>

text \<open>C6: The PostgreSQL adapter implements the abstract specification of work claims. In every
  reachable database and whatever statement fails, each operation either fails and changes nothing, or
  returns what the pure specification on the list of all claims returns and leaves exactly the
  specification's list behind; the specification's list is the abstraction of the table.\<close>

theorem claims_refine_specification:
  assumes "work_claims_run\<^sup>*\<^sup>* empty_db db"
  shows "(case pg_claim io i db r a w lease now of
       (db', Inl e) \<Rightarrow> db' = db
     | (db', Inr c) \<Rightarrow> i \<notin> wc_id ` set (pg_claims db) \<and> spec_claim i (pg_claims db) r a w lease now = Inr (pg_claims db', c)) \<and>
    (case pg_renew io db i token lease now of
       (db', Inl e) \<Rightarrow> db' = db
     | (db', Inr c) \<Rightarrow> spec_renew (pg_claims db) i token lease now = Inr (pg_claims db', c)) \<and>
    (case pg_release io db i token now of
       (db', Inl e) \<Rightarrow> db' = db
     | (db', Inr c) \<Rightarrow> spec_transition WcReleased (pg_claims db) i token now = Inr (pg_claims db', c)) \<and>
    (case pg_complete io db i token now of
       (db', Inl e) \<Rightarrow> db' = db
     | (db', Inr c) \<Rightarrow> spec_transition WcCompleted (pg_claims db) i token now = Inr (pg_claims db', c))"
proof (intro conjI)
  note good = good_claims_reachable [OF assms]
  show "case pg_claim io i db r a w lease now of
       (db', Inl e) \<Rightarrow> db' = db
     | (db', Inr c) \<Rightarrow> i \<notin> wc_id ` set (pg_claims db) \<and> spec_claim i (pg_claims db) r a w lease now = Inr (pg_claims db', c)"
    using pgwc.claim_failed [OF good] pgwc.claim_refines [OF good] by (auto split: prod.split sum.split)
  show "case pg_renew io db i token lease now of
       (db', Inl e) \<Rightarrow> db' = db | (db', Inr c) \<Rightarrow> spec_renew (pg_claims db) i token lease now = Inr (pg_claims db', c)"
    using pgwc.renew_failed [OF good] pgwc.renew_refines [OF good] by (auto split: prod.split sum.split)
  show "case pg_release io db i token now of
       (db', Inl e) \<Rightarrow> db' = db | (db', Inr c) \<Rightarrow> spec_transition WcReleased (pg_claims db) i token now = Inr (pg_claims db', c)"
    using pgwc.release_failed [OF good] pgwc.release_refines [OF good] by (auto split: prod.split sum.split)
  show "case pg_complete io db i token now of
       (db', Inl e) \<Rightarrow> db' = db | (db', Inr c) \<Rightarrow> spec_transition WcCompleted (pg_claims db) i token now = Inr (pg_claims db', c)"
    using pgwc.complete_failed [OF good] pgwc.complete_refines [OF good] by (auto split: prod.split sum.split)
qed

theorem claims_refine_specification_witness:
  "spec_claim (ClaimId 51) (pg_claims claimed_db) (RouteId 40) (ActorId 2) (InstanceId 10) 180 155 =
     Inr (pg_claims reclaimed_db, second_claim)"
  using claims_refine_specification [OF claimed_reachable, where io = no_faults and i = "ClaimId 51" and r = "RouteId 40" and
    a = "ActorId 2" and w = "InstanceId 10" and lease = 180 and now = 155]
  by (simp add: sample_reclaim)

end
