(* ===== verification/Pg_Identity.thy ===== *)
theory Pg_Identity
  imports Database
begin

text \<open>
  \<open>src/infrastructure/postgres_identity_repository.rs\<close>. Inserting an identity also fires the
  trigger of migration 0007 that creates its admission row, disabled. The interpretation
  \<open>pgid\<close> discharges the laws of \<open>identity_repository\<close> when no statement fails; the
  properties at the end are the contract of ILK-001 over the database.
\<close>

definition identity_from_row :: "identity_row \<Rightarrow> IdentityError + Identity" where
  "identity_from_row row =
     bind_result (ActorKind_from_str (idr_kind row)) (\<lambda>kind.
     bind_result (IdentityStatus_from_str (idr_status row)) (\<lambda>status.
       Identity_restore (idr_id row) kind (idr_display_name row) status))"

definition identity_row_of :: "Identity \<Rightarrow> identity_row" where
  "identity_row_of i =
     \<lparr>idr_id = id_id i, idr_kind = ActorKind_as_str (id_kind i),
      idr_display_name = id_display_name i, idr_status = IdentityStatus_as_str (id_status i)\<rparr>"

definition identities_check :: "identity_row \<Rightarrow> bool" where
  "identities_check r \<longleftrightarrow>
     idr_kind r \<in> set [''service'', ''worker''] \<and> sql_text (idr_display_name r) \<and>
     length_between 1 200 (btrim (idr_display_name r)) \<and>
     idr_status r \<in> set [''active'', ''disabled'']"

text \<open>The argument \<open>epoch\<close> is the transaction time the admission trigger stores.\<close>

definition pg_identity_insert ::
  "faults \<Rightarrow> i64 \<Rightarrow> Db \<Rightarrow> Identity \<Rightarrow> Db \<times> (IdentityError + unit)" where
  "pg_identity_insert io epoch db identity =
     db_stmt io 0 IE_Repository db (db_stmt io 1 IE_Repository db (
       let row = identity_row_of identity
       in if \<not> identities_check row then (db, Inl (IE_Repository db_error))
          else if fk idr_id (identities db) (id_id identity) then (db, Inl (IE_AlreadyExists (id_id identity)))
          else if epoch < 0 \<or> fk amr_service_id (service_communication_admission db) (id_id identity)
          then (db, Inl (if epoch < 0 then IE_Repository db_error else IE_AlreadyExists (id_id identity)))
          else (db\<lparr>identities := identities db @ [row],
                   service_communication_admission := service_communication_admission db @
                     [\<lparr>amr_service_id = id_id identity, amr_communication_enabled = False,
                       amr_revision = 0, amr_updated_at = epoch\<rparr>]\<rparr>, Inr ())))"

definition pg_identity_find :: "faults \<Rightarrow> Db \<Rightarrow> ActorId \<Rightarrow> IdentityError + Identity option" where
  "pg_identity_find io db i =
     snd (db_stmt io 0 IE_Repository db (db_stmt io 1 IE_Repository db
       (db, transpose_option (map_option identity_from_row (find (\<lambda>r. idr_id r = i) (identities db))))))"

definition pg_identity_save :: "faults \<Rightarrow> Db \<Rightarrow> Identity \<Rightarrow> Db \<times> (IdentityError + unit)" where
  "pg_identity_save io db identity =
     db_stmt io 0 IE_Repository db (db_stmt io 1 IE_Repository db (
       let row = identity_row_of identity;
           rows = count_where (\<lambda>r. idr_id r = id_id identity) (identities db)
       in if rows \<noteq> 0 \<and> \<not> identities_check row then (db, Inl (IE_Repository db_error))
          else let db' = db\<lparr>identities := update_where (\<lambda>r. idr_id r = id_id identity) (\<lambda>_. row) (identities db)\<rparr>
            in if rows = 1 then (db', Inr ())
               else if rows = 0 then (db', Inl (IE_NotFound (id_id identity)))
               else (db', Inl (IE_Repository (''identity update changed '' @ show_nat rows @ '' rows'')))))"

text \<open>The stored identities: distinct IDs, every row one that \<open>identity_from_row\<close> accepts.\<close>

definition good_identities :: "Db \<Rightarrow> bool" where
  "good_identities db \<longleftrightarrow>
     distinct (map idr_id (identities db)) \<and>
     list_all (\<lambda>r. list_ex (\<lambda>k. list_ex (\<lambda>s.
        identity_wf \<lparr>id_id = idr_id r, id_kind = k, id_display_name = idr_display_name r, id_status = s\<rparr> \<and>
        r = identity_row_of \<lparr>id_id = idr_id r, id_kind = k, id_display_name = idr_display_name r, id_status = s\<rparr>)
        [IdActive, IdDisabled]) [Service, Worker]) (identities db)"

lemma identity_from_row_of [simp]: "identity_wf x \<Longrightarrow> identity_from_row (identity_row_of x) = Inr x"
  by (simp add: identity_from_row_def identity_row_of_def)

lemma identity_row_of_id [simp]: "idr_id (identity_row_of x) = id_id x"
  by (simp add: identity_row_of_def)

lemma good_identities_iff:
  "good_identities db \<longleftrightarrow>
     distinct (map idr_id (identities db)) \<and>
     (\<forall>r \<in> set (identities db). \<exists>x. identity_wf x \<and> r = identity_row_of x)"
proof -
  have "list_ex (\<lambda>k. list_ex (\<lambda>s.
        identity_wf \<lparr>id_id = idr_id r, id_kind = k, id_display_name = idr_display_name r, id_status = s\<rparr> \<and>
        r = identity_row_of \<lparr>id_id = idr_id r, id_kind = k, id_display_name = idr_display_name r, id_status = s\<rparr>)
        [IdActive, IdDisabled]) [Service, Worker] \<longleftrightarrow> (\<exists>x. identity_wf x \<and> r = identity_row_of x)" (is "?l \<longleftrightarrow> ?r") for r
  proof
    show "?l \<Longrightarrow> ?r" by auto
    assume ?r
    then obtain x where x: "identity_wf x" "r = identity_row_of x" by blast
    then have "x = \<lparr>id_id = idr_id r, id_kind = id_kind x, id_display_name = idr_display_name r, id_status = id_status x\<rparr>"
      by (simp add: identity_row_of_def)
    with x show ?l by (cases "id_kind x"; cases "id_status x"; simp; metis)
  qed
  then show ?thesis by (simp add: good_identities_def list_all_iff)
qed

lemma pg_identity_insert_Inr:
  "pg_identity_insert io t db x = (db', Inr u) \<Longrightarrow>
     identities db' = identities db @ [identity_row_of x] \<and> id_id x \<notin> idr_id ` set (identities db)"
  by (auto simp: pg_identity_insert_def Let_def fk_iff split: if_splits)

lemma pg_identity_save_Inr:
  "pg_identity_save io db x = (db', Inr u) \<Longrightarrow>
     identities db' = update_where (\<lambda>r. idr_id r = id_id x) (\<lambda>_. identity_row_of x) (identities db) \<and>
     count_where (\<lambda>r. idr_id r = id_id x) (identities db) = 1"
  by (auto simp: pg_identity_save_def Let_def split: if_splits)

lemma pg_identity_insert_Inl: "pg_identity_insert io t db x = (db', Inl e) \<Longrightarrow> db' = db"
  by (auto simp: pg_identity_insert_def Let_def split: if_splits db_stmt_splits)

lemma good_identities_save:
  assumes "good_identities db" and "identity_wf x"
    and "identities db' = update_where (\<lambda>r. idr_id r = id_id x) (\<lambda>_. identity_row_of x) (identities db)"
  shows "good_identities db'"
proof -
  have "map idr_id (identities db') = map idr_id (identities db)"
    unfolding assms(3) by (rule map_update_where) simp
  with assms show ?thesis
    unfolding good_identities_iff by (auto simp: set_update_where split: if_splits)
qed

interpretation pgid: identity_repository good_identities "pg_identity_insert io epoch"
  "pg_identity_find no_faults" "pg_identity_save io" for io epoch
proof
  fix s s' :: Db and x i u r
  assume good: "good_identities s"
  show "id_id x = i \<and> identity_wf x" if "pg_identity_find no_faults s i = Inr (Some x)"
  proof -
    from that obtain row where row: "find (\<lambda>r. idr_id r = i) (identities s) = Some row" "identity_from_row row = Inr x"
      by (cases "find (\<lambda>r. idr_id r = i) (identities s)")
        (auto simp: pg_identity_find_def transpose_option_def split: sum.splits)
    with good obtain y where "identity_wf y" "row = identity_row_of y"
      unfolding good_identities_iff by (meson find_SomeD)
    with row find_SomeD [OF row(1)] show ?thesis by auto
  qed
  show "\<exists>r. pg_identity_find no_faults s i = Inr r"
  proof (cases "find (\<lambda>r. idr_id r = i) (identities s)")
    case None
    then show ?thesis by (simp add: pg_identity_find_def)
  next
    case (Some row)
    with good obtain y where "identity_wf y" "row = identity_row_of y"
      unfolding good_identities_iff by (meson find_SomeD)
    with Some show ?thesis by (simp add: pg_identity_find_def)
  qed
  show "good_identities s'" if "identity_wf x" "pg_identity_insert io epoch s x = (s', r)"
  proof (cases r)
    case (Inl e)
    with pg_identity_insert_Inl that good show ?thesis by blast
  next
    case (Inr u)
    with pg_identity_insert_Inr [of io epoch s x s' u] that good show ?thesis
      by (auto simp: good_identities_iff)
  qed
  show "good_identities s'" if wf: "identity_wf x" and sv: "pg_identity_save io s x = (s', r)"
  proof -
    have "s' = s \<or> identities s' = update_where (\<lambda>r. idr_id r = id_id x) (\<lambda>_. identity_row_of x) (identities s)"
      using sv by (auto simp: pg_identity_save_def Let_def split: if_splits db_stmt_splits)
    then show ?thesis using good good_identities_save [OF good wf] by blast
  qed
  show "pg_identity_find no_faults s' i = (if i = id_id x then Inr (Some x) else pg_identity_find no_faults s i)"
    if "identity_wf x" "pg_identity_insert io epoch s x = (s', Inr u)"
  proof -
    note ins = pg_identity_insert_Inr [OF that(2)]
    have "find (\<lambda>r. idr_id r = id_id x) (identities s) = None"
      using ins by (force simp: find_None_iff)
    with ins that(1) show ?thesis
      by (auto simp: pg_identity_find_def find_append_single split: option.splits)
  qed
  show "pg_identity_find no_faults s' i = (if i = id_id x then Inr (Some x) else pg_identity_find no_faults s i)"
    if "identity_wf x" "pg_identity_save io s x = (s', Inr u)"
  proof -
    note sv = pg_identity_save_Inr [OF that(2)]
    obtain row where "find (\<lambda>r. idr_id r = id_id x) (identities s) = Some row"
      using sv by (cases "find (\<lambda>r. idr_id r = id_id x) (identities s)")
        (auto simp: find_None_iff count_where_def)
    moreover have "i \<noteq> id_id x \<Longrightarrow> find (\<lambda>r. idr_id r = i) (identities s') = find (\<lambda>r. idr_id r = i) (identities s)"
      using sv by (simp only:) (rule find_update_other; simp)
    ultimately show ?thesis
      using sv that(1) by (simp add: pg_identity_find_def find_update_where)
  qed
qed


section \<open>What ILK-001 promises\<close>

text \<open>A disabled identity no longer acts: when disabling an identity succeeds, resolving it from
  the resulting database fails with \<open>Disabled\<close>, whichever statements of the disabling may
  have been about to fail.\<close>

theorem disabled_identity_not_resolved:
  assumes "good_identities db"
    and "IdentityService_disable (pg_identity_find no_faults) (pg_identity_save io) db i = (db', Inr x)"
  shows "resolve_active (pg_identity_find no_faults) db' i = Inl (IE_Disabled i)"
  using assms by (rule pgid.disabled_not_resolved)

definition disabled_billing :: Identity where
  "disabled_billing = \<lparr>id_id = ActorId 1, id_kind = Service, id_display_name = ''billing'', id_status = IdDisabled\<rparr>"

theorem disabled_identity_not_resolved_witness:
  "resolve_active (pg_identity_find no_faults)
     (fst (IdentityService_disable (pg_identity_find no_faults) (pg_identity_save no_faults) sample_db (ActorId 1)))
     (ActorId 1) = Inl (IE_Disabled (ActorId 1))"
proof -
  have "good_identities sample_db" by code_simp
  moreover have "snd (IdentityService_disable (pg_identity_find no_faults) (pg_identity_save no_faults) sample_db (ActorId 1)) =
      Inr disabled_billing"
    by code_simp
  ultimately show ?thesis
    by (intro disabled_identity_not_resolved [where io = no_faults and x = disabled_billing])
      (simp_all add: prod_eq_iff)
qed

text \<open>A created identity resolves: when creation under a fresh ID succeeds, the identity is
  found active, with that ID, the requested kind and the trimmed name, and its communication
  admission starts disabled.\<close>

theorem created_identity_resolves:
  assumes "good_identities db"
    and "IdentityService_create (pg_identity_insert io epoch) i db kind name = (db', Inr x)"
  shows "resolve_active (pg_identity_find no_faults) db' i = Inr x \<and> id_id x = i \<and> id_kind x = kind \<and>
    id_display_name x = str_trim name \<and>
    \<lparr>amr_service_id = i, amr_communication_enabled = False, amr_revision = 0, amr_updated_at = epoch\<rparr>
      \<in> set (service_communication_admission db')"
proof -
  from assms(2) obtain u where x: "Identity_create i kind name = Inr x"
    and ins: "pg_identity_insert io epoch db x = (db', Inr u)"
    by (auto simp: IdentityService_create_def split: sum.splits prod.splits)
  from x have wf: "identity_wf x" by (rule Identity_create_wf)
  from x have xs: "id_id x = i" "id_kind x = kind" "id_status x = IdActive" "id_display_name x = str_trim name"
    by (auto simp: Identity_create_def dest: validate_display_name_bounds)
  from pgid.insert_find [OF assms(1) wf ins, of i] xs
  have "resolve_active (pg_identity_find no_faults) db' i = Inr x"
    by (simp add: resolve_active_def find_required_def Identity_is_active_def)
  moreover have "\<lparr>amr_service_id = i, amr_communication_enabled = False, amr_revision = 0, amr_updated_at = epoch\<rparr>
      \<in> set (service_communication_admission db')"
    using ins xs(1) by (auto simp: pg_identity_insert_def Let_def split: if_splits)
  ultimately show ?thesis using xs by simp
qed

theorem created_identity_resolves_witness:
  "resolve_active (pg_identity_find no_faults)
     (fst (IdentityService_create (pg_identity_insert no_faults 7) (ActorId 9) sample_db Worker '' audit ''))
     (ActorId 9) =
   Inr \<lparr>id_id = ActorId 9, id_kind = Worker, id_display_name = ''audit'', id_status = IdActive\<rparr>"
proof -
  have "good_identities sample_db" by code_simp
  moreover have "snd (IdentityService_create (pg_identity_insert no_faults 7) (ActorId 9) sample_db Worker '' audit '') =
      Inr \<lparr>id_id = ActorId 9, id_kind = Worker, id_display_name = ''audit'', id_status = IdActive\<rparr>"
    by code_simp
  ultimately show ?thesis
    using created_identity_resolves
      [of sample_db no_faults 7 "ActorId 9" Worker "'' audit ''"] by (simp add: prod_eq_iff)
qed

end
