(* ===== verification/Pg_Instance_Registry.thy ===== *)
theory Pg_Instance_Registry
  imports Database
begin

text \<open>
  \<open>src/infrastructure/postgres_instance_registry.rs\<close>: registration, renewal and revocation of
  service instances over \<open>service_instances\<close>, \<open>service_instance_keys\<close> and the
  registry audit, each in one transaction. The interpretation \<open>pgreg\<close> discharges the laws of
  \<open>instance_registry_repository\<close>.
\<close>

section \<open>Rows and constraints\<close>

definition service_instances_check :: "instance_row \<Rightarrow> bool" where
  "service_instances_check r \<longleftrightarrow>
     sql_text (sir_endpoint r) \<and> length_between 1 2048 (sir_endpoint r) \<and>
     starts_with ''https://'' (sir_endpoint r) \<and> 0 \<le> sir_registered_at r \<and>
     0 < sir_lease_revision r \<and> in_i64 (sir_lease_revision r) \<and>
     sir_registered_at r < sir_lease_expires_at r \<and>
     (case sir_revoked_at r of None \<Rightarrow> True | Some t \<Rightarrow> sir_registered_at r \<le> t)"

definition service_instance_keys_check :: "instance_key_row \<Rightarrow> bool" where
  "service_instance_keys_check r \<longleftrightarrow>
     sik_algorithm r = ''ed25519'' \<and> length (sik_public_key r) = 32 \<and>
     length (sik_fingerprint r) = 32 \<and> 0 \<le> sik_valid_from r \<and>
     (case sik_revoked_at r of None \<Rightarrow> True | Some t \<Rightarrow> sik_valid_from r \<le> t)"

definition registry_audit_check :: "registry_audit_row \<Rightarrow> bool" where
  "registry_audit_check r \<longleftrightarrow>
     sia_action r \<in> set [''registered'', ''renewed'', ''revoked''] \<and> 0 < sia_lease_revision r \<and>
     0 \<le> sia_recorded_at r"

text \<open>The rows \<open>FIND_INSTANCE_SQL\<close> joins: the instance and its one key.\<close>

definition find_instance_rows :: "Db \<Rightarrow> InstanceId \<Rightarrow> (instance_row \<times> instance_key_row) option" where
  "find_instance_rows db i =
     (case find (\<lambda>r. sir_instance_id r = i) (service_instances db) of
        None \<Rightarrow> None
      | Some si \<Rightarrow> map_option (Pair si) (find (\<lambda>k. sik_instance_id k = i) (service_instance_keys db)))"

definition instance_from_row :: "Crates \<Rightarrow> instance_row \<times> instance_key_row \<Rightarrow> InstanceRegistryError + RegisteredInstance" where
  "instance_from_row X row =
     (let (si, sik) = row
      in if length (sik_public_key sik) \<noteq> PUBLIC_KEY_LENGTH then Inl IRE_InvalidStoredRecord
         else bind_result (map_err IRE_Key (InstancePublicKey_restore X (sir_service_id si)
                 (sir_instance_id si) (sik_key_id sik) (sik_public_key sik))) (\<lambda>public_key.
           RegisteredInstance_restore public_key (sir_endpoint si) (sir_registered_at si)
             (sir_lease_expires_at si) (sir_lease_revision si) (sir_revoked_at si)))"


section \<open>The operations\<close>

abbreviation reg_stmt ::
  "faults \<Rightarrow> nat \<Rightarrow> Db \<Rightarrow> Db \<times> (InstanceRegistryError + 'a) \<Rightarrow> Db \<times> (InstanceRegistryError + 'a)" where
  "reg_stmt io k db rest \<equiv> db_stmt io k IRE_Repository db rest"

definition audit_row :: "RegisteredInstance \<Rightarrow> string \<Rightarrow> i64 \<Rightarrow> registry_audit_row" where
  "audit_row instance action recorded_at =
     \<lparr>sia_service_id = ipk_service_id (ri_public_key instance), sia_instance_id = ri_id instance,
      sia_key_id = ipk_key_id (ri_public_key instance), sia_action = action,
      sia_lease_revision = ri_lease_revision instance, sia_recorded_at = recorded_at\<rparr>"

text \<open>\<open>append_audit\<close> as statement \<open>k\<close>, followed by the commit as statement \<open>k + 1\<close>.\<close>

definition append_registry_audit ::
  "faults \<Rightarrow> nat \<Rightarrow> Db \<Rightarrow> Db \<Rightarrow> RegisteredInstance \<Rightarrow> string \<Rightarrow> i64 \<Rightarrow> 'a
   \<Rightarrow> Db \<times> (InstanceRegistryError + 'a)" where
  "append_registry_audit io k before db instance action recorded_at result =
     reg_stmt io k before (
       let row = audit_row instance action recorded_at
       in if \<not> registry_audit_check row then (before, Inl (IRE_Repository db_error))
          else reg_stmt io (k + 1) before
            (db\<lparr>service_instance_registry_audit := service_instance_registry_audit db @ [row]\<rparr>, Inr result))"

definition pg_instance_insert ::
  "Crates \<Rightarrow> faults \<Rightarrow> Db \<Rightarrow> RegisteredInstance \<Rightarrow> Db \<times> (InstanceRegistryError + unit)" where
  "pg_instance_insert X io db instance =
     (let public = ri_public_key instance;
          si = \<lparr>sir_instance_id = ipk_instance_id public, sir_service_id = ipk_service_id public,
                sir_endpoint = ri_endpoint instance, sir_registered_at = ri_registered_at instance,
                sir_lease_expires_at = ri_lease_expires_at instance,
                sir_lease_revision = ri_lease_revision instance, sir_revoked_at = None\<rparr>;
          sik = \<lparr>sik_key_id = ipk_key_id public, sik_instance_id = ipk_instance_id public,
                 sik_algorithm = ALGORITHM, sik_public_key = ipk_public_key public,
                 sik_fingerprint = InstancePublicKey_fingerprint X public,
                 sik_valid_from = ri_registered_at instance, sik_revoked_at = None\<rparr>
      in reg_stmt io 0 db (reg_stmt io 1 db (reg_stmt io 2 db (
        if \<not> service_instances_check si then (db, Inl (IRE_Repository db_error))
        else if fk sir_instance_id (service_instances db) (ipk_instance_id public)
        then (db, Inl (IRE_AlreadyExists (ipk_instance_id public)))
        else if \<not> fk idr_id (identities db) (ipk_service_id public)
        then (db, Inl (IRE_UnknownService (ipk_service_id public)))
        else reg_stmt io 3 db (
          if \<not> service_instance_keys_check sik then (db, Inl (IRE_Repository db_error))
          else if fk sik_key_id (service_instance_keys db) (ipk_key_id public)
             \<or> fk sik_instance_id (service_instance_keys db) (ipk_instance_id public)
             \<or> fk sik_fingerprint (service_instance_keys db) (sik_fingerprint sik)
          then (db, Inl (IRE_AlreadyExists (ipk_instance_id public)))
          else append_registry_audit io 4 db
            (db\<lparr>service_instances := service_instances db @ [si],
                service_instance_keys := service_instance_keys db @ [sik]\<rparr>)
            instance ''registered'' (ri_registered_at instance) ())))))"

definition pg_instance_find ::
  "Crates \<Rightarrow> faults \<Rightarrow> Db \<Rightarrow> InstanceId \<Rightarrow> InstanceRegistryError + RegisteredInstance option" where
  "pg_instance_find X io db i =
     snd (reg_stmt io 0 db (reg_stmt io 1 db
       (db, transpose_option (map_option (instance_from_row X) (find_instance_rows db i)))))"

definition classify_failed_renewal :: "Db \<Rightarrow> InstanceId \<Rightarrow> i64 \<Rightarrow> i64 \<Rightarrow> InstanceRegistryError" where
  "classify_failed_renewal db instance_id expected_revision renewed_at =
     (case find (\<lambda>r. sir_instance_id r = instance_id) (service_instances db) of
        None \<Rightarrow> IRE_NotFound instance_id
      | Some row \<Rightarrow>
          if sir_revoked_at row \<noteq> None then IRE_Revoked instance_id
          else if sir_registered_at row > renewed_at then IRE_InvalidTimestamp
          else if sir_lease_expires_at row \<le> renewed_at then IRE_Expired instance_id
          else if sir_lease_revision row \<noteq> expected_revision then IRE_RevisionConflict instance_id
          else IRE_Repository ''lease renewal was not applied'')"

definition pg_instance_renew ::
  "Crates \<Rightarrow> faults \<Rightarrow> Db \<Rightarrow> InstanceId \<Rightarrow> i64 \<Rightarrow> i64 \<Rightarrow> i64 \<Rightarrow>
   Db \<times> (InstanceRegistryError + RegisteredInstance)" where
  "pg_instance_renew X io db instance_id expected_revision renewed_at lease_expires_at =
     (if renewed_at < 0 \<or> lease_expires_at \<le> renewed_at \<or> expected_revision \<le> 0
      then (db, Inl IRE_InvalidTimestamp)
      else reg_stmt io 0 db (reg_stmt io 1 db (reg_stmt io 2 db (
        let c = (\<lambda>r. sir_instance_id r = instance_id \<and> sir_lease_revision r = expected_revision \<and>
                     sir_lease_expires_at r > renewed_at \<and> sir_registered_at r \<le> renewed_at \<and>
                     sir_revoked_at r = None);
            f = (\<lambda>r. r\<lparr>sir_lease_expires_at := lease_expires_at, sir_lease_revision := sir_lease_revision r + 1\<rparr>);
            rows = count_where c (service_instances db)
        in if \<not> list_all (\<lambda>r. c r \<longrightarrow> service_instances_check (f r)) (service_instances db)
           then (db, Inl (IRE_Repository db_error))
           else if rows = 0 then
             reg_stmt io 3 db (db, Inl (classify_failed_renewal db instance_id expected_revision renewed_at))
           else if rows \<noteq> 1 then
             (db, Inl (IRE_Repository (''lease renewal changed '' @ show_nat rows @ '' rows'')))
           else let db' = db\<lparr>service_instances := update_where c f (service_instances db)\<rparr>
             in reg_stmt io 3 db (
               case find_instance_rows db' instance_id of
                 None \<Rightarrow> (db, Inl (IRE_Repository db_error))
               | Some row \<Rightarrow>
                   (case instance_from_row X row of
                      Inl e \<Rightarrow> (db, Inl e)
                    | Inr renewed \<Rightarrow>
                        append_registry_audit io 4 db db' renewed ''renewed'' renewed_at renewed))))))"

definition pg_instance_revoke ::
  "Crates \<Rightarrow> faults \<Rightarrow> Db \<Rightarrow> InstanceId \<Rightarrow> i64 \<Rightarrow> Db \<times> (InstanceRegistryError + RegisteredInstance)" where
  "pg_instance_revoke X io db instance_id revoked_at =
     (if revoked_at < 0 then (db, Inl IRE_InvalidTimestamp)
      else reg_stmt io 0 db (reg_stmt io 1 db (reg_stmt io 2 db (
        let c = (\<lambda>r. sir_instance_id r = instance_id \<and> sir_registered_at r \<le> revoked_at \<and> sir_revoked_at r = None);
            f = (\<lambda>r. r\<lparr>sir_revoked_at := Some revoked_at\<rparr>);
            kc = (\<lambda>k. sik_instance_id k = instance_id \<and> sik_revoked_at k = None);
            kf = (\<lambda>k. k\<lparr>sik_revoked_at := Some revoked_at\<rparr>);
            rows = count_where c (service_instances db);
            key_rows = count_where kc (service_instance_keys db)
        in if rows = 0 then
             reg_stmt io 3 db (db, Inl (
               case find (\<lambda>r. sir_instance_id r = instance_id) (service_instances db) of
                 None \<Rightarrow> IRE_NotFound instance_id
               | Some row \<Rightarrow> if sir_registered_at row > revoked_at then IRE_InvalidTimestamp
                             else IRE_Revoked instance_id))
           else if rows \<noteq> 1 then
             (db, Inl (IRE_Repository (''instance revocation changed '' @ show_nat rows @ '' rows'')))
           else reg_stmt io 3 db (
             if \<not> list_all (\<lambda>k. kc k \<longrightarrow> service_instance_keys_check (kf k)) (service_instance_keys db)
             then (db, Inl (IRE_Repository db_error))
             else if key_rows \<noteq> 1 then
               (db, Inl (IRE_Repository (''instance key revocation changed '' @ show_nat key_rows @ '' rows'')))
             else let db' = db\<lparr>service_instances := update_where c f (service_instances db),
                               service_instance_keys := update_where kc kf (service_instance_keys db)\<rparr>
               in reg_stmt io 4 db (
                 case find_instance_rows db' instance_id of
                   None \<Rightarrow> (db, Inl (IRE_Repository db_error))
                 | Some row \<Rightarrow>
                     (case instance_from_row X row of
                        Inl e \<Rightarrow> (db, Inl e)
                      | Inr revoked \<Rightarrow>
                          append_registry_audit io 5 db db' revoked ''revoked'' revoked_at revoked)))))))"


section \<open>The contract\<close>

definition good_registry :: "Crates \<Rightarrow> Db \<Rightarrow> bool" where
  "good_registry X db \<longleftrightarrow>
     distinct (map sir_instance_id (service_instances db)) \<and>
     distinct (map sik_instance_id (service_instance_keys db)) \<and>
     list_all (\<lambda>r. service_instances_check r \<and> validate_endpoint (sir_endpoint r) = Inr (sir_endpoint r) \<and>
        fk sik_instance_id (service_instance_keys db) (sir_instance_id r)) (service_instances db) \<and>
     list_all (\<lambda>k. service_instance_keys_check k \<and> ed_key_ok X (sik_public_key k)) (service_instance_keys db)"

definition row_instance :: "instance_row \<times> instance_key_row \<Rightarrow> RegisteredInstance" where
  "row_instance p =
     \<lparr>ri_public_key = \<lparr>ipk_service_id = sir_service_id (fst p), ipk_instance_id = sir_instance_id (fst p),
                      ipk_key_id = sik_key_id (snd p), ipk_public_key = sik_public_key (snd p)\<rparr>,
      ri_endpoint = sir_endpoint (fst p), ri_registered_at = sir_registered_at (fst p),
      ri_lease_expires_at = sir_lease_expires_at (fst p),
      ri_lease_revision = sir_lease_revision (fst p), ri_revoked_at = sir_revoked_at (fst p)\<rparr>"

definition registry_view :: "Db \<Rightarrow> InstanceId \<Rightarrow> RegisteredInstance option" where
  "registry_view db i = map_option row_instance (find_instance_rows db i)"

lemma find_instance_rows_Some:
  "find_instance_rows db i = Some p \<longleftrightarrow>
     find (\<lambda>r. sir_instance_id r = i) (service_instances db) = Some (fst p) \<and>
     find (\<lambda>k. sik_instance_id k = i) (service_instance_keys db) = Some (snd p)"
  by (cases p) (auto simp: find_instance_rows_def split: option.splits)

lemma instance_from_row_checked:
  assumes "service_instances_check si" and "validate_endpoint (sir_endpoint si) = Inr (sir_endpoint si)"
    and "service_instance_keys_check k" and "ed_key_ok X (sik_public_key k)"
  shows "instance_from_row X (si, k) = Inr (row_instance (si, k))"
  using assms
  by (auto simp: instance_from_row_def InstancePublicKey_restore_def RegisteredInstance_restore_def
      service_instances_check_def service_instance_keys_check_def row_instance_def
      PUBLIC_KEY_LENGTH_def split: option.splits)

lemma good_registry_join:
  assumes "good_registry X db" and "find_instance_rows db i = Some p"
  shows "instance_from_row X p = Inr (row_instance p)" and "sir_instance_id (fst p) = i"
    and "fst p \<in> set (service_instances db)"
proof -
  from assms(2) have f: "fst p \<in> set (service_instances db)" "sir_instance_id (fst p) = i"
    "snd p \<in> set (service_instance_keys db)"
    by (auto simp: find_instance_rows_Some dest: find_SomeD)
  with assms(1) show "instance_from_row X p = Inr (row_instance p)"
    using instance_from_row_checked [of "fst p" "snd p" X] by (auto simp: good_registry_def list_all_iff)
  from f show "sir_instance_id (fst p) = i" "fst p \<in> set (service_instances db)" by auto
qed

lemma pg_instance_find_view:
  assumes "good_registry X db"
  shows "pg_instance_find X no_faults db i = Inr (registry_view db i)"
  using good_registry_join(1) [OF assms]
  by (cases "find_instance_rows db i") (auto simp: pg_instance_find_def registry_view_def)

lemma find_instance_rows_cong:
  "service_instances a = service_instances b \<Longrightarrow> service_instance_keys a = service_instance_keys b \<Longrightarrow>
     find_instance_rows a i = find_instance_rows b i"
  unfolding find_instance_rows_def by (simp only:)

lemma good_registry_has_key:
  assumes "good_registry X db" and "find (\<lambda>r. sir_instance_id r = i) (service_instances db) = Some si"
  obtains k where "find_instance_rows db i = Some (si, k)"
proof -
  from find_SomeD [OF assms(2)] assms(1) have "i \<in> sik_instance_id ` set (service_instance_keys db)"
    by (auto simp: good_registry_def list_all_iff fk_iff)
  then obtain k where "find (\<lambda>k. sik_instance_id k = i) (service_instance_keys db) = Some k"
    by (cases "find (\<lambda>k. sik_instance_id k = i) (service_instance_keys db)") (auto simp: find_None_iff)
  with assms(2) that show thesis by (simp add: find_instance_rows_def)
qed

lemma append_registry_audit_Inr:
  "append_registry_audit io k before db x a t r = (db', Inr y) \<Longrightarrow>
     y = r \<and> service_instances db' = service_instances db \<and> service_instance_keys db' = service_instance_keys db"
  by (auto simp: append_registry_audit_def Let_def split: if_splits)

lemma append_registry_audit_Inl: "append_registry_audit io k before db x a t r = (db', Inl e) \<Longrightarrow> db' = before"
  by (auto simp: append_registry_audit_def Let_def split: if_splits db_stmt_splits)

lemma pg_instance_renew_Inl: "pg_instance_renew X io db i v t l = (db', Inl e) \<Longrightarrow> db' = db"
  by (auto simp: pg_instance_renew_def Let_def split: if_splits option.splits sum.splits db_stmt_splits
      dest: append_registry_audit_Inl)

lemma pg_instance_revoke_Inl: "pg_instance_revoke X io db i t = (db', Inl e) \<Longrightarrow> db' = db"
  by (auto simp: pg_instance_revoke_def Let_def split: if_splits option.splits sum.splits db_stmt_splits
      dest: append_registry_audit_Inl)

text \<open>Replacing rows by key, where the new rows pass their checks, keeps the registry good.\<close>

lemma good_registry_update:
  assumes good: "good_registry X db"
    and si: "service_instances db' = update_where (\<lambda>r. sir_instance_id r = i) f (service_instances db)"
    and k: "service_instance_keys db' = update_where (\<lambda>k. sik_instance_id k = i) g (service_instance_keys db)"
    and f: "\<And>r. sir_instance_id (f r) = sir_instance_id r \<and> sir_endpoint (f r) = sir_endpoint r"
    and g: "\<And>k. sik_instance_id (g k) = sik_instance_id k \<and> sik_public_key (g k) = sik_public_key k"
    and fc: "\<And>r. r \<in> set (service_instances db) \<Longrightarrow> sir_instance_id r = i \<Longrightarrow> service_instances_check (f r)"
    and gc: "\<And>k. k \<in> set (service_instance_keys db) \<Longrightarrow> sik_instance_id k = i \<Longrightarrow> service_instance_keys_check (g k)"
  shows "good_registry X db'"
proof -
  have m: "map sir_instance_id (service_instances db') = map sir_instance_id (service_instances db)"
    "map sik_instance_id (service_instance_keys db') = map sik_instance_id (service_instance_keys db)"
    unfolding si k by (rule map_update_where, simp add: f g)+
  have s: "sik_instance_id ` set (service_instance_keys db') = sik_instance_id ` set (service_instance_keys db)"
    using m(2) by (metis list.set_map)
  show ?thesis
    using good unfolding good_registry_def m list_all_iff fk_iff s
    by (auto simp: si k set_update_where f g fc gc)
qed

lemma registry_view_update:
  assumes si: "service_instances db' = update_where (\<lambda>r. sir_instance_id r = i) f (service_instances db)"
    and k: "service_instance_keys db' = update_where (\<lambda>k. sik_instance_id k = i) g (service_instance_keys db)"
    and f: "\<And>r. sir_instance_id (f r) = sir_instance_id r" and g: "\<And>k. sik_instance_id (g k) = sik_instance_id k"
  shows "find_instance_rows db' j =
    (if j = i then map_option (\<lambda>p. (f (fst p), g (snd p))) (find_instance_rows db j) else find_instance_rows db j)"
  by (auto simp: find_instance_rows_def si k find_update_key f g option.map_comp o_def split: option.splits)

lemma pg_instance_insert_Inr:
  assumes "pg_instance_insert X io db x = (db', Inr u)"
  obtains si k where "service_instances db' = service_instances db @ [si]"
    and "service_instance_keys db' = service_instance_keys db @ [k]"
    and "service_instances_check si" and "service_instance_keys_check k"
    and "ri_id x \<notin> sir_instance_id ` set (service_instances db)"
    and "ri_id x \<notin> sik_instance_id ` set (service_instance_keys db)"
    and "sir_instance_id si = ri_id x" and "sik_instance_id k = ri_id x"
    and "sir_endpoint si = ri_endpoint x" and "sik_public_key k = ipk_public_key (ri_public_key x)"
    and "ri_revoked_at x = None \<Longrightarrow> row_instance (si, k) = x"
  using assms
  by (auto simp: pg_instance_insert_def Let_def fk_iff row_instance_def split: if_splits
      dest!: append_registry_audit_Inr)

lemma pg_instance_insert_refines:
  assumes good: "good_registry X db" and "instance_wf x" and "public_key_wf X (ri_public_key x)"
    and "ri_revoked_at x = None" and "pg_instance_insert X io db x = (db', Inr u)"
  shows "good_registry X db' \<and> registry_view db' i = (if i = ri_id x then Some x else registry_view db i)"
  using assms(5)
proof (rule pg_instance_insert_Inr)
  fix si k
  assume db': "service_instances db' = service_instances db @ [si]"
    "service_instance_keys db' = service_instance_keys db @ [k]"
    and chk: "service_instances_check si" "service_instance_keys_check k"
    and new: "ri_id x \<notin> sir_instance_id ` set (service_instances db)"
      "ri_id x \<notin> sik_instance_id ` set (service_instance_keys db)"
    and eqs: "sir_instance_id si = ri_id x" "sik_instance_id k = ri_id x"
      "sir_endpoint si = ri_endpoint x" "sik_public_key k = ipk_public_key (ri_public_key x)"
    and row: "ri_revoked_at x = None \<Longrightarrow> row_instance (si, k) = x"
  have none: "find (\<lambda>r. sir_instance_id r = ri_id x) (service_instances db) = None"
    "find (\<lambda>k. sik_instance_id k = ri_id x) (service_instance_keys db) = None"
    using new by (force simp: find_None_iff)+
  have "good_registry X db'"
    using good assms(2,3) chk new eqs
    by (auto simp: good_registry_def db' list_all_iff fk_iff instance_wf_def public_key_wf_def)
  moreover have "registry_view db' i = (if i = ri_id x then Some x else registry_view db i)"
  proof (cases "i = ri_id x")
    case True
    then show ?thesis
      by (simp add: registry_view_def find_instance_rows_def db' find_append_single none eqs row assms(4))
  next
    case False
    then have "find_instance_rows db' i = find_instance_rows db i"
      using eqs by (auto simp: find_instance_rows_def db' find_append_single split: option.splits)
    with False show ?thesis by (simp add: registry_view_def)
  qed
  ultimately show ?thesis by blast
qed

lemma pg_instance_renew_refines:
  assumes good: "good_registry X db" and ok: "pg_instance_renew X io db i v t e = (db', Inr y)"
  shows "good_registry X db' \<and>
    (\<exists>x. registry_view db i = Some x \<and> ri_lease_revision x = v \<and> is_eligible_at x t \<and>
         y = x\<lparr>ri_lease_expires_at := e, ri_lease_revision := v + 1\<rparr>) \<and>
    registry_view db' j = (if j = i then Some y else registry_view db j)"
proof -
  define P where "P = (\<lambda>r :: instance_row. sir_lease_revision r = v \<and> sir_lease_expires_at r > t \<and>
      sir_registered_at r \<le> t \<and> sir_revoked_at r = None)"
  define f where "f = (\<lambda>r :: instance_row. r\<lparr>sir_lease_expires_at := e, sir_lease_revision := sir_lease_revision r + 1\<rparr>)"
  define db1 where "db1 = db\<lparr>service_instances := update_where (\<lambda>r. sir_instance_id r = i \<and> P r) f (service_instances db)\<rparr>"
  from ok obtain row where
    cnt: "count_where (\<lambda>r. sir_instance_id r = i \<and> P r) (service_instances db) \<noteq> 0"
    and chk: "list_all (\<lambda>r. sir_instance_id r = i \<and> P r \<longrightarrow> service_instances_check (f r)) (service_instances db)"
    and row: "find_instance_rows db1 i = Some row" "instance_from_row X row = Inr y"
    and db': "service_instances db' = service_instances db1" "service_instance_keys db' = service_instance_keys db"
    by (auto simp: pg_instance_renew_def Let_def P_def f_def db1_def split: if_splits option.splits sum.splits
        dest!: append_registry_audit_Inr)
  have dist: "distinct (map sir_instance_id (service_instances db))"
    using good by (simp add: good_registry_def)
  obtain r where r: "find (\<lambda>r. sir_instance_id r = i) (service_instances db) = Some r"
    "r \<in> set (service_instances db)" "sir_instance_id r = i" "P r"
    and upd: "update_where (\<lambda>r. sir_instance_id r = i \<and> P r) f (service_instances db) =
      update_where (\<lambda>r. sir_instance_id r = i) f (service_instances db)"
    using count_where_keyed [OF dist cnt, of f] by blast
  obtain k where k: "find_instance_rows db i = Some (r, k)"
    using good_registry_has_key [OF good r(1)] .
  have si: "service_instances db' = update_where (\<lambda>r. sir_instance_id r = i) f (service_instances db)"
    and ks: "service_instance_keys db' = update_where (\<lambda>k. sik_instance_id k = i) id (service_instance_keys db)"
    by (simp_all add: db' db1_def upd) (simp add: update_where_def cong: if_cong)
  have uniq: "\<And>q. q \<in> set (service_instances db) \<Longrightarrow> sir_instance_id q = i \<Longrightarrow> q = r"
    using dist r(2,3) unfolding distinct_map by (metis inj_onD)
  have kchk: "\<And>k. k \<in> set (service_instance_keys db) \<Longrightarrow> service_instance_keys_check k"
    using good by (simp add: good_registry_def list_all_iff)
  have "service_instances_check (f r)" using chk r by (simp add: list_all_iff)
  then have fc: "\<And>q. q \<in> set (service_instances db) \<Longrightarrow> sir_instance_id q = i \<Longrightarrow> service_instances_check (f q)"
    using uniq by blast
  have good': "good_registry X db'"
    by (rule good_registry_update [OF good si ks _ _ fc]) (simp_all add: f_def kchk)
  have view: "find_instance_rows db' j = (if j = i then map_option (\<lambda>p. (f (fst p), id (snd p))) (find_instance_rows db j)
      else find_instance_rows db j)" for j
    by (rule registry_view_update [OF si ks]) (simp_all add: f_def)
  have "find_instance_rows db1 i = find_instance_rows db' i"
    by (rule find_instance_rows_cong) (simp_all add: db' db1_def)
  with row view [of i] k have "instance_from_row X (f r, k) = Inr y" and fr: "find_instance_rows db' i = Some (f r, k)"
    by auto
  with good_registry_join(1) [OF good' fr] have y: "y = row_instance (f r, k)" by simp
  have v: "sir_lease_revision r = v" using r(4) by (simp add: P_def)
  have x: "registry_view db i = Some (row_instance (r, k))" using k by (simp add: registry_view_def)
  have yx: "y = (row_instance (r, k))\<lparr>ri_lease_expires_at := e, ri_lease_revision := v + 1\<rparr>"
    unfolding y by (simp add: row_instance_def f_def v)
  have "is_eligible_at (row_instance (r, k)) t" and "ri_lease_revision (row_instance (r, k)) = v"
    using r(4) by (auto simp: P_def is_eligible_at_def row_instance_def)
  moreover have "registry_view db' j = (if j = i then Some y else registry_view db j)"
    using view [of j] k y by (cases "j = i") (simp_all add: registry_view_def)
  ultimately show ?thesis using good' x yx by blast
qed

lemma pg_instance_revoke_refines:
  assumes good: "good_registry X db" and ok: "pg_instance_revoke X io db i t = (db', Inr y)"
  shows "good_registry X db' \<and>
    (\<exists>x. registry_view db i = Some x \<and> ri_revoked_at x = None \<and> y = x\<lparr>ri_revoked_at := Some t\<rparr>) \<and>
    registry_view db' j = (if j = i then Some y else registry_view db j)"
proof -
  define P where "P = (\<lambda>r :: instance_row. sir_registered_at r \<le> t \<and> sir_revoked_at r = None)"
  define f where "f = (\<lambda>r :: instance_row. r\<lparr>sir_revoked_at := Some t\<rparr>)"
  define Q where "Q = (\<lambda>k :: instance_key_row. sik_revoked_at k = None)"
  define g where "g = (\<lambda>k :: instance_key_row. k\<lparr>sik_revoked_at := Some t\<rparr>)"
  define db1 where "db1 = db
    \<lparr>service_instances := update_where (\<lambda>r. sir_instance_id r = i \<and> P r) f (service_instances db),
     service_instance_keys := update_where (\<lambda>k. sik_instance_id k = i \<and> Q k) g (service_instance_keys db)\<rparr>"
  from ok obtain row where
    cnt: "count_where (\<lambda>r. sir_instance_id r = i \<and> P r) (service_instances db) = 1"
    and kcnt: "count_where (\<lambda>k. sik_instance_id k = i \<and> Q k) (service_instance_keys db) = 1"
    and chk: "list_all (\<lambda>k. sik_instance_id k = i \<and> Q k \<longrightarrow> service_instance_keys_check (g k)) (service_instance_keys db)"
    and row: "find_instance_rows db1 i = Some row" "instance_from_row X row = Inr y"
    and db': "service_instances db' = service_instances db1" "service_instance_keys db' = service_instance_keys db1"
    by (auto simp: pg_instance_revoke_def Let_def P_def f_def Q_def g_def db1_def
        split: if_splits option.splits sum.splits dest!: append_registry_audit_Inr)
  have cnt': "count_where (\<lambda>r. sir_instance_id r = i \<and> P r) (service_instances db) \<noteq> 0"
    and kcnt': "count_where (\<lambda>k. sik_instance_id k = i \<and> Q k) (service_instance_keys db) \<noteq> 0"
    using cnt kcnt by linarith+
  have dist: "distinct (map sir_instance_id (service_instances db))"
    and kdist: "distinct (map sik_instance_id (service_instance_keys db))"
    using good by (simp_all add: good_registry_def)
  obtain r where r: "find (\<lambda>r. sir_instance_id r = i) (service_instances db) = Some r"
    "r \<in> set (service_instances db)" "sir_instance_id r = i" "P r"
    and upd: "update_where (\<lambda>r. sir_instance_id r = i \<and> P r) f (service_instances db) =
      update_where (\<lambda>r. sir_instance_id r = i) f (service_instances db)"
    using count_where_keyed [OF dist cnt', of f] by blast
  obtain k where k: "k \<in> set (service_instance_keys db)" "sik_instance_id k = i" "Q k"
    and kupd: "update_where (\<lambda>k. sik_instance_id k = i \<and> Q k) g (service_instance_keys db) =
      update_where (\<lambda>k. sik_instance_id k = i) g (service_instance_keys db)"
    using count_where_keyed [OF kdist kcnt', of g] by blast
  obtain k' where k': "find_instance_rows db i = Some (r, k')"
    using good_registry_has_key [OF good r(1)] .
  have si: "service_instances db' = update_where (\<lambda>r. sir_instance_id r = i) f (service_instances db)"
    and ks: "service_instance_keys db' = update_where (\<lambda>k. sik_instance_id k = i) g (service_instance_keys db)"
    by (simp_all add: db' db1_def upd kupd)
  have uniq: "\<And>q. q \<in> set (service_instances db) \<Longrightarrow> sir_instance_id q = i \<Longrightarrow> q = r"
    using dist r(2,3) unfolding distinct_map by (metis inj_onD)
  have kuniq: "\<And>q. q \<in> set (service_instance_keys db) \<Longrightarrow> sik_instance_id q = i \<Longrightarrow> q = k"
    using kdist k(1,2) unfolding distinct_map by (metis inj_onD)
  have "service_instances_check r" using good r(2) by (simp add: good_registry_def list_all_iff)
  then have fr_chk: "service_instances_check (f r)"
    using r(4) by (simp add: service_instances_check_def f_def P_def)
  have gk_chk: "service_instance_keys_check (g k)" using chk k by (simp add: list_all_iff)
  have fc: "\<And>q. q \<in> set (service_instances db) \<Longrightarrow> sir_instance_id q = i \<Longrightarrow> service_instances_check (f q)"
    and gc: "\<And>q. q \<in> set (service_instance_keys db) \<Longrightarrow> sik_instance_id q = i \<Longrightarrow> service_instance_keys_check (g q)"
    using uniq fr_chk kuniq gk_chk by blast+
  have good': "good_registry X db'"
    by (rule good_registry_update [OF good si ks _ _ fc gc]) (simp_all add: f_def g_def)
  have view: "find_instance_rows db' j = (if j = i then map_option (\<lambda>p. (f (fst p), g (snd p))) (find_instance_rows db j)
      else find_instance_rows db j)" for j
    by (rule registry_view_update [OF si ks]) (simp_all add: f_def g_def)
  have "find_instance_rows db1 i = find_instance_rows db' i"
    by (rule find_instance_rows_cong) (simp_all add: db')
  with row view [of i] k' have "instance_from_row X (f r, g k') = Inr y"
    and fr: "find_instance_rows db' i = Some (f r, g k')"
    by auto
  with good_registry_join(1) [OF good' fr] have y: "y = row_instance (f r, g k')" by simp
  have x: "registry_view db i = Some (row_instance (r, k'))" using k' by (simp add: registry_view_def)
  have yx: "y = (row_instance (r, k'))\<lparr>ri_revoked_at := Some t\<rparr>"
    unfolding y by (simp add: row_instance_def f_def g_def)
  have "ri_revoked_at (row_instance (r, k')) = None"
    using r(4) by (simp add: P_def row_instance_def)
  moreover have "registry_view db' j = (if j = i then Some y else registry_view db j)"
    using view [of j] k' y by (cases "j = i") (simp_all add: registry_view_def)
  ultimately show ?thesis using good' x yx by blast
qed

interpretation pgreg: instance_registry_repository "good_registry X" "public_key_wf X"
  "pg_instance_insert X io" "pg_instance_find X no_faults" "pg_instance_renew X io" "pg_instance_revoke X io"
  for X io
proof
  fix s s' :: Db and x y i j v t e u err
  show "good_registry X s' \<and> pg_instance_find X no_faults s' i =
      (if i = ri_id x then Inr (Some x) else pg_instance_find X no_faults s i)"
    if "good_registry X s" "instance_wf x" "public_key_wf X (ri_public_key x)" "ri_revoked_at x = None"
      "pg_instance_insert X io s x = (s', Inr u)"
    using pg_instance_insert_refines [OF that] that(1) by (simp add: pg_instance_find_view)
  show "good_registry X s' \<and>
      (\<exists>x. pg_instance_find X no_faults s i = Inr (Some x) \<and> ri_lease_revision x = v \<and> is_eligible_at x t \<and>
           y = x\<lparr>ri_lease_expires_at := e, ri_lease_revision := v + 1\<rparr>) \<and>
      pg_instance_find X no_faults s' j = (if j = i then Inr (Some y) else pg_instance_find X no_faults s j)"
    if "good_registry X s" "pg_instance_renew X io s i v t e = (s', Inr y)"
    using pg_instance_renew_refines [OF that, of j] that(1) by (auto simp: pg_instance_find_view)
  show "good_registry X s' \<and>
      (\<exists>x. pg_instance_find X no_faults s i = Inr (Some x) \<and> ri_revoked_at x = None \<and> y = x\<lparr>ri_revoked_at := Some t\<rparr>) \<and>
      pg_instance_find X no_faults s' j = (if j = i then Inr (Some y) else pg_instance_find X no_faults s j)"
    if "good_registry X s" "pg_instance_revoke X io s i t = (s', Inr y)"
    using pg_instance_revoke_refines [OF that, of j] that(1) by (auto simp: pg_instance_find_view)
  show "s' = s" if "pg_instance_renew X io s i v t e = (s', Inl err)"
    using pg_instance_renew_Inl [OF that] .
  show "s' = s" if "pg_instance_revoke X io s i t = (s', Inl err)"
    using pg_instance_revoke_Inl [OF that] .
qed

end
