(* ===== verification/Sample_Crates.thy ===== *)
theory Sample_Crates
  imports Prelude
begin

text \<open>
  A concrete instance of the external crates, so that the theorems with hypotheses about them can
  be evaluated: decimal UUID texts, a truncating digest, a signature that repeats the message, and
  two letters per byte for base64. It meets every named predicate of \<open>Prelude\<close>.
\<close>

definition pad_to :: "nat \<Rightarrow> bytes \<Rightarrow> bytes" where
  "pad_to n b = take n (b @ replicate n (CHR 0x00))"

definition nibble_char :: "nat \<Rightarrow> u8" where
  "nibble_char n = char_of (97 + n)"

fun letters_encode :: "bytes \<Rightarrow> string" where
  "letters_encode [] = []"
| "letters_encode (c # cs) =
     nibble_char (byte_val c div 16) # nibble_char (byte_val c mod 16) # letters_encode cs"

fun letters_decode :: "string \<Rightarrow> bytes option" where
  "letters_decode [] = Some []"
| "letters_decode [c] = None"
| "letters_decode (a # b # cs) =
     (if in_byte_range 97 112 a \<and> in_byte_range 97 112 b
      then map_option (Cons (char_of ((byte_val a - 97) * 16 + (byte_val b - 97)))) (letters_decode cs)
      else None)"

definition decimal_uuid :: "string \<Rightarrow> Uuid option" where
  "decimal_uuid s = (if s \<noteq> [] \<and> list_all is_ascii_digit s then Some (word_of_nat (digits_val s)) else None)"

definition show_uuid :: "Uuid \<Rightarrow> string" where
  "show_uuid u = show_nat (unat u)"

definition uuid_bytes :: "Uuid \<Rightarrow> bytes" where
  "uuid_bytes u = be_bytes 16 (unat u)"

definition key_is_32 :: "bytes \<Rightarrow> bool" where
  "key_is_32 k \<longleftrightarrow> length k = 32"

definition repeats_message :: "bytes \<Rightarrow> bytes \<Rightarrow> bytes \<Rightarrow> bool" where
  "repeats_message k m s \<longleftrightarrow> s = pad_to 64 m"

definition repeat_message :: "bytes \<Rightarrow> bytes \<Rightarrow> bytes" where
  "repeat_message k m = pad_to 64 m"

definition sample_crates :: Crates where
  "sample_crates =
     \<lparr>uuid_parse = decimal_uuid, uuid_show = show_uuid, uuid_as_bytes = uuid_bytes,
      sha256 = pad_to 32, ed_key_ok = key_is_32, ed_verify_strict = repeats_message,
      ed_public = pad_to 32, ed_sign = repeat_message,
      b64_encode = letters_encode, b64_decode = letters_decode,
      b64url_encode = letters_encode, b64url_decode = letters_decode\<rparr>"

lemmas sample_crates_defs =
  sample_crates_def decimal_uuid_def show_uuid_def uuid_bytes_def key_is_32_def
  repeats_message_def repeat_message_def

lemma length_pad_to [simp]: "length (pad_to n b) = n"
  by (simp add: pad_to_def)

lemma nibble_char_val: "n < 16 \<Longrightarrow> byte_val (nibble_char n) = 97 + n"
  by (simp add: nibble_char_def byte_val_def)

lemma letters_decode_encode: "letters_decode (letters_encode b) = Some b"
proof (induction b)
  case Nil
  then show ?case by simp
next
  case (Cons c b)
  have "byte_val c < 256" by (simp add: byte_val_def)
  then have "byte_val c div 16 < 16" by auto
  moreover have "byte_val c div 16 * 16 + byte_val c mod 16 = byte_val c" by simp
  moreover have "char_of (byte_val c) = c" by (simp add: byte_val_def)
  ultimately show ?case
    using Cons by (simp add: in_byte_range_def nibble_char_val)
qed

lemma letters_encode_alphabet: "list_all is_ascii_alphanumeric (letters_encode b)"
proof (induction b)
  case Nil
  then show ?case by simp
next
  case (Cons c b)
  have "byte_val c < 256" by (simp add: byte_val_def)
  then have "byte_val c div 16 < 16" by auto
  with Cons show ?case
    by (auto simp: is_ascii_alphanumeric_def is_ascii_lowercase_def in_byte_range_def nibble_char_val)
qed

lemma sample_crates_ok:
  "uuid_text_ok sample_crates" "uuid_bytes_ok sample_crates" "sha256_ok sample_crates"
  "ed25519_ok sample_crates" "base64_ok sample_crates"
proof -
  show "uuid_text_ok sample_crates"
    using show_nat_digits by (fastforce simp: uuid_text_ok_def sample_crates_defs list_all_iff)
  have "inj uuid_bytes"
  proof (rule injI)
    fix u v :: Uuid
    assume "uuid_bytes u = uuid_bytes v"
    from be_bytes_inj [OF this [unfolded uuid_bytes_def]] have "unat u = unat v"
      using unsigned_less [of u, where ?'a = nat] unsigned_less [of v, where ?'a = nat] by simp
    then show "u = v" by (simp add: word_unat_eq_iff)
  qed
  then show "uuid_bytes_ok sample_crates" by (simp add: uuid_bytes_ok_def sample_crates_def) (simp add: uuid_bytes_def)
  show "sha256_ok sample_crates" by (simp add: sha256_ok_def sample_crates_defs)
  show "ed25519_ok sample_crates" by (simp add: ed25519_ok_def sample_crates_defs)
  show "base64_ok sample_crates"
    using letters_encode_alphabet
    by (auto simp: base64_ok_def sample_crates_defs letters_decode_encode list_all_iff)
qed

end
