(* ===== verification/Registry_Properties.thy ===== *)
theory Registry_Properties
  imports Pg_Instance_Registry Sample_Crates
begin

text \<open>
  What the instance registry promises over time, proved of \<open>InstanceRegistryService\<close> on the
  PostgreSQL adapter: a registered instance is eligible for its lease, a lease revision is used at
  most once, and a revoked instance never comes back.
\<close>

section \<open>Runs of the registry\<close>

inductive registry_run :: "Crates \<Rightarrow> Db \<Rightarrow> Db \<Rightarrow> bool" for X where
  rrun_register: "public_key_wf X k \<Longrightarrow>
    register_verified p (pg_instance_insert X io) db k ep now = (db', x) \<Longrightarrow> registry_run X db db'"
| rrun_renew: "InstanceRegistryService_renew p (pg_instance_renew X io) db i v now = (db', y) \<Longrightarrow> registry_run X db db'"
| rrun_revoke: "InstanceRegistryService_revoke (pg_instance_revoke X io) db i now = (db', y) \<Longrightarrow> registry_run X db db'"
| rrun_other: "service_instances db' = service_instances db \<Longrightarrow>
    service_instance_keys db' = service_instance_keys db \<Longrightarrow> registry_run X db db'"

text \<open>An instance keeps its key, endpoint and registration time; its revision only grows; once
  revoked it does not change.\<close>

definition instance_evolves :: "RegisteredInstance \<Rightarrow> RegisteredInstance \<Rightarrow> bool" where
  "instance_evolves x y \<longleftrightarrow>
     ri_public_key y = ri_public_key x \<and> ri_endpoint y = ri_endpoint x \<and>
     ri_registered_at y = ri_registered_at x \<and> ri_lease_revision x \<le> ri_lease_revision y \<and>
     (ri_revoked_at x \<noteq> None \<longrightarrow> y = x)"

lemma instance_evolves_refl [simp]: "instance_evolves x x"
  by (simp add: instance_evolves_def)

lemma instance_evolves_trans: "instance_evolves x y \<Longrightarrow> instance_evolves y z \<Longrightarrow> instance_evolves x z"
  by (auto simp: instance_evolves_def)

lemma pg_instance_insert_new:
  assumes "pg_instance_insert X io db x = (db', Inr u)"
  shows "find_instance_rows db (ri_id x) = None"
proof -
  have "ri_id x \<notin> sir_instance_id ` set (service_instances db)"
    using assms by (rule pg_instance_insert_Inr)
  then have "find (\<lambda>r. sir_instance_id r = ri_id x) (service_instances db) = None"
    by (force simp: find_None_iff)
  then show ?thesis by (simp add: find_instance_rows_def)
qed

lemma pg_instance_insert_unchanged:
  "pg_instance_insert X io db x = (db', Inl e) \<Longrightarrow> db' = db"
  by (auto simp: pg_instance_insert_def Let_def split: if_splits db_stmt_splits dest: append_registry_audit_Inl)

lemma registry_run_step:
  assumes "registry_run X db db'" and good: "good_registry X db"
  shows "good_registry X db' \<and>
    (\<forall>i x. registry_view db i = Some x \<longrightarrow> (\<exists>y. registry_view db' i = Some y \<and> instance_evolves x y))"
  using assms
proof (induction rule: registry_run.induct)
  case (rrun_register k p io db ep now db' r)
  show ?case
  proof (cases "\<exists>x u. pg_instance_insert X io db x = (db', Inr u) \<and> instance_wf x \<and>
      ri_public_key x = k \<and> ri_revoked_at x = None")
    case True
    then obtain x u where ins: "pg_instance_insert X io db x = (db', Inr u)" "instance_wf x"
      "ri_public_key x = k" "ri_revoked_at x = None" by blast
    then have wf: "public_key_wf X (ri_public_key x)" using rrun_register.hyps(1) by simp
    note ref = pg_instance_insert_refines [OF rrun_register.prems ins(2) wf ins(4,1)]
    have "registry_view db (ri_id x) = None"
      using pg_instance_insert_new [OF ins(1)] by (simp add: registry_view_def)
    with ref show ?thesis by auto
  next
    case False
    have "db' = db"
    proof (cases "RegisteredInstance_create k ep now (now + lp_duration_seconds p)")
      case (Inl e)
      with rrun_register.hyps(2) show ?thesis
        by (auto simp: register_verified_def split: sum.splits)
    next
      case (Inr x)
      with RegisteredInstance_restore_Inr [OF Inr [unfolded RegisteredInstance_create_def]] False
        rrun_register.hyps(2)
      show ?thesis
        by (cases "pg_instance_insert X io db x")
          (auto simp: register_verified_def split: sum.splits prod.splits dest: pg_instance_insert_unchanged)
    qed
    with rrun_register.prems show ?thesis by auto
  qed
next
  case (rrun_renew p io db i v now db' y)
  then have "db' = db \<or> (\<exists>e z. pg_instance_renew X io db i v now e = (db', Inr z))"
    by (cases y) (auto simp: InstanceRegistryService_renew_def split: sum.splits dest: pg_instance_renew_Inl)
  then show ?case
  proof
    assume "\<exists>e z. pg_instance_renew X io db i v now e = (db', Inr z)"
    then obtain e z where ok: "pg_instance_renew X io db i v now e = (db', Inr z)" by blast
    note ref = pg_instance_renew_refines [OF rrun_renew.prems ok]
    show ?thesis
    proof (intro conjI allI impI)
      show "good_registry X db'" using ref by blast
      fix j x
      assume x: "registry_view db j = Some x"
      with ref [of j] show "\<exists>y. registry_view db' j = Some y \<and> instance_evolves x y"
        by (cases "j = i") (auto simp: instance_evolves_def is_eligible_at_def)
    qed
  qed (use rrun_renew.prems in auto)
next
  case (rrun_revoke io db i now db' y)
  then have "db' = db \<or> (\<exists>z. pg_instance_revoke X io db i now = (db', Inr z))"
    by (cases y) (auto simp: InstanceRegistryService_revoke_def split: sum.splits dest: pg_instance_revoke_Inl)
  then show ?case
  proof
    assume "\<exists>z. pg_instance_revoke X io db i now = (db', Inr z)"
    then obtain z where ok: "pg_instance_revoke X io db i now = (db', Inr z)" by blast
    note ref = pg_instance_revoke_refines [OF rrun_revoke.prems ok]
    show ?thesis
    proof (intro conjI allI impI)
      show "good_registry X db'" using ref by blast
      fix j x
      assume x: "registry_view db j = Some x"
      with ref [of j] show "\<exists>y. registry_view db' j = Some y \<and> instance_evolves x y"
        by (cases "j = i") (auto simp: instance_evolves_def)
    qed
  qed (use rrun_revoke.prems in auto)
next
  case (rrun_other db' db)
  then have "registry_view db' i = registry_view db i" for i
    by (simp add: registry_view_def find_instance_rows_cong [of db' db])
  with rrun_other show ?case by (auto simp: good_registry_def)
qed

lemma registry_runs_step:
  assumes "(registry_run X)\<^sup>*\<^sup>* db db'" and "good_registry X db" and "registry_view db i = Some x"
  shows "good_registry X db' \<and> (\<exists>y. registry_view db' i = Some y \<and> instance_evolves x y)"
  using assms
proof (induction rule: rtranclp_induct)
  case base
  then show ?case by auto
next
  case (step a b)
  then obtain y where "good_registry X a" "registry_view a i = Some y" "instance_evolves x y" by blast
  with registry_run_step [OF step.hyps(2)] show ?case by (meson instance_evolves_trans)
qed


section \<open>Properties\<close>

text \<open>C27: Revocation is permanent. After a successful revocation, and whatever is registered, renewed or
  revoked later, the instance is never eligible again (a lookup says \<open>Revoked\<close>) and no renewal of
  it succeeds.\<close>

theorem revocation_permanent:
  assumes "good_registry X db"
    and "InstanceRegistryService_revoke (pg_instance_revoke X io) db i now = (db', Inr y)"
    and "(registry_run X)\<^sup>*\<^sup>* db' db''" and "0 \<le> t"
  shows "find_eligible (pg_instance_find X no_faults) db'' i t = Inl (IRE_Revoked i) \<and>
    snd (InstanceRegistryService_renew p (pg_instance_renew X io') db'' i v t) \<noteq> Inr z"
proof -
  from assms(2) have ok: "pg_instance_revoke X io db i now = (db', Inr y)"
    by (auto simp: InstanceRegistryService_revoke_def split: sum.splits)
  from pg_instance_revoke_refines [OF assms(1) ok, of i] have good: "good_registry X db'"
    and y: "registry_view db' i = Some y" "ri_revoked_at y = Some now" by auto
  from registry_runs_step [OF assms(3) good y(1)] y(2)
  have good'': "good_registry X db''" and y'': "registry_view db'' i = Some y"
    by (auto simp: instance_evolves_def)
  have "find_eligible (pg_instance_find X no_faults) db'' i t = Inl (IRE_Revoked i)"
    using y(2) y'' assms(4) by (simp add: find_eligible_def pg_instance_find_view [OF good''] validate_registry_timestamp_def)
  moreover have "snd (pg_instance_renew X io' db'' i v t e) \<noteq> Inr z" for e
    using pg_instance_renew_refines [OF good'', of io' i v t e _ z i] y'' y(2)
    by (cases "pg_instance_renew X io' db'' i v t e") (auto simp: is_eligible_at_def)
  then have "snd (InstanceRegistryService_renew p (pg_instance_renew X io') db'' i v t) \<noteq> Inr z"
    by (auto simp: InstanceRegistryService_renew_def split: sum.splits)
  ultimately show ?thesis by blast
qed

definition revoked_registry :: Db where
  "revoked_registry = fst (InstanceRegistryService_revoke (pg_instance_revoke sample_crates no_faults) sample_db
     (InstanceId 10) 120)"

theorem revocation_permanent_witness:
  "find_eligible (pg_instance_find sample_crates no_faults) revoked_registry (InstanceId 10) 130 =
     Inl (IRE_Revoked (InstanceId 10))"
proof -
  have good: "good_registry sample_crates sample_db" by code_simp
  have "snd (InstanceRegistryService_revoke (pg_instance_revoke sample_crates no_faults) sample_db (InstanceId 10) 120) =
      Inr \<lparr>ri_public_key = \<lparr>ipk_service_id = ActorId 2, ipk_instance_id = InstanceId 10, ipk_key_id = KeyId 11,
              ipk_public_key = replicate 32 (CHR 0x07)\<rparr>, ri_endpoint = ''https://ledger'', ri_registered_at = 100,
            ri_lease_expires_at = 160, ri_lease_revision = 1, ri_revoked_at = Some 120\<rparr>" (is "_ = Inr ?y")
    by code_simp
  then have "InstanceRegistryService_revoke (pg_instance_revoke sample_crates no_faults) sample_db (InstanceId 10) 120 =
      (revoked_registry, Inr ?y)"
    by (simp add: revoked_registry_def prod_eq_iff)
  from revocation_permanent [OF good this, of revoked_registry 130] show ?thesis by simp
qed

text \<open>C26: A lease revision is consumed by the renewal that names it: after a renewal with revision
  \<open>v\<close> succeeds, no renewal with revision \<open>v\<close> succeeds on that instance in any later
  database, so of several renewals racing on one revision at most one wins.\<close>

theorem lease_revision_consumed:
  assumes "good_registry X db"
    and "InstanceRegistryService_renew p (pg_instance_renew X io) db i v now = (db', Inr y)"
    and "(registry_run X)\<^sup>*\<^sup>* db' db''"
  shows "ri_lease_revision y = v + 1 \<and> ri_lease_expires_at y = now + lp_duration_seconds p \<and>
    snd (InstanceRegistryService_renew p' (pg_instance_renew X io') db'' i v now') \<noteq> Inr z"
proof -
  from assms(2) have ok: "pg_instance_renew X io db i v now (now + lp_duration_seconds p) = (db', Inr y)"
    by (auto simp: InstanceRegistryService_renew_def split: sum.splits if_splits)
  from pg_instance_renew_refines [OF assms(1) ok, of i] have good: "good_registry X db'"
    and y: "registry_view db' i = Some y" "ri_lease_revision y = v + 1" "ri_lease_expires_at y = now + lp_duration_seconds p"
    by auto
  from registry_runs_step [OF assms(3) good y(1)] obtain w where good'': "good_registry X db''"
    and w: "registry_view db'' i = Some w" "v + 1 \<le> ri_lease_revision w"
    using y(2) by (auto simp: instance_evolves_def)
  have "snd (pg_instance_renew X io' db'' i v now' e) \<noteq> Inr z" for e
    using pg_instance_renew_refines [OF good'', of io' i v now' e _ z i] w
    by (cases "pg_instance_renew X io' db'' i v now' e") auto
  then have "snd (InstanceRegistryService_renew p' (pg_instance_renew X io') db'' i v now') \<noteq> Inr z"
    by (auto simp: InstanceRegistryService_renew_def split: sum.splits)
  with y show ?thesis by blast
qed

definition renewed_registry :: Db where
  "renewed_registry = fst (InstanceRegistryService_renew LeasePolicy_default
     (pg_instance_renew sample_crates no_faults) sample_db (InstanceId 10) 1 150)"

theorem lease_revision_consumed_witness:
  "snd (InstanceRegistryService_renew LeasePolicy_default (pg_instance_renew sample_crates no_faults)
     renewed_registry (InstanceId 10) 1 155) \<noteq>
   Inr \<lparr>ri_public_key = \<lparr>ipk_service_id = ActorId 2, ipk_instance_id = InstanceId 10, ipk_key_id = KeyId 11,
          ipk_public_key = replicate 32 (CHR 0x07)\<rparr>, ri_endpoint = ''https://ledger'', ri_registered_at = 100,
        ri_lease_expires_at = 215, ri_lease_revision = 2, ri_revoked_at = None\<rparr>"
proof -
  have good: "good_registry sample_crates sample_db" by code_simp
  have "snd (InstanceRegistryService_renew LeasePolicy_default (pg_instance_renew sample_crates no_faults) sample_db (InstanceId 10) 1 150) =
      Inr \<lparr>ri_public_key = \<lparr>ipk_service_id = ActorId 2, ipk_instance_id = InstanceId 10, ipk_key_id = KeyId 11,
              ipk_public_key = replicate 32 (CHR 0x07)\<rparr>, ri_endpoint = ''https://ledger'', ri_registered_at = 100,
            ri_lease_expires_at = 210, ri_lease_revision = 2, ri_revoked_at = None\<rparr>" (is "_ = Inr ?y")
    by code_simp
  then have "InstanceRegistryService_renew LeasePolicy_default (pg_instance_renew sample_crates no_faults) sample_db (InstanceId 10) 1 150 =
      (renewed_registry, Inr ?y)"
    by (simp add: renewed_registry_def prod_eq_iff)
  from lease_revision_consumed [OF good this, of renewed_registry] show ?thesis by simp
qed

text \<open>A verified registration is eligible for exactly its lease: from the registration time until
  the policy's duration later, a lookup in the resulting database returns the registered instance,
  with revision 1; from the end of the lease on it says \<open>Expired\<close>.\<close>

theorem registration_eligible_for_lease:
  assumes "good_registry X db" and "public_key_wf X k"
    and "register_verified p (pg_instance_insert X io) db k ep now = (db', Inr x)" and "now \<le> t"
  shows "ri_lease_revision x = 1 \<and>
    find_eligible (pg_instance_find X no_faults) db' (ipk_instance_id k) t =
      (if t < now + lp_duration_seconds p then Inr x else Inl (IRE_Expired (ipk_instance_id k)))"
proof -
  from assms(3) obtain u where c: "RegisteredInstance_create k ep now (now + lp_duration_seconds p) = Inr x"
    and ins: "pg_instance_insert X io db x = (db', Inr u)" and "0 \<le> now"
    by (auto simp: register_verified_def split: sum.splits prod.splits)
  from RegisteredInstance_restore_Inr [OF c [unfolded RegisteredInstance_create_def]]
  have xs: "instance_wf x" "ri_public_key x = k" "ri_registered_at x = now"
    "ri_lease_expires_at x = now + lp_duration_seconds p" "ri_revoked_at x = None" "ri_lease_revision x = 1"
    by auto
  with assms(2) pg_instance_insert_refines [OF assms(1) xs(1) _ xs(5) ins, of "ipk_instance_id k"]
  have good: "good_registry X db'" and v: "registry_view db' (ipk_instance_id k) = Some x" by auto
  then show ?thesis
    using xs \<open>0 \<le> now\<close> assms(4)
    by (simp add: find_eligible_def pg_instance_find_view is_eligible_at_def validate_registry_timestamp_def)
qed

definition new_key :: InstancePublicKey where
  "new_key = \<lparr>ipk_service_id = ActorId 1, ipk_instance_id = InstanceId 12, ipk_key_id = KeyId 13,
     ipk_public_key = replicate 32 (CHR 0x09)\<rparr>"

definition registered_registry :: Db where
  "registered_registry = fst (register_verified LeasePolicy_default
     (pg_instance_insert sample_crates no_faults) sample_db new_key '' https://billing '' 200)"

definition new_instance :: RegisteredInstance where
  "new_instance = \<lparr>ri_public_key = new_key, ri_endpoint = ''https://billing'', ri_registered_at = 200,
     ri_lease_expires_at = 260, ri_lease_revision = 1, ri_revoked_at = None\<rparr>"

theorem registration_eligible_for_lease_witness:
  "find_eligible (pg_instance_find sample_crates no_faults) registered_registry (InstanceId 12) 259 = Inr new_instance \<and>
   find_eligible (pg_instance_find sample_crates no_faults) registered_registry (InstanceId 12) 260 =
     Inl (IRE_Expired (InstanceId 12))"
proof -
  have good: "good_registry sample_crates sample_db" and wf: "public_key_wf sample_crates new_key" by code_simp+
  have "snd (register_verified LeasePolicy_default (pg_instance_insert sample_crates no_faults) sample_db
      new_key '' https://billing '' 200) = Inr new_instance"
    by code_simp
  then have reg: "register_verified LeasePolicy_default (pg_instance_insert sample_crates no_faults) sample_db
      new_key '' https://billing '' 200 = (registered_registry, Inr new_instance)"
    by (simp add: registered_registry_def prod_eq_iff)
  have "lp_duration_seconds LeasePolicy_default = 60" and "ipk_instance_id new_key = InstanceId 12"
    by (simp_all add: LeasePolicy_default_def DEFAULT_LEASE_SECONDS_def new_key_def)
  with registration_eligible_for_lease [OF good wf reg, of 259] registration_eligible_for_lease [OF good wf reg, of 260]
  show ?thesis by simp
qed

end
