(* ===== verification/Pg_Subscriptions.thy ===== *)
theory Pg_Subscriptions
  imports Database
begin

text \<open>
  \<open>src/infrastructure/postgres_subscription_repository.rs\<close>: subscriptions are only inserted and
  disabled once, with the partial unique index on active ones and the trigger of migration 0004 (as
  replaced by 0015). The interpretation \<open>pgsub\<close> discharges the laws of
  \<open>subscription_repository\<close>.
\<close>

section \<open>Rows and constraints\<close>

primrec delivery_mode_to_sql :: "DeliveryMode \<Rightarrow> string" where
  "delivery_mode_to_sql Inclusive = ''inclusive''"

definition delivery_mode_from_sql :: "string \<Rightarrow> SubscriptionError + DeliveryMode" where
  "delivery_mode_from_sql value =
     (if value = ''inclusive'' then Inr Inclusive
      else Inl (SE_Repository (''unknown stored delivery mode: '' @ value)))"

definition subscription_from_row :: "subscription_row \<Rightarrow> SubscriptionError + Subscription" where
  "subscription_from_row row =
     bind_result (EventType_new (sbr_event_type row)) (\<lambda>event_type.
     bind_result (delivery_mode_from_sql (sbr_delivery_mode row)) (\<lambda>delivery_mode.
       map_err (\<lambda>_. SE_Repository ''stored subscription is invalid'')
         (Subscription_restore (sbr_id row) (sbr_service_id row) event_type delivery_mode
            (sbr_created_at row) (sbr_disabled_at row))))"

definition subscription_row_of :: "Subscription \<Rightarrow> subscription_row" where
  "subscription_row_of s =
     \<lparr>sbr_id = sub_id s, sbr_service_id = sub_service_id s,
      sbr_event_type = EventType_as_str (sub_event_type s),
      sbr_delivery_mode = delivery_mode_to_sql (sub_delivery_mode s),
      sbr_created_at = sub_created_at s, sbr_disabled_at = sub_disabled_at s\<rparr>"

definition subscriptions_check :: "subscription_row \<Rightarrow> bool" where
  "subscriptions_check r \<longleftrightarrow>
     event_type_check (sbr_event_type r) \<and> sbr_delivery_mode r = ''inclusive'' \<and>
     0 \<le> sbr_created_at r \<and>
     (case sbr_disabled_at r of None \<Rightarrow> True | Some t \<Rightarrow> sbr_created_at r \<le> t)"

text \<open>The trigger \<open>protect_subscription_history()\<close> on an update.\<close>

definition protect_subscription_history :: "subscription_row \<Rightarrow> subscription_row \<Rightarrow> bool" where
  "protect_subscription_history old new \<longleftrightarrow>
     sbr_id new = sbr_id old \<and> sbr_service_id new = sbr_service_id old \<and>
     sbr_event_type new = sbr_event_type old \<and> sbr_delivery_mode new = sbr_delivery_mode old \<and>
     sbr_created_at new = sbr_created_at old \<and> sbr_disabled_at old = None \<and> sbr_disabled_at new \<noteq> None"

abbreviation active_row :: "subscription_row \<Rightarrow> bool" where
  "active_row r \<equiv> sbr_disabled_at r = None"


section \<open>The operations\<close>

abbreviation sub_stmt ::
  "faults \<Rightarrow> nat \<Rightarrow> Db \<Rightarrow> Db \<times> (SubscriptionError + 'a) \<Rightarrow> Db \<times> (SubscriptionError + 'a)" where
  "sub_stmt io k db rest \<equiv> db_stmt io k SE_Repository db rest"

definition append_subscription_audit ::
  "faults \<Rightarrow> nat \<Rightarrow> Db \<Rightarrow> Db \<Rightarrow> Subscription \<Rightarrow> string \<Rightarrow> i64 \<Rightarrow> 'a \<Rightarrow> Db \<times> (SubscriptionError + 'a)" where
  "append_subscription_audit io k before db s action recorded_at result =
     sub_stmt io k before (
       if recorded_at < 0 \<or> action \<notin> set [''created'', ''disabled'']
          \<or> \<not> sql_text (EventType_as_str (sub_event_type s))
       then (before, Inl (SE_Repository db_error))
       else sub_stmt io (k + 1) before
         (db\<lparr>subscription_audit := subscription_audit db @
             [\<lparr>sba_subscription_id = sub_id s, sba_service_id = sub_service_id s,
               sba_event_type = EventType_as_str (sub_event_type s),
               sba_delivery_mode = delivery_mode_to_sql (sub_delivery_mode s),
               sba_action = action, sba_recorded_at = recorded_at\<rparr>]\<rparr>, Inr result))"

definition pg_subscription_insert ::
  "faults \<Rightarrow> Db \<Rightarrow> Subscription \<Rightarrow> Db \<times> (SubscriptionError + unit)" where
  "pg_subscription_insert io db subscription =
     sub_stmt io 0 db (sub_stmt io 1 db (sub_stmt io 2 db (
       let row = (subscription_row_of subscription)\<lparr>sbr_disabled_at := None\<rparr>
       in if \<not> subscriptions_check row then (db, Inl (SE_Repository db_error))
          else if fk sbr_id (subscriptions db) (sbr_id row)
          then (db, Inl (SE_AlreadyExists (sub_id subscription)))
          else if list_ex (\<lambda>r. active_row r \<and> sbr_service_id r = sbr_service_id row \<and>
                 sbr_event_type r = sbr_event_type row) (subscriptions db)
          then (db, Inl (SE_DuplicateActive (sub_service_id subscription) (sub_event_type subscription)))
          else if \<not> fk idr_id (identities db) (sbr_service_id row)
          then (db, Inl (SE_UnknownService (sub_service_id subscription)))
          else append_subscription_audit io 3 db
            (db\<lparr>subscriptions := subscriptions db @ [row]\<rparr>) subscription ''created''
            (sub_created_at subscription) ())))"

text \<open>\<open>ORDER BY created_at, id\<close>.\<close>

definition in_creation_order :: "subscription_row list \<Rightarrow> subscription_row list" where
  "in_creation_order rs = sort_key (\<lambda>r. (sbr_created_at r, SubscriptionId_as_uuid (sbr_id r))) rs"

definition list_subscriptions ::
  "faults \<Rightarrow> Db \<Rightarrow> ActorId \<Rightarrow> bool \<Rightarrow> SubscriptionError + Subscription list" where
  "list_subscriptions io db service_id active_only =
     snd (sub_stmt io 0 db (sub_stmt io 1 db
       (db, collect_results subscription_from_row (in_creation_order (filter (\<lambda>r.
              sbr_service_id r = service_id \<and> (active_only \<longrightarrow> active_row r)) (subscriptions db))))))"

definition pg_list_for_service ::
  "faults \<Rightarrow> Db \<Rightarrow> ActorId \<Rightarrow> SubscriptionError + Subscription list" where
  "pg_list_for_service io db service_id = list_subscriptions io db service_id False"

definition pg_list_active_for_service ::
  "faults \<Rightarrow> Db \<Rightarrow> ActorId \<Rightarrow> SubscriptionError + Subscription list" where
  "pg_list_active_for_service io db service_id = list_subscriptions io db service_id True"

definition pg_find_active_by_event_type ::
  "faults \<Rightarrow> Db \<Rightarrow> EventType \<Rightarrow> SubscriptionError + Subscription list" where
  "pg_find_active_by_event_type io db event_type =
     snd (sub_stmt io 0 db (sub_stmt io 1 db
       (db, collect_results subscription_from_row (in_creation_order (filter (\<lambda>r.
              sbr_event_type r = EventType_as_str event_type \<and> active_row r) (subscriptions db))))))"

definition classify_failed_disable ::
  "Db \<Rightarrow> ActorId \<Rightarrow> SubscriptionId \<Rightarrow> i64 \<Rightarrow> SubscriptionError" where
  "classify_failed_disable db service_id subscription_id disabled_at =
     (case find (\<lambda>r. sbr_id r = subscription_id) (subscriptions db) of
        None \<Rightarrow> SE_NotFound subscription_id
      | Some row \<Rightarrow>
          if sbr_service_id row \<noteq> service_id then SE_NotFound subscription_id
          else if sbr_disabled_at row \<noteq> None then SE_AlreadyDisabled subscription_id
          else if sbr_created_at row > disabled_at then SE_InvalidTimestamp
          else SE_Repository ''subscription disable was not applied'')"

definition pg_subscription_disable ::
  "faults \<Rightarrow> Db \<Rightarrow> ActorId \<Rightarrow> SubscriptionId \<Rightarrow> i64 \<Rightarrow> Db \<times> (SubscriptionError + Subscription)" where
  "pg_subscription_disable io db service_id subscription_id disabled_at =
     (if disabled_at < 0 then (db, Inl SE_InvalidTimestamp)
      else sub_stmt io 0 db (sub_stmt io 1 db (sub_stmt io 2 db (
        let P = (\<lambda>r. sbr_service_id r = service_id \<and> active_row r \<and> sbr_created_at r \<le> disabled_at);
            f = (\<lambda>r. r\<lparr>sbr_disabled_at := Some disabled_at\<rparr>)
        in case find (\<lambda>r. sbr_id r = subscription_id \<and> P r) (subscriptions db) of
             None \<Rightarrow> sub_stmt io 3 db
               (db, Inl (classify_failed_disable db service_id subscription_id disabled_at))
           | Some row \<Rightarrow>
               if \<not> (protect_subscription_history row (f row) \<and> subscriptions_check (f row))
               then (db, Inl (SE_Repository db_error))
               else (case subscription_from_row (f row) of
                       Inl e \<Rightarrow> (db, Inl e)
                     | Inr subscription \<Rightarrow>
                         append_subscription_audit io 3 db
                           (db\<lparr>subscriptions := update_where (\<lambda>r. sbr_id r = subscription_id \<and> P r) f
                                 (subscriptions db)\<rparr>)
                           subscription ''disabled'' disabled_at subscription)))))"


section \<open>The contract\<close>

definition row_subscription :: "subscription_row \<Rightarrow> Subscription" where
  "row_subscription r =
     \<lparr>sub_id = sbr_id r, sub_service_id = sbr_service_id r, sub_event_type = EventType (sbr_event_type r),
      sub_delivery_mode = Inclusive, sub_created_at = sbr_created_at r, sub_disabled_at = sbr_disabled_at r\<rparr>"

definition good_subscriptions :: "Db \<Rightarrow> bool" where
  "good_subscriptions db \<longleftrightarrow>
     distinct (map sbr_id (subscriptions db)) \<and>
     distinct (map (\<lambda>r. (sbr_service_id r, sbr_event_type r)) (filter active_row (subscriptions db))) \<and>
     list_all (\<lambda>r. subscriptions_check r \<and> event_type_wf (EventType (sbr_event_type r))) (subscriptions db)"

lemma row_subscription_simps [simp]:
  "sub_id (row_subscription r) = sbr_id r" "sub_service_id (row_subscription r) = sbr_service_id r"
  "sub_event_type (row_subscription r) = EventType (sbr_event_type r)"
  "sub_disabled_at (row_subscription r) = sbr_disabled_at r"
  "Subscription_is_active (row_subscription r) = active_row r"
  by (simp_all add: row_subscription_def Subscription_is_active_def)

lemma subscription_from_row_checked:
  "subscriptions_check r \<Longrightarrow> event_type_wf (EventType (sbr_event_type r)) \<Longrightarrow>
     subscription_from_row r = Inr (row_subscription r)"
  by (auto simp: subscription_from_row_def subscriptions_check_def event_type_wf_def
      delivery_mode_from_sql_def Subscription_restore_def row_subscription_def split: option.splits)

lemma row_subscription_of:
  "event_type_wf (sub_event_type x) \<Longrightarrow> row_subscription (subscription_row_of x) = x"
  by (cases "sub_event_type x"; cases "sub_delivery_mode x")
    (simp add: row_subscription_def subscription_row_of_def)

lemma pg_find_active_rows:
  assumes "good_subscriptions db"
  shows "pg_find_active_by_event_type no_faults db t =
    Inr (map row_subscription (in_creation_order (filter (\<lambda>r. sbr_event_type r = EventType_as_str t \<and> active_row r) (subscriptions db))))"
  using assms
  by (auto simp: pg_find_active_by_event_type_def in_creation_order_def good_subscriptions_def list_all_iff
      intro!: collect_results_all_Inr subscription_from_row_checked)

lemma set_in_creation_order [simp]: "set (in_creation_order rs) = set rs"
  by (simp add: in_creation_order_def)

lemma distinct_map_creation_order [simp]: "distinct (map f (in_creation_order rs)) = distinct (map f rs)"
  by (simp add: in_creation_order_def distinct_map)

lemma active_unique:
  assumes "good_subscriptions db" and "r \<in> set (subscriptions db)" and "q \<in> set (subscriptions db)"
    and "active_row r" and "active_row q" and "sbr_service_id r = sbr_service_id q" and "sbr_event_type r = sbr_event_type q"
  shows "r = q"
proof -
  have "inj_on (\<lambda>r. (sbr_service_id r, sbr_event_type r)) (set (filter active_row (subscriptions db)))"
    using assms(1) by (simp add: good_subscriptions_def distinct_map)
  from inj_onD [OF this, of r q] assms(2-7) show ?thesis by simp
qed

lemma append_subscription_audit_Inr:
  "append_subscription_audit io k before db s a t r = (db', Inr y) \<Longrightarrow> y = r \<and> subscriptions db' = subscriptions db"
  by (auto simp: append_subscription_audit_def split: if_splits)

lemma append_subscription_audit_Inl: "append_subscription_audit io k before db s a t r = (db', Inl e) \<Longrightarrow> db' = before"
  by (auto simp: append_subscription_audit_def split: if_splits db_stmt_splits)

lemma pg_subscription_insert_Inl: "pg_subscription_insert io db x = (db', Inl e) \<Longrightarrow> db' = db"
  by (auto simp: pg_subscription_insert_def Let_def split: if_splits db_stmt_splits dest: append_subscription_audit_Inl)

lemma pg_subscription_disable_Inl: "pg_subscription_disable io db a i t = (db', Inl e) \<Longrightarrow> db' = db"
  by (auto simp: pg_subscription_disable_def Let_def split: if_splits option.splits sum.splits db_stmt_splits
      dest: append_subscription_audit_Inl)

lemma pg_subscription_insert_Inr:
  assumes "pg_subscription_insert io db x = (db', Inr u)"
  defines "row \<equiv> (subscription_row_of x)\<lparr>sbr_disabled_at := None\<rparr>"
  shows "subscriptions db' = subscriptions db @ [row]" and "subscriptions_check row"
    and "sub_id x \<notin> sbr_id ` set (subscriptions db)"
    and "\<And>r. r \<in> set (subscriptions db) \<Longrightarrow> active_row r \<Longrightarrow> sbr_service_id r = sub_service_id x \<Longrightarrow>
      sbr_event_type r \<noteq> EventType_as_str (sub_event_type x)"
  using assms(1)
  by (auto simp: pg_subscription_insert_def Let_def row_def [symmetric] fk_iff list_ex_iff
      split: if_splits dest!: append_subscription_audit_Inr)
    (fastforce simp: row_def subscription_row_of_def)+

lemma pg_subscription_insert_good:
  assumes good: "good_subscriptions db" and "event_type_wf (sub_event_type x)"
    and ok: "pg_subscription_insert io db x = (db', Inr u)"
  shows "good_subscriptions db'"
proof -
  note ins = pg_subscription_insert_Inr [OF ok]
  let ?row = "(subscription_row_of x)\<lparr>sbr_disabled_at := None\<rparr>"
  have row: "sbr_id ?row = sub_id x" "sbr_service_id ?row = sub_service_id x"
    "sbr_event_type ?row = EventType_as_str (sub_event_type x)" "active_row ?row"
    by (simp_all add: subscription_row_of_def)
  have "EventType (EventType_as_str (sub_event_type x)) = sub_event_type x" by (cases "sub_event_type x") simp
  with assms(2) row have "event_type_wf (EventType (sbr_event_type ?row))" by simp
  moreover have "(sub_service_id x, EventType_as_str (sub_event_type x)) \<notin>
      (\<lambda>r. (sbr_service_id r, sbr_event_type r)) ` set (filter active_row (subscriptions db))"
    by (auto dest: ins(4))
  ultimately show ?thesis
    using good ins(2,3) unfolding good_subscriptions_def ins(1) by (simp add: row)
qed

lemma pg_subscription_disable_Inr:
  assumes good: "good_subscriptions db" and ok: "pg_subscription_disable io db a i t = (db', Inr y)"
  obtains r where "r \<in> set (subscriptions db)" and "sbr_id r = i" and "sbr_service_id r = a" and "active_row r"
    and "sbr_created_at r \<le> t" and "0 \<le> t"
    and "subscriptions db' = update_where (\<lambda>r. sbr_id r = i) (\<lambda>r. r\<lparr>sbr_disabled_at := Some t\<rparr>) (subscriptions db)"
    and "y = row_subscription (r\<lparr>sbr_disabled_at := Some t\<rparr>)"
proof -
  define P where "P = (\<lambda>r :: subscription_row. sbr_service_id r = a \<and> active_row r \<and> sbr_created_at r \<le> t)"
  define f where "f = (\<lambda>r :: subscription_row. r\<lparr>sbr_disabled_at := Some t\<rparr>)"
  from ok obtain r where r: "find (\<lambda>r. sbr_id r = i \<and> P r) (subscriptions db) = Some r"
    and chk: "subscriptions_check (f r)" and dec: "subscription_from_row (f r) = Inr y"
    and db': "subscriptions db' = update_where (\<lambda>r. sbr_id r = i \<and> P r) f (subscriptions db)" and t: "0 \<le> t"
    by (auto simp: pg_subscription_disable_def Let_def P_def f_def split: if_splits option.splits sum.splits
        dest!: append_subscription_audit_Inr)
  from find_SomeD [OF r] have rs: "r \<in> set (subscriptions db)" "sbr_id r = i" "P r" by auto
  have cnt: "count_where (\<lambda>r. sbr_id r = i \<and> P r) (subscriptions db) \<noteq> 0" using rs by auto
  have dist: "distinct (map sbr_id (subscriptions db))" using good by (simp add: good_subscriptions_def)
  have upd: "update_where (\<lambda>r. sbr_id r = i \<and> P r) f (subscriptions db) = update_where (\<lambda>r. sbr_id r = i) f (subscriptions db)"
    using count_where_keyed [OF dist cnt, of f] by blast
  have "event_type_wf (EventType (sbr_event_type (f r)))"
    using good rs(1) by (auto simp: good_subscriptions_def list_all_iff f_def)
  with chk dec have "y = row_subscription (f r)" by (simp add: subscription_from_row_checked)
  with that rs upd db' t show thesis by (auto simp: P_def f_def)
qed

lemma disable_row_good:
  assumes good: "good_subscriptions db" and "r \<in> set (subscriptions db)" and "sbr_created_at r \<le> t"
    and db': "subscriptions db' = update_where (\<lambda>q. sbr_id q = sbr_id r) (\<lambda>q. q\<lparr>sbr_disabled_at := Some t\<rparr>) (subscriptions db)"
  shows "good_subscriptions db'"
proof -
  let ?f = "\<lambda>q. if sbr_id q = sbr_id r then q\<lparr>sbr_disabled_at := Some t\<rparr> else q"
  have db'_map: "subscriptions db' = map ?f (subscriptions db)"
    unfolding db' update_where_def ..
  have uniq: "q = r" if "q \<in> set (subscriptions db)" "sbr_id q = sbr_id r" for q
    using good assms(2) that unfolding good_subscriptions_def distinct_map by (metis inj_onD)
  have fl: "filter active_row (map ?f rs) = filter (\<lambda>q. sbr_id q \<noteq> sbr_id r) (filter active_row rs)" for rs
    by (induction rs) auto
  have "map sbr_id (subscriptions db') = map sbr_id (subscriptions db)"
    unfolding db' by (rule map_update_where) simp
  then have ids: "distinct (map sbr_id (subscriptions db'))"
    using good by (simp add: good_subscriptions_def)
  have act: "distinct (map (\<lambda>r. (sbr_service_id r, sbr_event_type r)) (filter active_row (subscriptions db')))"
    unfolding db'_map fl using distinct_map_filter [of _ "filter active_row (subscriptions db)"] good
    by (simp only: good_subscriptions_def simp_thms) blast
  have "subscriptions_check q' \<and> event_type_wf (EventType (sbr_event_type q'))"
    if q': "q' \<in> set (subscriptions db')" for q'
  proof -
    from q' obtain q where q: "q \<in> set (subscriptions db)" "q' = ?f q" unfolding db'_map by auto
    then have "subscriptions_check q" "event_type_wf (EventType (sbr_event_type q))"
      using good by (auto simp: good_subscriptions_def list_all_iff)
    moreover have "sbr_created_at q \<le> t" if "sbr_id q = sbr_id r"
      using uniq [OF q(1) that] assms(3) by simp
    ultimately show ?thesis unfolding q(2) by (simp add: subscriptions_check_def)
  qed
  with ids act show ?thesis unfolding good_subscriptions_def list_all_iff by blast
qed

interpretation pgsub: subscription_repository good_subscriptions "pg_subscription_insert io"
  "pg_find_active_by_event_type no_faults" "pg_subscription_disable io" for io
proof
  fix s s' :: Db and t x u a i now y xs
  assume good: "good_subscriptions s"
  let ?rows = "\<lambda>db t. filter (\<lambda>r. sbr_event_type r = EventType_as_str t \<and> active_row r) (subscriptions db)"
  have et: "EventType_as_str t = z \<Longrightarrow> EventType z = t" for t z by (cases t) simp
  have xs: "set xs = row_subscription ` set (?rows s t)" if "pg_find_active_by_event_type no_faults s t = Inr xs" for t xs
    using that unfolding pg_find_active_rows [OF good] by auto
  show "\<exists>xs. pg_find_active_by_event_type no_faults s t = Inr xs \<and> distinct (map sub_service_id xs) \<and>
      (\<forall>x \<in> set xs. sub_event_type x = t \<and> Subscription_is_active x)"
  proof -
    have "inj_on sbr_service_id (set (?rows s t))"
      using active_unique [OF good] by (auto simp: inj_on_def)
    moreover have "distinct (?rows s t)"
      using good by (simp add: good_subscriptions_def distinct_map)
    ultimately have "distinct (map sbr_service_id (?rows s t))" by (simp add: distinct_map)
    then show ?thesis
      by (auto simp: pg_find_active_rows [OF good] o_def et)
  qed
  show "good_subscriptions s' \<and> (\<exists>ys. pg_find_active_by_event_type no_faults s' t = Inr ys \<and>
      set ys = (if t = sub_event_type x then {x} else {}) \<union> set xs)"
    if x: "subscription_wf x" "Subscription_is_active x" and ins: "pg_subscription_insert io s x = (s', Inr u)"
      and act: "pg_find_active_by_event_type no_faults s t = Inr xs"
  proof -
    have wf: "event_type_wf (sub_event_type x)" using x(1) by (simp add: subscription_wf_def)
    note good' = pg_subscription_insert_good [OF good wf ins]
    have row: "(subscription_row_of x)\<lparr>sbr_disabled_at := None\<rparr> = subscription_row_of x"
      using x(2) by (simp add: subscription_row_of_def Subscription_is_active_def)
    have r: "row_subscription (subscription_row_of x) = x" "sbr_event_type (subscription_row_of x) = EventType_as_str (sub_event_type x)"
      "active_row (subscription_row_of x)"
      using row_subscription_of [OF wf] x(2) by (simp_all add: subscription_row_of_def Subscription_is_active_def)
    have "EventType_as_str (sub_event_type x) = EventType_as_str t \<longleftrightarrow> t = sub_event_type x"
      by (cases t; cases "sub_event_type x") auto
    then have "row_subscription ` set (?rows s' t) = (if t = sub_event_type x then {x} else {}) \<union> row_subscription ` set (?rows s t)"
      unfolding pg_subscription_insert_Inr(1) [OF ins] row by (simp add: r)
    with good' xs [OF act] show ?thesis by (simp add: pg_find_active_rows)
  qed
  show "good_subscriptions s' \<and> sub_id y = i \<and> sub_service_id y = a \<and>
      (\<exists>ys. pg_find_active_by_event_type no_faults s' t = Inr ys \<and> set ys = {x \<in> set xs. sub_id x \<noteq> i})"
    if dis: "pg_subscription_disable io s a i now = (s', Inr y)"
      and act: "pg_find_active_by_event_type no_faults s t = Inr xs"
  proof -
    obtain r where r: "r \<in> set (subscriptions s)" "sbr_id r = i" "sbr_service_id r = a" "sbr_created_at r \<le> now"
      and s': "subscriptions s' = update_where (\<lambda>r. sbr_id r = i) (\<lambda>r. r\<lparr>sbr_disabled_at := Some now\<rparr>) (subscriptions s)"
      and y: "y = row_subscription (r\<lparr>sbr_disabled_at := Some now\<rparr>)"
      by (rule pg_subscription_disable_Inr [OF good dis]) blast
    have good': "good_subscriptions s'"
      using disable_row_good [OF good r(1,4), of s'] s' r(2) by simp
    have "set (?rows s' t) = {q \<in> set (?rows s t). sbr_id q \<noteq> i}"
      unfolding s' by (auto simp: set_update_where)
    then have "row_subscription ` set (?rows s' t) = {x \<in> set xs. sub_id x \<noteq> i}"
      unfolding xs [OF act] by auto
    with good' y r show ?thesis by (simp add: pg_find_active_rows)
  qed
qed

end
