(* ===== verification/Subscription_Properties.thy ===== *)
theory Subscription_Properties
  imports Pg_Subscriptions
begin

text \<open>
  What subscribers and routing can rely on, over whole histories of the subscription service on the
  PostgreSQL adapter: any interleaving of creations and disables, succeeding or failing, with driver
  faults at any statement, and of other statements that leave the table alone.
\<close>

inductive subscription_run :: "Db \<Rightarrow> Db \<Rightarrow> bool" where
  srun_create: "event_type_wf t \<Longrightarrow>
    SubscriptionService_create (pg_subscription_insert io) i db a t m now = (db', r) \<Longrightarrow> subscription_run db db'"
| srun_disable: "SubscriptionService_disable (pg_subscription_disable io) db a i now = (db', y) \<Longrightarrow>
    subscription_run db db'"
| srun_other: "subscriptions db' = subscriptions db \<Longrightarrow> subscription_run db db'"

text \<open>How a row may change: not at all, or from active to disabled.\<close>

definition row_evolves :: "subscription_row \<Rightarrow> subscription_row \<Rightarrow> bool" where
  "row_evolves r r' \<longleftrightarrow> r' = r \<or> (active_row r \<and> (\<exists>t. r' = r\<lparr>sbr_disabled_at := Some t\<rparr>))"

lemma row_evolves_refl [simp]: "row_evolves r r"
  by (simp add: row_evolves_def)

lemma row_evolves_trans: "row_evolves a b \<Longrightarrow> row_evolves b c \<Longrightarrow> row_evolves a c"
  by (auto simp: row_evolves_def)

definition rows_evolve :: "Db \<Rightarrow> Db \<Rightarrow> bool" where
  "rows_evolve db db' \<longleftrightarrow> (\<forall>r \<in> set (subscriptions db). \<exists>r' \<in> set (subscriptions db'). row_evolves r r')"

lemma rows_evolve_subset:
  assumes "set (subscriptions db) \<subseteq> set (subscriptions db')"
  shows "rows_evolve db db'"
  unfolding rows_evolve_def
proof
  fix r
  assume "r \<in> set (subscriptions db)"
  with assms have "r \<in> set (subscriptions db')" by blast
  then show "\<exists>r' \<in> set (subscriptions db'). row_evolves r r'" by (rule bexI [rotated]) simp
qed

lemma rows_evolve_refl [simp]: "rows_evolve db db"
  by (rule rows_evolve_subset) simp

lemma rows_evolve_trans: "rows_evolve a b \<Longrightarrow> rows_evolve b c \<Longrightarrow> rows_evolve a c"
  by (meson rows_evolve_def row_evolves_trans)

lemma event_type_check_wf:
  assumes "event_type_wf t"
  shows "event_type_check (EventType_as_str t)"
proof -
  let ?s = "EventType_as_str t"
  have s: "?s \<noteq> []" "chars_count ?s \<le> 200" "list_all valid_event_segment (split_on (CHR ''.'') ?s)"
    using assms by (cases t; auto simp: event_type_wf_def EventType_new_def Let_def MAX_EVENT_TYPE_LENGTH_def split: if_splits)+
  have "visible c" if "c \<in> set ?s" for c
  proof (cases "c = CHR ''.''")
    case False
    with split_on_bytes [OF that this] s(3) show ?thesis
      by (auto simp: list_all_iff dest!: valid_segment_visible)
  qed (simp add: visible_def in_byte_range_def byte_val_def)
  then have vis: "list_all visible ?s" by (simp add: list_all_iff)
  with s show ?thesis
    by (auto simp: event_type_check_def length_between_def visible_sql_text chars_count_visible Suc_le_eq)
qed

lemma create_Inr:
  assumes "SubscriptionService_create (pg_subscription_insert io) i db a t m now = (db', Inr x)"
  shows "x = \<lparr>sub_id = i, sub_service_id = a, sub_event_type = t, sub_delivery_mode = m,
      sub_created_at = now, sub_disabled_at = None\<rparr>" and "0 \<le> now"
    and "pg_subscription_insert io db x = (db', Inr ())"
  using assms
  by (auto simp: SubscriptionService_create_def Subscription_create_Inr split: sum.splits prod.splits)

lemma create_Inl: "SubscriptionService_create (pg_subscription_insert io) i db a t m now = (db', Inl e) \<Longrightarrow> db' = db"
  by (auto simp: SubscriptionService_create_def split: sum.splits prod.splits dest: pg_subscription_insert_Inl)

lemma disable_Inr:
  "SubscriptionService_disable (pg_subscription_disable io) db a i now = (db', Inr y) \<Longrightarrow>
     pg_subscription_disable io db a i now = (db', Inr y)"
  by (simp add: SubscriptionService_disable_def split: if_splits)

lemma disable_Inl: "SubscriptionService_disable (pg_subscription_disable io) db a i now = (db', Inl e) \<Longrightarrow> db' = db"
  by (auto simp: SubscriptionService_disable_def split: if_splits dest: pg_subscription_disable_Inl)

lemma subscription_run_step:
  assumes "subscription_run db db'" and "good_subscriptions db"
  shows "good_subscriptions db' \<and> rows_evolve db db'"
  using assms
proof (induction rule: subscription_run.induct)
  case (srun_create t io i db a m now db' r)
  show ?case
  proof (cases r)
    case (Inr x)
    note ok = create_Inr [OF srun_create.hyps(2) [unfolded Inr]]
    have "event_type_wf (sub_event_type x)" using ok(1) srun_create.hyps(1) by simp
    moreover have "rows_evolve db db'"
      by (rule rows_evolve_subset) (auto simp: pg_subscription_insert_Inr(1) [OF ok(3)])
    ultimately show ?thesis using pg_subscription_insert_good [OF srun_create.prems _ ok(3)] by blast
  next
    case (Inl e)
    have "db' = db" by (rule create_Inl [OF srun_create.hyps(2) [unfolded Inl]])
    with srun_create.prems show ?thesis by simp
  qed
next
  case (srun_disable io db a i now db' y)
  show ?case
  proof (cases y)
    case (Inr x)
    obtain r where r: "r \<in> set (subscriptions db)" "sbr_id r = i" "active_row r" "sbr_created_at r \<le> now"
      and db': "subscriptions db' = update_where (\<lambda>r. sbr_id r = i) (\<lambda>r. r\<lparr>sbr_disabled_at := Some now\<rparr>) (subscriptions db)"
      by (rule pg_subscription_disable_Inr [OF srun_disable.prems disable_Inr [OF srun_disable.hyps [unfolded Inr]]]) blast
    have uniq: "q = r" if "q \<in> set (subscriptions db)" "sbr_id q = i" for q
      using srun_disable.prems r(1,2) that unfolding good_subscriptions_def distinct_map by (metis inj_onD)
    have "row_evolves q (if sbr_id q = i then q\<lparr>sbr_disabled_at := Some now\<rparr> else q)" if "q \<in> set (subscriptions db)" for q
      using uniq [OF that] r(3) by (auto simp: row_evolves_def)
    then have "rows_evolve db db'" unfolding rows_evolve_def db' set_update_where by blast
    with disable_row_good [OF srun_disable.prems r(1,4), of db'] db' r(2) show ?thesis by simp
  next
    case (Inl e)
    have "db' = db" by (rule disable_Inl [OF srun_disable.hyps [unfolded Inl]])
    with srun_disable.prems show ?thesis by simp
  qed
next
  case (srun_other db' db)
  then show ?case by (simp add: good_subscriptions_def rows_evolve_subset)
qed

lemma subscription_runs:
  assumes "subscription_run\<^sup>*\<^sup>* db db'" and "good_subscriptions db"
  shows "good_subscriptions db' \<and> rows_evolve db db'"
  using assms
proof (induction rule: rtranclp_induct)
  case (step a b)
  with subscription_run_step [of a b] show ?case by (blast intro: rows_evolve_trans)
qed simp


section \<open>Properties\<close>

text \<open>C32: Routing never sees a service twice for one event. Whatever is created and disabled, in whatever
  order and with whatever failures, the active subscriptions of an event type can always be read,
  and they are active, of that type, and of pairwise different services.\<close>

theorem one_active_subscription_per_service:
  assumes "good_subscriptions db" and "subscription_run\<^sup>*\<^sup>* db db'"
  shows "\<exists>xs. pg_find_active_by_event_type no_faults db' t = Inr xs \<and> distinct (map sub_service_id xs) \<and>
    (\<forall>x \<in> set xs. sub_event_type x = t \<and> Subscription_is_active x)"
  using subscription_runs [OF assms(2,1)] pgsub.active_ok by blast

theorem one_active_subscription_per_service_witness:
  "\<exists>xs. pg_find_active_by_event_type no_faults sample_db (EventType sample_action) = Inr xs \<and>
    distinct (map sub_service_id xs)"
proof -
  have "good_subscriptions sample_db" by code_simp
  from one_active_subscription_per_service [OF this rtranclp.rtrancl_refl, of "EventType sample_action"]
  show ?thesis by blast
qed

text \<open>A created subscription receives its events. Right after a successful creation it is among the
  active subscriptions of its event type, and as long as it is neither disabled nor removed, a second
  subscription of that service to that event type is refused.\<close>

theorem created_subscription_active:
  assumes "good_subscriptions db" and "event_type_wf t"
    and "SubscriptionService_create (pg_subscription_insert io) i db a t m now = (db', Inr x)"
  shows "(\<exists>ys. pg_find_active_by_event_type no_faults db' t = Inr ys \<and> x \<in> set ys) \<and>
    (0 \<le> now' \<longrightarrow> i' \<noteq> i \<longrightarrow> i' \<notin> sbr_id ` set (subscriptions db) \<longrightarrow>
      SubscriptionService_create (pg_subscription_insert no_faults) i' db' a t m' now' =
        (db', Inl (SE_DuplicateActive a t)))"
proof -
  note ok = create_Inr [OF assms(3)]
  have row: "subscriptions db' = subscriptions db @ [subscription_row_of x]"
    using pg_subscription_insert_Inr(1) [OF ok(3)] by (simp add: ok(1) subscription_row_of_def)
  have dup: "SubscriptionService_create (pg_subscription_insert no_faults) i' db' a t m' now' =
      (db', Inl (SE_DuplicateActive a t))"
    if "0 \<le> now'" "i' \<noteq> i" "i' \<notin> sbr_id ` set (subscriptions db)"
    using that event_type_check_wf [OF assms(2)]
    by (cases m') (auto simp: SubscriptionService_create_def Subscription_create_def Subscription_restore_def
        pg_subscription_insert_def Let_def row ok(1) subscription_row_of_def subscriptions_check_def fk_iff list_ex_iff)
  with pgsub.created_is_active [OF assms] show ?thesis by blast
qed

definition subscribed_db :: Db where
  "subscribed_db = fst (SubscriptionService_create (pg_subscription_insert no_faults) (SubscriptionId 21)
     sample_db (ActorId 1) (EventType sample_action) Inclusive 120)"

definition new_subscription :: Subscription where
  "new_subscription = \<lparr>sub_id = SubscriptionId 21, sub_service_id = ActorId 1, sub_event_type = EventType sample_action,
     sub_delivery_mode = Inclusive, sub_created_at = 120, sub_disabled_at = None\<rparr>"

theorem created_subscription_active_witness:
  "(\<exists>ys. pg_find_active_by_event_type no_faults subscribed_db (EventType sample_action) = Inr ys \<and>
      new_subscription \<in> set ys) \<and>
    SubscriptionService_create (pg_subscription_insert no_faults) (SubscriptionId 22)
      subscribed_db (ActorId 1) (EventType sample_action) Inclusive 125 =
      (subscribed_db, Inl (SE_DuplicateActive (ActorId 1) (EventType sample_action)))"
proof -
  have good: "good_subscriptions sample_db" and wf: "event_type_wf (EventType sample_action)" by code_simp+
  have "snd (SubscriptionService_create (pg_subscription_insert no_faults) (SubscriptionId 21)
     sample_db (ActorId 1) (EventType sample_action) Inclusive 120) = Inr new_subscription" by code_simp
  then have "SubscriptionService_create (pg_subscription_insert no_faults) (SubscriptionId 21)
     sample_db (ActorId 1) (EventType sample_action) Inclusive 120 = (subscribed_db, Inr new_subscription)"
    by (simp add: subscribed_db_def prod_eq_iff)
  from created_subscription_active [OF good wf this, of 125 "SubscriptionId 22" Inclusive] show ?thesis
    by (simp add: sample_db_def empty_db_def)
qed

text \<open>C33: Disabling is permanent. After a successful disable, in every later database, the subscription
  is in no event type's active list, and disabling it again says \<open>AlreadyDisabled\<close> and changes
  nothing.\<close>

theorem disabled_subscription_permanent:
  assumes "good_subscriptions db"
    and "SubscriptionService_disable (pg_subscription_disable io) db a i now = (db', Inr y)"
    and "subscription_run\<^sup>*\<^sup>* db' db''"
  shows "(\<exists>xs. pg_find_active_by_event_type no_faults db'' t = Inr xs \<and> i \<notin> sub_id ` set xs) \<and>
    (0 \<le> now' \<longrightarrow> SubscriptionService_disable (pg_subscription_disable no_faults) db'' a i now' =
        (db'', Inl (SE_AlreadyDisabled i)))"
proof -
  obtain r where r: "r \<in> set (subscriptions db)" "sbr_id r = i" "sbr_service_id r = a" "sbr_created_at r \<le> now"
    and db': "subscriptions db' = update_where (\<lambda>r. sbr_id r = i) (\<lambda>r. r\<lparr>sbr_disabled_at := Some now\<rparr>) (subscriptions db)"
    by (rule pg_subscription_disable_Inr [OF assms(1) disable_Inr [OF assms(2)]]) blast
  let ?r = "r\<lparr>sbr_disabled_at := Some now\<rparr>"
  have good': "good_subscriptions db'"
    using disable_row_good [OF assms(1) r(1,4), of db'] db' r(2) by simp
  have "?r \<in> set (subscriptions db')" using r(1,2) unfolding db' set_update_where by force
  with subscription_runs [OF assms(3) good'] have good'': "good_subscriptions db''"
    and row: "?r \<in> set (subscriptions db'')"
    by (auto simp: rows_evolve_def row_evolves_def)
  have "inj_on sbr_id (set (subscriptions db''))"
    using good'' by (simp add: good_subscriptions_def distinct_map)
  from inj_onD [OF this _ _ row] have uniq: "q = ?r" if "q \<in> set (subscriptions db'')" "sbr_id q = i" for q
    using that r(2) by simp
  have "i \<notin> sbr_id ` set (filter (\<lambda>r. sbr_event_type r = EventType_as_str t \<and> active_row r) (subscriptions db''))"
    by (auto dest!: uniq)
  moreover have "find (\<lambda>q. sbr_id q = i \<and> sbr_service_id q = a \<and> active_row q \<and> sbr_created_at q \<le> now') (subscriptions db'') = None"
    by (auto simp: find_None_iff dest!: uniq)
  moreover have "find (\<lambda>q. sbr_id q = i) (subscriptions db'') = Some ?r"
  proof (cases "find (\<lambda>q. sbr_id q = i) (subscriptions db'')")
    case None
    with row r(2) show ?thesis by (auto simp: find_None_iff)
  next
    case (Some q)
    with uniq [of q] find_SomeD [OF Some] show ?thesis by simp
  qed
  ultimately show ?thesis
    using r(3) by (auto simp: pg_find_active_rows [OF good''] SubscriptionService_disable_def
        pg_subscription_disable_def classify_failed_disable_def)
qed

definition disabled_db :: Db where
  "disabled_db = fst (SubscriptionService_disable (pg_subscription_disable no_faults) sample_db (ActorId 2) (SubscriptionId 20) 130)"

theorem disabled_subscription_permanent_witness:
  "(\<exists>xs. pg_find_active_by_event_type no_faults disabled_db (EventType sample_action) = Inr xs \<and>
      SubscriptionId 20 \<notin> sub_id ` set xs) \<and>
    SubscriptionService_disable (pg_subscription_disable no_faults) disabled_db (ActorId 2) (SubscriptionId 20) 140 =
      (disabled_db, Inl (SE_AlreadyDisabled (SubscriptionId 20)))"
proof -
  have good: "good_subscriptions sample_db" by code_simp
  have "snd (SubscriptionService_disable (pg_subscription_disable no_faults) sample_db (ActorId 2) (SubscriptionId 20) 130) =
     Inr \<lparr>sub_id = SubscriptionId 20, sub_service_id = ActorId 2, sub_event_type = EventType sample_action,
       sub_delivery_mode = Inclusive, sub_created_at = 100, sub_disabled_at = Some 130\<rparr>" (is "_ = Inr ?y") by code_simp
  then have "SubscriptionService_disable (pg_subscription_disable no_faults) sample_db (ActorId 2) (SubscriptionId 20) 130 =
      (disabled_db, Inr ?y)"
    by (simp add: disabled_db_def prod_eq_iff)
  from disabled_subscription_permanent [OF good this rtranclp.rtrancl_refl, of "EventType sample_action" 140]
  show ?thesis by simp
qed

end
