(* ===== verification/Pg_Authority.thy ===== *)
theory Pg_Authority
  imports Database
begin

text \<open>
  \<open>src/infrastructure/postgres_authority_repository.rs\<close>: the grant filter, the recording of
  decisions and the publication of schema versions (the database function
  \<open>publish_authority_schema_version\<close> of migration 0010), with the constraints of migrations
  0009--0013 and 0019. The interpretation \<open>pgau\<close> discharges the laws of
  \<open>authority_repository\<close>.
\<close>

section \<open>Rows\<close>

primrec verdict_to_sql :: "Verdict \<Rightarrow> string" where
  "verdict_to_sql Allow = ''allow''"
| "verdict_to_sql Deny = ''deny''"

primrec schema_kind_to_sql :: "SchemaKind \<Rightarrow> string" where
  "schema_kind_to_sql Artifact = ''artifact''"
| "schema_kind_to_sql PermissionPolicy = ''permission_policy''"

definition schema_kind_from_sql :: "string \<Rightarrow> AuthorityError + SchemaKind" where
  "schema_kind_from_sql value =
     (if value = ''artifact'' then Inr Artifact
      else if value = ''permission_policy'' then Inr PermissionPolicy
      else Inl (AE_Repository (''unknown stored schema kind: '' @ value)))"

definition schema_status_from_sql :: "string \<Rightarrow> AuthorityError + SchemaStatus" where
  "schema_status_from_sql value =
     (if value = ''published'' then Inr Published
      else if value = ''active'' then Inr SchemaActive
      else if value = ''suspended'' then Inr Suspended
      else if value = ''superseded'' then Inr Superseded
      else if value = ''retired'' then Inr Retired
      else Inl (AE_Repository (''unknown stored schema status: '' @ value)))"

definition grant_from_row :: "grant_row \<Rightarrow> AuthorityError + Grant" where
  "grant_from_row row =
     bind_result (map_err (\<lambda>_. AE_Repository ''stored grant action is invalid'') (ActionName_new (agr_action row))) (\<lambda>action.
     bind_result (map_err (\<lambda>_. AE_Repository ''stored grant scope is invalid'') (Scope_new (agr_scope row))) (\<lambda>scope.
       Grant_restore (agr_grant_id row) (agr_source_service_id row) action scope
         \<lparr>svr_artifact = agr_artifact_schema_version_id row,
          svr_permission_policy = agr_permission_policy_schema_version_id row\<rparr>
         (agr_destination_service_id row) (agr_valid_from row) (agr_valid_until row)))"

definition schema_record_from_row :: "schema_version_row \<Rightarrow> AuthorityError + SchemaRecord" where
  "schema_record_from_row row =
     bind_result (schema_kind_from_sql (svw_kind row)) (\<lambda>kind.
     bind_result (map_err (\<lambda>_. AE_Repository ''stored schema name is invalid'') (SchemaName_new (svw_name row))) (\<lambda>name.
       if length (svw_content_digest row) \<noteq> 32 then Inl (AE_Repository ''stored content digest is invalid'')
       else bind_result (SchemaVersion_restore (svw_schema_version_id row) kind name (svw_version row)
                (svw_owner_service_id row) (ContentDigest (svw_content_digest row)) (svw_predecessor_id row)
                (svw_published_at row)) (\<lambda>version.
            bind_result (schema_status_from_sql (svw_status row)) (\<lambda>status.
              Inr \<lparr>sr_version = version, sr_status = status\<rparr>))))"

definition decision_row_of :: "AuthorityDecision \<Rightarrow> decision_row" where
  "decision_row_of d =
     (let facts = ad_facts d
      in \<lparr>adr_decision_id = ad_id d, adr_source_service_id = pf_source facts,
          adr_action = ActionName_as_str (pf_action facts), adr_scope = Scope_as_str (pf_scope facts),
          adr_artifact_schema_version_id = svr_artifact (pf_schema_versions facts),
          adr_permission_policy_schema_version_id = svr_permission_policy (pf_schema_versions facts),
          adr_destination_service_id = pf_destination facts, adr_verdict = verdict_to_sql (ad_verdict d),
          adr_evaluator_service_id = ad_evaluator d,
          adr_policy_bundle_version = map_option PolicyBundleVersion_as_str (ad_policy_bundle_version d),
          adr_decided_at = ad_decided_at d\<rparr>)"


section \<open>The operations\<close>

abbreviation auth_stmt ::
  "faults \<Rightarrow> nat \<Rightarrow> Db \<Rightarrow> Db \<times> (AuthorityError + 'a) \<Rightarrow> Db \<times> (AuthorityError + 'a)" where
  "auth_stmt io k db rest \<equiv> db_stmt io k AE_Repository db rest"

text \<open>The \<open>WHERE\<close> clause of \<open>MATCHING_GRANTS_SQL\<close>.\<close>

definition grant_matches :: "PolicyFacts \<Rightarrow> i64 \<Rightarrow> grant_row \<Rightarrow> bool" where
  "grant_matches facts now r \<longleftrightarrow>
     agr_source_service_id r = pf_source facts \<and>
     agr_action r = ActionName_as_str (pf_action facts) \<and>
     agr_artifact_schema_version_id r = svr_artifact (pf_schema_versions facts) \<and>
     agr_permission_policy_schema_version_id r = svr_permission_policy (pf_schema_versions facts) \<and>
     agr_destination_service_id r = pf_destination facts \<and>
     (agr_scope r = ''*'' \<or> agr_scope r = Scope_as_str (pf_scope facts)) \<and>
     agr_valid_from r \<le> now \<and>
     (case agr_valid_until r of None \<Rightarrow> True | Some until \<Rightarrow> until > now) \<and>
     agr_revoked_at r = None"

definition pg_matching_grants :: "faults \<Rightarrow> Db \<Rightarrow> PolicyFacts \<Rightarrow> i64 \<Rightarrow> AuthorityError + Grant list" where
  "pg_matching_grants io db facts now =
     snd (auth_stmt io 0 db (auth_stmt io 1 db
       (db, if \<not> sql_text (Scope_as_str (pf_scope facts)) then Inl (AE_Repository db_error)
            else collect_results grant_from_row (filter (grant_matches facts now) (authority_grants db)))))"

definition authority_schema_versions_check :: "schema_version_row \<Rightarrow> bool" where
  "authority_schema_versions_check r \<longleftrightarrow>
     svw_kind r \<in> set [''artifact'', ''permission_policy''] \<and> action_check (svw_name r) \<and>
     1 \<le> svw_version r \<and> length (svw_content_digest r) = 32 \<and> 0 \<le> svw_published_at r \<and>
     svw_status r \<in> set [''published'', ''active'', ''suspended'', ''superseded'', ''retired'']"

text \<open>\<open>publish_authority_schema_version\<close>: the latest version of the name decides the owner
  and the predecessor. Everything it raises reaches the adapter as a driver error.\<close>

definition publish_authority_schema_version ::
  "Db \<Rightarrow> SchemaVersionId \<Rightarrow> string \<Rightarrow> string \<Rightarrow> ActorId \<Rightarrow> bytes \<Rightarrow> i64 \<Rightarrow> (Db \<times> schema_version_row) option" where
  "publish_authority_schema_version db new_id kind name owner digest published_at =
     (let latest = top_by svw_version (filter (\<lambda>r. svw_kind r = kind \<and> svw_name r = name) (authority_schema_versions db));
          next_version = (case latest of None \<Rightarrow> 1 | Some l \<Rightarrow> svw_version l + 1);
          row = \<lparr>svw_schema_version_id = new_id, svw_kind = kind, svw_name = name, svw_version = next_version,
                 svw_owner_service_id = owner, svw_content_digest = digest,
                 svw_predecessor_id = map_option svw_schema_version_id latest,
                 svw_published_at = published_at, svw_status = ''published''\<rparr>
      in if (case latest of None \<Rightarrow> False | Some l \<Rightarrow> svw_owner_service_id l \<noteq> owner) then None
         else if \<not> in_i64 next_version \<or> \<not> authority_schema_versions_check row
           \<or> fk svw_schema_version_id (authority_schema_versions db) new_id
           \<or> list_ex (\<lambda>r. svw_kind r = kind \<and> svw_name r = name \<and> svw_version r = next_version) (authority_schema_versions db)
           \<or> \<not> fk idr_id (identities db) owner
         then None
         else Some (db\<lparr>authority_schema_versions := authority_schema_versions db @ [row]\<rparr>, row))"

definition pg_schema_publish ::
  "faults \<Rightarrow> SchemaVersionId \<Rightarrow> Db \<Rightarrow> SchemaKind \<Rightarrow> SchemaName \<Rightarrow> ActorId \<Rightarrow> ContentDigest \<Rightarrow> i64
   \<Rightarrow> Db \<times> (AuthorityError + SchemaRecord)" where
  "pg_schema_publish io new_id db kind name owner content_digest published_at =
     auth_stmt io 0 db (auth_stmt io 1 db (
       case publish_authority_schema_version db new_id (schema_kind_to_sql kind) (SchemaName_as_str name) owner
              (ContentDigest_as_bytes content_digest) published_at of
         None \<Rightarrow> (db, Inl (AE_Repository db_error))
       | Some (db', row) \<Rightarrow> (db', schema_record_from_row row)))"

definition pg_schema_find ::
  "faults \<Rightarrow> Db \<Rightarrow> SchemaKind \<Rightarrow> SchemaName \<Rightarrow> i64 \<Rightarrow> AuthorityError + SchemaRecord option" where
  "pg_schema_find io db kind name version =
     snd (auth_stmt io 0 db (auth_stmt io 1 db
       (db, transpose_option (map_option schema_record_from_row (find (\<lambda>r.
              svw_kind r = schema_kind_to_sql kind \<and> svw_name r = SchemaName_as_str name \<and> svw_version r = version)
              (authority_schema_versions db))))))"

definition authority_decisions_check :: "Db \<Rightarrow> decision_row \<Rightarrow> bool" where
  "authority_decisions_check db r \<longleftrightarrow>
     action_check (adr_action r) \<and> scope_check (adr_scope r) \<and> adr_verdict r \<in> set [''allow'', ''deny''] \<and>
     (case adr_policy_bundle_version r of None \<Rightarrow> True | Some v \<Rightarrow> sql_text v) \<and> 0 \<le> adr_decided_at r \<and>
     \<not> fk adr_decision_id (authority_decisions db) (adr_decision_id r) \<and>
     fk idr_id (identities db) (adr_source_service_id r) \<and>
     (case adr_destination_service_id r of None \<Rightarrow> True | Some d \<Rightarrow> fk idr_id (identities db) d) \<and>
     fk idr_id (identities db) (adr_evaluator_service_id r) \<and>
     fk svw_schema_version_id (authority_schema_versions db) (adr_artifact_schema_version_id r) \<and>
     fk svw_schema_version_id (authority_schema_versions db) (adr_permission_policy_schema_version_id r)"

definition pg_record_decision :: "faults \<Rightarrow> Db \<Rightarrow> AuthorityDecision \<Rightarrow> Db \<times> (AuthorityError + unit)" where
  "pg_record_decision io db decision =
     auth_stmt io 0 db (auth_stmt io 1 db (
       let row = decision_row_of decision
       in if \<not> authority_decisions_check db row then (db, Inl (AE_Repository db_error))
          else (db\<lparr>authority_decisions := authority_decisions db @ [row]\<rparr>, Inr ())))"


section \<open>The contract\<close>

definition row_grant :: "grant_row \<Rightarrow> Grant" where
  "row_grant r =
     \<lparr>gr_id = agr_grant_id r, gr_source = agr_source_service_id r, gr_action = ActionName (agr_action r),
      gr_scope = Scope (agr_scope r),
      gr_schema_versions = \<lparr>svr_artifact = agr_artifact_schema_version_id r,
        svr_permission_policy = agr_permission_policy_schema_version_id r\<rparr>,
      gr_destination = agr_destination_service_id r, gr_valid_from = agr_valid_from r,
      gr_valid_until = agr_valid_until r\<rparr>"

definition row_decision :: "decision_row \<Rightarrow> AuthorityDecision" where
  "row_decision r =
     \<lparr>ad_id = adr_decision_id r,
      ad_facts = \<lparr>pf_source = adr_source_service_id r, pf_action = ActionName (adr_action r),
        pf_scope = Scope (adr_scope r),
        pf_schema_versions = \<lparr>svr_artifact = adr_artifact_schema_version_id r,
          svr_permission_policy = adr_permission_policy_schema_version_id r\<rparr>,
        pf_destination = adr_destination_service_id r\<rparr>,
      ad_verdict = (if adr_verdict r = ''allow'' then Allow else Deny),
      ad_evaluator = adr_evaluator_service_id r,
      ad_policy_bundle_version = map_option PolicyBundleVersion (adr_policy_bundle_version r),
      ad_decided_at = adr_decided_at r\<rparr>"

definition live_grants_of :: "Db \<Rightarrow> Grant list" where
  "live_grants_of db = map row_grant (filter (\<lambda>r. agr_revoked_at r = None) (authority_grants db))"

definition decisions_of :: "Db \<Rightarrow> AuthorityDecision list" where
  "decisions_of db = map row_decision (authority_decisions db)"

text \<open>The key of \<open>authority_grants\<close>, and that every stored grant can be read back.\<close>

definition good_authority :: "Db \<Rightarrow> bool" where
  "good_authority db \<longleftrightarrow>
     distinct (map agr_grant_id (authority_grants db)) \<and>
     list_all (\<lambda>r. grant_from_row r = Inr (row_grant r)) (authority_grants db)"

lemma row_decision_of [simp]: "row_decision (decision_row_of d) = d"
proof -
  have "ActionName (ActionName_as_str a) = a" "Scope (Scope_as_str s) = s" for a s
    by (cases a; simp) (cases s; simp)
  moreover have "map_option (PolicyBundleVersion \<circ> PolicyBundleVersion_as_str) v = v" for v
  proof (cases v)
    case (Some w)
    then show ?thesis by (cases w) simp
  qed simp
  ultimately show ?thesis
    by (cases "ad_verdict d") (simp_all add: row_decision_def decision_row_of_def Let_def option.map_comp)
qed

lemma grant_matches_permits:
  "grant_matches facts now r \<longleftrightarrow> agr_revoked_at r = None \<and> permits (row_grant r) facts now"
  by (cases "pf_action facts"; cases "pf_scope facts"; cases "pf_schema_versions facts")
    (auto simp: grant_matches_def permits_def row_grant_def Scope_matches_def split: option.splits)

lemma grant_from_row_Inr: "grant_from_row r = Inr g \<Longrightarrow> g = row_grant r"
  by (auto simp: grant_from_row_def row_grant_def Grant_restore_def Scope_new_def split: if_splits)

lemma matching_rows:
  "map row_grant (filter (grant_matches facts now) rs) =
     filter (\<lambda>g. permits g facts now) (map row_grant (filter (\<lambda>r. agr_revoked_at r = None) rs))"
  by (induction rs) (auto simp: grant_matches_permits)

lemma pg_matching_grants_Inr:
  assumes "pg_matching_grants io db facts now = Inr gs"
  shows "gs = filter (\<lambda>g. permits g facts now) (live_grants_of db)"
proof -
  have "collect_results grant_from_row (filter (grant_matches facts now) (authority_grants db)) = Inr gs"
    using assms by (auto simp: pg_matching_grants_def split: if_splits db_stmt_splits)
  then have "gs = map row_grant (filter (grant_matches facts now) (authority_grants db))"
    by (rule collect_results_Inr_map) (rule grant_from_row_Inr)
  then show ?thesis by (simp add: live_grants_of_def matching_rows)
qed

lemma pg_record_decision_Inr:
  "pg_record_decision io db d = (db', Inr u) \<Longrightarrow> authority_decisions db' = authority_decisions db @ [decision_row_of d]"
  by (auto simp: pg_record_decision_def Let_def split: if_splits)

lemma pg_record_decision_Inl: "pg_record_decision io db d = (db', Inl e) \<Longrightarrow> db' = db"
  by (auto simp: pg_record_decision_def Let_def split: if_splits db_stmt_splits)

interpretation pgau: authority_repository good_authority live_grants_of decisions_of
  "pg_matching_grants io" "pg_record_decision io'" for io io'
proof
  fix s s' :: Db and facts now gs d u e
  show "gs = filter (\<lambda>g. permits g facts now) (live_grants_of s)" if "pg_matching_grants io s facts now = Inr gs"
    using that by (rule pg_matching_grants_Inr)
  show "decisions_of s' = decisions_of s @ [d]" if "pg_record_decision io' s d = (s', Inr u)"
    using pg_record_decision_Inr [OF that] by (simp add: decisions_of_def)
  show "decisions_of s' = decisions_of s" if "pg_record_decision io' s d = (s', Inl e)"
    using pg_record_decision_Inl [OF that] by simp
qed

end
