(* ===== verification/Authority_Properties.thy ===== *)
theory Authority_Properties
  imports Pg_Authority
begin

text \<open>
  What ILK-002 promises over whole histories of the authority tables: decisions and publications
  through the services, and administrative changes of grants and schema statuses confined only by
  the triggers of migrations 0010 and 0019 (whatever the administrative functions do, every update
  goes through them).
\<close>

text \<open>\<open>reject_authority_grant_mutation()\<close> and \<open>protect_authority_schema_version()\<close>: what
  an update may do to a row.\<close>

definition grant_update_ok :: "grant_row \<Rightarrow> grant_row \<Rightarrow> bool" where
  "grant_update_ok old new \<longleftrightarrow>
     agr_revoked_at old = None \<and> agr_revoked_at new \<noteq> None \<and>
     new = old\<lparr>agr_revoked_at := agr_revoked_at new\<rparr>"

definition schema_update_ok :: "schema_version_row \<Rightarrow> schema_version_row \<Rightarrow> bool" where
  "schema_update_ok old new \<longleftrightarrow>
     new = old\<lparr>svw_status := svw_status new\<rparr> \<and> svw_status old \<notin> set [''superseded'', ''retired''] \<and>
     svw_status new \<noteq> svw_status old"

inductive authority_run :: "Db \<Rightarrow> Db \<Rightarrow> bool" where
  arun_authorize: "authorize (pg_matching_grants io) evaluate ev (pg_record_decision io') i db facts now = (db', r) \<Longrightarrow>
    authority_run db db'"
| arun_publish: "SchemaService_publish (pg_schema_publish io new_id) db kind name owner digest t = (db', r) \<Longrightarrow>
    authority_run db db'"
| arun_grant_insert: "agr_grant_id row \<notin> agr_grant_id ` set (authority_grants db) \<Longrightarrow>
    db' = db\<lparr>authority_grants := authority_grants db @ [row]\<rparr> \<Longrightarrow> authority_run db db'"
| arun_grant_update: "authority_grants db = xs @ old # ys \<Longrightarrow> grant_update_ok old new \<Longrightarrow>
    db' = db\<lparr>authority_grants := xs @ new # ys\<rparr> \<Longrightarrow> authority_run db db'"
| arun_schema_update: "authority_schema_versions db = xs @ old # ys \<Longrightarrow> schema_update_ok old new \<Longrightarrow>
    db' = db\<lparr>authority_schema_versions := xs @ new # ys\<rparr> \<Longrightarrow> authority_run db db'"
| arun_other: "authority_grants db' = authority_grants db \<Longrightarrow>
    authority_schema_versions db' = authority_schema_versions db \<Longrightarrow> authority_run db db'"

lemma record_decision_keeps:
  "pg_record_decision io db d = (db', r) \<Longrightarrow>
     authority_grants db' = authority_grants db \<and> authority_schema_versions db' = authority_schema_versions db"
  by (auto simp: pg_record_decision_def Let_def split: if_splits db_stmt_splits)

lemma authorize_keeps:
  "authorize (pg_matching_grants io) evaluate ev (pg_record_decision io') i db facts now = (db', r) \<Longrightarrow>
     authority_grants db' = authority_grants db \<and> authority_schema_versions db' = authority_schema_versions db"
  by (auto simp: authorize_def Let_def split: sum.splits prod.splits dest!: record_decision_keeps)

lemma publish_function_Some:
  assumes "publish_authority_schema_version db new_id kind name owner digest t = Some (db', row)"
  defines "latest \<equiv> top_by svw_version (filter (\<lambda>r. svw_kind r = kind \<and> svw_name r = name) (authority_schema_versions db))"
  shows "db' = db\<lparr>authority_schema_versions := authority_schema_versions db @ [row]\<rparr>"
    and "row = \<lparr>svw_schema_version_id = new_id, svw_kind = kind, svw_name = name,
        svw_version = (case latest of None \<Rightarrow> 1 | Some l \<Rightarrow> svw_version l + 1),
        svw_owner_service_id = owner, svw_content_digest = digest,
        svw_predecessor_id = map_option svw_schema_version_id latest,
        svw_published_at = t, svw_status = ''published''\<rparr>"
    and "\<And>l. latest = Some l \<Longrightarrow> svw_owner_service_id l = owner"
    and "new_id \<notin> svw_schema_version_id ` set (authority_schema_versions db)"
    and "authority_schema_versions_check row"
  using assms(1) unfolding publish_authority_schema_version_def latest_def [symmetric] Let_def
  by (auto simp: fk_iff split: if_splits option.splits)

lemma publish_keeps_grants:
  "SchemaService_publish (pg_schema_publish io new_id) db kind name owner digest t = (db', r) \<Longrightarrow>
     authority_grants db' = authority_grants db"
  by (auto simp: SchemaService_publish_def pg_schema_publish_def publish_authority_schema_version_def Let_def
      split: if_splits db_stmt_splits option.splits)


section \<open>Grants\<close>

definition revoked_row :: "grant_row \<Rightarrow> Db \<Rightarrow> bool" where
  "revoked_row r db \<longleftrightarrow> distinct (map agr_grant_id (authority_grants db)) \<and>
     r \<in> set (authority_grants db) \<and> agr_revoked_at r \<noteq> None"

lemma revoked_row_cong: "authority_grants db' = authority_grants db \<Longrightarrow> revoked_row r db' = revoked_row r db"
  by (simp add: revoked_row_def)

lemma revoked_row_step: "authority_run db db' \<Longrightarrow> revoked_row r db \<Longrightarrow> revoked_row r db'"
proof (induction rule: authority_run.induct)
  case (arun_authorize io evaluate ev io' i db facts now db' x)
  with authorize_keeps [OF arun_authorize.hyps] show ?case using revoked_row_cong by blast
next
  case (arun_publish io new_id db kind name owner digest t db' x)
  with publish_keeps_grants [OF arun_publish.hyps] show ?case using revoked_row_cong by blast
next
  case (arun_grant_update db xs old ys new db')
  then have "agr_grant_id new = agr_grant_id old" and "r \<noteq> old"
    by (auto simp: grant_update_ok_def revoked_row_def)
  with arun_grant_update show ?case by (auto simp: revoked_row_def)
qed (auto simp: revoked_row_def)

lemma revoked_row_run: "authority_run\<^sup>*\<^sup>* db db' \<Longrightarrow> revoked_row r db \<Longrightarrow> revoked_row r db'"
  by (induction rule: rtranclp_induct) (auto intro: revoked_row_step)

text \<open>The SQL filter and \<open>Grant::permits\<close> agree: the grants offered to the evaluator are exactly
  the unrevoked stored grants that permit the facts at that time, in storage order.\<close>

theorem offered_grants_are_live_permits:
  assumes "pg_matching_grants io db facts now = Inr gs"
  shows "gs = filter (\<lambda>g. permits g facts now)
    (map row_grant (filter (\<lambda>r. agr_revoked_at r = None) (authority_grants db)))"
  using pg_matching_grants_Inr [OF assms] by (simp add: live_grants_of_def)

definition sample_facts :: PolicyFacts where
  "sample_facts = for_request_acceptance (ActorId 1) (ActionName sample_action) (Scope ''invoice'') no_artifact_schema_versions"

definition sample_grant :: "Uuid \<Rightarrow> string \<Rightarrow> i64 option \<Rightarrow> grant_row" where
  "sample_grant u scope revoked =
     \<lparr>agr_grant_id = GrantId u, agr_source_service_id = ActorId 1, agr_action = sample_action, agr_scope = scope,
      agr_artifact_schema_version_id = NO_ARTIFACT_SCHEMA_VERSION,
      agr_permission_policy_schema_version_id = NO_ARTIFACT_PERMISSION_POLICY_SCHEMA_VERSION,
      agr_destination_service_id = None, agr_valid_from = 10, agr_valid_until = Some 500, agr_revoked_at = revoked\<rparr>"

definition granted_db :: Db where
  "granted_db = sample_db\<lparr>authority_grants :=
     [sample_grant 60 ''*'' None, sample_grant 61 ''invoice'' (Some 50), sample_grant 62 ''ledger'' None]\<rparr>"

lemma granted_matching:
  "pg_matching_grants no_faults granted_db sample_facts 100 = Inr [row_grant (sample_grant 60 ''*'' None)]"
  by code_simp

theorem offered_grants_are_live_permits_witness:
  "[row_grant (sample_grant 60 ''*'' None)] = filter (\<lambda>g. permits g sample_facts 100)
     (map row_grant (filter (\<lambda>r. agr_revoked_at r = None) (authority_grants granted_db)))"
  by (rule offered_grants_are_live_permits [OF granted_matching])

text \<open>C23: Revocation of a grant is final: once its row carries a revocation time, no later sequence of
  decisions, publications and administrative changes makes any query offer it again.\<close>

theorem revoked_grant_never_offered:
  assumes "revoked_row r db" and "authority_run\<^sup>*\<^sup>* db db'"
    and "pg_matching_grants io db' facts now = Inr gs"
  shows "agr_grant_id r \<notin> gr_id ` set gs"
proof
  assume "agr_grant_id r \<in> gr_id ` set gs"
  then obtain q where q: "q \<in> set (authority_grants db')" "agr_revoked_at q = None" "agr_grant_id q = agr_grant_id r"
    using pg_matching_grants_Inr [OF assms(3)] by (auto simp: live_grants_of_def row_grant_def)
  have rev: "revoked_row r db'" by (rule revoked_row_run [OF assms(2,1)])
  then have "inj_on agr_grant_id (set (authority_grants db'))" and "r \<in> set (authority_grants db')"
    by (auto simp: revoked_row_def distinct_map)
  from inj_onD [OF this(1) q(3) q(1) this(2)] q(2) rev show False by (simp add: revoked_row_def)
qed

theorem revoked_grant_never_offered_witness:
  "GrantId 61 \<notin> gr_id ` set [row_grant (sample_grant 60 ''*'' None)]"
proof -
  have "revoked_row (sample_grant 61 ''invoice'' (Some 50)) granted_db" by code_simp
  from revoked_grant_never_offered [OF this rtranclp.rtrancl_refl granted_matching]
  show ?thesis by (simp add: sample_grant_def)
qed


section \<open>Decisions\<close>

text \<open>Fail closed and accounted for. A decision that is returned is the last row of the decision table
  and is about the facts asked; if it allows, the evaluator answered \<open>Allow\<close> on exactly the live
  grants that permit the facts at that time, and its bundle version is recorded; if the evaluator
  gave no answer, the decision is a denial.\<close>

theorem returned_decision_is_recorded:
  assumes "good_authority db"
    and "authorize (pg_matching_grants io) evaluate ev (pg_record_decision io') i db facts now = (db', Inr d)"
  shows "decisions_of db' = decisions_of db @ [d] \<and> ad_facts d = facts \<and> ad_decided_at d = now \<and>
    (is_allowed d \<longrightarrow> (\<exists>evaluation.
       evaluate facts (filter (\<lambda>g. permits g facts now) (live_grants_of db)) = Inr evaluation \<and>
       pe_verdict evaluation = Allow \<and> ad_policy_bundle_version d = Some (pe_policy_bundle_version evaluation)))"
  using pgau.authorize_recorded [OF assms] pgau.authorize_allow [OF assms] by blast

definition allowing_evaluator :: "PolicyFacts \<Rightarrow> Grant list \<Rightarrow> AuthorityError + PolicyEvaluation" where
  "allowing_evaluator facts grants =
     Inr \<lparr>pe_verdict = (if grants = [] then Deny else Allow), pe_policy_bundle_version = PolicyBundleVersion ''v1''\<rparr>"

definition decided_db :: Db where
  "decided_db = fst (authorize (pg_matching_grants no_faults) allowing_evaluator (ActorId 0)
     (pg_record_decision no_faults) (DecisionId 70) granted_db sample_facts 100)"

definition sample_decision :: AuthorityDecision where
  "sample_decision = \<lparr>ad_id = DecisionId 70, ad_facts = sample_facts, ad_verdict = Allow, ad_evaluator = ActorId 0,
     ad_policy_bundle_version = Some (PolicyBundleVersion ''v1''), ad_decided_at = 100\<rparr>"

lemma sample_authorize:
  "authorize (pg_matching_grants no_faults) allowing_evaluator (ActorId 0)
     (pg_record_decision no_faults) (DecisionId 70) granted_db sample_facts 100 = (decided_db, Inr sample_decision)"
proof -
  have "snd (authorize (pg_matching_grants no_faults) allowing_evaluator (ActorId 0)
     (pg_record_decision no_faults) (DecisionId 70) granted_db sample_facts 100) = Inr sample_decision"
    by code_simp
  then show ?thesis by (simp add: decided_db_def prod_eq_iff)
qed

theorem returned_decision_is_recorded_witness:
  "decisions_of decided_db = decisions_of granted_db @ [sample_decision]"
proof -
  have "good_authority granted_db" by code_simp
  from returned_decision_is_recorded [OF this sample_authorize] show ?thesis by blast
qed

text \<open>An unreachable or failing policy evaluator never allows: whatever the grants, the decision is a
  recorded denial without a bundle version.\<close>

theorem evaluator_failure_denies:
  assumes "authorize (pg_matching_grants io) (\<lambda>facts grants. Inl (err facts grants)) ev (pg_record_decision io') i db facts now = (db', Inr d)"
  shows "ad_verdict d = Deny \<and> ad_policy_bundle_version d = None \<and> d \<in> set (decisions_of db')"
proof -
  have "ad_verdict d = Deny \<and> ad_policy_bundle_version d = None"
    by (rule pgau.authorize_no_answer_denies [OF assms]) blast
  moreover from assms obtain u where "pg_record_decision io' db d = (db', Inr u)"
    by (auto simp: authorize_def Let_def split: sum.splits prod.splits)
  then have "d \<in> set (decisions_of db')" by (simp add: decisions_of_def pg_record_decision_Inr)
  ultimately show ?thesis by blast
qed

theorem evaluator_failure_denies_witness:
  "\<exists>d db'. snd (authorize (pg_matching_grants no_faults) (\<lambda>facts grants. Inl (AE_Evaluator ''down'')) (ActorId 0)
     (pg_record_decision no_faults) (DecisionId 70) granted_db sample_facts 100) = Inr d \<and>
     ad_verdict d = Deny \<and> d \<in> set (decisions_of db')"
proof -
  let ?r = "authorize (pg_matching_grants no_faults) (\<lambda>facts grants. Inl (AE_Evaluator ''down'')) (ActorId 0)
     (pg_record_decision no_faults) (DecisionId 70) granted_db sample_facts 100"
  have "snd ?r = Inr (sample_decision\<lparr>ad_verdict := Deny, ad_policy_bundle_version := None\<rparr>)" (is "_ = Inr ?d")
    by code_simp
  then have r: "?r = (fst ?r, Inr ?d)" by (simp add: prod_eq_iff)
  from evaluator_failure_denies [OF r] \<open>snd ?r = Inr ?d\<close> show ?thesis by blast
qed


section \<open>Schema versions\<close>

text \<open>The lineage of published versions: keys unique, version 1 first, every other version directly
  above its predecessor, with the same kind, name and owner.\<close>

definition version_linked :: "Db \<Rightarrow> schema_version_row \<Rightarrow> bool" where
  "version_linked db r \<longleftrightarrow>
     (if svw_version r = 1 then svw_predecessor_id r = None
      else 1 < svw_version r \<and> list_ex (\<lambda>p. svw_kind p = svw_kind r \<and> svw_name p = svw_name r \<and>
         svw_version p = svw_version r - 1 \<and> svw_owner_service_id p = svw_owner_service_id r \<and>
         svw_predecessor_id r = Some (svw_schema_version_id p)) (authority_schema_versions db))"

definition schema_lineage :: "Db \<Rightarrow> bool" where
  "schema_lineage db \<longleftrightarrow>
     distinct (map svw_schema_version_id (authority_schema_versions db)) \<and>
     distinct (map (\<lambda>r. (svw_kind r, svw_name r, svw_version r)) (authority_schema_versions db)) \<and>
     list_all (version_linked db) (authority_schema_versions db)"

lemma schema_lineage_cong:
  assumes "authority_schema_versions db' = authority_schema_versions db"
  shows "schema_lineage db' = schema_lineage db"
proof -
  have "version_linked db' = version_linked db" using assms by (simp add: version_linked_def fun_eq_iff)
  with assms show ?thesis by (simp add: schema_lineage_def)
qed

lemma lineage_owner:
  assumes "schema_lineage db" and "r \<in> set (authority_schema_versions db)" and "q \<in> set (authority_schema_versions db)"
    and "svw_kind r = svw_kind q" and "svw_name r = svw_name q" and "svw_version r \<le> svw_version q"
  shows "svw_owner_service_id r = svw_owner_service_id q"
  using assms(3-6)
proof (induction "nat (svw_version q - svw_version r)" arbitrary: q)
  case 0
  then have "svw_version q = svw_version r" by simp
  moreover have "inj_on (\<lambda>r. (svw_kind r, svw_name r, svw_version r)) (set (authority_schema_versions db))"
    using assms(1) by (simp add: schema_lineage_def distinct_map)
  ultimately have "q = r" using 0 assms(2) by (auto dest: inj_onD)
  then show ?case by simp
next
  case (Suc n)
  have "1 \<le> svw_version r" using assms(1,2) by (fastforce simp: schema_lineage_def version_linked_def list_all_iff split: if_splits)
  moreover have lt: "svw_version r < svw_version q" using Suc.hyps(2) by linarith
  ultimately obtain p where p: "p \<in> set (authority_schema_versions db)" "svw_kind p = svw_kind q" "svw_name p = svw_name q"
    "svw_version p = svw_version q - 1" "svw_owner_service_id p = svw_owner_service_id q"
    using assms(1) Suc.prems(1) by (fastforce simp: schema_lineage_def version_linked_def list_all_iff list_ex_iff split: if_splits)
  have "n = nat (svw_version p - svw_version r)" using Suc.hyps(2) p(4) lt by linarith
  from Suc.hyps(1) [OF this p(1)] p Suc.prems(2,3) lt show ?case by simp
qed

lemma lineage_status_irrelevant:
  "schema_lineage (db\<lparr>authority_schema_versions := map (\<lambda>r. r\<lparr>svw_status := st\<rparr>) (authority_schema_versions db)\<rparr>) =
     schema_lineage db"
  by (simp add: schema_lineage_def version_linked_def list_ex_iff list_all_iff o_def)

lemma lineage_schema_update:
  assumes "schema_lineage db" and "authority_schema_versions db = xs @ old # ys" and "schema_update_ok old new"
    and "authority_schema_versions db' = xs @ new # ys"
  shows "schema_lineage db'"
proof -
  from assms(3) have new: "new = old\<lparr>svw_status := svw_status new\<rparr>" by (simp add: schema_update_ok_def)
  have "new\<lparr>svw_status := ''''\<rparr> = old\<lparr>svw_status := ''''\<rparr>"
    by (subst new) simp
  with assms(2,4) have "map (\<lambda>r. r\<lparr>svw_status := ''''\<rparr>) (authority_schema_versions db') =
      map (\<lambda>r. r\<lparr>svw_status := ''''\<rparr>) (authority_schema_versions db)"
    by simp
  with assms(1) lineage_status_irrelevant [where db = db and st = "''''"]
    lineage_status_irrelevant [where db = db' and st = "''''"]
  show ?thesis using schema_lineage_cong [of "db\<lparr>authority_schema_versions := map (\<lambda>r. r\<lparr>svw_status := ''''\<rparr>) (authority_schema_versions db)\<rparr>"
      "db'\<lparr>authority_schema_versions := map (\<lambda>r. r\<lparr>svw_status := ''''\<rparr>) (authority_schema_versions db')\<rparr>"]
    by simp
qed

text \<open>The new row's version is above every version of its name.\<close>

lemma publish_version_above:
  assumes "publish_authority_schema_version db new_id kind name owner digest t = Some (db', row)"
    and q: "q \<in> set (authority_schema_versions db)" "svw_kind q = kind" "svw_name q = name"
  shows "svw_version q < svw_version row"
proof (cases "top_by svw_version (filter (\<lambda>r. svw_kind r = kind \<and> svw_name r = name) (authority_schema_versions db))")
  case None
  with q show ?thesis by (auto simp: filter_empty_conv)
next
  case (Some l)
  with top_by_Some [OF Some] q publish_function_Some(2) [OF assms(1)] show ?thesis by force
qed

lemma lineage_publish:
  assumes lin: "schema_lineage db"
    and pub: "publish_authority_schema_version db new_id kind name owner digest t = Some (db', row)"
  shows "schema_lineage db'"
proof -
  let ?same = "\<lambda>r. svw_kind r = kind \<and> svw_name r = name"
  note p = publish_function_Some [OF pub]
  have vs: "authority_schema_versions db' = authority_schema_versions db @ [row]" by (simp add: p(1))
  have ids: "svw_schema_version_id row = new_id" "svw_kind row = kind" "svw_name row = name" by (simp_all add: p(2))
  have "version_linked db' row"
  proof (cases "top_by svw_version (filter ?same (authority_schema_versions db))")
    case None
    with p(2) show ?thesis by (simp add: version_linked_def)
  next
    case (Some l)
    from top_by_Some [OF Some] have l: "l \<in> set (authority_schema_versions db)" "?same l" by auto
    then have "version_linked db l" using lin by (simp add: schema_lineage_def list_all_iff)
    then have "1 \<le> svw_version l" by (simp add: version_linked_def split: if_splits)
    with Some l p(2,3) show ?thesis by (auto simp: version_linked_def vs list_ex_iff)
  qed
  moreover have "version_linked db' q" if "version_linked db q" for q
    using that by (auto simp: version_linked_def vs split: if_splits)
  then have "list_all (version_linked db') (authority_schema_versions db)"
    using lin by (auto simp: schema_lineage_def list_all_iff)
  moreover have "(kind, name, svw_version row) \<notin> (\<lambda>r. (svw_kind r, svw_name r, svw_version r)) ` set (authority_schema_versions db)"
    using publish_version_above [OF pub] by (auto; metis less_irrefl)
  ultimately show ?thesis
    using lin p(4) unfolding schema_lineage_def by (simp add: vs ids)
qed

lemma publish_Inr:
  assumes "SchemaService_publish (pg_schema_publish io new_id) db kind name owner digest t = (db', r)"
  shows "db' = db \<or> (\<exists>row. publish_authority_schema_version db new_id (schema_kind_to_sql kind) (SchemaName_as_str name)
    owner (ContentDigest_as_bytes digest) t = Some (db', row) \<and> r = schema_record_from_row row)"
  using assms by (auto simp: SchemaService_publish_def pg_schema_publish_def split: if_splits db_stmt_splits option.splits)

lemma lineage_step: "authority_run db db' \<Longrightarrow> schema_lineage db \<Longrightarrow> schema_lineage db'"
proof (induction rule: authority_run.induct)
  case (arun_authorize io evaluate ev io' i db facts now db' x)
  with authorize_keeps [OF arun_authorize.hyps] show ?case using schema_lineage_cong by blast
next
  case (arun_publish io new_id db kind name owner digest t db' x)
  with publish_Inr [OF arun_publish.hyps] lineage_publish show ?case by blast
next
  case (arun_schema_update db xs old ys new db')
  then show ?case by (auto intro: lineage_schema_update)
qed (erule schema_lineage_cong [THEN iffD2, rotated]; simp)+

text \<open>C34: One owner per schema name, and no gaps. After any history, two versions of the same kind and
  name have the same owner, and a version is number 1 without predecessor or has the version directly
  below it as predecessor.\<close>

theorem schema_names_have_one_owner:
  assumes "schema_lineage db" and "authority_run\<^sup>*\<^sup>* db db'"
    and "r \<in> set (authority_schema_versions db')" and "q \<in> set (authority_schema_versions db')"
    and "svw_kind r = svw_kind q" and "svw_name r = svw_name q"
  shows "svw_owner_service_id r = svw_owner_service_id q \<and>
    (if svw_version r = 1 then svw_predecessor_id r = None
     else \<exists>p \<in> set (authority_schema_versions db'). svw_kind p = svw_kind r \<and> svw_name p = svw_name r \<and>
       svw_version p = svw_version r - 1 \<and> svw_predecessor_id r = Some (svw_schema_version_id p))"
proof -
  from assms(2,1) have lin: "schema_lineage db'"
    by (induction rule: rtranclp_induct) (auto intro: lineage_step)
  have "svw_owner_service_id r = svw_owner_service_id q"
    using lineage_owner [OF lin assms(3,4)] lineage_owner [OF lin assms(4,3)] assms(5,6) by (metis linear)
  moreover have "if svw_version r = 1 then svw_predecessor_id r = None
     else \<exists>p \<in> set (authority_schema_versions db'). svw_kind p = svw_kind r \<and> svw_name p = svw_name r \<and>
       svw_version p = svw_version r - 1 \<and> svw_predecessor_id r = Some (svw_schema_version_id p)"
    using lin assms(3) by (fastforce simp: schema_lineage_def version_linked_def list_all_iff list_ex_iff split: if_splits)
  ultimately show ?thesis by blast
qed

definition sample_schema_name :: SchemaName where
  "sample_schema_name = SchemaName ''billing.invoice''"

definition published_db :: Db where
  "published_db = fst (SchemaService_publish (pg_schema_publish no_faults (SchemaVersionId 81))
     (fst (SchemaService_publish (pg_schema_publish no_faults (SchemaVersionId 80)) sample_db Artifact sample_schema_name
       (ActorId 1) (ContentDigest (replicate 32 (CHR 0x03))) 200))
     Artifact sample_schema_name (ActorId 1) (ContentDigest (replicate 32 (CHR 0x04))) 210)"

definition published_row :: "Uuid \<Rightarrow> i64 \<Rightarrow> char \<Rightarrow> SchemaVersionId option \<Rightarrow> i64 \<Rightarrow> schema_version_row" where
  "published_row u v c p t =
     \<lparr>svw_schema_version_id = SchemaVersionId u, svw_kind = ''artifact'', svw_name = ''billing.invoice'', svw_version = v,
      svw_owner_service_id = ActorId 1, svw_content_digest = replicate 32 c, svw_predecessor_id = p,
      svw_published_at = t, svw_status = ''published''\<rparr>"

lemma published_versions:
  "authority_schema_versions published_db = authority_schema_versions sample_db @
     [published_row 80 1 (CHR 0x03) None 200, published_row 81 2 (CHR 0x04) (Some (SchemaVersionId 80)) 210]"
  by code_simp

lemma published_reachable: "authority_run\<^sup>*\<^sup>* sample_db published_db"
proof -
  let ?p = "\<lambda>u db c. SchemaService_publish (pg_schema_publish no_faults (SchemaVersionId u)) db Artifact sample_schema_name
       (ActorId 1) (ContentDigest (replicate 32 c))"
  define mid where "mid = fst (?p 80 sample_db (CHR 0x03) 200)"
  have "authority_run sample_db mid"
    by (rule arun_publish [of no_faults "SchemaVersionId 80" sample_db Artifact sample_schema_name "ActorId 1"
      "ContentDigest (replicate 32 (CHR 0x03))" 200 _ "snd (?p 80 sample_db (CHR 0x03) 200)"]) (simp only: mid_def prod.collapse)
  moreover have "authority_run mid published_db"
    by (rule arun_publish [of no_faults "SchemaVersionId 81" mid Artifact sample_schema_name "ActorId 1"
      "ContentDigest (replicate 32 (CHR 0x04))" 210 _ "snd (?p 81 mid (CHR 0x04) 210)"]) (simp only: mid_def published_db_def prod.collapse)
  ultimately show ?thesis by (meson rtranclp.simps)
qed

theorem schema_names_have_one_owner_witness:
  "svw_owner_service_id (published_row 80 1 (CHR 0x03) None 200) =
     svw_owner_service_id (published_row 81 2 (CHR 0x04) (Some (SchemaVersionId 80)) 210)"
proof -
  have "schema_lineage sample_db" by code_simp
  from schema_names_have_one_owner [OF this published_reachable, of "published_row 80 1 (CHR 0x03) None 200"
      "published_row 81 2 (CHR 0x04) (Some (SchemaVersionId 80)) 210"]
  show ?thesis by (simp add: published_versions) (simp add: published_row_def)
qed

text \<open>What a publication returns is what is stored: it is version 1, or one above the latest version
  of the name, whose owner published it, in status \<open>Published\<close>; looking the version up
  afterwards returns the same record.\<close>

theorem published_schema_found:
  assumes "SchemaService_publish (pg_schema_publish io new_id) db kind name owner digest t = (db', Inr x)"
  shows "pg_schema_find no_faults db' kind name (sv_version (sr_version x)) = Inr (Some x) \<and>
    sr_status x = Published \<and> sv_owner (sr_version x) = owner \<and> sv_content_digest (sr_version x) = digest \<and>
    (case top_by svw_version (filter (\<lambda>r. svw_kind r = schema_kind_to_sql kind \<and> svw_name r = SchemaName_as_str name)
        (authority_schema_versions db)) of
       None \<Rightarrow> sv_version (sr_version x) = 1
     | Some l \<Rightarrow> sv_version (sr_version x) = svw_version l + 1 \<and> svw_owner_service_id l = owner)"
proof -
  let ?same = "\<lambda>r. svw_kind r = schema_kind_to_sql kind \<and> svw_name r = SchemaName_as_str name"
  from assms obtain row where pub: "publish_authority_schema_version db new_id (schema_kind_to_sql kind) (SchemaName_as_str name)
      owner (ContentDigest_as_bytes digest) t = Some (db', row)" and x: "schema_record_from_row row = Inr x"
    by (auto simp: SchemaService_publish_def pg_schema_publish_def split: if_splits db_stmt_splits option.splits)
  note p = publish_function_Some [OF pub]
  have fields: "sv_version (sr_version x) = svw_version row" "sr_status x = Published" "sv_owner (sr_version x) = owner"
    "sv_content_digest (sr_version x) = digest"
    using x unfolding p(2)
    by (cases digest; auto simp: schema_record_from_row_def SchemaVersion_restore_def schema_status_from_sql_def split: if_splits)+
  have "find (\<lambda>r. svw_kind r = schema_kind_to_sql kind \<and> svw_name r = SchemaName_as_str name \<and>
      svw_version r = svw_version row) (authority_schema_versions db) = None"
    using publish_version_above [OF pub] by (force simp: find_None_iff)
  then have "find (\<lambda>r. svw_kind r = schema_kind_to_sql kind \<and> svw_name r = SchemaName_as_str name \<and>
      svw_version r = svw_version row) (authority_schema_versions db') = Some row"
    by (simp add: p(1) find_append_single) (simp add: p(2))
  with x have "pg_schema_find no_faults db' kind name (sv_version (sr_version x)) = Inr (Some x)"
    by (simp add: pg_schema_find_def fields)
  moreover have "case top_by svw_version (filter ?same (authority_schema_versions db)) of None \<Rightarrow> svw_version row = 1
     | Some l \<Rightarrow> svw_version row = svw_version l + 1 \<and> svw_owner_service_id l = owner"
    using p(2,3) by (auto split: option.splits)
  ultimately show ?thesis unfolding fields by simp
qed

theorem published_schema_found_witness:
  "\<exists>x db'. pg_schema_find no_faults db' Artifact sample_schema_name 1 = Inr (Some x) \<and> sr_status x = Published"
proof -
  let ?p = "SchemaService_publish (pg_schema_publish no_faults (SchemaVersionId 80)) sample_db Artifact sample_schema_name
       (ActorId 1) (ContentDigest (replicate 32 (CHR 0x03))) 200"
  have "snd ?p = Inr \<lparr>sr_version = \<lparr>sv_id = SchemaVersionId 80, sv_kind = Artifact, sv_name = sample_schema_name,
      sv_version = 1, sv_owner = ActorId 1, sv_content_digest = ContentDigest (replicate 32 (CHR 0x03)),
      sv_predecessor = None, sv_published_at = 200\<rparr>, sr_status = Published\<rparr>" (is "_ = Inr ?x")
    by code_simp
  then have "?p = (fst ?p, Inr ?x)" by (simp add: prod_eq_iff)
  from published_schema_found [OF this] show ?thesis by auto
qed


text \<open>The documented namespace conflict is never reported: another owner's name ends in the repository
  error every failed statement ends in.\<close>

theorem publication_conflict_unreported:
  "snd (pg_schema_publish io i db kind name owner digest t) \<noteq> Inl (AE_SchemaNamespaceConflict n)"
proof -
  have "schema_record_from_row row \<noteq> Inl (AE_SchemaNamespaceConflict n)" for row
    by (auto simp: schema_record_from_row_def schema_kind_from_sql_def schema_status_from_sql_def SchemaVersion_restore_def split: if_splits)
  then show ?thesis by (auto simp: pg_schema_publish_def split: option.split prod.split db_stmt_splits)
qed

end
