(* ===== verification/Service_Requests.thy ===== *)
theory Service_Requests
  imports Instance_Registry
begin

text \<open>
  \<open>src/kernel/service_requests.rs\<close>: the signed-HTTP profile. A request is signed over a
  canonical base text that names every security-relevant field; \<open>verify\<close> rebuilds that text
  and checks it against the key of an eligible instance. UUID texts, SHA-256, Ed25519 and base64
  are the parameter \<open>X\<close>.
\<close>

section \<open>Constants, parts and validation\<close>

definition SIGNATURE_LABEL :: string where
  "SIGNATURE_LABEL = ''sig1''"

definition SIGNATURE_VALIDITY_SECONDS :: i64 where
  "SIGNATURE_VALIDITY_SECONDS = 30"

definition CLOCK_SKEW_SECONDS :: i64 where
  "CLOCK_SKEW_SECONDS = 5"

definition MIN_NONCE_LENGTH :: nat where
  "MIN_NONCE_LENGTH = 16"

definition MAX_NONCE_LENGTH :: nat where
  "MAX_NONCE_LENGTH = 128"

definition COVERED_COMPONENTS :: string where
  "COVERED_COMPONENTS = ''(\"@method\" \"@target-uri\" \"content-digest\" \"content-type\" \"infernal-service-id\" \"infernal-instance-id\" \"infernal-request-id\")''"

datatype ServiceRequestAuthenticationError =
    SRE_CredentialMismatch
  | SRE_InvalidContentDigest
  | SRE_InvalidSignature
  | SRE_Malformed
  | SRE_NotFresh
  | SRE_Registry InstanceRegistryError

definition valid_header_value :: "string \<Rightarrow> bool" where
  "valid_header_value value \<longleftrightarrow>
     value \<noteq> [] \<and> str_trim value = value \<and> list_all (in_byte_range 32 126) value"

definition valid_uri_value :: "string \<Rightarrow> bool" where
  "valid_uri_value value \<longleftrightarrow> value \<noteq> [] \<and> list_all (in_byte_range 33 126) value"

record ServiceRequestParts =
  srp_method :: string
  srp_authority :: string
  srp_path_and_query :: string
  srp_content_type :: string
  srp_body :: bytes
  srp_request_id :: Uuid

definition ServiceRequestParts_new ::
  "string \<Rightarrow> string \<Rightarrow> string \<Rightarrow> string \<Rightarrow> bytes \<Rightarrow> Uuid
   \<Rightarrow> ServiceRequestAuthenticationError + ServiceRequestParts" where
  "ServiceRequestParts_new method authority path_and_query content_type body request_id =
     (if method = [] \<or> \<not> list_all is_ascii_uppercase method \<or> \<not> valid_uri_value authority
         \<or> list_ex (\<lambda>b. b \<in> set ''/@?#'') authority
         \<or> \<not> starts_with ''/'' path_and_query \<or> CHR ''#'' \<in> set path_and_query
         \<or> \<not> valid_uri_value path_and_query \<or> \<not> valid_header_value content_type
      then Inl SRE_Malformed
      else Inr \<lparr>srp_method = method, srp_authority = authority, srp_path_and_query = path_and_query,
                srp_content_type = content_type, srp_body = body, srp_request_id = request_id\<rparr>)"

definition target_uri :: "ServiceRequestParts \<Rightarrow> string" where
  "target_uri parts = ''https://'' @ srp_authority parts @ srp_path_and_query parts"

definition validate_signature_metadata ::
  "i64 \<Rightarrow> i64 \<Rightarrow> string \<Rightarrow> ServiceRequestAuthenticationError + unit" where
  "validate_signature_metadata created expires nonce =
     (if created < 0 \<or> expires \<le> created \<or> expires - created > SIGNATURE_VALIDITY_SECONDS
         \<or> \<not> (MIN_NONCE_LENGTH \<le> length nonce \<and> length nonce \<le> MAX_NONCE_LENGTH)
         \<or> \<not> list_all (\<lambda>b. is_ascii_alphanumeric b \<or> b = CHR ''-'' \<or> b = CHR ''_'') nonce
      then Inl SRE_Malformed else Inr ())"

definition validate_signature_time ::
  "i64 \<Rightarrow> i64 \<Rightarrow> i64 \<Rightarrow> ServiceRequestAuthenticationError + unit" where
  "validate_signature_time created expires now =
     (if now < 0 \<or> created > saturating_add now CLOCK_SKEW_SECONDS
         \<or> saturating_add expires CLOCK_SKEW_SECONDS < now
      then Inl SRE_NotFresh else Inr ())"

definition parse_timestamp :: "string \<Rightarrow> ServiceRequestAuthenticationError + i64" where
  "parse_timestamp value =
     (if value = [] \<or> \<not> list_all is_ascii_digit value then Inl SRE_Malformed
      else ok_or SRE_Malformed (parse_i64_digits value))"


section \<open>The canonical texts\<close>

definition content_digest :: "Crates \<Rightarrow> bytes \<Rightarrow> string" where
  "content_digest X body = ''sha-256=:'' @ b64_encode X (sha256 X body) @ '':''"

definition verify_content_digest :: "Crates \<Rightarrow> bytes \<Rightarrow> string \<Rightarrow> ServiceRequestAuthenticationError + unit" where
  "verify_content_digest X body supplied =
     (if content_digest X body = supplied then Inr () else Inl SRE_InvalidContentDigest)"

definition signature_parameters :: "Crates \<Rightarrow> i64 \<Rightarrow> i64 \<Rightarrow> string \<Rightarrow> KeyId \<Rightarrow> string" where
  "signature_parameters X created expires nonce key_id =
     COVERED_COMPONENTS @ '';created='' @ show_i64 created @ '';expires='' @ show_i64 expires @
     '';nonce=\"'' @ nonce @ ''\";keyid=\"'' @ KeyId_show X key_id @ ''\";alg=\"ed25519\"''"

definition newline :: u8 where
  "newline = CHR 0x0A"

definition signature_base ::
  "Crates \<Rightarrow> ServiceRequestParts \<Rightarrow> ActorId \<Rightarrow> InstanceId \<Rightarrow> string \<Rightarrow> string \<Rightarrow> string" where
  "signature_base X parts service_id instance_id digest parameters =
     ''\"@method\": '' @ srp_method parts @ newline #
     ''\"@target-uri\": '' @ target_uri parts @ newline #
     ''\"content-digest\": '' @ digest @ newline #
     ''\"content-type\": '' @ srp_content_type parts @ newline #
     ''\"infernal-service-id\": '' @ ActorId_show X service_id @ newline #
     ''\"infernal-instance-id\": '' @ InstanceId_show X instance_id @ newline #
     ''\"infernal-request-id\": '' @ uuid_show X (srp_request_id parts) @ newline #
     ''\"@signature-params\": '' @ parameters"


section \<open>Signed requests\<close>

record SignedServiceRequest =
  ssr_parts :: ServiceRequestParts
  ssr_service_id :: ActorId
  ssr_instance_id :: InstanceId
  ssr_content_digest :: string
  ssr_signature_input :: string
  ssr_signature :: string

definition SignedServiceRequest_sign ::
  "Crates \<Rightarrow> ServiceRequestParts \<Rightarrow> InstanceCredential \<Rightarrow> i64 \<Rightarrow> i64 \<Rightarrow> string
   \<Rightarrow> ServiceRequestAuthenticationError + SignedServiceRequest" where
  "SignedServiceRequest_sign X parts credential created expires nonce =
     bind_result (validate_signature_metadata created expires nonce) (\<lambda>_.
       let public_key = ic_public_key credential;
           digest = content_digest X (srp_body parts);
           parameters = signature_parameters X created expires nonce (ipk_key_id public_key);
           base = signature_base X parts (ipk_service_id public_key) (ipk_instance_id public_key) digest parameters;
           signature = InstanceCredential_sign X credential base
       in Inr \<lparr>ssr_parts = parts, ssr_service_id = ipk_service_id public_key,
               ssr_instance_id = ipk_instance_id public_key, ssr_content_digest = digest,
               ssr_signature_input = SIGNATURE_LABEL @ ''='' @ parameters,
               ssr_signature = SIGNATURE_LABEL @ ''=:'' @ b64_encode X (InstanceSignature_as_bytes signature) @ '':''\<rparr>)"

definition SignedServiceRequest_from_wire ::
  "Crates \<Rightarrow> ServiceRequestParts \<Rightarrow> string \<Rightarrow> string \<Rightarrow> string \<Rightarrow> string \<Rightarrow> string
   \<Rightarrow> ServiceRequestAuthenticationError + SignedServiceRequest" where
  "SignedServiceRequest_from_wire X parts service_id instance_id digest signature_input signature =
     bind_result (map_err (\<lambda>_. SRE_Malformed) (ActorId_from_str X service_id)) (\<lambda>service_id.
     bind_result (map_err (\<lambda>_. SRE_Malformed) (InstanceId_from_str X instance_id)) (\<lambda>instance_id.
       Inr \<lparr>ssr_parts = parts, ssr_service_id = service_id, ssr_instance_id = instance_id,
            ssr_content_digest = digest, ssr_signature_input = signature_input,
            ssr_signature = signature\<rparr>))"

record VerifiedServiceRequest =
  vsr_service_id :: ActorId
  vsr_instance_id :: InstanceId
  vsr_key_id :: KeyId
  vsr_request_id :: Uuid
  vsr_created :: i64
  vsr_expires :: i64
  vsr_nonce_digest :: bytes
  vsr_request_fingerprint :: bytes

definition request_fingerprint_input :: "Crates \<Rightarrow> SignedServiceRequest \<Rightarrow> bytes" where
  "request_fingerprint_input X request =
     ''\"@method\": '' @ srp_method (ssr_parts request) @ newline #
     ''\"@target-uri\": '' @ target_uri (ssr_parts request) @ newline #
     ''\"content-digest\": '' @ ssr_content_digest request @ newline #
     ''\"content-type\": '' @ srp_content_type (ssr_parts request) @ newline #
     ''\"infernal-service-id\": '' @ ActorId_show X (ssr_service_id request)"

definition request_fingerprint :: "Crates \<Rightarrow> SignedServiceRequest \<Rightarrow> bytes" where
  "request_fingerprint X request = sha256 X (request_fingerprint_input X request)"


section \<open>Parsing and verification\<close>

record SignatureMetadata =
  smd_parameters :: string
  smd_created :: i64
  smd_expires :: i64
  smd_nonce :: string
  smd_key_id :: KeyId

definition parse_signature_input ::
  "Crates \<Rightarrow> string \<Rightarrow> ServiceRequestAuthenticationError + SignatureMetadata" where
  "parse_signature_input X value =
     bind_result (ok_or SRE_Malformed (strip_prefix (SIGNATURE_LABEL @ ''='') value)) (\<lambda>parameters.
     bind_result (ok_or SRE_Malformed (Option.bind (strip_prefix COVERED_COMPONENTS parameters) (strip_prefix '';created=''))) (\<lambda>remainder.
     bind_result (ok_or SRE_Malformed (split_once '';expires='' remainder)) (\<lambda>(created, remainder).
     bind_result (ok_or SRE_Malformed (split_once '';nonce=\"'' remainder)) (\<lambda>(expires, remainder).
     bind_result (ok_or SRE_Malformed (split_once ''\";keyid=\"'' remainder)) (\<lambda>(nonce, remainder).
     bind_result (ok_or SRE_Malformed (split_once ''\";alg=\"'' remainder)) (\<lambda>(key_id, algorithm).
       if algorithm \<noteq> ''ed25519\"'' then Inl SRE_Malformed
       else
         bind_result (parse_timestamp created) (\<lambda>created.
         bind_result (parse_timestamp expires) (\<lambda>expires.
         bind_result (validate_signature_metadata created expires nonce) (\<lambda>_.
         bind_result (map_err (\<lambda>_. SRE_Malformed) (KeyId_from_str X key_id)) (\<lambda>key_id.
           Inr \<lparr>smd_parameters = parameters, smd_created = created, smd_expires = expires,
                smd_nonce = nonce, smd_key_id = key_id\<rparr>))))))))))"

definition parse_signature ::
  "Crates \<Rightarrow> string \<Rightarrow> ServiceRequestAuthenticationError + InstanceSignature" where
  "parse_signature X value =
     bind_result (ok_or SRE_Malformed (Option.bind (strip_prefix (SIGNATURE_LABEL @ ''=:'') value) (strip_suffix '':''))) (\<lambda>encoded.
     bind_result (ok_or SRE_Malformed (b64_decode X encoded)) (\<lambda>bytes.
       if length bytes \<noteq> 64 then Inl SRE_Malformed
       else if b64_encode X bytes \<noteq> encoded then Inl SRE_Malformed
       else Inr (InstanceSignature bytes)))"

text \<open>\<open>instances\<close> is the \<open>EligibleInstanceResolver\<close>: the instance with that ID, if it is
  eligible at that time.\<close>

definition ServiceRequestVerifier_verify ::
  "Crates \<Rightarrow> (InstanceId \<Rightarrow> i64 \<Rightarrow> InstanceRegistryError + RegisteredInstance) \<Rightarrow>
   SignedServiceRequest \<Rightarrow> i64 \<Rightarrow> ServiceRequestAuthenticationError + VerifiedServiceRequest" where
  "ServiceRequestVerifier_verify X instances request now =
     bind_result (parse_signature_input X (ssr_signature_input request)) (\<lambda>metadata.
     bind_result (validate_signature_time (smd_created metadata) (smd_expires metadata) now) (\<lambda>_.
     bind_result (map_err SRE_Registry (instances (ssr_instance_id request) now)) (\<lambda>instance.
       let public_key = ri_public_key instance
       in if ipk_service_id public_key \<noteq> ssr_service_id request
             \<or> ipk_instance_id public_key \<noteq> ssr_instance_id request
             \<or> ipk_key_id public_key \<noteq> smd_key_id metadata
          then Inl SRE_CredentialMismatch
          else
            bind_result (verify_content_digest X (srp_body (ssr_parts request)) (ssr_content_digest request)) (\<lambda>_.
            bind_result (parse_signature X (ssr_signature request)) (\<lambda>signature.
              let base = signature_base X (ssr_parts request) (ssr_service_id request) (ssr_instance_id request)
                           (ssr_content_digest request) (smd_parameters metadata)
              in bind_result (map_err (\<lambda>_. SRE_InvalidSignature) (InstancePublicKey_verify X public_key base signature)) (\<lambda>_.
                   Inr \<lparr>vsr_service_id = ssr_service_id request, vsr_instance_id = ssr_instance_id request,
                        vsr_key_id = smd_key_id metadata, vsr_request_id = srp_request_id (ssr_parts request),
                        vsr_created = smd_created metadata, vsr_expires = smd_expires metadata,
                        vsr_nonce_digest = sha256 X (smd_nonce metadata),
                        vsr_request_fingerprint = request_fingerprint X request\<rparr>))))))"

section \<open>What a verified request is\<close>

text \<open>The metadata a signature input parses into.\<close>

definition metadata_wf :: "SignatureMetadata \<Rightarrow> bool" where
  "metadata_wf m \<longleftrightarrow> 0 \<le> smd_created m \<and> smd_created m < smd_expires m \<and>
     smd_expires m \<le> smd_created m + SIGNATURE_VALIDITY_SECONDS \<and>
     MIN_NONCE_LENGTH \<le> length (smd_nonce m) \<and> length (smd_nonce m) \<le> MAX_NONCE_LENGTH"

lemma validate_signature_metadata_Inr [simp]:
  "validate_signature_metadata c e n = Inr u \<longleftrightarrow>
     0 \<le> c \<and> c < e \<and> e \<le> c + SIGNATURE_VALIDITY_SECONDS \<and> MIN_NONCE_LENGTH \<le> length n \<and>
     length n \<le> MAX_NONCE_LENGTH \<and> list_all (\<lambda>b. is_ascii_alphanumeric b \<or> b = CHR ''-'' \<or> b = CHR ''_'') n"
  by (auto simp: validate_signature_metadata_def)

lemma parse_signature_input_wf: "parse_signature_input X s = Inr m \<Longrightarrow> metadata_wf m"
  by (auto simp: parse_signature_input_def metadata_wf_def split: if_splits prod.splits)

lemma verify_Inr:
  assumes "ServiceRequestVerifier_verify X instances r now = Inr v"
  obtains m inst sig where "parse_signature_input X (ssr_signature_input r) = Inr m"
    and "validate_signature_time (smd_created m) (smd_expires m) now = Inr ()"
    and "instances (ssr_instance_id r) now = Inr inst"
    and "ipk_service_id (ri_public_key inst) = ssr_service_id r"
    and "ipk_instance_id (ri_public_key inst) = ssr_instance_id r"
    and "ipk_key_id (ri_public_key inst) = smd_key_id m"
    and "ssr_content_digest r = content_digest X (srp_body (ssr_parts r))"
    and "parse_signature X (ssr_signature r) = Inr sig"
    and "ed_verify_strict X (ipk_public_key (ri_public_key inst))
           (signature_base X (ssr_parts r) (ssr_service_id r) (ssr_instance_id r) (ssr_content_digest r) (smd_parameters m))
           (InstanceSignature_as_bytes sig)"
    and "v = \<lparr>vsr_service_id = ssr_service_id r, vsr_instance_id = ssr_instance_id r,
               vsr_key_id = smd_key_id m, vsr_request_id = srp_request_id (ssr_parts r),
               vsr_created = smd_created m, vsr_expires = smd_expires m,
               vsr_nonce_digest = sha256 X (smd_nonce m), vsr_request_fingerprint = request_fingerprint X r\<rparr>"
  using assms
  by (auto simp: ServiceRequestVerifier_verify_def Let_def verify_content_digest_def split: if_splits)

text \<open>The parts \<open>ServiceRequestParts::new\<close> lets through.\<close>

definition parts_wf :: "ServiceRequestParts \<Rightarrow> bool" where
  "parts_wf p \<longleftrightarrow> ServiceRequestParts_new (srp_method p) (srp_authority p) (srp_path_and_query p)
     (srp_content_type p) (srp_body p) (srp_request_id p) = Inr p"

lemma ServiceRequestParts_new_wf: "ServiceRequestParts_new m a u t b i = Inr p \<Longrightarrow> parts_wf p"
  by (auto simp: ServiceRequestParts_new_def parts_wf_def split: if_splits)

lemma parts_wf_no_newline:
  assumes "parts_wf p"
  shows "newline \<notin> set (srp_method p)" and "newline \<notin> set (target_uri p)" and "newline \<notin> set (srp_content_type p)"
  using assms
  by (auto simp: parts_wf_def ServiceRequestParts_new_def valid_uri_value_def valid_header_value_def target_uri_def
      list_all_iff in_byte_range_def is_ascii_uppercase_def newline_def byte_val_def split: if_splits)

lemma uuid_show_chars:
  "uuid_text_ok X \<Longrightarrow> c \<in> set (uuid_show X u) \<Longrightarrow> is_ascii_digit c \<or> in_byte_range 97 102 c \<or> c = CHR ''-''"
  by (auto simp: uuid_text_ok_def list_all_iff)

lemma uuid_show_no_newline: "uuid_text_ok X \<Longrightarrow> newline \<notin> set (uuid_show X u)"
  by (auto simp: is_ascii_digit_def in_byte_range_def newline_def byte_val_def dest: uuid_show_chars)

lemma uuid_show_no_quote: "uuid_text_ok X \<Longrightarrow> CHR 0x22 \<notin> set (uuid_show X u)"
  by (auto simp: is_ascii_digit_def in_byte_range_def byte_val_def dest: uuid_show_chars)

lemma b64_encode_chars:
  "base64_ok X \<Longrightarrow> c \<in> set (b64_encode X b) \<Longrightarrow> is_ascii_alphanumeric c \<or> c \<in> set ''+/=''"
  unfolding base64_ok_def list_all_iff by blast

lemma uuid_show_inj: "uuid_text_ok X \<Longrightarrow> uuid_show X u = uuid_show X v \<Longrightarrow> u = v"
  by (metis option.inject uuid_text_ok_def)

lemma content_digest_no_newline: "base64_ok X \<Longrightarrow> newline \<notin> set (content_digest X b)"
  by (auto simp: content_digest_def is_ascii_alphanumeric_def is_ascii_digit_def
      is_ascii_uppercase_def is_ascii_lowercase_def in_byte_range_def newline_def byte_val_def dest!: b64_encode_chars)

text \<open>A path starts with the first slash after the authority.\<close>

lemma target_uri_inj:
  assumes "parts_wf p" and "parts_wf q" and "target_uri p = target_uri q"
  shows "srp_authority p = srp_authority q \<and> srp_path_and_query p = srp_path_and_query q"
proof -
  have wf: "CHR ''/'' \<notin> set (srp_authority p) \<and> (\<exists>s. srp_path_and_query p = CHR ''/'' # s)" if "parts_wf p" for p
    using that by (auto simp: parts_wf_def ServiceRequestParts_new_def list_ex_iff starts_with_iff split: if_splits)
  with assms(1,2) obtain s t where "srp_path_and_query p = CHR ''/'' # s" "srp_path_and_query q = CHR ''/'' # t" by blast
  with assms(3) wf [OF assms(1)] wf [OF assms(2)] show ?thesis
    by (auto simp: target_uri_def append_sep_inj)
qed

text \<open>The base text determines everything it names.\<close>

lemma signature_base_inj:
  assumes "uuid_text_ok X" and "parts_wf p" and "parts_wf q"
    and dig: "newline \<notin> set d" "newline \<notin> set d'"
    and eq: "signature_base X p a i d m = signature_base X q a' i' d' m'"
  shows "srp_method p = srp_method q \<and> srp_authority p = srp_authority q \<and>
    srp_path_and_query p = srp_path_and_query q \<and> d = d' \<and> srp_content_type p = srp_content_type q \<and>
    a = a' \<and> i = i' \<and> srp_request_id p = srp_request_id q \<and> m = m'"
proof -
  note nl = parts_wf_no_newline [OF assms(2)] parts_wf_no_newline [OF assms(3)] uuid_show_no_newline [OF assms(1)] dig
  have "srp_method p = srp_method q \<and> target_uri p = target_uri q \<and> d = d' \<and> srp_content_type p = srp_content_type q \<and>
    ActorId_show X a = ActorId_show X a' \<and> InstanceId_show X i = InstanceId_show X i' \<and>
    uuid_show X (srp_request_id p) = uuid_show X (srp_request_id q) \<and> m = m'"
    using eq by (simp add: signature_base_def ActorId_show_def InstanceId_show_def append_sep_inj nl)
  with target_uri_inj [OF assms(2,3)] uuid_show_inj [OF assms(1)] show ?thesis
    by (cases a; cases a'; cases i; cases i') (auto simp: ActorId_show_def InstanceId_show_def)
qed

text \<open>So does the input of the request fingerprint, which leaves out the instance, the request ID and
  the signature parameters: these differ between retries.\<close>

lemma request_fingerprint_input_inj:
  assumes "uuid_text_ok X" and "parts_wf (ssr_parts r)" and "parts_wf (ssr_parts q)"
    and dig: "newline \<notin> set (ssr_content_digest r)" "newline \<notin> set (ssr_content_digest q)"
    and eq: "request_fingerprint_input X r = request_fingerprint_input X q"
  shows "srp_method (ssr_parts r) = srp_method (ssr_parts q) \<and> srp_authority (ssr_parts r) = srp_authority (ssr_parts q) \<and>
    srp_path_and_query (ssr_parts r) = srp_path_and_query (ssr_parts q) \<and> ssr_content_digest r = ssr_content_digest q \<and>
    srp_content_type (ssr_parts r) = srp_content_type (ssr_parts q) \<and> ssr_service_id r = ssr_service_id q"
proof -
  note nl = parts_wf_no_newline [OF assms(2)] parts_wf_no_newline [OF assms(3)] dig
  have "srp_method (ssr_parts r) = srp_method (ssr_parts q) \<and> target_uri (ssr_parts r) = target_uri (ssr_parts q) \<and>
    ssr_content_digest r = ssr_content_digest q \<and> srp_content_type (ssr_parts r) = srp_content_type (ssr_parts q) \<and>
    ActorId_show X (ssr_service_id r) = ActorId_show X (ssr_service_id q)"
    using eq by (simp add: request_fingerprint_input_def append_sep_inj nl)
  with target_uri_inj [OF assms(2,3)] uuid_show_inj [OF assms(1)] show ?thesis
    by (cases "ssr_service_id r"; cases "ssr_service_id q") (auto simp: ActorId_show_def)
qed


section \<open>Signing and verifying\<close>

lemma sign_Inr_fields:
  "SignedServiceRequest_sign X parts cred c e n = Inr r \<Longrightarrow>
     ssr_parts r = parts \<and> ssr_service_id r = ipk_service_id (ic_public_key cred) \<and>
     ssr_instance_id r = ipk_instance_id (ic_public_key cred) \<and> ssr_content_digest r = content_digest X (srp_body parts) \<and>
     ssr_signature_input r = SIGNATURE_LABEL @ ''='' @ signature_parameters X c e n (ipk_key_id (ic_public_key cred))"
  by (auto simp: SignedServiceRequest_sign_def Let_def)

lemma show_i64_nonneg: "0 \<le> n \<Longrightarrow> show_i64 n = show_nat (nat n)"
  by (simp add: show_i64_def)

lemma parse_timestamp_show: "0 \<le> n \<Longrightarrow> in_i64 n \<Longrightarrow> parse_timestamp (show_i64 n) = Inr n"
  by (simp add: parse_timestamp_def show_i64_nonneg show_nat_digits parse_i64_digits_def)

lemma digits_not_in: "\<not> is_ascii_digit c \<Longrightarrow> c \<notin> set (show_nat n)"
  using show_nat_digits [of n] by (auto simp: list_all_iff)

lemma parse_signature_parameters:
  assumes "uuid_text_ok X" and "validate_signature_metadata c e n = Inr ()" and "in_i64 c" and "in_i64 e"
  shows "parse_signature_input X (SIGNATURE_LABEL @ ''='' @ signature_parameters X c e n k) =
    Inr \<lparr>smd_parameters = signature_parameters X c e n k, smd_created = c, smd_expires = e, smd_nonce = n, smd_key_id = k\<rparr>"
proof -
  have nonneg: "0 \<le> c" "0 \<le> e" using assms(2) by simp_all
  have quote: "CHR 0x22 \<notin> set n"
    using assms(2) by (auto simp: list_all_iff is_ascii_alphanumeric_def is_ascii_digit_def is_ascii_uppercase_def
        is_ascii_lowercase_def in_byte_range_def byte_val_def)
  have uquote: "CHR 0x22 \<notin> set (KeyId_show X k)"
    by (simp add: KeyId_show_def uuid_show_no_quote [OF assms(1)])
  have semi: "CHR '';'' \<notin> set (show_nat m)" for m
    by (rule digits_not_in) (simp add: is_ascii_digit_def in_byte_range_def byte_val_def)
  have sp1: "split_once '';expires='' (show_nat (nat c) @ '';expires='' @ r) = Some (show_nat (nat c), r)" for r
    by (rule split_once_append [OF semi])
  have sp2: "split_once '';nonce=\"'' (show_nat (nat e) @ '';nonce=\"'' @ r) = Some (show_nat (nat e), r)" for r
    by (rule split_once_append [OF semi])
  have sp3: "split_once ''\";keyid=\"'' (n @ ''\";keyid=\"'' @ r) = Some (n, r)" for r
    by (rule split_once_append [OF quote])
  have sp4: "split_once ''\";alg=\"'' (KeyId_show X k @ ''\";alg=\"'' @ r) = Some (KeyId_show X k, r)" for r
    by (rule split_once_append [OF uquote])
  have key: "KeyId_from_str X (KeyId_show X k) = Inr k"
    using assms(1) by (cases k) (simp add: KeyId_from_str_def KeyId_show_def uuid_text_ok_def)
  have ts: "parse_timestamp (show_nat (nat c)) = Inr c" "parse_timestamp (show_nat (nat e)) = Inr e"
    using parse_timestamp_show [of c] parse_timestamp_show [of e] nonneg assms(3,4) by (simp_all add: show_i64_nonneg)
  have pre: "strip_prefix (SIGNATURE_LABEL @ ''='') (SIGNATURE_LABEL @ ''='' @ signature_parameters X c e n k) =
      Some (signature_parameters X c e n k)"
    by simp
  have params: "Option.bind (strip_prefix COVERED_COMPONENTS (signature_parameters X c e n k)) (strip_prefix '';created='') =
      Some (show_nat (nat c) @ '';expires='' @ show_nat (nat e) @ '';nonce=\"'' @ n @ ''\";keyid=\"'' @ KeyId_show X k @ ''\";alg=\"'' @ ''ed25519\"'')"
    unfolding signature_parameters_def by (simp add: show_i64_nonneg nonneg)
  show ?thesis
    unfolding parse_signature_input_def pre params ok_or_simps bind_result_simps sp1 sp2 sp3 sp4 prod.case
    by (simp add: ts key assms(2))
qed

lemma parse_signature_encoded:
  assumes "base64_ok X" and "length b = 64"
  shows "parse_signature X (SIGNATURE_LABEL @ ''=:'' @ b64_encode X b @ '':'') = Inr (InstanceSignature b)"
proof -
  have pre: "strip_prefix (SIGNATURE_LABEL @ ''=:'') (SIGNATURE_LABEL @ ''=:'' @ b64_encode X b @ '':'') = Some (b64_encode X b @ '':'')"
    by simp
  have suf: "strip_suffix '':'' (b64_encode X b @ '':'') = Some (b64_encode X b)" by simp
  have dec: "b64_decode X (b64_encode X b) = Some b" using assms(1) by (simp add: base64_ok_def)
  show ?thesis unfolding parse_signature_def pre Option.bind.simps suf by (simp add: dec assms(2))
qed

lemma signed_request_verifies:
  assumes X: "uuid_text_ok X" "ed25519_ok X" "base64_ok X"
    and cred: "cred = InstanceCredential_generate X sk i k a"
    and sign: "SignedServiceRequest_sign X parts cred created expires nonce = Inr r"
    and "in_i64 created" and "in_i64 expires"
    and time: "validate_signature_time created expires now = Inr ()"
    and inst: "instances i now = Inr inst" "ri_public_key inst = ic_public_key cred"
  shows "ServiceRequestVerifier_verify X instances r now =
    Inr \<lparr>vsr_service_id = a, vsr_instance_id = i, vsr_key_id = k, vsr_request_id = srp_request_id parts,
         vsr_created = created, vsr_expires = expires, vsr_nonce_digest = sha256 X nonce,
         vsr_request_fingerprint = request_fingerprint X r\<rparr>"
proof -
  have pk: "ipk_service_id (ic_public_key cred) = a" "ipk_instance_id (ic_public_key cred) = i" "ipk_key_id (ic_public_key cred) = k"
    by (simp_all add: cred InstanceCredential_generate_def)
  define params where "params = signature_parameters X created expires nonce k"
  define sig where "sig = InstanceCredential_sign X cred (signature_base X parts a i (content_digest X (srp_body parts)) params)"
  from sign have r: "r = \<lparr>ssr_parts = parts, ssr_service_id = a, ssr_instance_id = i,
      ssr_content_digest = content_digest X (srp_body parts), ssr_signature_input = SIGNATURE_LABEL @ ''='' @ params,
      ssr_signature = SIGNATURE_LABEL @ ''=:'' @ b64_encode X (InstanceSignature_as_bytes sig) @ '':''\<rparr>"
    and meta: "validate_signature_metadata created expires nonce = Inr ()"
    by (auto simp: SignedServiceRequest_sign_def Let_def pk params_def sig_def)
  have len: "length (InstanceSignature_as_bytes sig) = 64"
    using X(2) by (simp add: sig_def InstanceCredential_sign_def ed25519_ok_def)
  have ver: "InstancePublicKey_verify X (ic_public_key cred)
      (signature_base X parts a i (content_digest X (srp_body parts)) params) sig = Inr ()"
    unfolding sig_def by (rule generated_credential_verifies [OF X(2) cred])
  have ps: "parse_signature X (SIGNATURE_LABEL @ ''=:'' @ b64_encode X (InstanceSignature_as_bytes sig) @ '':'') = Inr sig"
    using parse_signature_encoded [OF X(3) len] by (cases sig) simp
  note pi = parse_signature_parameters [OF X(1) meta assms(6,7), of k, folded params_def]
  have fp: "request_fingerprint X r = request_fingerprint X r" ..
  show ?thesis
    unfolding ServiceRequestVerifier_verify_def
    by (simp add: r pi time inst pk verify_content_digest_def ps ver del: append.simps append_assoc) 
qed

end
