(* ===== verification/Replay_Protection.thy ===== *)
theory Replay_Protection
  imports Service_Requests
begin

text \<open>
  \<open>src/kernel/replay_protection.rs\<close>: a verified request consumes its nonce and binds its
  request ID to its fingerprint. The laws of \<open>ReplayProtectionRepository\<close> are the locale
  \<open>replay_repository\<close>.
\<close>

record ReplayReservation =
  rpr_service_id :: ActorId
  rpr_instance_id :: InstanceId
  rpr_key_id :: KeyId
  rpr_request_id :: Uuid
  rpr_nonce_digest :: bytes
  rpr_request_fingerprint :: bytes
  rpr_signature_created :: i64
  rpr_signature_expires :: i64
  rpr_reserved_at :: i64

datatype ReplayDisposition = Fresh | SafeRetry

datatype ReplayProtectionError =
    RPE_InvalidTimestamp
  | RPE_ReplayDetected
  | RPE_RequestIdConflict
  | RPE_Repository string

definition ReplayReservation_from_verified ::
  "VerifiedServiceRequest \<Rightarrow> i64 \<Rightarrow> ReplayProtectionError + ReplayReservation" where
  "ReplayReservation_from_verified request reserved_at =
     (if reserved_at < 0 \<or> vsr_created request > saturating_add reserved_at CLOCK_SKEW_SECONDS
         \<or> saturating_add (vsr_expires request) CLOCK_SKEW_SECONDS < reserved_at
      then Inl RPE_InvalidTimestamp
      else Inr \<lparr>rpr_service_id = vsr_service_id request, rpr_instance_id = vsr_instance_id request,
                rpr_key_id = vsr_key_id request, rpr_request_id = vsr_request_id request,
                rpr_nonce_digest = vsr_nonce_digest request,
                rpr_request_fingerprint = vsr_request_fingerprint request,
                rpr_signature_created = vsr_created request, rpr_signature_expires = vsr_expires request,
                rpr_reserved_at = reserved_at\<rparr>)"

definition ReplayProtectionService_protect ::
  "('s \<Rightarrow> ReplayReservation \<Rightarrow> 's \<times> (ReplayProtectionError + ReplayDisposition)) \<Rightarrow>
   's \<Rightarrow> VerifiedServiceRequest \<Rightarrow> i64 \<Rightarrow> 's \<times> (ReplayProtectionError + ReplayDisposition)" where
  "ReplayProtectionService_protect repo_reserve s request now =
     (case ReplayReservation_from_verified request now of
        Inl e \<Rightarrow> (s, Inl e)
      | Inr reservation \<Rightarrow> repo_reserve s reservation)"

text \<open>
  The laws: a reservation succeeds only on a nonce the key has not used and on a request ID that is
  free or bound to the same fingerprint, and then records both; a failed one never frees a nonce and
  changes no binding.
\<close>

locale replay_repository =
  fixes good_rep :: "'s \<Rightarrow> bool"
    and used_nonces :: "'s \<Rightarrow> (KeyId \<times> bytes) set"
    and bound_id :: "'s \<Rightarrow> ActorId \<times> Uuid \<Rightarrow> bytes option"
    and reserve_op :: "'s \<Rightarrow> ReplayReservation \<Rightarrow> 's \<times> (ReplayProtectionError + ReplayDisposition)"
  assumes reserve_ok: "good_rep s \<Longrightarrow> reserve_op s r = (s', Inr d) \<Longrightarrow>
      good_rep s' \<and> (rpr_key_id r, rpr_nonce_digest r) \<notin> used_nonces s \<and>
      used_nonces s' = insert (rpr_key_id r, rpr_nonce_digest r) (used_nonces s) \<and>
      bound_id s (rpr_service_id r, rpr_request_id r) =
        (case d of Fresh \<Rightarrow> None | SafeRetry \<Rightarrow> Some (rpr_request_fingerprint r)) \<and>
      bound_id s' = (bound_id s)((rpr_service_id r, rpr_request_id r) \<mapsto> rpr_request_fingerprint r)"
    and reserve_error: "good_rep s \<Longrightarrow> reserve_op s r = (s', Inl e) \<Longrightarrow>
      good_rep s' \<and> used_nonces s \<subseteq> used_nonces s' \<and> bound_id s' = bound_id s"
begin

lemma reserve_mono:
  assumes "good_rep s" and "reserve_op s r = (s', x)"
  shows "good_rep s' \<and> used_nonces s \<subseteq> used_nonces s' \<and> bound_id s \<subseteq>\<^sub>m bound_id s'"
proof (cases x)
  case (Inl e)
  with reserve_error [OF assms(1)] assms(2) show ?thesis by auto
next
  case (Inr d)
  with assms have "reserve_op s r = (s', Inr d)" by simp
  from reserve_ok [OF assms(1) this] show ?thesis
    by (cases d) (auto simp: map_le_def)
qed

lemma protect_mono:
  assumes "good_rep s" and "ReplayProtectionService_protect reserve_op s v now = (s', x)"
  shows "good_rep s' \<and> used_nonces s \<subseteq> used_nonces s' \<and> bound_id s \<subseteq>\<^sub>m bound_id s'"
  using assms reserve_mono
  by (auto simp: ReplayProtectionService_protect_def split: sum.splits)

lemma protect_ok:
  assumes "good_rep s" and "ReplayProtectionService_protect reserve_op s v now = (s', Inr d)"
  shows "good_rep s' \<and> (vsr_key_id v, vsr_nonce_digest v) \<notin> used_nonces s \<and>
    (vsr_key_id v, vsr_nonce_digest v) \<in> used_nonces s' \<and>
    bound_id s (vsr_service_id v, vsr_request_id v) =
      (case d of Fresh \<Rightarrow> None | SafeRetry \<Rightarrow> Some (vsr_request_fingerprint v)) \<and>
    bound_id s' (vsr_service_id v, vsr_request_id v) = Some (vsr_request_fingerprint v)"
proof -
  from assms(2) obtain r where r: "ReplayReservation_from_verified v now = Inr r" and res: "reserve_op s r = (s', Inr d)"
    by (auto simp: ReplayProtectionService_protect_def split: sum.splits)
  from r have "rpr_key_id r = vsr_key_id v" "rpr_nonce_digest r = vsr_nonce_digest v" "rpr_service_id r = vsr_service_id v"
    "rpr_request_id r = vsr_request_id v" "rpr_request_fingerprint r = vsr_request_fingerprint v"
    by (auto simp: ReplayReservation_from_verified_def split: if_splits)
  with reserve_ok [OF assms(1) res] show ?thesis by (simp split: ReplayDisposition.splits)
qed

end

end
