(* ===== verification/Admission.thy ===== *)
theory Admission
  imports Identity
begin

text \<open>
  \<open>src/kernel/admission.rs\<close>: communication is off for a service unless an administrator has
  switched it on; the kernel only reads the state.
\<close>

record CommunicationAdmission =
  cam_service_id :: ActorId
  cam_enabled :: bool
  cam_revision :: i64
  cam_updated_at :: i64

datatype AdmissionError =
    AME_Disabled ActorId
  | AME_InvalidStoredRecord
  | AME_Repository string
  | AME_UnknownService ActorId

definition CommunicationAdmission_restore ::
  "ActorId \<Rightarrow> bool \<Rightarrow> i64 \<Rightarrow> i64 \<Rightarrow> AdmissionError + CommunicationAdmission" where
  "CommunicationAdmission_restore service_id enabled revision updated_at =
     (if revision < 0 \<or> updated_at < 0 then Inl AME_InvalidStoredRecord
      else Inr \<lparr>cam_service_id = service_id, cam_enabled = enabled, cam_revision = revision,
                cam_updated_at = updated_at\<rparr>)"

definition require_enabled ::
  "('s \<Rightarrow> ActorId \<Rightarrow> AdmissionError + CommunicationAdmission option) \<Rightarrow>
   's \<Rightarrow> ActorId \<Rightarrow> AdmissionError + CommunicationAdmission" where
  "require_enabled repo_find s service_id =
     bind_result (repo_find s service_id) (\<lambda>found.
     bind_result (ok_or (AME_UnknownService service_id) found) (\<lambda>admission.
       if \<not> cam_enabled admission then Inl (AME_Disabled service_id) else Inr admission))"

lemma require_enabled_Inr:
  "require_enabled f s a = Inr x \<longleftrightarrow> f s a = Inr (Some x) \<and> cam_enabled x"
  by (auto simp: require_enabled_def split: if_splits)

end
