(* ===== verification/Request_Gate.thy ===== *)
theory Request_Gate
  imports Replay_Protection Admission
begin

text \<open>
  \<open>src/kernel/request_gate.rs\<close>: signature verification, then replay reservation, then the
  admission check, the first failure ending the request. The locale \<open>request_gate\<close> extends
  the replay contract with what the gate needs of the other two.
\<close>

record AdmittedServiceRequest =
  asr_verified :: VerifiedServiceRequest
  asr_replay_disposition :: ReplayDisposition
  asr_admission_revision :: i64

datatype ServiceRequestGateError =
    SGE_Admission AdmissionError
  | SGE_Replay ReplayProtectionError
  | SGE_Signature ServiceRequestAuthenticationError

definition require_communication ::
  "('s \<Rightarrow> ActorId \<Rightarrow> AdmissionError + CommunicationAdmission option) \<Rightarrow> 's \<Rightarrow> ActorId \<Rightarrow> AdmissionError + i64" where
  "require_communication repo_find s service_id =
     bind_result (require_enabled repo_find s service_id) (\<lambda>admission. Inr (cam_revision admission))"

definition ServiceRequestGate_admit ::
  "('s \<Rightarrow> SignedServiceRequest \<Rightarrow> i64 \<Rightarrow> ServiceRequestAuthenticationError + VerifiedServiceRequest) \<Rightarrow>
   ('s \<Rightarrow> VerifiedServiceRequest \<Rightarrow> i64 \<Rightarrow> 's \<times> (ReplayProtectionError + ReplayDisposition)) \<Rightarrow>
   ('s \<Rightarrow> ActorId \<Rightarrow> AdmissionError + i64) \<Rightarrow>
   's \<Rightarrow> SignedServiceRequest \<Rightarrow> i64 \<Rightarrow> 's \<times> (ServiceRequestGateError + AdmittedServiceRequest)" where
  "ServiceRequestGate_admit verify_signature reserve_replay require s request now =
     (case verify_signature s request now of
        Inl e \<Rightarrow> (s, Inl (SGE_Signature e))
      | Inr verified \<Rightarrow>
          (case reserve_replay s verified now of
             (s', Inl e) \<Rightarrow> (s', Inl (SGE_Replay e))
           | (s', Inr replay_disposition) \<Rightarrow>
               (case require s' (vsr_service_id verified) of
                  Inl e \<Rightarrow> (s', Inl (SGE_Admission e))
                | Inr admission_revision \<Rightarrow>
                    (s', Inr \<lparr>asr_verified = verified, asr_replay_disposition = replay_disposition,
                              asr_admission_revision = admission_revision\<rparr>))))"

text \<open>What the gate relies on besides the replay contract: a verification's nonce, service and
  request ID are those of the request, whenever it happens.\<close>

locale request_gate = replay_repository good_rep used_nonces bound_id reserve_op
  for good_rep :: "'s \<Rightarrow> bool"
    and used_nonces :: "'s \<Rightarrow> (KeyId \<times> bytes) set"
    and bound_id :: "'s \<Rightarrow> ActorId \<times> Uuid \<Rightarrow> bytes option"
    and reserve_op :: "'s \<Rightarrow> ReplayReservation \<Rightarrow> 's \<times> (ReplayProtectionError + ReplayDisposition)" +
  fixes verify_op :: "'s \<Rightarrow> SignedServiceRequest \<Rightarrow> i64 \<Rightarrow> ServiceRequestAuthenticationError + VerifiedServiceRequest"
    and require_op :: "'s \<Rightarrow> ActorId \<Rightarrow> AdmissionError + i64"
    and nonce_of :: "SignedServiceRequest \<Rightarrow> (KeyId \<times> bytes) option"
    and fingerprint_of :: "SignedServiceRequest \<Rightarrow> bytes"
  assumes verify_request: "verify_op s r now = Inr v \<Longrightarrow>
      nonce_of r = Some (vsr_key_id v, vsr_nonce_digest v) \<and> vsr_service_id v = ssr_service_id r \<and>
      vsr_request_id v = srp_request_id (ssr_parts r) \<and> vsr_request_fingerprint v = fingerprint_of r"
begin

abbreviation gate_admit :: "'s \<Rightarrow> SignedServiceRequest \<Rightarrow> i64 \<Rightarrow> 's \<times> (ServiceRequestGateError + AdmittedServiceRequest)" where
  "gate_admit \<equiv> ServiceRequestGate_admit verify_op (ReplayProtectionService_protect reserve_op) require_op"

lemma admit_Inr:
  assumes "gate_admit s r now = (s', Inr a)"
  shows "verify_op s r now = Inr (asr_verified a) \<and>
    ReplayProtectionService_protect reserve_op s (asr_verified a) now = (s', Inr (asr_replay_disposition a)) \<and>
    require_op s' (ssr_service_id r) = Inr (asr_admission_revision a)"
  using assms verify_request
  by (auto simp: ServiceRequestGate_admit_def split: sum.splits prod.splits)

lemma admit_mono:
  assumes "good_rep s" and "gate_admit s r now = (s', x)"
  shows "good_rep s' \<and> used_nonces s \<subseteq> used_nonces s' \<and> bound_id s \<subseteq>\<^sub>m bound_id s'"
  using assms protect_mono [OF assms(1)]
  by (auto simp: ServiceRequestGate_admit_def split: sum.splits prod.splits)

text \<open>An admitted request has used up its nonce, and a request whose nonce is used up is not
  admitted.\<close>

lemma admit_consumes:
  assumes "good_rep s" and "gate_admit s r now = (s', Inr a)"
  shows "\<exists>n. nonce_of r = Some n \<and> n \<notin> used_nonces s \<and> n \<in> used_nonces s'"
  using admit_Inr [OF assms(2)] verify_request [of s r now] protect_ok [OF assms(1)] by blast

lemma consumed_not_admitted:
  assumes "good_rep s" and "nonce_of r = Some n" and "n \<in> used_nonces s"
  shows "gate_admit s r now \<noteq> (s', Inr a)"
  using admit_consumes [OF assms(1), of r now s' a] assms(2,3) by auto

text \<open>The request ID of an admitted request is bound to its fingerprint afterwards, and was free or
  bound to the same one before.\<close>

lemma admit_binds:
  assumes "good_rep s" and "gate_admit s r now = (s', Inr a)"
  defines "i \<equiv> (ssr_service_id r, srp_request_id (ssr_parts r))"
  shows "bound_id s' i = Some (fingerprint_of r) \<and>
    (case asr_replay_disposition a of Fresh \<Rightarrow> bound_id s i = None | SafeRetry \<Rightarrow> bound_id s i = Some (fingerprint_of r))"
  using conjunct1 [OF admit_Inr [OF assms(2)], THEN verify_request]
    protect_ok [OF assms(1) conjunct1 [OF conjunct2 [OF admit_Inr [OF assms(2)]]]]
  by (simp add: i_def split: ReplayDisposition.splits)

end

end
