(* ===== verification/Pg_Replay.thy ===== *)
theory Pg_Replay
  imports Database Replay_Protection
begin

text \<open>
  \<open>src/infrastructure/postgres_replay_protection_repository.rs\<close>: one transaction inserts the
  nonce, inserts the request ID if it is free, compares the stored fingerprint and appends an audit
  row; rejections are committed with their audit row. The interpretation \<open>pgrp\<close> discharges the
  laws of \<open>replay_repository\<close>.
\<close>

section \<open>Constraints\<close>

definition service_request_nonces_check :: "nonce_row \<Rightarrow> bool" where
  "service_request_nonces_check r \<longleftrightarrow>
     length (nr_nonce_digest r) = 32 \<and> length (nr_request_fingerprint r) = 32 \<and>
     0 \<le> nr_signature_created r \<and> 0 \<le> nr_reserved_at r \<and> nr_signature_expires r > nr_signature_created r"

definition service_request_ids_check :: "request_id_row \<Rightarrow> bool" where
  "service_request_ids_check r \<longleftrightarrow> length (rir_request_fingerprint r) = 32 \<and> 0 \<le> rir_first_seen_at r"

definition replay_audit_check :: "replay_audit_row \<Rightarrow> bool" where
  "replay_audit_check r \<longleftrightarrow>
     length (rpa_nonce_digest r) = 32 \<and> length (rpa_request_fingerprint r) = 32 \<and>
     rpa_outcome r \<in> set [''fresh'', ''safe_retry'', ''replay_rejected'', ''request_conflict_rejected''] \<and>
     0 \<le> rpa_recorded_at r"

definition nonce_key :: "nonce_row \<Rightarrow> KeyId \<times> bytes" where
  "nonce_key r = (nr_key_id r, nr_nonce_digest r)"

definition request_id_key :: "request_id_row \<Rightarrow> ActorId \<times> Uuid" where
  "request_id_key r = (rir_service_id r, rir_request_id r)"


section \<open>The operation\<close>

abbreviation rep_stmt ::
  "faults \<Rightarrow> nat \<Rightarrow> Db \<Rightarrow> Db \<times> (ReplayProtectionError + 'a) \<Rightarrow> Db \<times> (ReplayProtectionError + 'a)" where
  "rep_stmt io k db rest \<equiv> db_stmt io k RPE_Repository db rest"

text \<open>\<open>append_audit\<close> as statement \<open>k\<close> and the commit as statement \<open>k + 1\<close>; then the
  call ends with \<open>result\<close>.\<close>

definition append_replay_audit ::
  "faults \<Rightarrow> nat \<Rightarrow> Db \<Rightarrow> Db \<Rightarrow> ReplayReservation \<Rightarrow> string \<Rightarrow> ReplayProtectionError + 'a
   \<Rightarrow> Db \<times> (ReplayProtectionError + 'a)" where
  "append_replay_audit io k before db reservation outcome result =
     rep_stmt io k before (
       let row = \<lparr>rpa_service_id = rpr_service_id reservation, rpa_instance_id = rpr_instance_id reservation,
                  rpa_key_id = rpr_key_id reservation, rpa_request_id = rpr_request_id reservation,
                  rpa_nonce_digest = rpr_nonce_digest reservation,
                  rpa_request_fingerprint = rpr_request_fingerprint reservation,
                  rpa_outcome = outcome, rpa_recorded_at = rpr_reserved_at reservation\<rparr>
       in if \<not> replay_audit_check row then (before, Inl (RPE_Repository db_error))
          else rep_stmt io (k + 1) before
            (db\<lparr>service_request_replay_audit := service_request_replay_audit db @ [row]\<rparr>, result))"

definition nonce_row_of :: "ReplayReservation \<Rightarrow> nonce_row" where
  "nonce_row_of r =
     \<lparr>nr_key_id = rpr_key_id r, nr_nonce_digest = rpr_nonce_digest r, nr_service_id = rpr_service_id r,
      nr_instance_id = rpr_instance_id r, nr_request_id = rpr_request_id r,
      nr_request_fingerprint = rpr_request_fingerprint r, nr_signature_created = rpr_signature_created r,
      nr_signature_expires = rpr_signature_expires r, nr_reserved_at = rpr_reserved_at r\<rparr>"

definition request_id_row_of :: "ReplayReservation \<Rightarrow> request_id_row" where
  "request_id_row_of r =
     \<lparr>rir_service_id = rpr_service_id r, rir_request_id = rpr_request_id r,
      rir_request_fingerprint = rpr_request_fingerprint r, rir_first_seen_at = rpr_reserved_at r\<rparr>"

definition pg_replay_reserve ::
  "faults \<Rightarrow> Db \<Rightarrow> ReplayReservation \<Rightarrow> Db \<times> (ReplayProtectionError + ReplayDisposition)" where
  "pg_replay_reserve io db reservation =
     rep_stmt io 0 db (rep_stmt io 1 db (rep_stmt io 2 db (
       let nonce = nonce_row_of reservation;
           bound = request_id_row_of reservation
       in if \<not> service_request_nonces_check nonce then (db, Inl (RPE_Repository db_error))
          else if fk nonce_key (service_request_nonces db) (nonce_key nonce)
          then append_replay_audit io 3 db db reservation ''replay_rejected'' (Inl RPE_ReplayDetected)
          else if \<not> fk sik_key_id (service_instance_keys db) (rpr_key_id reservation)
            \<or> \<not> fk idr_id (identities db) (rpr_service_id reservation)
            \<or> \<not> fk sir_instance_id (service_instances db) (rpr_instance_id reservation)
          then (db, Inl (RPE_Repository db_error))
          else
            let db1 = db\<lparr>service_request_nonces := service_request_nonces db @ [nonce]\<rparr>
            in rep_stmt io 3 db (
              if \<not> service_request_ids_check bound then (db, Inl (RPE_Repository db_error))
              else
                let request_rows = (if fk request_id_key (service_request_ids db1) (request_id_key bound) then 0 else 1 :: nat);
                    db2 = (if request_rows = 0 then db1
                           else db1\<lparr>service_request_ids := service_request_ids db1 @ [bound]\<rparr>)
                in rep_stmt io 4 db (
                  case find (\<lambda>r. request_id_key r = request_id_key bound) (service_request_ids db2) of
                    None \<Rightarrow> (db, Inl (RPE_Repository db_error))
                  | Some stored \<Rightarrow>
                      if rir_request_fingerprint stored \<noteq> rpr_request_fingerprint reservation
                      then append_replay_audit io 5 db db2 reservation ''request_conflict_rejected'' (Inl RPE_RequestIdConflict)
                      else if request_rows = 1
                      then append_replay_audit io 5 db db2 reservation ''fresh'' (Inr Fresh)
                      else append_replay_audit io 5 db db2 reservation ''safe_retry'' (Inr SafeRetry))))))"


section \<open>The contract\<close>

definition used_nonces_of :: "Db \<Rightarrow> (KeyId \<times> bytes) set" where
  "used_nonces_of db = nonce_key ` set (service_request_nonces db)"

definition bound_id_of :: "Db \<Rightarrow> ActorId \<times> Uuid \<Rightarrow> bytes option" where
  "bound_id_of db k = map_option rir_request_fingerprint (find (\<lambda>r. request_id_key r = k) (service_request_ids db))"

definition good_replay :: "Db \<Rightarrow> bool" where
  "good_replay db \<longleftrightarrow>
     distinct (map nonce_key (service_request_nonces db)) \<and> distinct (map request_id_key (service_request_ids db))"

lemma append_replay_audit_cases:
  "append_replay_audit io k before db r out res = (db', x) \<Longrightarrow>
     (\<exists>e. x = Inl e \<and> db' = before) \<or>
     (x = res \<and> service_request_nonces db' = service_request_nonces db \<and> service_request_ids db' = service_request_ids db)"
  by (auto simp: append_replay_audit_def Let_def split: if_splits db_stmt_splits)

lemma nonce_key_of [simp]: "nonce_key (nonce_row_of r) = (rpr_key_id r, rpr_nonce_digest r)"
  by (simp add: nonce_key_def nonce_row_of_def)

lemma request_id_row_of [simp]:
  "request_id_key (request_id_row_of r) = (rpr_service_id r, rpr_request_id r)"
  "rir_request_fingerprint (request_id_row_of r) = rpr_request_fingerprint r"
  by (simp_all add: request_id_key_def request_id_row_of_def)

lemma bound_id_append:
  "bound_id_of (db\<lparr>service_request_ids := service_request_ids db @ [row]\<rparr>) k =
     (case bound_id_of db k of Some f \<Rightarrow> Some f
      | None \<Rightarrow> if request_id_key row = k then Some (rir_request_fingerprint row) else None)"
  by (simp add: bound_id_of_def find_append_single split: option.splits)

lemma bound_id_None: "bound_id_of db k = None \<longleftrightarrow> k \<notin> request_id_key ` set (service_request_ids db)"
  by (force simp: bound_id_of_def find_None_iff)

text \<open>The two tables after a reservation that was not rolled back.\<close>

lemma reserve_cases:
  assumes res: "pg_replay_reserve io db r = (db', x)"
  shows "(\<exists>e. x = Inl e \<and> service_request_nonces db' = service_request_nonces db \<and>
        service_request_ids db' = service_request_ids db) \<or>
    ((rpr_key_id r, rpr_nonce_digest r) \<notin> used_nonces_of db \<and>
     service_request_nonces db' = service_request_nonces db @ [nonce_row_of r] \<and>
     (case bound_id_of db (rpr_service_id r, rpr_request_id r) of
        None \<Rightarrow> x = Inr Fresh \<and> service_request_ids db' = service_request_ids db @ [request_id_row_of r]
      | Some f \<Rightarrow> service_request_ids db' = service_request_ids db \<and>
          x = (if f = rpr_request_fingerprint r then Inr SafeRetry else Inl RPE_RequestIdConflict)))"
proof (cases "bound_id_of db (rpr_service_id r, rpr_request_id r)")
  case None
  then have free: "(rpr_service_id r, rpr_request_id r) \<notin> request_id_key ` set (service_request_ids db)"
    by (simp add: bound_id_None)
  have "find (\<lambda>q. request_id_key q = (rpr_service_id r, rpr_request_id r)) (service_request_ids db) = None"
    using None by (simp add: bound_id_of_def)
  then have "find (\<lambda>q. request_id_key q = (rpr_service_id r, rpr_request_id r))
      (service_request_ids db @ [request_id_row_of r]) = Some (request_id_row_of r)"
    by (simp add: find_append_single)
  with res free None show ?thesis
    by (auto simp: pg_replay_reserve_def Let_def fk_iff used_nonces_of_def
        split: if_splits db_stmt_splits dest!: append_replay_audit_cases)
next
  case (Some f)
  then obtain q where q: "find (\<lambda>q. request_id_key q = (rpr_service_id r, rpr_request_id r)) (service_request_ids db) = Some q"
      "f = rir_request_fingerprint q"
    by (auto simp: bound_id_of_def)
  then have bound: "(rpr_service_id r, rpr_request_id r) \<in> request_id_key ` set (service_request_ids db)"
    using find_SomeD [OF q(1)] by force
  with res q Some show ?thesis
    by (auto simp: pg_replay_reserve_def Let_def fk_iff used_nonces_of_def
        split: if_splits db_stmt_splits dest!: append_replay_audit_cases)
qed

lemma good_replay_reserve:
  assumes "good_replay db" and "pg_replay_reserve io db r = (db', x)"
  shows "good_replay db'"
  using reserve_cases [OF assms(2)] assms(1)
  by (auto simp: good_replay_def used_nonces_of_def bound_id_None split: option.splits)

lemma bound_id_reserve:
  "service_request_ids db' = service_request_ids db \<Longrightarrow> bound_id_of db' = bound_id_of db"
  by (simp add: bound_id_of_def fun_eq_iff)

interpretation pgrp: replay_repository good_replay used_nonces_of bound_id_of "pg_replay_reserve io" for io
proof
  fix s s' :: Db and r d e
  assume good: "good_replay s"
  show "good_replay s' \<and> (rpr_key_id r, rpr_nonce_digest r) \<notin> used_nonces_of s \<and>
      used_nonces_of s' = insert (rpr_key_id r, rpr_nonce_digest r) (used_nonces_of s) \<and>
      bound_id_of s (rpr_service_id r, rpr_request_id r) =
        (case d of Fresh \<Rightarrow> None | SafeRetry \<Rightarrow> Some (rpr_request_fingerprint r)) \<and>
      bound_id_of s' = (bound_id_of s)((rpr_service_id r, rpr_request_id r) \<mapsto> rpr_request_fingerprint r)"
    if res: "pg_replay_reserve io s r = (s', Inr d)"
  proof (cases "bound_id_of s (rpr_service_id r, rpr_request_id r)")
    case None
    with reserve_cases [OF res] have d: "d = Fresh" and used: "(rpr_key_id r, rpr_nonce_digest r) \<notin> used_nonces_of s"
      and n: "service_request_nonces s' = service_request_nonces s @ [nonce_row_of r]"
      and ids: "service_request_ids s' = service_request_ids s @ [request_id_row_of r]"
      by auto
    have "bound_id_of s' = bound_id_of (s\<lparr>service_request_ids := service_request_ids s @ [request_id_row_of r]\<rparr>)"
      by (rule bound_id_reserve) (simp add: ids)
    then have "bound_id_of s' k = ((bound_id_of s)((rpr_service_id r, rpr_request_id r) \<mapsto> rpr_request_fingerprint r)) k" for k
      using None by (auto simp: bound_id_append split: option.splits)
    then show ?thesis
      using good_replay_reserve [OF good res] used None d by (auto simp: used_nonces_of_def n)
  next
    case (Some f)
    with reserve_cases [OF res] have d: "d = SafeRetry" "f = rpr_request_fingerprint r"
      and used: "(rpr_key_id r, rpr_nonce_digest r) \<notin> used_nonces_of s"
      and n: "service_request_nonces s' = service_request_nonces s @ [nonce_row_of r]"
      and ids: "service_request_ids s' = service_request_ids s"
      by (auto split: if_splits)
    from bound_id_reserve [OF ids] Some d(2) have "bound_id_of s' = (bound_id_of s)((rpr_service_id r, rpr_request_id r) \<mapsto> rpr_request_fingerprint r)"
      by (simp add: fun_upd_idem)
    then show ?thesis
      using good_replay_reserve [OF good res] used Some d by (auto simp: used_nonces_of_def n)
  qed
  show "good_replay s' \<and> used_nonces_of s \<subseteq> used_nonces_of s' \<and> bound_id_of s' = bound_id_of s"
    if res: "pg_replay_reserve io s r = (s', Inl e)"
    using reserve_cases [OF res] good_replay_reserve [OF good res] bound_id_reserve [of s' s]
    by (auto simp: used_nonces_of_def split: option.splits if_splits)
qed

end
