(* ===== verification/Pg_Admission.thy ===== *)
theory Pg_Admission
  imports Database Admission
begin

text \<open>\<open>src/infrastructure/postgres_admission_repository.rs\<close>: one keyed read.\<close>

definition admission_from_row :: "admission_row \<Rightarrow> AdmissionError + CommunicationAdmission" where
  "admission_from_row row =
     CommunicationAdmission_restore (amr_service_id row) (amr_communication_enabled row)
       (amr_revision row) (amr_updated_at row)"

definition pg_admission_find ::
  "faults \<Rightarrow> Db \<Rightarrow> ActorId \<Rightarrow> AdmissionError + CommunicationAdmission option" where
  "pg_admission_find io db service_id =
     snd (db_stmt io 0 AME_Repository db (db_stmt io 1 AME_Repository db
       (db, transpose_option (map_option admission_from_row
              (find (\<lambda>r. amr_service_id r = service_id) (service_communication_admission db))))))"

lemma pg_admission_find_enabled:
  assumes "require_enabled (pg_admission_find io) db a = Inr x"
  shows "\<exists>r \<in> set (service_communication_admission db). amr_service_id r = a \<and> amr_communication_enabled r \<and>
    amr_revision r = cam_revision x"
  using assms
  by (auto simp: require_enabled_Inr pg_admission_find_def admission_from_row_def CommunicationAdmission_restore_def
      transpose_option_def split: db_stmt_splits option.splits sum.splits if_splits dest!: find_SomeD)

end
