(* ===== verification/Gate_Properties.thy ===== *)
theory Gate_Properties
  imports Request_Gate Pg_Replay Pg_Admission Pg_Instance_Registry Sample_Crates
begin

text \<open>
  The gate over the database: the composition of \<open>wiring.rs\<close>, with the signature verifier on the
  instance registry, the replay service on the nonce tables and the admission service on the
  admission table.
\<close>

definition pg_verify ::
  "Crates \<Rightarrow> faults \<Rightarrow> Db \<Rightarrow> SignedServiceRequest \<Rightarrow> i64 \<Rightarrow> ServiceRequestAuthenticationError + VerifiedServiceRequest" where
  "pg_verify X io db = ServiceRequestVerifier_verify X (find_eligible (pg_instance_find X io) db)"

definition pg_gate ::
  "Crates \<Rightarrow> faults \<Rightarrow> faults \<Rightarrow> faults \<Rightarrow> Db \<Rightarrow> SignedServiceRequest \<Rightarrow> i64 \<Rightarrow> Db \<times> (ServiceRequestGateError + AdmittedServiceRequest)" where
  "pg_gate X io io' io'' =
     ServiceRequestGate_admit (pg_verify X io) (ReplayProtectionService_protect (pg_replay_reserve io'))
       (require_communication (pg_admission_find io''))"

definition nonce_of_request :: "Crates \<Rightarrow> SignedServiceRequest \<Rightarrow> (KeyId \<times> bytes) option" where
  "nonce_of_request X r =
     (case parse_signature_input X (ssr_signature_input r) of
        Inl _ \<Rightarrow> None | Inr m \<Rightarrow> Some (smd_key_id m, sha256 X (smd_nonce m)))"

interpretation pggate: request_gate good_replay used_nonces_of bound_id_of "pg_replay_reserve io'" "pg_verify X io"
  "require_communication (pg_admission_find io'')" "nonce_of_request X" "request_fingerprint X" for X io io' io''
  by unfold_locales (auto simp: pg_verify_def nonce_of_request_def elim!: verify_Inr)

text \<open>Histories: requests through the gate, and anything that leaves the replay tables alone.\<close>

inductive gate_run :: "Crates \<Rightarrow> Db \<Rightarrow> Db \<Rightarrow> bool" for X where
  grun_admit: "pg_gate X io io' io'' db r now = (db', x) \<Longrightarrow> gate_run X db db'"
| grun_other: "service_request_nonces db' = service_request_nonces db \<Longrightarrow>
    service_request_ids db' = service_request_ids db \<Longrightarrow> gate_run X db db'"

lemma gate_run_mono:
  "gate_run X db db' \<Longrightarrow> good_replay db \<Longrightarrow>
     good_replay db' \<and> used_nonces_of db \<subseteq> used_nonces_of db' \<and> bound_id_of db \<subseteq>\<^sub>m bound_id_of db'"
proof (induction rule: gate_run.induct)
  case (grun_admit io io' io'' db r now db' x)
  from pggate.admit_mono [OF grun_admit.prems grun_admit.hyps [unfolded pg_gate_def]] show ?case .
next
  case (grun_other db' db)
  with bound_id_reserve [OF grun_other.hyps(2)] show ?case by (simp add: good_replay_def used_nonces_of_def)
qed

lemma gate_runs_mono:
  assumes "(gate_run X)\<^sup>*\<^sup>* db db'" and "good_replay db"
  shows "good_replay db' \<and> used_nonces_of db \<subseteq> used_nonces_of db' \<and> bound_id_of db \<subseteq>\<^sub>m bound_id_of db'"
  using assms
proof (induction rule: rtranclp_induct)
  case (step a b)
  with gate_run_mono [OF step.hyps(2)] show ?case by (meson map_le_trans order_trans)
qed simp


section \<open>A signed request\<close>

definition sample_credential :: InstanceCredential where
  "sample_credential = InstanceCredential_generate sample_crates (replicate 32 (CHR 0x07)) (InstanceId 10) (KeyId 11) (ActorId 2)"

definition sample_parts :: ServiceRequestParts where
  "sample_parts = \<lparr>srp_method = ''POST'', srp_authority = ''k'', srp_path_and_query = ''/v1/subscriptions'',
     srp_content_type = ''application/json'', srp_body = ''{}'', srp_request_id = 90\<rparr>"

definition sample_request :: "string \<Rightarrow> SignedServiceRequest" where
  "sample_request nonce = (case SignedServiceRequest_sign sample_crates sample_parts sample_credential 120 140 nonce of
     Inr r \<Rightarrow> r | Inl _ \<Rightarrow> undefined)"

lemma sample_sign:
  assumes "n \<in> {''nonce-0123456789'', ''nonce-abcdefghij''}"
  shows "SignedServiceRequest_sign sample_crates sample_parts sample_credential 120 140 n = Inr (sample_request n)"
  using assms
  by (auto simp: sample_request_def SignedServiceRequest_sign_def Let_def validate_signature_metadata_def
      MIN_NONCE_LENGTH_def MAX_NONCE_LENGTH_def SIGNATURE_VALIDITY_SECONDS_def str_simps split: sum.splits)

lemma sample_verifies:
  assumes "n \<in> {''nonce-0123456789'', ''nonce-abcdefghij''}" and "find_eligible (pg_instance_find sample_crates no_faults) db (InstanceId 10) 125 =
      find_eligible (pg_instance_find sample_crates no_faults) sample_db (InstanceId 10) 125"
  shows "pg_verify sample_crates no_faults db (sample_request n) 125 =
    Inr \<lparr>vsr_service_id = ActorId 2, vsr_instance_id = InstanceId 10, vsr_key_id = KeyId 11, vsr_request_id = 90,
         vsr_created = 120, vsr_expires = 140, vsr_nonce_digest = sha256 sample_crates n,
         vsr_request_fingerprint = request_fingerprint sample_crates (sample_request n)\<rparr>"
proof -
  have "find_eligible (pg_instance_find sample_crates no_faults) sample_db (InstanceId 10) 125 =
      Inr \<lparr>ri_public_key = ic_public_key sample_credential, ri_endpoint = ''https://ledger'', ri_registered_at = 100,
           ri_lease_expires_at = 160, ri_lease_revision = 1, ri_revoked_at = None\<rparr>" (is "_ = Inr ?inst")
    by code_simp
  moreover have "validate_signature_time 120 140 125 = Inr ()" by code_simp
  moreover have "srp_request_id sample_parts = 90" by (simp add: sample_parts_def)
  moreover have "in_i64 120" "in_i64 140" by (simp_all add: in_i64_interval)
  ultimately show ?thesis
    using signed_request_verifies [OF sample_crates_ok(1,4,5) sample_credential_def sample_sign [OF assms(1)], of 125
        "find_eligible (pg_instance_find sample_crates no_faults) db" ?inst] assms(2)
    by (simp add: pg_verify_def)
qed

definition admitted_db :: Db where
  "admitted_db = fst (pg_gate sample_crates no_faults no_faults no_faults sample_db (sample_request ''nonce-0123456789'') 125)"

definition retried_db :: Db where
  "retried_db = fst (pg_gate sample_crates no_faults no_faults no_faults admitted_db (sample_request ''nonce-abcdefghij'') 125)"

definition sample_admitted :: "string \<Rightarrow> ReplayDisposition \<Rightarrow> AdmittedServiceRequest" where
  "sample_admitted n d =
     \<lparr>asr_verified = \<lparr>vsr_service_id = ActorId 2, vsr_instance_id = InstanceId 10, vsr_key_id = KeyId 11, vsr_request_id = 90,
         vsr_created = 120, vsr_expires = 140, vsr_nonce_digest = sha256 sample_crates n,
         vsr_request_fingerprint = request_fingerprint sample_crates (sample_request n)\<rparr>,
      asr_replay_disposition = d, asr_admission_revision = 1\<rparr>"

lemma sample_fingerprints:
  "request_fingerprint sample_crates (sample_request ''nonce-abcdefghij'') =
     request_fingerprint sample_crates (sample_request ''nonce-0123456789'')"
proof -
  have "ssr_parts (sample_request n) = sample_parts \<and> ssr_content_digest (sample_request n) = content_digest sample_crates (srp_body sample_parts)
      \<and> ssr_service_id (sample_request n) = ActorId 2" if "n \<in> {''nonce-0123456789'', ''nonce-abcdefghij''}" for n
    using sign_Inr_fields [OF sample_sign [OF that]] by (simp add: sample_credential_def InstanceCredential_generate_def)
  then show ?thesis by (simp add: request_fingerprint_def request_fingerprint_input_def)
qed

lemma sample_tables:
  "service_request_nonces sample_db = []" "service_request_ids sample_db = []"
  "fk sik_key_id (service_instance_keys sample_db) (KeyId 11)" "fk idr_id (identities sample_db) (ActorId 2)"
  "fk sir_instance_id (service_instances sample_db) (InstanceId 10)"
  "find (\<lambda>r. amr_service_id r = ActorId 2) (service_communication_admission sample_db) =
     Some \<lparr>amr_service_id = ActorId 2, amr_communication_enabled = True, amr_revision = 1, amr_updated_at = 90\<rparr>"
  by (simp_all add: sample_db_def empty_db_def fk_def)

lemma length_sha256_sample [simp]: "length (sha256 sample_crates b) = 32" "length (request_fingerprint sample_crates r) = 32"
  using sample_crates_ok(3) by (simp_all add: sha256_ok_def request_fingerprint_def)

lemma reservation_times [simp]:
  "saturating_add 125 CLOCK_SKEW_SECONDS = 130" "saturating_add 140 CLOCK_SKEW_SECONDS = 145"
  by code_simp+

lemma sample_admit:
  "pg_gate sample_crates no_faults no_faults no_faults sample_db (sample_request ''nonce-0123456789'') 125 =
     (admitted_db, Inr (sample_admitted ''nonce-0123456789'' Fresh))"
proof -
  have "snd (pg_gate sample_crates no_faults no_faults no_faults sample_db (sample_request ''nonce-0123456789'') 125) =
     Inr (sample_admitted ''nonce-0123456789'' Fresh)"
    using sample_tables
    by (simp add: pg_gate_def ServiceRequestGate_admit_def sample_verifies ReplayProtectionService_protect_def
        ReplayReservation_from_verified_def pg_replay_reserve_def Let_def nonce_row_of_def service_request_nonces_check_def
        fk_def [of nonce_key] fk_def [of request_id_key] service_request_ids_check_def request_id_row_of_def request_id_key_def
        append_replay_audit_def replay_audit_check_def require_communication_def require_enabled_def pg_admission_find_def
        admission_from_row_def CommunicationAdmission_restore_def sample_admitted_def)
  then show ?thesis by (simp add: admitted_db_def prod_eq_iff)
qed

lemma admitted_digest:
  assumes "pg_gate X io io' io'' db r now = (db', Inr a)"
  shows "ssr_content_digest r = content_digest X (srp_body (ssr_parts r))"
proof -
  from pggate.admit_Inr [OF assms [unfolded pg_gate_def]]
  have "ServiceRequestVerifier_verify X (find_eligible (pg_instance_find X io) db) r now = Inr (asr_verified a)"
    by (simp add: pg_verify_def)
  then show ?thesis by (rule verify_Inr)
qed


section \<open>Properties\<close>

text \<open>C5: Nothing passes the gate unauthenticated: an admitted request names an instance that is
  eligible at that time and belongs to the service it names, its body has the digest it states, its
  signature verifies strictly under that instance's key over the canonical text of the request and
  of parameters within their validity window, and communication of the service is enabled.\<close>

theorem admitted_request_is_authentic:
  assumes "pg_gate X io io' io'' db r now = (db', Inr a)"
  shows "\<exists>inst m sig. find_eligible (pg_instance_find X io) db (ssr_instance_id r) now = Inr inst \<and>
    ipk_service_id (ri_public_key inst) = ssr_service_id r \<and> ipk_instance_id (ri_public_key inst) = ssr_instance_id r \<and>
    parse_signature_input X (ssr_signature_input r) = Inr m \<and> ipk_key_id (ri_public_key inst) = smd_key_id m \<and>
    ssr_content_digest r = content_digest X (srp_body (ssr_parts r)) \<and>
    parse_signature X (ssr_signature r) = Inr sig \<and>
    ed_verify_strict X (ipk_public_key (ri_public_key inst))
      (signature_base X (ssr_parts r) (ssr_service_id r) (ssr_instance_id r) (ssr_content_digest r) (smd_parameters m))
      (InstanceSignature_as_bytes sig) \<and>
    0 \<le> smd_created m \<and> smd_expires m \<le> smd_created m + 30 \<and> smd_created m - 5 \<le> now \<and> now \<le> smd_expires m + 5 \<and>
    (\<exists>row \<in> set (service_communication_admission db'). amr_service_id row = ssr_service_id r \<and>
       amr_communication_enabled row \<and> amr_revision row = asr_admission_revision a)"
proof -
  note adm = pggate.admit_Inr [OF assms [unfolded pg_gate_def]]
  from adm have "require_communication (pg_admission_find io'') db' (ssr_service_id r) = Inr (asr_admission_revision a)" by blast
  then have row: "\<exists>row \<in> set (service_communication_admission db'). amr_service_id row = ssr_service_id r \<and>
       amr_communication_enabled row \<and> amr_revision row = asr_admission_revision a"
    by (fastforce simp: require_communication_def dest!: pg_admission_find_enabled)
  from adm have "ServiceRequestVerifier_verify X (find_eligible (pg_instance_find X io) db) r now = Inr (asr_verified a)"
    by (simp add: pg_verify_def)
  then show ?thesis
  proof (rule verify_Inr)
    fix m inst sig
    assume m: "parse_signature_input X (ssr_signature_input r) = Inr m"
      and t: "validate_signature_time (smd_created m) (smd_expires m) now = Inr ()"
      and rest: "find_eligible (pg_instance_find X io) db (ssr_instance_id r) now = Inr inst"
        "ipk_service_id (ri_public_key inst) = ssr_service_id r" "ipk_instance_id (ri_public_key inst) = ssr_instance_id r"
        "ipk_key_id (ri_public_key inst) = smd_key_id m" "ssr_content_digest r = content_digest X (srp_body (ssr_parts r))"
        "parse_signature X (ssr_signature r) = Inr sig"
        "ed_verify_strict X (ipk_public_key (ri_public_key inst))
          (signature_base X (ssr_parts r) (ssr_service_id r) (ssr_instance_id r) (ssr_content_digest r) (smd_parameters m))
          (InstanceSignature_as_bytes sig)"
    have "smd_created m - 5 \<le> now \<and> now \<le> smd_expires m + 5"
      using t by (auto simp: validate_signature_time_def CLOCK_SKEW_SECONDS_def saturating_add_def i64_min_def split: if_splits)
    with parse_signature_input_wf [OF m] m rest row show ?thesis
      by (auto simp: metadata_wf_def SIGNATURE_VALIDITY_SECONDS_def)
  qed
qed

theorem admitted_request_is_authentic_witness:
  "\<exists>inst. find_eligible (pg_instance_find sample_crates no_faults) sample_db (ssr_instance_id (sample_request ''nonce-0123456789'')) 125 = Inr inst \<and>
     ipk_service_id (ri_public_key inst) = ssr_service_id (sample_request ''nonce-0123456789'')"
  using admitted_request_is_authentic [OF sample_admit] by blast

text \<open>C8: No signed request is admitted twice. After an admission, and whatever requests and other work
  follow, no request with the same key and nonce, in particular the same one again, is admitted.\<close>

theorem replayed_request_rejected:
  assumes "good_replay db" and "pg_gate X io io' io'' db r now = (db', Inr a)"
    and "(gate_run X)\<^sup>*\<^sup>* db' db''" and "nonce_of_request X q = nonce_of_request X r"
  shows "snd (pg_gate X jo jo' jo'' db'' q t) \<noteq> Inr b"
proof -
  from pggate.admit_consumes [OF assms(1) assms(2) [unfolded pg_gate_def]]
  obtain n where n: "nonce_of_request X r = Some n" "n \<in> used_nonces_of db'" by blast
  from pggate.admit_mono [OF assms(1) assms(2) [unfolded pg_gate_def]] have "good_replay db'" by blast
  with gate_runs_mono [OF assms(3)] n have "good_replay db''" "n \<in> used_nonces_of db''" by auto
  from pggate.consumed_not_admitted [OF this(1) _ this(2), of X q] n(1) assms(4)
  show ?thesis by (cases "pg_gate X jo jo' jo'' db'' q t") (auto simp: pg_gate_def)
qed

theorem replayed_request_rejected_witness:
  "snd (pg_gate sample_crates no_faults no_faults no_faults admitted_db (sample_request ''nonce-0123456789'') 126) \<noteq>
     Inr (sample_admitted ''nonce-0123456789'' Fresh)"
proof -
  have "good_replay sample_db" by code_simp
  from replayed_request_rejected [OF this sample_admit rtranclp.rtrancl_refl refl] show ?thesis by blast
qed

text \<open>A request ID means one thing per service. If two requests of a service with the same request ID
  are admitted, the later one is a safe retry, and they are the same method, URI, content type and
  body digest, provided SHA-256 does not collide on their two canonical texts.\<close>

theorem request_id_binds_content:
  assumes X: "uuid_text_ok X" "base64_ok X" and "parts_wf (ssr_parts r)" "parts_wf (ssr_parts q)" and good: "good_replay db"
    and first: "pg_gate X io io' io'' db r now = (db', Inr a)" and run: "(gate_run X)\<^sup>*\<^sup>* db' db''"
    and second: "pg_gate X jo jo' jo'' db'' q t = (db''', Inr b)"
    and same: "ssr_service_id q = ssr_service_id r" "srp_request_id (ssr_parts q) = srp_request_id (ssr_parts r)"
    and no_collision: "sha256 X (request_fingerprint_input X q) = sha256 X (request_fingerprint_input X r) \<Longrightarrow>
      request_fingerprint_input X q = request_fingerprint_input X r"
  shows "asr_replay_disposition b = SafeRetry \<and> srp_method (ssr_parts q) = srp_method (ssr_parts r) \<and>
    target_uri (ssr_parts q) = target_uri (ssr_parts r) \<and> srp_content_type (ssr_parts q) = srp_content_type (ssr_parts r) \<and>
    ssr_content_digest q = ssr_content_digest r"
proof -
  let ?i = "(ssr_service_id r, srp_request_id (ssr_parts r))"
  note first' = first [unfolded pg_gate_def] and second' = second [unfolded pg_gate_def]
  from pggate.admit_mono [OF good first'] have good': "good_replay db'" by blast
  from pggate.admit_binds [OF good first'] have "bound_id_of db' ?i = Some (request_fingerprint X r)" by blast
  with gate_runs_mono [OF run good'] have good'': "good_replay db''" and b: "bound_id_of db'' ?i = Some (request_fingerprint X r)"
    by (auto simp: map_le_def dom_def)
  from pggate.admit_binds [OF good'' second'] b same
  have retry: "asr_replay_disposition b = SafeRetry" and "request_fingerprint X q = request_fingerprint X r"
    by (auto split: ReplayDisposition.splits)
  then have eq: "request_fingerprint_input X q = request_fingerprint_input X r"
    using no_collision by (simp add: request_fingerprint_def)
  have dig: "newline \<notin> set (ssr_content_digest x)" if "pg_gate X io io' io'' db x now = (db', Inr a)" for io io' io'' db x now db' a
    using admitted_digest [OF that] content_digest_no_newline [OF X(2)] by simp
  from request_fingerprint_input_inj [OF X(1) assms(4,3) dig [OF second] dig [OF first] eq] retry
  show ?thesis by (simp add: target_uri_def)
qed

lemma admitted_tables:
  "service_request_nonces admitted_db = [nonce_row_of
     \<lparr>rpr_service_id = ActorId 2, rpr_instance_id = InstanceId 10, rpr_key_id = KeyId 11, rpr_request_id = 90,
      rpr_nonce_digest = sha256 sample_crates ''nonce-0123456789'',
      rpr_request_fingerprint = request_fingerprint sample_crates (sample_request ''nonce-0123456789''),
      rpr_signature_created = 120, rpr_signature_expires = 140, rpr_reserved_at = 125\<rparr>]"
  "map request_id_key (service_request_ids admitted_db) = [(ActorId 2, 90)]"
  "map rir_request_fingerprint (service_request_ids admitted_db) = [request_fingerprint sample_crates (sample_request ''nonce-0123456789'')]"
  "service_instance_keys admitted_db = service_instance_keys sample_db" "identities admitted_db = identities sample_db"
  "service_instances admitted_db = service_instances sample_db"
  "service_communication_admission admitted_db = service_communication_admission sample_db"
  using sample_tables
  by (simp_all add: admitted_db_def pg_gate_def ServiceRequestGate_admit_def sample_verifies ReplayProtectionService_protect_def
      ReplayReservation_from_verified_def pg_replay_reserve_def Let_def nonce_row_of_def service_request_nonces_check_def
      fk_def [of nonce_key] fk_def [of request_id_key] service_request_ids_check_def request_id_row_of_def request_id_key_def
      append_replay_audit_def replay_audit_check_def require_communication_def require_enabled_def pg_admission_find_def
      admission_from_row_def CommunicationAdmission_restore_def)

lemma sample_nonces_differ: "sha256 sample_crates ''nonce-abcdefghij'' \<noteq> sha256 sample_crates ''nonce-0123456789''"
  by (simp add: sample_crates_def pad_to_def)

lemma sample_retry:
  "pg_gate sample_crates no_faults no_faults no_faults admitted_db (sample_request ''nonce-abcdefghij'') 125 =
     (retried_db, Inr (sample_admitted ''nonce-abcdefghij'' SafeRetry))"
proof -
  obtain row where ids: "service_request_ids admitted_db = [row]" "request_id_key row = (ActorId 2, 90)"
    "rir_request_fingerprint row = request_fingerprint sample_crates (sample_request ''nonce-0123456789'')"
    using admitted_tables(2,3) by auto
  have find: "find_eligible (pg_instance_find sample_crates no_faults) admitted_db (InstanceId 10) 125 =
      find_eligible (pg_instance_find sample_crates no_faults) sample_db (InstanceId 10) 125"
    by (simp only: find_eligible_def pg_instance_find_def find_instance_rows_cong [OF admitted_tables(6,4)] db_stmt_no_faults snd_conv)
  have "snd (pg_gate sample_crates no_faults no_faults no_faults admitted_db (sample_request ''nonce-abcdefghij'') 125) =
     Inr (sample_admitted ''nonce-abcdefghij'' SafeRetry)"
    using sample_tables(3-6) sample_nonces_differ sample_fingerprints
    by (simp add: pg_gate_def ServiceRequestGate_admit_def sample_verifies [OF _ find] ReplayProtectionService_protect_def
        ReplayReservation_from_verified_def pg_replay_reserve_def Let_def nonce_row_of_def service_request_nonces_check_def
        fk_def [of nonce_key] fk_def [of request_id_key] service_request_ids_check_def admitted_tables nonce_key_def ids
        request_id_row_of_def request_id_key_def [of "\<lparr>rir_service_id = a, rir_request_id = b, rir_request_fingerprint = c, rir_first_seen_at = d\<rparr>" for a b c d]
        append_replay_audit_def replay_audit_check_def require_communication_def require_enabled_def pg_admission_find_def
        admission_from_row_def CommunicationAdmission_restore_def sample_admitted_def)
  then show ?thesis by (simp add: retried_db_def prod_eq_iff)
qed

lemma sample_parts_wf: "parts_wf (ssr_parts (sample_request ''nonce-0123456789''))" "parts_wf (ssr_parts (sample_request ''nonce-abcdefghij''))"
proof -
  have "parts_wf sample_parts" by code_simp
  then show "parts_wf (ssr_parts (sample_request ''nonce-0123456789''))" "parts_wf (ssr_parts (sample_request ''nonce-abcdefghij''))"
    by (simp_all add: sign_Inr_fields [OF sample_sign])
qed

lemma sample_same_request:
  "request_fingerprint_input sample_crates (sample_request ''nonce-abcdefghij'') =
     request_fingerprint_input sample_crates (sample_request ''nonce-0123456789'')"
  by (simp add: request_fingerprint_input_def sign_Inr_fields [OF sample_sign])

theorem request_id_binds_content_witness:
  "asr_replay_disposition (sample_admitted ''nonce-abcdefghij'' SafeRetry) = SafeRetry \<and>
   target_uri (ssr_parts (sample_request ''nonce-abcdefghij'')) = target_uri (ssr_parts (sample_request ''nonce-0123456789''))"
proof -
  have "good_replay sample_db" by code_simp
  from request_id_binds_content [OF sample_crates_ok(1,5) sample_parts_wf this sample_admit rtranclp.rtrancl_refl sample_retry]
  show ?thesis by (simp add: sign_Inr_fields [OF sample_sign] sample_same_request)
qed

text \<open>C35: The signature covers the whole request: two verified requests whose signed texts are equal are
  the same request, down to method, host, path, content type, body digest, service, instance, request
  ID and signature parameters, so a signature cannot be moved to another request.\<close>

theorem signature_covers_request:
  assumes X: "uuid_text_ok X" "base64_ok X" and "parts_wf (ssr_parts r)" and "parts_wf (ssr_parts q)"
    and "ServiceRequestVerifier_verify X inst r now = Inr v" and "ServiceRequestVerifier_verify X inst' q now' = Inr w"
    and "signature_base X (ssr_parts r) (ssr_service_id r) (ssr_instance_id r) (ssr_content_digest r) m =
         signature_base X (ssr_parts q) (ssr_service_id q) (ssr_instance_id q) (ssr_content_digest q) m'"
  shows "srp_method (ssr_parts r) = srp_method (ssr_parts q) \<and> srp_authority (ssr_parts r) = srp_authority (ssr_parts q) \<and>
    srp_path_and_query (ssr_parts r) = srp_path_and_query (ssr_parts q) \<and>
    srp_content_type (ssr_parts r) = srp_content_type (ssr_parts q) \<and>
    content_digest X (srp_body (ssr_parts r)) = content_digest X (srp_body (ssr_parts q)) \<and>
    vsr_service_id v = vsr_service_id w \<and> vsr_instance_id v = vsr_instance_id w \<and>
    vsr_request_id v = vsr_request_id w \<and> m = m'"
proof -
  from assms(5) have r: "ssr_content_digest r = content_digest X (srp_body (ssr_parts r))" "vsr_service_id v = ssr_service_id r"
    "vsr_instance_id v = ssr_instance_id r" "vsr_request_id v = srp_request_id (ssr_parts r)"
    by (auto elim: verify_Inr)
  from assms(6) have q: "ssr_content_digest q = content_digest X (srp_body (ssr_parts q))" "vsr_service_id w = ssr_service_id q"
    "vsr_instance_id w = ssr_instance_id q" "vsr_request_id w = srp_request_id (ssr_parts q)"
    by (auto elim: verify_Inr)
  from signature_base_inj [OF X(1) assms(3,4) _ _ assms(7)] content_digest_no_newline [OF X(2)] r q
  show ?thesis by simp
qed

theorem signature_covers_request_witness:
  "srp_method (ssr_parts (sample_request ''nonce-0123456789'')) = srp_method (ssr_parts (sample_request ''nonce-0123456789'')) \<and>
   pg_verify sample_crates no_faults sample_db (sample_request ''nonce-0123456789'') 125 =
     Inr (asr_verified (sample_admitted ''nonce-0123456789'' Fresh))"
proof -
  have v: "pg_verify sample_crates no_faults sample_db (sample_request ''nonce-0123456789'') 125 =
      Inr (asr_verified (sample_admitted ''nonce-0123456789'' Fresh))"
    by (simp add: sample_verifies sample_admitted_def)
  from signature_covers_request [OF sample_crates_ok(1,5) sample_parts_wf(1,1) v [unfolded pg_verify_def] v [unfolded pg_verify_def] refl] v
  show ?thesis by blast
qed

text \<open>What a registered instance signs, the kernel accepts: a request signed with a generated
  credential verifies under the registered key at every time within its window, with the metadata
  it was signed with.\<close>

theorem signed_requests_verify:
  assumes "uuid_text_ok X" and "ed25519_ok X" and "base64_ok X"
    and "SignedServiceRequest_sign X parts (InstanceCredential_generate X sk i k a) created expires nonce = Inr r"
    and "in_i64 created" and "in_i64 expires" and "validate_signature_time created expires now = Inr ()"
    and "instances i now = Inr inst" and "ri_public_key inst = ic_public_key (InstanceCredential_generate X sk i k a)"
  shows "ServiceRequestVerifier_verify X instances r now =
    Inr \<lparr>vsr_service_id = a, vsr_instance_id = i, vsr_key_id = k, vsr_request_id = srp_request_id parts,
         vsr_created = created, vsr_expires = expires, vsr_nonce_digest = sha256 X nonce,
         vsr_request_fingerprint = request_fingerprint X r\<rparr>"
  by (rule signed_request_verifies [where instances = instances, OF assms(1-3) refl assms(4-9)])

theorem signed_requests_verify_witness:
  "\<exists>v. ServiceRequestVerifier_verify sample_crates (find_eligible (pg_instance_find sample_crates no_faults) sample_db)
     (sample_request ''nonce-0123456789'') 125 = Inr v \<and> vsr_service_id v = ActorId 2"
proof -
  have "find_eligible (pg_instance_find sample_crates no_faults) sample_db (InstanceId 10) 125 =
      Inr \<lparr>ri_public_key = ic_public_key sample_credential, ri_endpoint = ''https://ledger'', ri_registered_at = 100,
           ri_lease_expires_at = 160, ri_lease_revision = 1, ri_revoked_at = None\<rparr>" (is "_ = Inr ?inst")
    by code_simp
  moreover have "validate_signature_time 120 140 125 = Inr ()" by code_simp
  moreover have "in_i64 120" "in_i64 140" by (simp_all add: in_i64_interval)
  ultimately show ?thesis
    using signed_requests_verify [OF sample_crates_ok(1,4,5) sample_sign [of "''nonce-0123456789''", unfolded sample_credential_def],
        of 125 "find_eligible (pg_instance_find sample_crates no_faults) sample_db" ?inst]
    by (simp add: sample_credential_def)
qed

end
