(* ===== verification/Error_Texts.thy ===== *)
theory Error_Texts
  imports Work_Claims Instance_Registry
begin

text \<open>The \<open>Display\<close> texts of the domain errors that the source composes into other errors.\<close>

definition SubscriptionId_show :: "Crates \<Rightarrow> SubscriptionId \<Rightarrow> string" where
  "SubscriptionId_show X i = uuid_show X (SubscriptionId_as_uuid i)"

definition RouteId_show :: "Crates \<Rightarrow> RouteId \<Rightarrow> string" where
  "RouteId_show X i = uuid_show X (RouteId_as_uuid i)"

primrec ClaimId_show :: "Crates \<Rightarrow> ClaimId \<Rightarrow> string" where
  "ClaimId_show X (ClaimId u) = uuid_show X u"

primrec RequestId_show :: "Crates \<Rightarrow> RequestId \<Rightarrow> string" where
  "RequestId_show X (RequestId u) = uuid_show X u"

primrec SubscriptionError_show :: "Crates \<Rightarrow> SubscriptionError \<Rightarrow> string" where
  "SubscriptionError_show X (SE_AlreadyExists i) = ''subscription '' @ SubscriptionId_show X i @ '' already exists''"
| "SubscriptionError_show X (SE_AlreadyDisabled i) = ''subscription '' @ SubscriptionId_show X i @ '' is already disabled''"
| "SubscriptionError_show X (SE_DuplicateActive a t) =
     ''service '' @ ActorId_show X a @ '' already has an active subscription for '' @ EventType_as_str t"
| "SubscriptionError_show X SE_InvalidEventType = ''event type must contain lowercase dot-separated name segments''"
| "SubscriptionError_show X SE_InvalidSubscriptionId = ''subscription ID must be a valid UUID''"
| "SubscriptionError_show X SE_InvalidTimestamp = ''subscription timestamp is invalid''"
| "SubscriptionError_show X (SE_NotFound i) = ''subscription '' @ SubscriptionId_show X i @ '' was not found''"
| "SubscriptionError_show X (SE_Repository m) = ''subscription repository failed: '' @ m"
| "SubscriptionError_show X (SE_UnknownService a) = ''service identity '' @ ActorId_show X a @ '' was not found''"

primrec WorkClaimError_show :: "Crates \<Rightarrow> WorkClaimError \<Rightarrow> string" where
  "WorkClaimError_show X WCE_InvalidClaimId = ''claim ID must be a UUID''"
| "WorkClaimError_show X WCE_InvalidFencingToken = ''fencing token must be a positive integer''"
| "WorkClaimError_show X WCE_InvalidLease = ''claim lease window is invalid''"
| "WorkClaimError_show X WCE_InvalidTimestamp = ''timestamp must not be negative''"
| "WorkClaimError_show X (WCE_RouteNotFound i) = ''route '' @ RouteId_show X i @ '' was not found''"
| "WorkClaimError_show X (WCE_AlreadyClaimed i) = ''route '' @ RouteId_show X i @ '' is already claimed''"
| "WorkClaimError_show X (WCE_AlreadyCompleted i) = ''route '' @ RouteId_show X i @ '' is already completed''"
| "WorkClaimError_show X (WCE_NotFound i) = ''claim '' @ ClaimId_show X i @ '' was not found''"
| "WorkClaimError_show X WCE_Fenced = ''fencing token does not match the current active claim''"
| "WorkClaimError_show X (WCE_Repository m) = ''work claim repository failed: '' @ m"

primrec RequestError_show :: "Crates \<Rightarrow> RequestError \<Rightarrow> string" where
  "RequestError_show X RE_InvalidRequestId = ''request ID must be a UUID''"
| "RequestError_show X RE_InvalidActionName = ''action must be a canonical dotted lower-case name within the length limit''"
| "RequestError_show X RE_InvalidAcceptedAt = ''request acceptance timestamp is invalid''"
| "RequestError_show X RE_InvalidRouteId = ''route ID must be a UUID''"
| "RequestError_show X (RE_RequestIdConflict i) = ''request ID '' @ RequestId_show X i @ '' is bound to different content''"
| "RequestError_show X (RE_Repository m) = ''request repository failed: '' @ m"
| "RequestError_show X (RE_UnknownSource a) = ''source service identity '' @ ActorId_show X a @ '' was not found''"
| "RequestError_show X RE_UnknownSchemaVersion = ''referenced schema version was not found''"
| "RequestError_show X RE_UnknownSubscription = ''referenced subscription was not found''"

end
