(* ===== verification/Routing.thy ===== *)
theory Routing
  imports Error_Texts
begin

text \<open>
  The compositions of \<open>src/http.rs\<close> between the request, subscription, route and claim
  services: \<open>SubscriptionRouter\<close>, \<open>EligibleRouteQuery\<close> and \<open>RoutedRequestQuery\<close>.
  The services' operations are arguments; a materialization's fresh route IDs are numbered.
\<close>

text \<open>The iterator of \<open>materialize_routes\<close>: one materialization per subscription, stopping at
  the first error; what was stored before stays.\<close>

fun materialize_each ::
  "('s \<Rightarrow> Route \<Rightarrow> 's \<times> (RequestError + Route)) \<Rightarrow> (nat \<Rightarrow> RouteId) \<Rightarrow> ActorId \<Rightarrow> RequestId \<Rightarrow> i64 \<Rightarrow>
   's \<Rightarrow> nat \<Rightarrow> Subscription list \<Rightarrow> 's \<times> (RequestError + Route list)" where
  "materialize_each mat new_ids source request_id now s k [] = (s, Inr [])"
| "materialize_each mat new_ids source request_id now s k (x # xs) =
     (case RouteService_materialize mat (new_ids k) s source request_id (sub_id x) (sub_service_id x) now of
        (s', Inl e) \<Rightarrow> (s', Inl e)
      | (s', Inr r) \<Rightarrow>
          (case materialize_each mat new_ids source request_id now s' (k + 1) xs of
             (s'', Inl e) \<Rightarrow> (s'', Inl e)
           | (s'', Inr rs) \<Rightarrow> (s'', Inr (r # rs))))"

definition materialize_routes ::
  "Crates \<Rightarrow> ('s \<Rightarrow> EventType \<Rightarrow> SubscriptionError + Subscription list) \<Rightarrow>
   ('s \<Rightarrow> Route \<Rightarrow> 's \<times> (RequestError + Route)) \<Rightarrow> (nat \<Rightarrow> RouteId) \<Rightarrow>
   's \<Rightarrow> ActorId \<Rightarrow> RequestId \<Rightarrow> ActionName \<Rightarrow> i64 \<Rightarrow> 's \<times> (RequestError + Route list)" where
  "materialize_routes X find_active mat new_ids s source_service request_id action now =
     (case bind_result (map_err (\<lambda>_. RE_Repository ''action is not a valid event type'') (EventType_new (ActionName_as_str action)))
             (\<lambda>event_type. map_err (\<lambda>e. RE_Repository (SubscriptionError_show X e)) (find_active s event_type)) of
        Inl e \<Rightarrow> (s, Inl e)
      | Inr matching \<Rightarrow>
          materialize_each mat new_ids source_service request_id now s 0
            (filter (\<lambda>x. sub_delivery_mode x = Inclusive) matching))"

definition eligible_for ::
  "Crates \<Rightarrow> ('s \<Rightarrow> ActorId \<Rightarrow> RequestError + Route list) \<Rightarrow>
   ('s \<Rightarrow> RouteId list \<Rightarrow> i64 \<Rightarrow> WorkClaimError + RouteId set) \<Rightarrow>
   ('s \<Rightarrow> RouteId list \<Rightarrow> WorkClaimError + RouteId set) \<Rightarrow>
   's \<Rightarrow> ActorId \<Rightarrow> i64 \<Rightarrow> RequestError + Route list" where
  "eligible_for X list_for_destination active_route_ids completed_route_ids s destination_service now =
     bind_result (list_for_destination s destination_service) (\<lambda>routes.
       let route_ids = map rt_id routes
       in bind_result (map_err (\<lambda>e. RE_Repository (WorkClaimError_show X e)) (active_route_ids s route_ids now)) (\<lambda>claimed.
          bind_result (map_err (\<lambda>e. RE_Repository (WorkClaimError_show X e)) (completed_route_ids s route_ids)) (\<lambda>completed.
            Inr (filter (\<lambda>route. rt_id route \<notin> claimed \<and> rt_id route \<notin> completed) routes))))"

definition find_for_destination ::
  "('s \<Rightarrow> RouteId \<Rightarrow> RequestError + Route option) \<Rightarrow> ('s \<Rightarrow> ActorId \<Rightarrow> RequestId \<Rightarrow> RequestError + AcceptedRequest option) \<Rightarrow>
   's \<Rightarrow> ActorId \<Rightarrow> RouteId \<Rightarrow> RequestError + AcceptedRequest option" where
  "find_for_destination find_route find_request s caller route_id =
     bind_result (find_route s route_id) (\<lambda>found.
       case found of
         None \<Rightarrow> Inr None
       | Some route \<Rightarrow>
           if rt_destination_service route = caller then find_request s (rt_source_service route) (rt_request_id route)
           else Inr None)"

text \<open>An action name is always an event type.\<close>

lemma materialize_routes_valid_action:
  assumes "is_valid_action_name (ActionName_as_str action)"
  shows "EventType_new (ActionName_as_str action) = Inr (EventType (ActionName_as_str action))"
  using action_name_event_type [OF assms] by simp


section \<open>Materialization over a route repository\<close>

text \<open>The route a subscription gets.\<close>

definition route_for :: "RouteId \<Rightarrow> ActorId \<Rightarrow> RequestId \<Rightarrow> i64 \<Rightarrow> Subscription \<Rightarrow> Route" where
  "route_for i src req now x =
     \<lparr>rt_id = i, rt_source_service = src, rt_request_id = req, rt_subscription_id = sub_id x,
      rt_destination_service = sub_service_id x, rt_created_at = now\<rparr>"

lemma Route_create_Inr: "Route_create i src req sub dst now = Inr q \<Longrightarrow>
    q = \<lparr>rt_id = i, rt_source_service = src, rt_request_id = req, rt_subscription_id = sub,
      rt_destination_service = dst, rt_created_at = now\<rparr>"
  by (auto simp: Route_create_def Route_restore_def split: if_splits)

context route_repository
begin

lemma materialize_each_keeps:
  assumes "good_rt s" and "materialize_each materialize_op ids src req now s k xs = (s', x)"
  shows "good_rt s' \<and> set (stored_routes s) \<subseteq> set (stored_routes s')"
  using assms
proof (induction xs arbitrary: s k s' x)
  case (Cons a xs)
  obtain s1 y where first: "RouteService_materialize materialize_op (ids k) s src req (sub_id a) (sub_service_id a) now = (s1, y)"
    by fastforce
  then have keep: "good_rt s1" "set (stored_routes s) \<subseteq> set (stored_routes s1)"
    using Cons.prems(1) mat_good materialize_keeps
    by (auto simp: RouteService_materialize_def split: sum.splits)
  show ?case
  proof (cases y)
    case (Inl e)
    with first keep Cons.prems(2) show ?thesis by simp
  next
    case (Inr r)
    obtain s2 z where rest: "materialize_each materialize_op ids src req now s1 (k + 1) xs = (s2, z)" by fastforce
    from Cons.IH [OF keep(1) rest] first Inr rest keep(2) Cons.prems(2) show ?thesis
      by (auto split: sum.splits)
  qed
qed simp

text \<open>On success there is one route per subscription, in order, each stored under the match key of
  the request and that subscription.\<close>

lemma materialize_each_routes:
  assumes "good_rt s" and "materialize_each materialize_op ids src req now s k xs = (s', Inr rs)"
  shows "list_all2 (\<lambda>x r. r \<in> set (stored_routes s') \<and> match_key r = (req, sub_id x)) xs rs"
  using assms
proof (induction xs arbitrary: s k rs)
  case (Cons a xs)
  from Cons.prems(2) obtain s1 r rs' where first: "RouteService_materialize materialize_op (ids k) s src req (sub_id a) (sub_service_id a) now = (s1, Inr r)"
    and rest: "materialize_each materialize_op ids src req now s1 (k + 1) xs = (s', Inr rs')" and rs: "rs = r # rs'"
    by (auto split: prod.splits sum.splits)
  from first obtain q where q: "Route_create (ids k) src req (sub_id a) (sub_service_id a) now = Inr q"
    and mat: "materialize_op s q = (s1, Inr r)"
    by (auto simp: RouteService_materialize_def split: sum.splits)
  have good: "good_rt s1" by (rule mat_good [OF Cons.prems(1) mat])
  from q have "match_key q = (req, sub_id a)"
    by (auto simp: Route_create_def Route_restore_def match_key_def split: if_splits)
  with materialized_stored [OF Cons.prems(1) mat] materialize_each_keeps [OF good rest]
  have "r \<in> set (stored_routes s') \<and> match_key r = (req, sub_id a)" by auto
  with Cons.IH [OF good rest] rs show ?case by simp
qed simp

text \<open>Whatever it stores is the route of one of the subscriptions, also when it fails half-way.\<close>

lemma materialize_each_new:
  assumes "good_rt s" and "materialize_each materialize_op ids src req now s k xs = (s', y)"
    and "r \<in> set (stored_routes s')" and "r \<notin> set (stored_routes s)"
  shows "\<exists>x \<in> set xs. \<exists>i. r = route_for i src req now x"
  using assms
proof (induction xs arbitrary: s k s' y)
  case (Cons a xs)
  obtain s1 z where first: "RouteService_materialize materialize_op (ids k) s src req (sub_id a) (sub_service_id a) now = (s1, z)"
    by fastforce
  have good: "good_rt s1" and step: "r \<in> set (stored_routes s1) \<Longrightarrow> r = route_for (ids k) src req now a"
    using first Cons.prems(1,4) mat_good [of s _ s1 z] materialize_new [of s _ s1 z r]
    by (auto simp: RouteService_materialize_def route_for_def split: sum.splits dest!: Route_create_Inr)
  show ?case
  proof (cases "r \<in> set (stored_routes s1)")
    case True
    from step [OF this] show ?thesis by auto
  next
    case False
    with first Cons.prems(2,3) obtain s2 w where
      "materialize_each materialize_op ids src req now s1 (k + 1) xs = (s2, w)" "s2 = s'"
      by (auto split: sum.splits prod.splits)
    with Cons.IH [OF good _ _ False, of "k + 1" s' w] Cons.prems(3) show ?thesis by auto
  qed
qed simp

lemma materialize_appends:
  assumes "good_rt s" and "materialize_op s q = (s', x)"
  shows "stored_routes s' = stored_routes s \<or>
    stored_routes s' = stored_routes s @ [q] \<and> match_key q \<notin> match_key ` set (stored_routes s)"
proof (cases x)
  case (Inl e)
  with mat_error [OF assms(1), of q s' e] assms(2) show ?thesis by simp
next
  case (Inr r)
  with mat_new [of s q s' r] mat_old [of s q s' r] assms show ?thesis by blast
qed

text \<open>The stored routes only grow at the end, by routes of the listed subscriptions whose match key was
  not stored before.\<close>

lemma materialize_each_appends:
  assumes "good_rt s" and "materialize_each materialize_op ids src req now s k xs = (s', y)"
  shows "\<exists>new. stored_routes s' = stored_routes s @ new \<and>
    (\<forall>r \<in> set new. match_key r \<notin> match_key ` set (stored_routes s) \<and> (\<exists>x \<in> set xs. \<exists>j. r = route_for (ids j) src req now x))"
  using assms
proof (induction xs arbitrary: s k s' y)
  case (Cons a xs)
  obtain s1 z where first: "RouteService_materialize materialize_op (ids k) s src req (sub_id a) (sub_service_id a) now = (s1, z)"
    by fastforce
  have good: "good_rt s1" and step: "stored_routes s1 = stored_routes s \<or>
      stored_routes s1 = stored_routes s @ [route_for (ids k) src req now a] \<and>
      match_key (route_for (ids k) src req now a) \<notin> match_key ` set (stored_routes s)"
    using first Cons.prems(1) mat_good [of s _ s1 z] materialize_appends [of s _ s1 z]
    by (auto simp: RouteService_materialize_def route_for_def split: sum.splits dest!: Route_create_Inr)
  show ?case
  proof (cases z)
    case (Inl e)
    with first Cons.prems(2) have "s' = s1" by simp
    with step show ?thesis by auto
  next
    case (Inr r)
    obtain s2 w where rest: "materialize_each materialize_op ids src req now s1 (k + 1) xs = (s2, w)" by fastforce
    from first rest Inr Cons.prems(2) have "s2 = s'" by (auto split: sum.splits)
    from Cons.IH [OF good rest] obtain new where "stored_routes s' = stored_routes s1 @ new"
      "\<forall>r \<in> set new. match_key r \<notin> match_key ` set (stored_routes s1) \<and> (\<exists>x \<in> set xs. \<exists>j. r = route_for (ids j) src req now x)"
      unfolding \<open>s2 = s'\<close> by blast
    with step show ?thesis by auto
  qed
qed simp

text \<open>Over a state that already has all of them, it stores nothing and returns the stored ones.\<close>

lemma materialize_each_again:
  assumes "good_rt s" and "materialize_each materialize_op ids src req now s k xs = (s', Inr rs)"
    and "\<And>x. x \<in> set xs \<Longrightarrow> (req, sub_id x) \<in> match_key ` set (stored_routes s)"
  shows "stored_routes s' = stored_routes s"
  using assms
proof (induction xs arbitrary: s k rs)
  case (Cons a xs)
  from Cons.prems(2) obtain s1 r rs' where first: "RouteService_materialize materialize_op (ids k) s src req (sub_id a) (sub_service_id a) now = (s1, Inr r)"
    and rest: "materialize_each materialize_op ids src req now s1 (k + 1) xs = (s', Inr rs')"
    by (auto split: prod.splits sum.splits)
  from first obtain q where q: "Route_create (ids k) src req (sub_id a) (sub_service_id a) now = Inr q"
    and mat: "materialize_op s q = (s1, Inr r)"
    by (auto simp: RouteService_materialize_def split: sum.splits)
  from q have "match_key q = (req, sub_id a)"
    by (auto simp: Route_create_def Route_restore_def match_key_def split: if_splits)
  with Cons.prems(3) [of a] mat_old [OF Cons.prems(1) mat] have same: "stored_routes s1 = stored_routes s" by simp
  have "stored_routes s' = stored_routes s1"
    by (rule Cons.IH [OF mat_good [OF Cons.prems(1) mat] rest]) (use Cons.prems(3) same in simp)
  with same show ?case by simp
qed simp

text \<open>The stored routes of a list of subscriptions are determined by their keys.\<close>

lemma routes_determined:
  assumes "good_rt s" and "list_all2 (\<lambda>x r. r \<in> set (stored_routes s) \<and> match_key r = (req, sub_id x)) xs rs"
    and "list_all2 (\<lambda>x r. r \<in> set (stored_routes s) \<and> match_key r = (req, sub_id x)) xs qs"
  shows "rs = qs"
proof (rule nth_equalityI)
  show "length rs = length qs" using assms(2,3) by (simp add: list_all2_conv_all_nth)
  fix n
  assume "n < length rs"
  then have "rs ! n \<in> set (stored_routes s)" "qs ! n \<in> set (stored_routes s)" "match_key (rs ! n) = match_key (qs ! n)"
    using assms(2,3) by (simp_all add: list_all2_conv_all_nth)
  moreover have "inj_on match_key (set (stored_routes s))"
    using routes_distinct [OF assms(1)] by (simp add: distinct_map)
  ultimately show "rs ! n = qs ! n" by (metis inj_onD)
qed

end

end
