(* ===== verification/Pg_Requests.thy ===== *)
theory Pg_Requests
  imports Database
begin

text \<open>
  \<open>src/infrastructure/postgres_request_repository.rs\<close>: accepting a request inserts it once,
  detects retries and conflicts by comparing with the stored row, and appends one audit row, all in
  one transaction. The interpretation \<open>pgrq\<close> discharges the laws of
  \<open>request_repository\<close>. The argument \<open>now\<close> is the transaction's timestamp, the
  default of \<open>accepted_at\<close>.
\<close>

section \<open>Rows and constraints\<close>

definition accepted_request_row_of :: "Request \<Rightarrow> RequestFingerprint \<Rightarrow> i64 \<Rightarrow> accepted_request_row" where
  "accepted_request_row_of r f now =
     \<lparr>arr_source_service_id = rq_source_service r, arr_request_id = rq_id r,
      arr_action = ActionName_as_str (rq_action r), arr_scope = Scope_as_str (rq_scope r),
      arr_artifact_schema_version_id = svr_artifact (rq_schema_versions r),
      arr_permission_policy_schema_version_id = svr_permission_policy (rq_schema_versions r),
      arr_semantic_fingerprint = RequestFingerprint_as_bytes f, arr_accepted_at = now\<rparr>"

definition accepted_requests_check :: "accepted_request_row \<Rightarrow> bool" where
  "accepted_requests_check r \<longleftrightarrow>
     action_check (arr_action r) \<and> scope_check (arr_scope r) \<and> length (arr_semantic_fingerprint r) = 32"

definition accepted_request_from_row :: "accepted_request_row \<Rightarrow> RequestError + AcceptedRequest" where
  "accepted_request_from_row row =
     bind_result (map_err (\<lambda>_. RE_Repository ''stored request scope is invalid'') (Scope_new (arr_scope row))) (\<lambda>scope.
     bind_result (map_err (\<lambda>_. RE_Repository ''stored request action is invalid'')
         (Request_restore (arr_request_id row) (arr_source_service_id row) (arr_action row) scope
            \<lparr>svr_artifact = arr_artifact_schema_version_id row,
             svr_permission_policy = arr_permission_policy_schema_version_id row\<rparr>)) (\<lambda>request.
       if length (arr_semantic_fingerprint row) \<noteq> 32
       then Inl (RE_Repository ''stored request fingerprint is invalid'')
       else map_err (\<lambda>_. RE_Repository ''stored acceptance time is invalid'')
              (AcceptedRequest_restore request (RequestFingerprint (arr_semantic_fingerprint row)) (arr_accepted_at row))))"

text \<open>The key \<open>(source_service_id, request_id)\<close>.\<close>

definition request_key :: "accepted_request_row \<Rightarrow> ActorId \<times> RequestId" where
  "request_key r = (arr_source_service_id r, arr_request_id r)"


section \<open>The operations\<close>

abbreviation req_stmt ::
  "faults \<Rightarrow> nat \<Rightarrow> Db \<Rightarrow> Db \<times> (RequestError + 'a) \<Rightarrow> Db \<times> (RequestError + 'a)" where
  "req_stmt io k db rest \<equiv> db_stmt io k RE_Repository db rest"

text \<open>\<open>append_audit\<close> as statement \<open>k\<close> and the commit as statement \<open>k + 1\<close>; then the
  call ends with \<open>result\<close>.\<close>

definition append_acceptance_audit ::
  "faults \<Rightarrow> nat \<Rightarrow> Db \<Rightarrow> Db \<Rightarrow> Request \<Rightarrow> RequestFingerprint \<Rightarrow> string \<Rightarrow> RequestError + 'a
   \<Rightarrow> Db \<times> (RequestError + 'a)" where
  "append_acceptance_audit io k before db request fingerprint outcome result =
     req_stmt io k before (
       let row = \<lparr>aar_source_service_id = rq_source_service request, aar_request_id = rq_id request,
                  aar_attempted_action = ActionName_as_str (rq_action request),
                  aar_attempted_scope = Scope_as_str (rq_scope request),
                  aar_attempted_artifact_schema_version_id = svr_artifact (rq_schema_versions request),
                  aar_attempted_permission_policy_schema_version_id = svr_permission_policy (rq_schema_versions request),
                  aar_attempted_fingerprint = RequestFingerprint_as_bytes fingerprint, aar_outcome = outcome\<rparr>
       in if \<not> (sql_text (aar_attempted_action row) \<and> sql_text (aar_attempted_scope row) \<and>
                 length (aar_attempted_fingerprint row) = 32 \<and>
                 outcome \<in> set [''accepted'', ''safe_retry'', ''request_conflict_rejected''] \<and>
                 fk request_key (accepted_requests db) (rq_source_service request, rq_id request))
          then (before, Inl (RE_Repository db_error))
          else req_stmt io (k + 1) before
            (db\<lparr>request_acceptance_audit := request_acceptance_audit db @ [row]\<rparr>, result))"

text \<open>The references of the inserted row, in the order the database checks them, with the error
  \<open>foreign_key_violation_error\<close> makes of each.\<close>

definition request_reference_error :: "Db \<Rightarrow> accepted_request_row \<Rightarrow> RequestError option" where
  "request_reference_error db row =
     (if \<not> fk idr_id (identities db) (arr_source_service_id row) then Some (RE_UnknownSource (arr_source_service_id row))
      else if \<not> fk svw_schema_version_id (authority_schema_versions db) (arr_artifact_schema_version_id row)
         \<or> \<not> fk svw_schema_version_id (authority_schema_versions db) (arr_permission_policy_schema_version_id row)
      then Some RE_UnknownSchemaVersion
      else None)"

definition pg_request_accept ::
  "faults \<Rightarrow> Db \<Rightarrow> i64 \<Rightarrow> Request \<Rightarrow> RequestFingerprint \<Rightarrow> Db \<times> (RequestError + RequestAcceptance)" where
  "pg_request_accept io db now request fingerprint =
     req_stmt io 0 db (req_stmt io 1 db (req_stmt io 2 db (
       let row = accepted_request_row_of request fingerprint now;
           key = (rq_source_service request, rq_id request)
       in if \<not> accepted_requests_check row then (db, Inl (RE_Repository db_error))
          else if \<not> fk request_key (accepted_requests db) key then
            (case request_reference_error db row of
               Some e \<Rightarrow> (db, Inl e)
             | None \<Rightarrow>
                 (case accepted_request_from_row row of
                    Inl e \<Rightarrow> (db, Inl e)
                  | Inr stored \<Rightarrow>
                      append_acceptance_audit io 3 db
                        (db\<lparr>accepted_requests := accepted_requests db @ [row]\<rparr>)
                        request fingerprint ''accepted'' (Inr (RA_Accepted stored))))
          else req_stmt io 3 db (
            case find (\<lambda>r. request_key r = key) (accepted_requests db) of
              None \<Rightarrow> (db, Inl (RE_Repository ''conflicting request disappeared during acceptance''))
            | Some found \<Rightarrow>
                (case accepted_request_from_row found of
                   Inl e \<Rightarrow> (db, Inl e)
                 | Inr stored \<Rightarrow>
                     if ar_request stored \<noteq> request \<or> ar_fingerprint stored \<noteq> fingerprint
                     then append_acceptance_audit io 4 db db request fingerprint ''request_conflict_rejected''
                            (Inl (RE_RequestIdConflict (rq_id request)))
                     else append_acceptance_audit io 4 db db request fingerprint ''safe_retry''
                            (Inr (RA_SafeRetry stored)))))))"

definition pg_request_find ::
  "faults \<Rightarrow> Db \<Rightarrow> ActorId \<Rightarrow> RequestId \<Rightarrow> RequestError + AcceptedRequest option" where
  "pg_request_find io db source_service request_id =
     snd (req_stmt io 0 db (req_stmt io 1 db
       (db, transpose_option (map_option accepted_request_from_row
              (find (\<lambda>r. request_key r = (source_service, request_id)) (accepted_requests db))))))"


section \<open>The contract\<close>

definition row_accepted :: "accepted_request_row \<Rightarrow> AcceptedRequest" where
  "row_accepted r =
     \<lparr>ar_request = \<lparr>rq_id = arr_request_id r, rq_source_service = arr_source_service_id r,
                    rq_action = ActionName (arr_action r), rq_scope = Scope (arr_scope r),
                    rq_schema_versions = \<lparr>svr_artifact = arr_artifact_schema_version_id r,
                      svr_permission_policy = arr_permission_policy_schema_version_id r\<rparr>\<rparr>,
      ar_fingerprint = RequestFingerprint (arr_semantic_fingerprint r), ar_accepted_at = arr_accepted_at r\<rparr>"

definition good_requests :: "Db \<Rightarrow> bool" where
  "good_requests db \<longleftrightarrow>
     distinct (map request_key (accepted_requests db)) \<and>
     list_all (\<lambda>r. accepted_request_from_row r = Inr (row_accepted r)) (accepted_requests db)"

definition request_view :: "Db \<Rightarrow> ActorId \<Rightarrow> RequestId \<Rightarrow> AcceptedRequest option" where
  "request_view db src i =
     map_option row_accepted (find (\<lambda>r. request_key r = (src, i)) (accepted_requests db))"

lemma row_accepted_of [simp]: "row_accepted (accepted_request_row_of r f now) = \<lparr>ar_request = r, ar_fingerprint = f, ar_accepted_at = now\<rparr>"
  by (cases "rq_action r"; cases "rq_scope r"; cases "rq_schema_versions r"; cases f)
    (simp add: row_accepted_def accepted_request_row_of_def)

lemma request_key_of [simp]: "request_key (accepted_request_row_of r f now) = (rq_source_service r, rq_id r)"
  by (simp add: request_key_def accepted_request_row_of_def)

lemma accepted_request_from_row_Inr:
  "request_wf r \<Longrightarrow> accepted_request_from_row (accepted_request_row_of r f now) = Inr a \<Longrightarrow>
     a = \<lparr>ar_request = r, ar_fingerprint = f, ar_accepted_at = now\<rparr>"
  by (cases "rq_action r"; cases "rq_scope r"; cases "rq_schema_versions r"; cases f)
    (auto simp: accepted_request_from_row_def accepted_request_row_of_def request_wf_def action_name_wf_def
      Request_restore_def ActionName_new_def AcceptedRequest_restore_def split: if_splits)

lemma pg_request_find_view:
  assumes "good_requests db"
  shows "pg_request_find no_faults db src i = Inr (request_view db src i)"
proof (cases "find (\<lambda>r. request_key r = (src, i)) (accepted_requests db)")
  case (Some r)
  with find_SomeD [OF Some] assms show ?thesis
    by (simp add: pg_request_find_def request_view_def good_requests_def list_all_iff)
qed (simp add: pg_request_find_def request_view_def)

lemma append_acceptance_audit_Inr:
  "append_acceptance_audit io k before db r f out res = (db', Inr y) \<Longrightarrow>
     res = Inr y \<and> accepted_requests db' = accepted_requests db"
  by (auto simp: append_acceptance_audit_def Let_def split: if_splits)

lemma append_acceptance_audit_rows:
  "append_acceptance_audit io k db db r f out res = (db', x) \<Longrightarrow> accepted_requests db' = accepted_requests db"
  by (auto simp: append_acceptance_audit_def Let_def split: if_splits db_stmt_splits)

lemma append_acceptance_audit_Inl:
  "append_acceptance_audit io k before db r f out (Inr z) = (db', Inl e) \<Longrightarrow> db' = before"
  by (auto simp: append_acceptance_audit_def Let_def split: if_splits db_stmt_splits)

lemma pg_request_accept_fresh:
  assumes "request_wf r" and "pg_request_accept io db now r f = (db', Inr (RA_Accepted a))"
  shows "(rq_source_service r, rq_id r) \<notin> request_key ` set (accepted_requests db) \<and>
    a = \<lparr>ar_request = r, ar_fingerprint = f, ar_accepted_at = now\<rparr> \<and>
    accepted_requests db' = accepted_requests db @ [accepted_request_row_of r f now] \<and>
    accepted_request_from_row (accepted_request_row_of r f now) = Inr a"
  using assms
  by (auto simp: pg_request_accept_def Let_def fk_iff split: if_splits option.splits sum.splits
      dest!: append_acceptance_audit_Inr dest: accepted_request_from_row_Inr)

lemma pg_request_accept_retry:
  assumes "pg_request_accept io db now r f = (db', Inr (RA_SafeRetry a))"
  shows "\<exists>q. find (\<lambda>q. request_key q = (rq_source_service r, rq_id r)) (accepted_requests db) = Some q \<and>
    accepted_request_from_row q = Inr a \<and> ar_request a = r \<and> ar_fingerprint a = f \<and>
    accepted_requests db' = accepted_requests db"
  using assms
  by (auto simp: pg_request_accept_def Let_def split: if_splits option.splits sum.splits
      dest!: append_acceptance_audit_Inr)

lemma pg_request_accept_error:
  assumes "pg_request_accept io db now r f = (db', Inl e)"
  shows "accepted_requests db' = accepted_requests db"
  using assms
  by (auto simp: pg_request_accept_def Let_def split: if_splits option.splits sum.splits db_stmt_splits
      dest: append_acceptance_audit_Inl append_acceptance_audit_rows)

lemma good_requests_append:
  assumes "good_requests db" and "request_wf r" and "pg_request_accept io db now r f = (db', Inr (RA_Accepted a))"
  shows "good_requests db'"
  using assms(1) pg_request_accept_fresh [OF assms(2,3)] by (simp add: good_requests_def)

lemma request_view_append:
  assumes "(rq_source_service r, rq_id r) \<notin> request_key ` set (accepted_requests db)"
    and "accepted_requests db' = accepted_requests db @ [accepted_request_row_of r f now]"
  shows "request_view db (rq_source_service r) (rq_id r) = None"
    and "request_view db' src i = (if src = rq_source_service r \<and> i = rq_id r
       then Some \<lparr>ar_request = r, ar_fingerprint = f, ar_accepted_at = now\<rparr> else request_view db src i)"
proof -
  have none: "find (\<lambda>q. request_key q = (rq_source_service r, rq_id r)) (accepted_requests db) = None"
    using assms(1) by (force simp: find_None_iff)
  then show "request_view db (rq_source_service r) (rq_id r) = None" by (simp add: request_view_def)
  show "request_view db' src i = (if src = rq_source_service r \<and> i = rq_id r
       then Some \<lparr>ar_request = r, ar_fingerprint = f, ar_accepted_at = now\<rparr> else request_view db src i)"
  proof (cases "src = rq_source_service r \<and> i = rq_id r")
    case True
    with none show ?thesis by (simp add: request_view_def assms(2) find_append_single)
  next
    case False
    then have "request_key (accepted_request_row_of r f now) \<noteq> (src, i)" by auto
    with False show ?thesis
      by (simp only: request_view_def assms(2) find_append_single if_False) (simp split: option.split)
  qed
qed

interpretation pgrq: request_repository good_requests "pg_request_accept io" "pg_request_find no_faults" for io
proof
  fix s s' :: Db and t r f x a e src i
  assume good: "good_requests s" and wf: "request_wf r"
  show good': "good_requests s'" if acc: "pg_request_accept io s t r f = (s', x)"
  proof -
    have same: "good_requests s'" if "accepted_requests s' = accepted_requests s"
      using good that by (simp add: good_requests_def)
    consider e where "x = Inl e" | a where "x = Inr (RA_Accepted a)" | a where "x = Inr (RA_SafeRetry a)"
      by (cases x) (auto intro: RequestAcceptance.exhaust)
    then show ?thesis
    proof cases
      case 1
      with acc show ?thesis by (intro same) (auto dest: pg_request_accept_error)
    next
      case 2
      with acc show ?thesis using good_requests_append [OF good wf, of io t f s'] by simp
    next
      case 3
      with acc show ?thesis by (intro same) (auto dest: pg_request_accept_retry)
    qed
  qed
  show "pg_request_find no_faults s (rq_source_service r) (rq_id r) = Inr None \<and> ar_request a = r \<and> ar_fingerprint a = f \<and>
      pg_request_find no_faults s' src i =
        (if src = rq_source_service r \<and> i = rq_id r then Inr (Some a) else pg_request_find no_faults s src i)"
    if acc: "pg_request_accept io s t r f = (s', Inr (RA_Accepted a))"
  proof -
    note fresh = pg_request_accept_fresh [OF wf acc]
    note view = request_view_append [OF conjunct1 [OF fresh] conjunct1 [OF conjunct2 [OF conjunct2 [OF fresh]]]]
    have a: "a = \<lparr>ar_request = r, ar_fingerprint = f, ar_accepted_at = t\<rparr>" using fresh by blast
    show ?thesis
      unfolding pg_request_find_view [OF good] pg_request_find_view [OF good_requests_append [OF good wf acc]] view a by simp
  qed
  show "pg_request_find no_faults s (rq_source_service r) (rq_id r) = Inr (Some a) \<and> ar_request a = r \<and> ar_fingerprint a = f \<and>
      pg_request_find no_faults s' src i = pg_request_find no_faults s src i"
    if acc: "pg_request_accept io s t r f = (s', Inr (RA_SafeRetry a))"
    using pg_request_accept_retry [OF acc] by (auto simp: pg_request_find_def)
  show "pg_request_find no_faults s' src i = pg_request_find no_faults s src i"
    if acc: "pg_request_accept io s t r f = (s', Inl e)"
    using pg_request_accept_error [OF acc] by (simp add: pg_request_find_def)
qed

end
