(* ===== verification/Pg_Routes.thy ===== *)
theory Pg_Routes
  imports Database
begin

text \<open>
  \<open>src/infrastructure/postgres_route_repository.rs\<close>: a route is inserted once per
  \<open>(request_id, subscription_id)\<close> and never changed; every statement commits by itself. The
  interpretation \<open>pgrt\<close> discharges the laws of \<open>route_repository\<close>.
\<close>

definition route_from_row :: "route_row \<Rightarrow> RequestError + Route" where
  "route_from_row row =
     map_err (\<lambda>_. RE_Repository ''stored route is invalid'')
       (Route_restore (rrw_route_id row) (rrw_source_service_id row) (rrw_request_id row)
          (rrw_subscription_id row) (rrw_destination_service_id row) (rrw_created_at row))"

definition route_row_of :: "Route \<Rightarrow> route_row" where
  "route_row_of r =
     \<lparr>rrw_route_id = rt_id r, rrw_source_service_id = rt_source_service r,
      rrw_request_id = rt_request_id r, rrw_subscription_id = rt_subscription_id r,
      rrw_destination_service_id = rt_destination_service r, rrw_created_at = rt_created_at r\<rparr>"

text \<open>The references of the inserted row, in the order the database checks them, with the error
  \<open>foreign_key_violation_error\<close> makes of each.\<close>

definition route_reference_error :: "Db \<Rightarrow> route_row \<Rightarrow> RequestError option" where
  "route_reference_error db row =
     (if \<not> fk sbr_id (subscriptions db) (rrw_subscription_id row) then Some RE_UnknownSubscription
      else if \<not> fk idr_id (identities db) (rrw_destination_service_id row)
         \<or> \<not> fk (\<lambda>r. (arr_source_service_id r, arr_request_id r)) (accepted_requests db)
               (rrw_source_service_id row, rrw_request_id row)
      then Some (RE_Repository ''route references an unknown request or destination identity'')
      else None)"

abbreviation route_stmt ::
  "faults \<Rightarrow> nat \<Rightarrow> Db \<Rightarrow> Db \<times> (RequestError + 'a) \<Rightarrow> Db \<times> (RequestError + 'a)" where
  "route_stmt io k db rest \<equiv> db_stmt io k RE_Repository db rest"

definition same_match :: "route_row \<Rightarrow> route_row \<Rightarrow> bool" where
  "same_match a b \<longleftrightarrow> rrw_request_id a = rrw_request_id b \<and> rrw_subscription_id a = rrw_subscription_id b"

definition pg_route_materialize :: "faults \<Rightarrow> Db \<Rightarrow> Route \<Rightarrow> Db \<times> (RequestError + Route)" where
  "pg_route_materialize io db route =
     route_stmt io 0 db (route_stmt io 1 db (
       let row = route_row_of route
       in if rrw_created_at row < 0 then (db, Inl (RE_Repository db_error))
          else if \<not> list_ex (same_match row) (request_routes db) then
            if fk rrw_route_id (request_routes db) (rrw_route_id row) then (db, Inl (RE_Repository db_error))
            else (case route_reference_error db row of
                    Some e \<Rightarrow> (db, Inl e)
                  | None \<Rightarrow> (db\<lparr>request_routes := request_routes db @ [row]\<rparr>, route_from_row row))
          else route_stmt io 2 db
            (db, case find (same_match row) (request_routes db) of
                   None \<Rightarrow> Inl (RE_Repository ''conflicting route disappeared during materialization'')
                 | Some existing \<Rightarrow> route_from_row existing)))"

definition pg_route_find :: "faults \<Rightarrow> Db \<Rightarrow> RouteId \<Rightarrow> RequestError + Route option" where
  "pg_route_find io db route_id =
     snd (route_stmt io 0 db (route_stmt io 1 db
       (db, transpose_option (map_option route_from_row
              (find (\<lambda>r. rrw_route_id r = route_id) (request_routes db))))))"

text \<open>\<open>ORDER BY created_at, route_id\<close>.\<close>

definition in_route_order :: "route_row list \<Rightarrow> route_row list" where
  "in_route_order rs = sort_key (\<lambda>r. (rrw_created_at r, RouteId_as_uuid (rrw_route_id r))) rs"

definition pg_list_for_request :: "faults \<Rightarrow> Db \<Rightarrow> RequestId \<Rightarrow> RequestError + Route list" where
  "pg_list_for_request io db request_id =
     snd (route_stmt io 0 db (route_stmt io 1 db
       (db, collect_results route_from_row (in_route_order
              (filter (\<lambda>r. rrw_request_id r = request_id) (request_routes db))))))"

definition pg_list_for_destination :: "faults \<Rightarrow> Db \<Rightarrow> ActorId \<Rightarrow> RequestError + Route list" where
  "pg_list_for_destination io db destination_service =
     snd (route_stmt io 0 db (route_stmt io 1 db
       (db, collect_results route_from_row (in_route_order
              (filter (\<lambda>r. rrw_destination_service_id r = destination_service) (request_routes db))))))"


section \<open>The contract\<close>

definition row_route :: "route_row \<Rightarrow> Route" where
  "row_route r =
     \<lparr>rt_id = rrw_route_id r, rt_source_service = rrw_source_service_id r,
      rt_request_id = rrw_request_id r, rt_subscription_id = rrw_subscription_id r,
      rt_destination_service = rrw_destination_service_id r, rt_created_at = rrw_created_at r\<rparr>"

definition routes_of :: "Db \<Rightarrow> Route list" where
  "routes_of db = map row_route (request_routes db)"

text \<open>The key constraints of \<open>request_routes\<close> and its references.\<close>

definition good_routes :: "Db \<Rightarrow> bool" where
  "good_routes db \<longleftrightarrow>
     distinct (map rrw_route_id (request_routes db)) \<and>
     distinct (map match_key (routes_of db)) \<and>
     list_all (\<lambda>r. 0 \<le> rrw_created_at r \<and> route_reference_error db r = None) (request_routes db)"

lemma row_route_of [simp]: "row_route (route_row_of r) = r"
  by (simp add: row_route_def route_row_of_def)

lemma route_row_of_simps [simp]:
  "rrw_route_id (route_row_of r) = rt_id r" "rrw_created_at (route_row_of r) = rt_created_at r"
  "rrw_request_id (route_row_of r) = rt_request_id r"
  "rrw_destination_service_id (route_row_of r) = rt_destination_service r"
  by (simp_all add: route_row_of_def)

lemma row_route_simps [simp]:
  "rt_id (row_route r) = rrw_route_id r" "rt_request_id (row_route r) = rrw_request_id r"
  "rt_destination_service (row_route r) = rrw_destination_service_id r"
  by (simp_all add: row_route_def)

lemma route_from_row_checked [simp]: "0 \<le> rrw_created_at r \<Longrightarrow> route_from_row r = Inr (row_route r)"
  by (simp add: route_from_row_def Route_restore_def row_route_def)

lemma same_match_iff: "same_match (route_row_of r) q \<longleftrightarrow> match_key (row_route q) = match_key r"
  by (auto simp: same_match_def match_key_def route_row_of_def row_route_def)

lemma route_reference_error_cong:
  "subscriptions db' = subscriptions db \<Longrightarrow> identities db' = identities db \<Longrightarrow>
     accepted_requests db' = accepted_requests db \<Longrightarrow> route_reference_error db' r = route_reference_error db r"
  by (simp add: route_reference_error_def)

lemma materialize_cases:
  assumes "good_routes db" and mat: "pg_route_materialize io db r = (db', x)"
  obtains (error) e where "x = Inl e" and "db' = db"
  | (new) "x = Inr r" and "match_key r \<notin> match_key ` set (routes_of db)"
      and "db' = db\<lparr>request_routes := request_routes db @ [route_row_of r]\<rparr>"
      and "0 \<le> rt_created_at r" and "rt_id r \<notin> rrw_route_id ` set (request_routes db)"
      and "route_reference_error db (route_row_of r) = None"
  | (old) q where "x = Inr q" and "db' = db" and "q \<in> set (routes_of db)" and "match_key q = match_key r"
proof (cases "list_ex (same_match (route_row_of r)) (request_routes db)")
  case False
  then have "match_key r \<notin> match_key ` set (routes_of db)"
    by (auto simp: list_ex_iff same_match_iff routes_of_def)
  with mat False error new show thesis
    by (auto simp: pg_route_materialize_def Let_def fk_iff split: if_splits option.splits db_stmt_splits)
next
  case True
  then obtain q where q: "find (same_match (route_row_of r)) (request_routes db) = Some q"
    by (cases "find (same_match (route_row_of r)) (request_routes db)") (auto simp: find_None_iff list_ex_iff)
  from find_SomeD [OF q] have "q \<in> set (request_routes db)" and key: "match_key (row_route q) = match_key r"
    by (auto simp: same_match_iff)
  moreover from this assms(1) have "0 \<le> rrw_created_at q" by (auto simp: good_routes_def list_all_iff)
  ultimately have "row_route q \<in> set (routes_of db)" "route_from_row q = Inr (row_route q)"
    by (auto simp: routes_of_def)
  with mat True q key error old [of "row_route q"] show thesis
    by (auto simp: pg_route_materialize_def Let_def split: if_splits option.splits db_stmt_splits)
qed

lemma materialize_good:
  assumes good: "good_routes db" and mat: "pg_route_materialize io db r = (db', x)"
  shows "good_routes db'"
  using good mat
proof (cases rule: materialize_cases)
  case new
  have "route_reference_error db' q = route_reference_error db q" for q
    by (rule route_reference_error_cong) (simp_all add: new(3))
  with good new show ?thesis by (simp add: good_routes_def routes_of_def comp_def image_image)
qed (use good in auto)

interpretation pgrt: route_repository good_routes routes_of "pg_route_materialize io" for io
proof
  fix s s' :: Db and r r' x e
  assume good: "good_routes s"
  show "distinct (map match_key (routes_of s))" using good by (simp add: good_routes_def)
  show "good_routes s'" if "pg_route_materialize io s r = (s', x)"
    by (rule materialize_good [OF good that])
  show "r' = r \<and> routes_of s' = routes_of s @ [r]"
    if mat: "pg_route_materialize io s r = (s', Inr r')" and "match_key r \<notin> match_key ` set (routes_of s)"
    using good mat
    by (cases rule: materialize_cases) (use that in \<open>auto simp: routes_of_def intro: rev_image_eqI\<close>)
  show "r' \<in> set (routes_of s) \<and> match_key r' = match_key r \<and> routes_of s' = routes_of s"
    if mat: "pg_route_materialize io s r = (s', Inr r')" and "match_key r \<in> match_key ` set (routes_of s)"
    using good mat by (cases rule: materialize_cases) (use that in auto)
  show "routes_of s' = routes_of s" if mat: "pg_route_materialize io s r = (s', Inl e)"
    using good mat by (cases rule: materialize_cases) auto
qed

lemma set_in_route_order [simp]: "set (in_route_order rs) = set rs"
  by (simp add: in_route_order_def)

lemma pg_list_for_destination_rows:
  assumes "good_routes db"
  shows "\<exists>xs. pg_list_for_destination no_faults db d = Inr xs \<and> set xs = {r \<in> set (routes_of db). rt_destination_service r = d}"
proof -
  have "pg_list_for_destination no_faults db d =
      Inr (map row_route (in_route_order (filter (\<lambda>r. rrw_destination_service_id r = d) (request_routes db))))"
    using assms by (auto simp: pg_list_for_destination_def good_routes_def list_all_iff intro!: collect_results_all_Inr)
  then show ?thesis by (auto simp: routes_of_def)
qed

end
