(* ===== verification/Routing_Properties.thy ===== *)
theory Routing_Properties
  imports Routing Pg_Requests Pg_Routes Pg_Subscriptions Pg_Work_Claims Sample_Crates
begin

text \<open>
  What submitters and workers can rely on: accepted requests are immutable, every active subscriber
  of an action gets exactly one route, a worker is offered exactly the open routes of its service,
  can claim each of them, and reads exactly the request behind its own route. All over whole
  histories of the PostgreSQL adapters.
\<close>

section \<open>Histories\<close>

text \<open>A step: an acceptance or a materialization with any arguments, IDs, times and failing
  statements, or statements that leave the two tables alone and delete no identity and no
  subscription (no adapter does).\<close>

inductive routing_run :: "Db \<Rightarrow> Db \<Rightarrow> bool" where
  rrun_accept: "request_wf r \<Longrightarrow> pg_request_accept io db t r f = (db', x) \<Longrightarrow> routing_run db db'"
| rrun_materialize: "RouteService_materialize (pg_route_materialize io) i db src req sub dst now = (db', y) \<Longrightarrow>
    routing_run db db'"
| rrun_other: "accepted_requests db' = accepted_requests db \<Longrightarrow> request_routes db' = request_routes db \<Longrightarrow>
    sbr_id ` set (subscriptions db) \<subseteq> sbr_id ` set (subscriptions db') \<Longrightarrow>
    idr_id ` set (identities db) \<subseteq> idr_id ` set (identities db') \<Longrightarrow> routing_run db db'"

lemma route_reference_error_mono:
  assumes "route_reference_error db r = None"
    and "sbr_id ` set (subscriptions db) \<subseteq> sbr_id ` set (subscriptions db')"
    and "idr_id ` set (identities db) \<subseteq> idr_id ` set (identities db')"
    and "request_key ` set (accepted_requests db) \<subseteq> request_key ` set (accepted_requests db')"
  shows "route_reference_error db' r = None"
proof -
  have "request_key = (\<lambda>r. (arr_source_service_id r, arr_request_id r))"
    by (simp add: fun_eq_iff request_key_def)
  then have "rrw_subscription_id r \<in> sbr_id ` set (subscriptions db)"
    and "rrw_destination_service_id r \<in> idr_id ` set (identities db)"
    and "(rrw_source_service_id r, rrw_request_id r) \<in> request_key ` set (accepted_requests db)"
    and key: "fk (\<lambda>r. (arr_source_service_id r, arr_request_id r)) rs k \<longleftrightarrow> k \<in> request_key ` set rs" for rs k
    using assms(1) by (simp_all add: route_reference_error_def fk_iff split: if_splits)
  from subsetD [OF assms(2) this(1)] subsetD [OF assms(3) this(2)] subsetD [OF assms(4) this(3)]
  show ?thesis unfolding route_reference_error_def key by (simp add: fk_iff)
qed

lemma good_routes_mono:
  assumes "good_routes db" and "request_routes db' = request_routes db"
    and "sbr_id ` set (subscriptions db) \<subseteq> sbr_id ` set (subscriptions db')"
    and "idr_id ` set (identities db) \<subseteq> idr_id ` set (identities db')"
    and "request_key ` set (accepted_requests db) \<subseteq> request_key ` set (accepted_requests db')"
  shows "good_routes db'"
  using assms(1) route_reference_error_mono [OF _ assms(3-5)]
  by (simp add: good_routes_def routes_of_def assms(2) list_all_iff)

definition accept_frame :: "Db \<Rightarrow> Db \<Rightarrow> bool" where
  "accept_frame db db' \<longleftrightarrow> request_routes db' = request_routes db \<and> subscriptions db' = subscriptions db \<and>
     identities db' = identities db \<and> set (accepted_requests db) \<subseteq> set (accepted_requests db')"

lemma accept_frame_simps [simp]:
  "accept_frame db db" "accept_frame db (db\<lparr>request_acceptance_audit := rows\<rparr>)"
  "accept_frame db (db\<lparr>accepted_requests := accepted_requests db @ rs, request_acceptance_audit := rows\<rparr>)"
  by (auto simp: accept_frame_def)

lemma accept_frame_stmt: "accept_frame db (fst rest) \<Longrightarrow> accept_frame db (fst (db_stmt io k mk db rest))"
  by (simp add: db_stmt_def split: option.split)

lemma accept_frame_audit:
  "accept_frame db (fst (append_acceptance_audit io k db db r f out res))"
  "accept_frame db (fst (append_acceptance_audit io k db (db\<lparr>accepted_requests := accepted_requests db @ rs\<rparr>) r f out res))"
  unfolding append_acceptance_audit_def Let_def by (simp_all add: accept_frame_stmt)

lemma accept_frame_branches:
  "(b \<Longrightarrow> accept_frame db (fst p)) \<Longrightarrow> (\<not> b \<Longrightarrow> accept_frame db (fst q)) \<Longrightarrow> accept_frame db (fst (if b then p else q))"
  "accept_frame db (fst p) \<Longrightarrow> (\<And>a. accept_frame db (fst (f a))) \<Longrightarrow> accept_frame db (fst (case opt of None \<Rightarrow> p | Some a \<Rightarrow> f a))"
  "(\<And>e. accept_frame db (fst (g e))) \<Longrightarrow> (\<And>a. accept_frame db (fst (h a))) \<Longrightarrow>
     accept_frame db (fst (case res of Inl e \<Rightarrow> g e | Inr a \<Rightarrow> h a))"
  by (simp_all split: option.split sum.split)

text \<open>An acceptance touches the requests and their audit only, and deletes no request.\<close>

lemma pg_request_accept_frame: "accept_frame db (fst (pg_request_accept io db t r f))"
  unfolding pg_request_accept_def Let_def
  by (intro accept_frame_stmt accept_frame_branches accept_frame_audit) simp_all

lemma pg_request_accept_tables: "pg_request_accept io db t r f = (db', x) \<Longrightarrow> accept_frame db db'"
  using pg_request_accept_frame [of db io t r f] by simp

lemma pg_route_materialize_tables:
  assumes "good_routes db" and "pg_route_materialize io db r = (db', x)"
  shows "accepted_requests db' = accepted_requests db \<and> subscriptions db' = subscriptions db \<and>
    identities db' = identities db"
  using assms by (cases rule: materialize_cases) auto

lemma routing_run_good:
  assumes "routing_run db db'" and "good_requests db \<and> good_routes db"
  shows "good_requests db' \<and> good_routes db'"
  using assms
proof (induction rule: routing_run.induct)
  case (rrun_accept r io db t f db' x)
  have frame: "accept_frame db db'" by (rule pg_request_accept_tables [OF rrun_accept(2)])
  have "good_routes db'"
    by (rule good_routes_mono [OF conjunct2 [OF rrun_accept(3)]])
      (use frame in \<open>simp_all add: accept_frame_def image_mono\<close>)
  with pgrq.accept_good [OF _ rrun_accept(1,2)] rrun_accept(3) show ?case by blast
next
  case (rrun_materialize io i db src req sub dst now db' y)
  then consider "db' = db" | r where "pg_route_materialize io db r = (db', y)"
    by (auto simp: RouteService_materialize_def split: sum.splits)
  then show ?case
  proof cases
    case 2
    from materialize_good [OF _ 2] pg_route_materialize_tables [OF _ 2] rrun_materialize(2) show ?thesis
      by (simp add: good_requests_def)
  qed (use rrun_materialize(2) in simp)
next
  case (rrun_other db' db)
  from good_routes_mono [of db db'] rrun_other show ?case by (simp add: good_requests_def)
qed

lemma routing_runs_good:
  assumes "routing_run\<^sup>*\<^sup>* db db'" and "good_requests db \<and> good_routes db"
  shows "good_requests db' \<and> good_routes db'"
  using assms by (induction rule: rtranclp_induct) (auto dest: routing_run_good)

lemma routing_good_empty: "good_requests empty_db \<and> good_routes empty_db"
  by (simp add: good_requests_def good_routes_def routes_of_def empty_db_def)

lemmas routing_reachable = routing_runs_good [OF _ routing_good_empty]

text \<open>The populated database is reachable up to its first acceptance; its rows satisfy the
  invariants.\<close>

lemma sample_good: "good_requests sample_db" "good_routes sample_db"
  by code_simp+

lemma routing_run_finds:
  assumes "routing_run db db'" and "good_requests db \<and> good_routes db"
    and "pg_request_find no_faults db src i = Inr (Some a)"
  shows "pg_request_find no_faults db' src i = Inr (Some a)"
  using assms
proof (induction rule: routing_run.induct)
  case (rrun_accept r io db t f db' x)
  with pgrq.accepted_immutable [OF _ rrun_accept(1,2) rrun_accept(4)] show ?case by blast
next
  case (rrun_materialize io i db src' req sub dst now db' y)
  then have "db' = db \<or> (\<exists>r. pg_route_materialize io db r = (db', y))"
    by (auto simp: RouteService_materialize_def split: sum.splits)
  with pg_route_materialize_tables [of db io _ db' y] rrun_materialize(2) have "accepted_requests db' = accepted_requests db"
    by blast
  with rrun_materialize(3) show ?case by (simp add: pg_request_find_def)
next
  case (rrun_other db' db)
  then show ?case by (simp add: pg_request_find_def)
qed

lemma routing_runs_find:
  assumes "routing_run\<^sup>*\<^sup>* db db'" and "good_requests db \<and> good_routes db"
    and "pg_request_find no_faults db src i = Inr (Some a)"
  shows "pg_request_find no_faults db' src i = Inr (Some a)"
  using assms
  by (induction rule: rtranclp_induct) (use routing_run_finds routing_runs_good in blast)+


section \<open>A concrete history\<close>

text \<open>Services 1 and 3 submit under the same request ID; the first request is routed to service 2.\<close>

definition quiet_db :: Db where
  "quiet_db = sample_db
     \<lparr>accepted_requests := [], request_routes := [],
      identities := identities sample_db @
        [\<lparr>idr_id = ActorId 3, idr_kind = ''service'', idr_display_name = ''intruder'', idr_status = ''active''\<rparr>]\<rparr>"

definition request_from :: "ActorId \<Rightarrow> Request" where
  "request_from src =
     \<lparr>rq_id = RequestId 30, rq_source_service = src, rq_action = ActionName sample_action, rq_scope = Scope ''invoice'',
      rq_schema_versions = no_artifact_schema_versions\<rparr>"

definition sample_fingerprint :: RequestFingerprint where
  "sample_fingerprint = RequestFingerprint (replicate 32 (CHR 0x05))"

definition accepted_from :: "ActorId \<Rightarrow> i64 \<Rightarrow> AcceptedRequest" where
  "accepted_from src t = \<lparr>ar_request = request_from src, ar_fingerprint = sample_fingerprint, ar_accepted_at = t\<rparr>"

definition submitted_db :: Db where
  "submitted_db = fst (pg_request_accept no_faults quiet_db 110 (request_from (ActorId 1)) sample_fingerprint)"

definition both_submitted_db :: Db where
  "both_submitted_db = fst (pg_request_accept no_faults submitted_db 112 (request_from (ActorId 3)) sample_fingerprint)"

definition sample_routes ::
  "Db \<Rightarrow> ActorId \<Rightarrow> i64 \<Rightarrow> Db \<times> (RequestError + Route list)" where
  "sample_routes db src now =
     materialize_routes sample_crates (pg_find_active_by_event_type no_faults) (pg_route_materialize no_faults)
       (\<lambda>k. RouteId (40 + of_nat k)) db src (RequestId 30) (ActionName sample_action) now"

definition routed_db :: Db where
  "routed_db = fst (sample_routes both_submitted_db (ActorId 1) 113)"

definition sample_route :: Route where
  "sample_route =
     \<lparr>rt_id = RouteId 40, rt_source_service = ActorId 1, rt_request_id = RequestId 30,
      rt_subscription_id = SubscriptionId 20, rt_destination_service = ActorId 2, rt_created_at = 113\<rparr>"

lemma request_from_wf: "request_wf (request_from src)"
proof -
  have "request_wf (request_from (ActorId 0))" by code_simp
  then show ?thesis by (simp add: request_wf_def request_from_def)
qed

lemma submitted: "pg_request_accept no_faults quiet_db 110 (request_from (ActorId 1)) sample_fingerprint =
    (submitted_db, Inr (RA_Accepted (accepted_from (ActorId 1) 110)))"
proof -
  have "snd (pg_request_accept no_faults quiet_db 110 (request_from (ActorId 1)) sample_fingerprint) =
      Inr (RA_Accepted (accepted_from (ActorId 1) 110))" by code_simp
  then show ?thesis by (simp add: submitted_db_def prod_eq_iff)
qed

lemma both_submitted: "pg_request_accept no_faults submitted_db 112 (request_from (ActorId 3)) sample_fingerprint =
    (both_submitted_db, Inr (RA_Accepted (accepted_from (ActorId 3) 112)))"
proof -
  have "snd (pg_request_accept no_faults submitted_db 112 (request_from (ActorId 3)) sample_fingerprint) =
      Inr (RA_Accepted (accepted_from (ActorId 3) 112))" by code_simp
  then show ?thesis by (simp add: both_submitted_db_def prod_eq_iff)
qed

lemma routed: "sample_routes both_submitted_db (ActorId 1) 113 = (routed_db, Inr [sample_route])"
proof -
  have "snd (sample_routes both_submitted_db (ActorId 1) 113) = Inr [sample_route]" by code_simp
  then show ?thesis by (simp add: routed_db_def prod_eq_iff)
qed

lemma routed_routes: "routes_of routed_db = [sample_route]"
  by code_simp

lemma quiet_reachable: "routing_run\<^sup>*\<^sup>* empty_db quiet_db"
  by (intro r_into_rtranclp rrun_other) (simp_all add: quiet_db_def empty_db_def)

lemma submitted_reachable: "routing_run\<^sup>*\<^sup>* empty_db submitted_db"
  by (rule rtranclp.rtrancl_into_rtrancl [OF quiet_reachable rrun_accept [OF request_from_wf submitted]])

lemma both_submitted_step: "routing_run submitted_db both_submitted_db"
  by (rule rrun_accept [OF request_from_wf both_submitted])

lemma both_submitted_later: "routing_run\<^sup>*\<^sup>* submitted_db both_submitted_db"
  using both_submitted_step by (rule r_into_rtranclp)

lemma both_submitted_reachable: "routing_run\<^sup>*\<^sup>* empty_db both_submitted_db"
  by (rule rtranclp.rtrancl_into_rtrancl [OF submitted_reachable both_submitted_step])

lemma routed_reachable: "routing_run\<^sup>*\<^sup>* empty_db routed_db"
proof (rule rtranclp.rtrancl_into_rtrancl [OF both_submitted_reachable])
  let ?m = "RouteService_materialize (pg_route_materialize no_faults) (RouteId 40) both_submitted_db (ActorId 1)
      (RequestId 30) (SubscriptionId 20) (ActorId 2) 113"
  have "fst ?m = routed_db" by code_simp
  then show "routing_run both_submitted_db routed_db" by (metis rrun_materialize prod.collapse)
qed

section \<open>Accepted requests\<close>

text \<open>An accepted request is immutable: once a source's request ID resolves to an accepted
  record, it resolves to the same record (request, fingerprint and acceptance time) in every later
  database, whatever is submitted afterwards, by that source or another.\<close>

theorem accepted_request_immutable:
  assumes "routing_run\<^sup>*\<^sup>* empty_db db" and "routing_run\<^sup>*\<^sup>* db db'"
    and "pg_request_find no_faults db src i = Inr (Some a)"
  shows "pg_request_find no_faults db' src i = Inr (Some a)"
  by (rule routing_runs_find [OF assms(2) routing_reachable [OF assms(1)] assms(3)])

theorem accepted_request_immutable_witness:
  "pg_request_find no_faults submitted_db (ActorId 1) (RequestId 30) = Inr (Some (accepted_from (ActorId 1) 110)) \<and>
   pg_request_find no_faults both_submitted_db (ActorId 1) (RequestId 30) = Inr (Some (accepted_from (ActorId 1) 110))"
proof -
  have "pg_request_find no_faults submitted_db (ActorId 1) (RequestId 30) = Inr (Some (accepted_from (ActorId 1) 110))"
    by code_simp
  with accepted_request_immutable [OF submitted_reachable both_submitted_later this]
  show ?thesis by blast
qed

lemma accepted_in_table:
  assumes "good_requests db" and "pg_request_find no_faults db src i = Inr (Some a)"
  obtains q where "find (\<lambda>r. request_key r = (src, i)) (accepted_requests db) = Some q"
    and "accepted_request_from_row q = Inr a"
proof -
  from assms obtain q where q: "find (\<lambda>r. request_key r = (src, i)) (accepted_requests db) = Some q" "row_accepted q = a"
    by (auto simp: pg_request_find_view request_view_def)
  moreover have "accepted_request_from_row q = Inr (row_accepted q)"
    using assms(1) find_SomeD [OF q(1)] by (simp add: good_requests_def list_all_iff)
  ultimately show thesis using that by blast
qed

text \<open>The answer to a resubmission, when no statement fails.\<close>

lemma pg_request_accept_again:
  assumes good: "good_requests db" and "pg_request_find no_faults db (rq_source_service r) (rq_id r) = Inr (Some a)"
    and chk: "accepted_requests_check (accepted_request_row_of r f t)"
  shows "snd (pg_request_accept no_faults db t r f) =
    (if r = ar_request a \<and> f = ar_fingerprint a then Inr (RA_SafeRetry a) else Inl (RE_RequestIdConflict (rq_id r)))"
proof -
  obtain q where q: "find (\<lambda>q. request_key q = (rq_source_service r, rq_id r)) (accepted_requests db) = Some q"
    and a: "accepted_request_from_row q = Inr a"
    by (rule accepted_in_table [OF assms(1,2)])
  from find_SomeD [OF q] have key: "fk request_key (accepted_requests db) (rq_source_service r, rq_id r)"
    by (auto simp: fk_iff intro: rev_image_eqI)
  from chk have "sql_text (ActionName_as_str (rq_action r))" "sql_text (Scope_as_str (rq_scope r))"
    "length (RequestFingerprint_as_bytes f) = 32"
    by (simp_all add: accepted_requests_check_def accepted_request_row_of_def action_check_def scope_check_def)
  with chk key show ?thesis
    by (auto simp: pg_request_accept_def Let_def q a append_acceptance_audit_def)
qed

text \<open>C16: A source's request ID names one content forever. After a request was accepted (or
  recognised as a retry), any later submission by the same source under that ID succeeds only if it
  is the same request with the same fingerprint, and then it is a safe retry of the stored record,
  never a fresh acceptance; without failing statements a resubmission that passes the table's checks
  gets exactly that answer, and different content gets \<open>RequestIdConflict\<close>.\<close>

theorem request_id_bound_to_first_content:
  assumes "routing_run\<^sup>*\<^sup>* empty_db db" and "request_wf r" and "pg_request_accept io db t r f = (db1, Inr x)"
    and "routing_run\<^sup>*\<^sup>* db1 db2"
    and "request_wf r'" and "rq_source_service r' = rq_source_service r" and "rq_id r' = rq_id r"
  shows "(snd (pg_request_accept io' db2 t' r' f') = Inr y \<longrightarrow>
        r' = r \<and> f' = f \<and> y = RA_SafeRetry (RequestAcceptance_record x)) \<and>
    (accepted_requests_check (accepted_request_row_of r' f' t') \<longrightarrow>
        snd (pg_request_accept no_faults db2 t' r' f') =
          (if r' = r \<and> f' = f then Inr (RA_SafeRetry (RequestAcceptance_record x))
           else Inl (RE_RequestIdConflict (rq_id r))))"
proof -
  let ?a = "RequestAcceptance_record x"
  note good = routing_reachable [OF assms(1)]
  note good1 = routing_run_good [OF rrun_accept [OF assms(2,3)] good]
  note good2 = routing_runs_good [OF assms(4) good1]
  have "pg_request_find no_faults db1 (rq_source_service r) (rq_id r) = Inr (Some ?a)"
    and a: "ar_request ?a = r" "ar_fingerprint ?a = f"
    using assms(3) good
    by (cases x; auto dest: pgrq.accept_fresh [OF _ assms(2), where src = "rq_source_service r" and i = "rq_id r"]
        pgrq.accept_retry [OF _ assms(2), where src = "rq_source_service r" and i = "rq_id r"])+
  from routing_runs_find [OF assms(4) good1 this(1)]
  have st: "pg_request_find no_faults db2 (rq_source_service r') (rq_id r') = Inr (Some ?a)" by (simp add: assms(6,7))
  have "r' = r \<and> f' = f \<and> y = RA_SafeRetry ?a" if acc: "snd (pg_request_accept io' db2 t' r' f') = Inr y"
  proof -
    obtain db3 where acc': "pg_request_accept io' db2 t' r' f' = (db3, Inr y)"
      using acc by (metis prod.collapse)
    show ?thesis
    proof (cases y)
      case (RA_Accepted b)
      with pgrq.accept_fresh [OF _ assms(5), of db2 io' t' f' db3 b] acc' st good2 show ?thesis by simp
    next
      case (RA_SafeRetry b)
      with pgrq.accept_retry [OF _ assms(5), of db2 io' t' f' db3 b] acc' st good2 a show ?thesis by simp
    qed
  qed
  with pg_request_accept_again [OF conjunct1 [OF good2] st, of f' t', unfolded a assms(7)] show ?thesis by blast
qed

theorem request_id_bound_to_first_content_witness:
  "snd (pg_request_accept no_faults both_submitted_db 120 (request_from (ActorId 1)) sample_fingerprint) =
     Inr (RA_SafeRetry (accepted_from (ActorId 1) 110)) \<and>
   snd (pg_request_accept no_faults both_submitted_db 120 (request_from (ActorId 1)\<lparr>rq_scope := Scope ''other''\<rparr>) sample_fingerprint) =
     Inl (RE_RequestIdConflict (RequestId 30))"
proof -
  let ?r = "request_from (ActorId 1)" and ?r' = "request_from (ActorId 1)\<lparr>rq_scope := Scope ''other''\<rparr>"
  have chk: "accepted_requests_check (accepted_request_row_of ?r sample_fingerprint 120)"
    "accepted_requests_check (accepted_request_row_of ?r' sample_fingerprint 120)"
    "request_wf ?r'" by code_simp+
  have ne: "?r' \<noteq> ?r" "rq_id ?r = RequestId 30" by (simp_all add: request_from_def)
  note th = request_id_bound_to_first_content [OF quiet_reachable request_from_wf submitted
      both_submitted_later, where f' = sample_fingerprint and t' = 120]
  from th [of ?r] th [of ?r'] chk ne request_from_wf [of "ActorId 1"] show ?thesis by simp
qed

section \<open>Routing over the adapters\<close>

text \<open>One materialization may fail where another does not: the failing statements are given per
  route ID, which is fresh for every call.\<close>

definition pg_materialize :: "(RouteId \<Rightarrow> faults) \<Rightarrow> Db \<Rightarrow> Route \<Rightarrow> Db \<times> (RequestError + Route)" where
  "pg_materialize ios db r = pg_route_materialize (ios (rt_id r)) db r"

definition pg_materialize_routes ::
  "Crates \<Rightarrow> faults \<Rightarrow> (RouteId \<Rightarrow> faults) \<Rightarrow> (nat \<Rightarrow> RouteId) \<Rightarrow> Db \<Rightarrow> ActorId \<Rightarrow> RequestId \<Rightarrow> ActionName \<Rightarrow> i64 \<Rightarrow>
   Db \<times> (RequestError + Route list)" where
  "pg_materialize_routes X io ios ids = materialize_routes X (pg_find_active_by_event_type io) (pg_materialize ios) ids"

interpretation pgrts: route_repository good_routes routes_of "pg_materialize ios" for ios
  by standard
    (auto simp: pg_materialize_def dest: pgrt.routes_distinct pgrt.mat_good pgrt.mat_new pgrt.mat_old pgrt.mat_error)

lemma inclusive_only [simp]: "filter (\<lambda>x. sub_delivery_mode x = Inclusive) xs = xs"
  by (auto intro!: filter_True) (metis DeliveryMode.exhaust)

lemma find_active_no_faults:
  "pg_find_active_by_event_type io db t = Inr xs \<Longrightarrow> pg_find_active_by_event_type no_faults db t = Inr xs"
  by (auto simp: pg_find_active_by_event_type_def prod_eq_iff split: db_stmt_splits)

lemma pg_materialize_routes_Inr:
  assumes "pg_materialize_routes X io ios ids db src req action now = (db', Inr rs)"
  obtains t xs where "EventType_new (ActionName_as_str action) = Inr t"
    and "pg_find_active_by_event_type no_faults db t = Inr xs"
    and "materialize_each (pg_materialize ios) ids src req now db 0 xs = (db', Inr rs)"
  using assms find_active_no_faults
  by (auto simp: pg_materialize_routes_def materialize_routes_def split: sum.splits)

text \<open>Materializing touches the routes only, and nothing at all for matches that are stored.\<close>

lemma pg_materialize_frame:
  assumes "good_routes db" and "RouteService_materialize (pg_materialize ios) i db src req sub dst now = (db', y)"
  shows "db' = db\<lparr>request_routes := request_routes db'\<rparr>"
    and "(req, sub) \<in> match_key ` set (routes_of db) \<Longrightarrow> db' = db"
    and "good_routes db'"
proof -
  have "good_routes db' \<and> db' = db\<lparr>request_routes := request_routes db'\<rparr> \<and>
      ((req, sub) \<in> match_key ` set (routes_of db) \<longrightarrow> db' = db)"
  proof (cases "Route_create i src req sub dst now")
    case (Inl e)
    with assms show ?thesis by (simp add: RouteService_materialize_def)
  next
    case (Inr q)
    with assms(2) have m: "pg_route_materialize (ios (rt_id q)) db q = (db', y)"
      by (simp add: RouteService_materialize_def pg_materialize_def)
    from Route_create_Inr [OF Inr] have "match_key q = (req, sub)" by (simp add: match_key_def)
    with assms(1) m show ?thesis
      using materialize_good [OF assms(1) m] by (cases rule: materialize_cases) auto
  qed
  then show "db' = db\<lparr>request_routes := request_routes db'\<rparr>" "good_routes db'"
    and "(req, sub) \<in> match_key ` set (routes_of db) \<Longrightarrow> db' = db" by blast+
qed

lemma materialize_each_frame:
  assumes "good_routes db" and "materialize_each (pg_materialize ios) ids src req now db k xs = (db', y)"
  shows "db' = db\<lparr>request_routes := request_routes db'\<rparr>"
  using assms
proof (induction xs arbitrary: db k db' y)
  case (Cons a xs)
  obtain db1 z where first: "RouteService_materialize (pg_materialize ios) (ids k) db src req (sub_id a) (sub_service_id a) now = (db1, z)"
    by fastforce
  note fr = pg_materialize_frame [OF Cons.prems(1) first]
  obtain db2 w where rest: "materialize_each (pg_materialize ios) ids src req now db1 (k + 1) xs = (db2, w)" by fastforce
  from first rest Cons.prems(2) have "db' = db1 \<or> db' = db2" by (auto split: sum.splits)
  with fr(1) Cons.IH [OF fr(3) rest] show ?case
    by (metis (no_types, lifting) Db.surjective Db.select_convs(21) Db.update_convs(21))
qed simp

lemma materialize_each_stored_db:
  assumes "good_routes db" and "materialize_each (pg_materialize ios) ids src req now db k xs = (db', y)"
    and "\<And>x. x \<in> set xs \<Longrightarrow> (req, sub_id x) \<in> match_key ` set (routes_of db)"
  shows "db' = db"
  using assms
proof (induction xs arbitrary: k y)
  case (Cons a xs)
  obtain db1 z where first: "RouteService_materialize (pg_materialize ios) (ids k) db src req (sub_id a) (sub_service_id a) now = (db1, z)"
    by fastforce
  with pg_materialize_frame(2) [OF Cons.prems(1)] Cons.prems(3) [of a] have "db1 = db" by simp
  moreover obtain db2 w where rest: "materialize_each (pg_materialize ios) ids src req now db (k + 1) xs = (db2, w)"
    by fastforce
  moreover have "db2 = db'" if "db' \<noteq> db"
    using that first rest Cons.prems(2) \<open>db1 = db\<close> by (auto split: sum.splits)
  ultimately show ?case using Cons.IH [of "k + 1"] Cons.prems(1,3) by (metis list.set_intros(2))
qed simp

lemma list_all2_in_right: "list_all2 P xs ys \<Longrightarrow> y \<in> set ys \<Longrightarrow> \<exists>x \<in> set xs. P x y"
  by (induction rule: list_all2_induct) auto

lemma filter_key_unique: "distinct (map f xs) \<Longrightarrow> x \<in> set xs \<Longrightarrow> f x = k \<Longrightarrow> filter (\<lambda>y. f y = k) xs = [x]"
  by (induction xs) (auto simp: filter_empty_conv intro: rev_image_eqI)

lemma list_all2_in_left: "list_all2 P xs ys \<Longrightarrow> x \<in> set xs \<Longrightarrow> \<exists>y \<in> set ys. P x y"
  by (induction rule: list_all2_induct) auto

text \<open>The active subscriptions on an event type, as rows in the registry's order.\<close>

definition active_rows :: "Db \<Rightarrow> EventType \<Rightarrow> subscription_row list" where
  "active_rows db t =
     in_creation_order (filter (\<lambda>r. sbr_event_type r = EventType_as_str t \<and> active_row r) (subscriptions db))"

lemma subscription_from_row_keys:
  "subscription_from_row row = Inr x \<Longrightarrow> sub_id x = sbr_id row \<and> sub_service_id x = sbr_service_id row"
  by (auto simp: subscription_from_row_def Subscription_restore_def split: if_splits)

lemma active_rows_found:
  assumes "pg_find_active_by_event_type no_faults db t = Inr xs"
  shows "list_all2 (\<lambda>row x. sub_id x = sbr_id row \<and> sub_service_id x = sbr_service_id row) (active_rows db t) xs"
proof -
  from assms have "collect_results subscription_from_row (active_rows db t) = Inr xs"
    by (simp add: pg_find_active_by_event_type_def active_rows_def)
  then have "list_all2 (\<lambda>row x. subscription_from_row row = Inr x) (active_rows db t) xs"
    by (simp add: collect_results_Inr_iff)
  then show ?thesis by (rule list_all2_mono) (simp add: subscription_from_row_keys)
qed

lemma one_match:
  assumes "good_routes db" and "r \<in> set (routes_of db)" and "match_key r = k"
  shows "filter (\<lambda>q. match_key q = k) (routes_of db) = [r]"
  using assms by (auto intro: filter_key_unique simp: good_routes_def)

text \<open>C14: Every active subscriber of an action gets exactly one route, and retries add none. A
  successful materialization returns one route for each row of \<open>subscriptions\<close> that is active and has
  the action's name, read as an event type, as its event type, in the registry's order: the returned route is the one and only
  stored route of that request ID and subscription. It removes and changes no stored route; it only
  appends, and what it appends are routes to the service of one of those subscriptions, naming the given
  source, request and time, under a request ID and subscription that had no route before. No other table
  is touched, and no two stored routes ever share request ID and subscription.\<close>

theorem every_active_subscriber_gets_its_route:
  assumes "routing_run\<^sup>*\<^sup>* empty_db db"
    and "pg_materialize_routes X io ios ids db src req action now = (db', Inr rs)"
  shows "\<exists>t xs new. EventType_new (ActionName_as_str action) = Inr t \<and>
    pg_find_active_by_event_type no_faults db t = Inr xs \<and>
    list_all2 (\<lambda>row r. filter (\<lambda>q. match_key q = (req, sbr_id row)) (routes_of db') = [r])
      (active_rows db t) rs \<and>
    list_all2 (\<lambda>x r. r \<in> set (routes_of db') \<and> match_key r = (req, sub_id x)) xs rs \<and>
    routes_of db' = routes_of db @ new \<and>
    (\<forall>r \<in> set new. match_key r \<notin> match_key ` set (routes_of db) \<and>
       (\<exists>row \<in> set (active_rows db t). \<exists>j.
          r = \<lparr>rt_id = ids j, rt_source_service = src, rt_request_id = req, rt_subscription_id = sbr_id row,
               rt_destination_service = sbr_service_id row, rt_created_at = now\<rparr>)) \<and>
    distinct (map match_key (routes_of db')) \<and>
    db' = db\<lparr>request_routes := request_routes db'\<rparr>"
proof -
  note good = conjunct2 [OF routing_reachable [OF assms(1)]]
  obtain t xs where t: "EventType_new (ActionName_as_str action) = Inr t" and xs: "pg_find_active_by_event_type no_faults db t = Inr xs"
    and m: "materialize_each (pg_materialize ios) ids src req now db 0 xs = (db', Inr rs)"
    by (rule pg_materialize_routes_Inr [OF assms(2)])
  note routes = pgrts.materialize_each_routes [OF good m] and rows = active_rows_found [OF xs]
  have good': "good_routes db'" using pgrts.materialize_each_keeps [OF good m] by blast
  have one: "list_all2 (\<lambda>row r. filter (\<lambda>q. match_key q = (req, sbr_id row)) (routes_of db') = [r]) (active_rows db t) rs"
    by (rule list_all2_trans [OF _ rows routes]) (auto intro: one_match [OF good'])
  obtain new where new: "routes_of db' = routes_of db @ new"
    "\<forall>r \<in> set new. match_key r \<notin> match_key ` set (routes_of db) \<and> (\<exists>x \<in> set xs. \<exists>j. r = route_for (ids j) src req now x)"
    using pgrts.materialize_each_appends [OF good m] by blast
  have named: "match_key r \<notin> match_key ` set (routes_of db) \<and> (\<exists>row \<in> set (active_rows db t). \<exists>j.
      r = \<lparr>rt_id = ids j, rt_source_service = src, rt_request_id = req, rt_subscription_id = sbr_id row,
           rt_destination_service = sbr_service_id row, rt_created_at = now\<rparr>)" if "r \<in> set new" for r
  proof -
    from new(2) that obtain x j where "x \<in> set xs" "r = route_for (ids j) src req now x"
      "match_key r \<notin> match_key ` set (routes_of db)" by blast
    moreover from list_all2_in_right [OF rows this(1)] obtain row where
      "row \<in> set (active_rows db t)" "sub_id x = sbr_id row" "sub_service_id x = sbr_service_id row" by blast
    ultimately show ?thesis by (auto simp: route_for_def)
  qed
  have "distinct (map match_key (routes_of db'))" using good' by (simp add: good_routes_def)
  with t xs one routes new(1) named materialize_each_frame [OF good m] show ?thesis by blast
qed

lemma sample_routing:
  "pg_materialize_routes sample_crates no_faults (\<lambda>_. no_faults) (\<lambda>k. RouteId (40 + of_nat k)) db src (RequestId 30)
     (ActionName sample_action) now = sample_routes db src now"
  by (simp add: pg_materialize_routes_def sample_routes_def pg_materialize_def [abs_def])

theorem every_active_subscriber_gets_its_route_witness:
  "filter (\<lambda>q. match_key q = (RequestId 30, SubscriptionId 20)) (routes_of routed_db) = [sample_route]"
proof -
  have "pg_materialize_routes sample_crates no_faults (\<lambda>_. no_faults) (\<lambda>k. RouteId (40 + of_nat k)) both_submitted_db
      (ActorId 1) (RequestId 30) (ActionName sample_action) 113 = (routed_db, Inr [sample_route])"
    by (simp add: sample_routing routed)
  from every_active_subscriber_gets_its_route [OF both_submitted_reachable this] obtain t where
    t: "EventType_new sample_action = Inr t" and
    one: "list_all2 (\<lambda>row r. filter (\<lambda>q. match_key q = (RequestId 30, sbr_id row)) (routes_of routed_db) = [r])
      (active_rows both_submitted_db t) [sample_route]" by auto
  have "EventType_new sample_action = Inr (EventType sample_action)"
    and rows: "map sbr_id (active_rows both_submitted_db (EventType sample_action)) = [SubscriptionId 20]" by code_simp+
  with t one show ?thesis by (auto simp: list_all2_Cons2)
qed


text \<open>Routing the same request again is harmless: after a successful materialization, a second
  one for the same request and action that succeeds, at whatever time and under whatever fresh IDs,
  changes nothing in the database and returns the very routes of the first.\<close>

theorem rerouting_changes_nothing:
  assumes "routing_run\<^sup>*\<^sup>* empty_db db"
    and "pg_materialize_routes X io ios ids db src req action now = (db', Inr rs)"
    and "pg_materialize_routes X io' ios' ids' db' src' req action now' = (db'', Inr rs')"
  shows "db'' = db' \<and> rs' = rs"
proof -
  note good = conjunct2 [OF routing_reachable [OF assms(1)]]
  obtain t xs where t: "EventType_new (ActionName_as_str action) = Inr t"
    "pg_find_active_by_event_type no_faults db t = Inr xs"
    and m: "materialize_each (pg_materialize ios) ids src req now db 0 xs = (db', Inr rs)"
    by (rule pg_materialize_routes_Inr [OF assms(2)])
  obtain t' xs' where t': "EventType_new (ActionName_as_str action) = Inr t'"
    "pg_find_active_by_event_type no_faults db' t' = Inr xs'"
    and m': "materialize_each (pg_materialize ios') ids' src' req now' db' 0 xs' = (db'', Inr rs')"
    by (rule pg_materialize_routes_Inr [OF assms(3)])
  have "subscriptions db' = subscriptions db" by (subst materialize_each_frame [OF good m]) simp
  then have same: "xs' = xs"
    using t t' by (simp add: pg_find_active_by_event_type_def)
  note routes = pgrts.materialize_each_routes [OF good m]
  have good': "good_routes db'" using pgrts.materialize_each_keeps [OF good m] by blast
  have stored: "(req, sub_id x) \<in> match_key ` set (routes_of db')" if "x \<in> set xs" for x
    using list_all2_in_left [OF routes that] by (metis image_eqI)
  have db'': "db'' = db'"
    by (rule materialize_each_stored_db [OF good' m']) (simp add: same stored)
  from pgrts.materialize_each_routes [OF good' m'] have "list_all2 (\<lambda>x r. r \<in> set (routes_of db') \<and> match_key r = (req, sub_id x)) xs rs'"
    by (simp add: same db'')
  with routes have "rs' = rs"
    by (rule pgrts.routes_determined [OF good', symmetric])
  with db'' show ?thesis by blast
qed

theorem rerouting_changes_nothing_witness:
  "sample_routes routed_db (ActorId 1) 200 = (routed_db, Inr [sample_route])"
proof -
  obtain rs where "snd (sample_routes routed_db (ActorId 1) 200) = Inr rs"
    by (rule sum.exhaust [of "snd (sample_routes routed_db (ActorId 1) 200)"]) (code_simp, blast)
  then have again: "sample_routes routed_db (ActorId 1) 200 = (fst (sample_routes routed_db (ActorId 1) 200), Inr rs)"
    by (metis prod.collapse)
  from rerouting_changes_nothing [OF both_submitted_reachable routed [folded sample_routing] again [folded sample_routing]]
    again [folded sample_routing] show ?thesis by (simp only: sample_routing)
qed

text \<open>The stored route of a subscription and a request ID answers for every source: materializing
  that pair again, naming any source, any destination and any time, returns the stored route and
  stores nothing. Request IDs are unique per source only, so a second source that happens to reuse a
  request ID gets, for its own accepted request, the route of the first source's request, and the
  subscriber is never offered the second request.\<close>

theorem route_key_ignores_source:
  assumes "routing_run\<^sup>*\<^sup>* empty_db db" and "r \<in> set (routes_of db)" and "0 \<le> now"
  shows "RouteService_materialize (pg_route_materialize no_faults) i db src (rt_request_id r)
    (rt_subscription_id r) dst now = (db, Inr r)"
proof -
  note good = conjunct2 [OF routing_reachable [OF assms(1)]]
  let ?q = "\<lparr>rt_id = i, rt_source_service = src, rt_request_id = rt_request_id r,
      rt_subscription_id = rt_subscription_id r, rt_destination_service = dst, rt_created_at = now\<rparr>"
  have q: "Route_create i src (rt_request_id r) (rt_subscription_id r) dst now = Inr ?q"
    using assms(3) by (simp add: Route_create_def Route_restore_def)
  have key: "match_key ?q = match_key r" by (simp add: match_key_def)
  obtain db' x where m: "pg_route_materialize no_faults db ?q = (db', x)" by fastforce
  have old: "match_key ?q \<in> match_key ` set (routes_of db)" using key assms(2) by simp
  have "\<exists>r'. x = Inr r'"
  proof -
    have "list_ex (same_match (route_row_of ?q)) (request_routes db)"
      using old by (auto simp: list_ex_iff same_match_iff routes_of_def)
    moreover from this obtain row where row: "find (same_match (route_row_of ?q)) (request_routes db) = Some row"
      by (cases "find (same_match (route_row_of ?q)) (request_routes db)") (auto simp: find_None_iff list_ex_iff)
    moreover have "0 \<le> rrw_created_at row"
      using find_SomeD [OF row] good by (simp add: good_routes_def list_all_iff)
    ultimately show ?thesis using m assms(3) by (auto simp: pg_route_materialize_def Let_def)
  qed
  then obtain r' where x: "x = Inr r'" by blast
  have "r' \<in> set (routes_of db)" "match_key r' = match_key r"
    using pgrt.mat_old [OF good m [unfolded x] old] key by simp_all
  moreover have "inj_on match_key (set (routes_of db))"
    using good by (simp add: good_routes_def distinct_map)
  ultimately have "r' = r" using assms(2) by (metis inj_onD)
  moreover have "db' = db" using good m by (cases rule: materialize_cases) (use old in auto)
  ultimately show ?thesis using m x q by (simp add: RouteService_materialize_def)
qed

theorem route_key_ignores_source_witness:
  "pg_request_find no_faults routed_db (ActorId 3) (RequestId 30) = Inr (Some (accepted_from (ActorId 3) 112)) \<and>
   RouteService_materialize (pg_route_materialize no_faults) (RouteId 41) routed_db (ActorId 3) (RequestId 30)
     (SubscriptionId 20) (ActorId 2) 150 = (routed_db, Inr sample_route) \<and>
   rt_source_service sample_route = ActorId 1"
proof -
  have "pg_request_find no_faults routed_db (ActorId 3) (RequestId 30) = Inr (Some (accepted_from (ActorId 3) 112))"
    by code_simp
  moreover have "sample_route \<in> set (routes_of routed_db)" by (simp add: routed_routes)
  from route_key_ignores_source [OF routed_reachable this, of 150 "RouteId 41" "ActorId 3" "ActorId 2"]
  have "RouteService_materialize (pg_route_materialize no_faults) (RouteId 41) routed_db (ActorId 3) (RequestId 30)
     (SubscriptionId 20) (ActorId 2) 150 = (routed_db, Inr sample_route)"
    by (simp add: sample_route_def)
  ultimately show ?thesis by (simp add: sample_route_def)
qed


section \<open>Reading and working routes\<close>

definition pg_eligible_for :: "Crates \<Rightarrow> Db \<Rightarrow> ActorId \<Rightarrow> i64 \<Rightarrow> RequestError + Route list" where
  "pg_eligible_for X = eligible_for X (pg_list_for_destination no_faults)
     (WorkClaimService_active_route_ids (pg_active_route_ids no_faults)) (pg_completed_route_ids no_faults)"

definition pg_find_for_destination :: "Db \<Rightarrow> ActorId \<Rightarrow> RouteId \<Rightarrow> RequestError + AcceptedRequest option" where
  "pg_find_for_destination = find_for_destination (pg_route_find no_faults) (pg_request_find no_faults)"

text \<open>A route is open when no claim of it is current and none is completed.\<close>

definition open_route :: "Db \<Rightarrow> i64 \<Rightarrow> RouteId \<Rightarrow> bool" where
  "open_route db now i \<longleftrightarrow>
     list_all (\<lambda>c. wc_route_id c = i \<longrightarrow> \<not> is_current c now \<and> wc_status c \<noteq> WcCompleted) (pg_claims db)"

definition route_order :: "Route \<Rightarrow> i64 \<times> Uuid" where
  "route_order r = (rt_created_at r, RouteId_as_uuid (rt_id r))"

lemma is_current_row: "is_current (row_claim r) now \<longleftrightarrow> wcr_status r = ''active'' \<and> now < wcr_lease_expires_at r"
  by (auto simp: is_current_def)

lemma pg_active_route_ids_iff:
  "\<exists>ids. pg_active_route_ids no_faults db is now = Inr ids \<and>
     (\<forall>i \<in> set is. i \<in> ids \<longleftrightarrow> (\<exists>c \<in> set (pg_claims db). wc_route_id c = i \<and> is_current c now))"
  by (auto simp: pg_active_route_ids_def pg_claims_def is_current_row)

lemma pg_completed_route_ids_iff:
  "\<exists>ids. pg_completed_route_ids no_faults db is = Inr ids \<and>
     (\<forall>i \<in> set is. i \<in> ids \<longleftrightarrow> (\<exists>c \<in> set (pg_claims db). wc_route_id c = i \<and> wc_status c = WcCompleted))"
  by (auto simp: pg_completed_route_ids_def pg_claims_def)

lemma pg_list_for_destination_order:
  assumes "good_routes db"
  shows "\<exists>xs. pg_list_for_destination no_faults db d = Inr xs \<and> sorted (map route_order xs) \<and>
    distinct (map rt_id xs) \<and> set xs = {r \<in> set (routes_of db). rt_destination_service r = d}"
proof -
  let ?rows = "filter (\<lambda>r. rrw_destination_service_id r = d) (request_routes db)"
  have "pg_list_for_destination no_faults db d = Inr (map row_route (in_route_order ?rows))"
    using assms by (auto simp: pg_list_for_destination_def good_routes_def list_all_iff intro!: collect_results_all_Inr)
  moreover have "sorted (map route_order (map row_route (in_route_order ?rows)))"
  proof -
    have eq: "map route_order (map row_route (in_route_order ?rows)) =
        map (\<lambda>r. (rrw_created_at r, RouteId_as_uuid (rrw_route_id r))) (in_route_order ?rows)"
      by (simp add: route_order_def row_route_def)
    show ?thesis unfolding eq by (simp add: in_route_order_def)
  qed
  moreover have "distinct (map rrw_route_id (in_route_order ?rows))"
    using assms by (simp add: good_routes_def in_route_order_def distinct_map inj_on_def)
  then have "distinct (map rt_id (map row_route (in_route_order ?rows)))"
    by (simp add: comp_def)
  ultimately show ?thesis by (auto simp: routes_of_def)
qed

text \<open>The offered routes, as a list.\<close>

lemma eligible_routes:
  assumes "routing_run\<^sup>*\<^sup>* empty_db db" and "0 \<le> now"
  shows "\<exists>rs. pg_eligible_for X db d now = Inr rs \<and> sorted (map route_order rs) \<and> distinct (map rt_id rs) \<and>
    set rs = {r \<in> set (routes_of db). rt_destination_service r = d \<and> open_route db now (rt_id r)}"
proof -
  from pg_list_for_destination_order [OF conjunct2 [OF routing_reachable [OF assms(1)]], of d]
  obtain xs where xs: "pg_list_for_destination no_faults db d = Inr xs" "sorted (map route_order xs)"
    "distinct (map rt_id xs)" "set xs = {r \<in> set (routes_of db). rt_destination_service r = d}" by blast
  obtain act where act: "pg_active_route_ids no_faults db (map rt_id xs) now = Inr act"
    "\<And>i. i \<in> set (map rt_id xs) \<Longrightarrow> i \<in> act \<longleftrightarrow> (\<exists>c \<in> set (pg_claims db). wc_route_id c = i \<and> is_current c now)"
    using pg_active_route_ids_iff [of db "map rt_id xs" now] by blast
  obtain done' where completed: "pg_completed_route_ids no_faults db (map rt_id xs) = Inr done'"
    "\<And>i. i \<in> set (map rt_id xs) \<Longrightarrow> i \<in> done' \<longleftrightarrow> (\<exists>c \<in> set (pg_claims db). wc_route_id c = i \<and> wc_status c = WcCompleted)"
    using pg_completed_route_ids_iff [of db "map rt_id xs"] by blast
  let ?rs = "filter (\<lambda>r. rt_id r \<notin> act \<and> rt_id r \<notin> done') xs"
  have "pg_eligible_for X db d now = Inr ?rs"
    using assms(2)
    by (simp add: pg_eligible_for_def eligible_for_def WorkClaimService_active_route_ids_def xs(1) act(1) completed(1) Let_def)
  moreover have "rt_id r \<notin> act \<and> rt_id r \<notin> done' \<longleftrightarrow> open_route db now (rt_id r)" if "r \<in> set xs" for r
    using act(2) [of "rt_id r"] completed(2) [of "rt_id r"] that by (auto simp: open_route_def list_all_iff)
  then have "set ?rs = {r \<in> set (routes_of db). rt_destination_service r = d \<and> open_route db now (rt_id r)}"
    using xs(4) by auto
  moreover have "sorted (map route_order ?rs)" using xs(2) by (rule sorted_filter)
  moreover have "distinct (map rt_id ?rs)" using xs(3) by (simp add: distinct_map inj_on_def)
  ultimately show ?thesis by blast
qed

lemma eligible_set:
  assumes "routing_run\<^sup>*\<^sup>* empty_db db" and "0 \<le> now" and "pg_eligible_for X db d now = Inr rs"
  shows "set rs = {r \<in> set (routes_of db). rt_destination_service r = d \<and> open_route db now (rt_id r)}"
  using eligible_routes [OF assms(1,2), of X d] assms(3) by auto

text \<open>C15: A worker is offered exactly its open routes. Without failing statements the eligible routes
  of a service are the stored routes with that destination that have neither a claim whose lease is
  running nor a completed one; they come oldest first (route ID breaking ties), none twice. (A clock
  before the epoch is rejected.)\<close>

theorem eligible_routes_exact:
  assumes "routing_run\<^sup>*\<^sup>* empty_db db" and "0 \<le> now"
  shows "\<exists>rs. pg_eligible_for X db d now = Inr rs \<and> sorted (map route_order rs) \<and> distinct (map rt_id rs) \<and>
    set rs = {r \<in> set (routes_of db). rt_destination_service r = d \<and> open_route db now (rt_id r)}"
  by (rule eligible_routes [OF assms])

theorem eligible_routes_exact_witness:
  "\<exists>rs. pg_eligible_for sample_crates routed_db (ActorId 2) 120 = Inr rs \<and> sample_route \<in> set rs"
proof -
  have "open_route routed_db 120 (RouteId 40)" by code_simp
  with eligible_routes_exact [OF routed_reachable, of 120 sample_crates "ActorId 2"] show ?thesis
    by (auto simp: routed_routes sample_route_def)
qed


text \<open>C37: A worker reads exactly the request behind its own route: for a stored route, the service it
  is routed to finds the accepted request of the route's source and request ID, and any other caller
  finds nothing.\<close>

theorem routed_request_only_for_its_destination:
  assumes "routing_run\<^sup>*\<^sup>* empty_db db" and "r \<in> set (routes_of db)"
  shows "\<exists>a. pg_find_for_destination db (rt_destination_service r) (rt_id r) = Inr (Some a) \<and>
    pg_request_find no_faults db (rt_source_service r) (rt_request_id r) = Inr (Some a) \<and>
    rq_id (ar_request a) = rt_request_id r \<and> rq_source_service (ar_request a) = rt_source_service r \<and>
    (\<forall>caller. caller \<noteq> rt_destination_service r \<longrightarrow> pg_find_for_destination db caller (rt_id r) = Inr None)"
proof -
  have good: "good_requests db" "good_routes db" using routing_reachable [OF assms(1)] by blast+
  obtain row where row: "row \<in> set (request_routes db)" "r = row_route row"
    using assms(2) by (auto simp: routes_of_def)
  then have "find (\<lambda>q. rrw_route_id q = rt_id r) (request_routes db) = Some row"
    using find_Some_unique [of rrw_route_id "request_routes db" row] good(2) by (simp add: good_routes_def)
  moreover have checked: "0 \<le> rrw_created_at row" "route_reference_error db row = None"
    using good(2) row(1) by (simp_all add: good_routes_def list_all_iff)
  ultimately have found: "pg_route_find no_faults db (rt_id r) = Inr (Some r)"
    by (simp add: pg_route_find_def row(2))
  have "fk (\<lambda>r. (arr_source_service_id r, arr_request_id r)) (accepted_requests db) (rrw_source_service_id row, rrw_request_id row)"
    using checked(2) by (simp add: route_reference_error_def split: if_splits)
  then obtain q0 where "q0 \<in> set (accepted_requests db)" "request_key q0 = (rt_source_service r, rt_request_id r)"
    by (auto simp: fk_iff request_key_def row(2) row_route_def)
  then obtain q where q: "find (\<lambda>q. request_key q = (rt_source_service r, rt_request_id r)) (accepted_requests db) = Some q"
    by (cases "find (\<lambda>q. request_key q = (rt_source_service r, rt_request_id r)) (accepted_requests db)")
      (auto simp: find_None_iff)
  then have a: "pg_request_find no_faults db (rt_source_service r) (rt_request_id r) = Inr (Some (row_accepted q))"
    by (simp add: pg_request_find_view [OF good(1)] request_view_def)
  moreover have "rq_id (ar_request (row_accepted q)) = rt_request_id r" "rq_source_service (ar_request (row_accepted q)) = rt_source_service r"
    using find_SomeD [OF q] by (simp_all add: request_key_def row_accepted_def)
  ultimately show ?thesis by (simp add: pg_find_for_destination_def find_for_destination_def found)
qed

theorem routed_request_only_for_its_destination_witness:
  "pg_find_for_destination routed_db (ActorId 2) (RouteId 40) = Inr (Some (accepted_from (ActorId 1) 110)) \<and>
   pg_find_for_destination routed_db (ActorId 3) (RouteId 40) = Inr None"
proof -
  have "sample_route \<in> set (routes_of routed_db)" by (simp add: routed_routes)
  note th = routed_request_only_for_its_destination [OF routed_reachable this]
  have "pg_request_find no_faults routed_db (ActorId 1) (RequestId 30) = Inr (Some (accepted_from (ActorId 1) 110))"
    by code_simp
  with th show ?thesis by (auto simp: sample_route_def)
qed

text \<open>C36: An offered route can be claimed. When a route is offered to its service at \<open>now\<close> and no
  statement fails, a claim by any registered instance, under a fresh claim ID and with a lease that
  ends after \<open>now\<close>, succeeds (as long as the route's 64-bit token is not exhausted): it yields an
  active claim of that route for that worker, and until the lease ends no service is offered the
  route again.\<close>

theorem offered_route_can_be_claimed:
  assumes "routing_run\<^sup>*\<^sup>* empty_db db" and "work_claims_run\<^sup>*\<^sup>* empty_db db"
    and "0 \<le> now" and "pg_eligible_for X db d now = Inr rs" and "r \<in> set rs"
    and "i \<notin> wc_id ` set (pg_claims db)" and "fk sir_instance_id (service_instances db) w" and "now < lease"
    and "\<And>c. c \<in> set (pg_claims db) \<Longrightarrow> wc_route_id c = rt_id r \<Longrightarrow> wc_fencing_token c < i64_max"
  shows "\<exists>db' token. WorkClaimService_claim (pg_claim no_faults i) db (rt_id r) d w lease now =
      (db', Inr (new_claim i (rt_id r) d w token lease now)) \<and>
    (\<forall>t. t < lease \<longrightarrow> \<not> open_route db' t (rt_id r))"
proof -
  have routes: "good_routes db" using routing_reachable [OF assms(1)] by blast
  note good = good_claims_reachable [OF assms(2)]
  from eligible_set [OF assms(1,3,4)] assms(5)
  have r: "r \<in> set (routes_of db)" "rt_destination_service r = d" "open_route db now (rt_id r)" by auto
  obtain row where row: "row \<in> set (request_routes db)" "r = row_route row"
    using r(1) by (auto simp: routes_of_def)
  then have found: "find (\<lambda>q. rrw_route_id q = rt_id r) (request_routes db) = Some row"
    using find_Some_unique [of rrw_route_id "request_routes db" row] routes by (simp add: good_routes_def)
  have "route_reference_error db row = None"
    using routes row(1) by (simp add: good_routes_def list_all_iff)
  then have fk_d: "fk idr_id (identities db) d"
    using r(2) row(2) by (simp add: route_reference_error_def split: if_splits)
  have "\<exists>token. snd (pg_claim no_faults i db (rt_id r) d w lease now) = Inr (new_claim i (rt_id r) d w token lease now)"
    by (rule pg_claim_succeeds [OF good found _ _ assms(9,6) fk_d assms(7,3,8)])
      (use r row(2) in \<open>auto simp: open_route_def list_all_iff\<close>)
  then obtain db' token where c: "pg_claim no_faults i db (rt_id r) d w lease now = (db', Inr (new_claim i (rt_id r) d w token lease now))"
    by (metis prod.collapse)
  then have "WorkClaimService_claim (pg_claim no_faults i) db (rt_id r) d w lease now =
      (db', Inr (new_claim i (rt_id r) d w token lease now))"
    using assms(3,8) by (simp add: WorkClaimService_claim_def)
  moreover have "new_claim i (rt_id r) d w token lease now \<in> set (pg_claims db')"
    using pgwc.claim_refines [OF good c] spec_claim_token(2) by blast
  from bspec [OF _ this, of "\<lambda>c. wc_route_id c = rt_id r \<longrightarrow> \<not> is_current c t \<and> wc_status c \<noteq> WcCompleted" for t]
  have "\<not> open_route db' t (rt_id r)" if "t < lease" for t
    using that by (auto simp: open_route_def list_all_iff is_current_def)
  ultimately show ?thesis by blast
qed

lemma routed_claims_reachable: "work_claims_run\<^sup>*\<^sup>* empty_db routed_db"
proof -
  have "work_claims routed_db = work_claims empty_db" by code_simp
  then show ?thesis by (intro r_into_rtranclp run_other)
qed

theorem offered_route_can_be_claimed_witness:
  "\<exists>db' token. WorkClaimService_claim (pg_claim no_faults (ClaimId 50)) routed_db (RouteId 40) (ActorId 2) (InstanceId 10) 150 120 =
      (db', Inr (new_claim (ClaimId 50) (RouteId 40) (ActorId 2) (InstanceId 10) token 150 120)) \<and>
    \<not> open_route db' 130 (RouteId 40)"
proof -
  have el: "pg_eligible_for sample_crates routed_db (ActorId 2) 120 = Inr [sample_route]"
    and claims: "pg_claims routed_db = []"
    and w: "fk sir_instance_id (service_instances routed_db) (InstanceId 10)" by code_simp+
  have "rt_id sample_route = RouteId 40" by (simp add: sample_route_def)
  with offered_route_can_be_claimed [OF routed_reachable routed_claims_reachable _ el _ _ w, of sample_route "ClaimId 50" 150]
  show ?thesis by (auto simp: claims)
qed

end
