(* ===== verification/Enrollment.thy ===== *)
theory Enrollment
  imports Instance_Registry
begin

text \<open>
  \<open>src/kernel/enrollment.rs\<close>: a workload proves with a Kubernetes token and a signed challenge
  which service it may become, before its key enters the registry. The token reviewer is a
  parameter, the repository of bindings and challenges a locale.
\<close>

datatype EnrollmentError =
    EE_AudienceMismatch
  | EE_BindingDisabled
  | EE_BindingNotFound
  | EE_ChallengeRejected
  | EE_InvalidField
  | EE_InvalidProof
  | EE_PodMismatch
  | EE_Repository string
  | EE_Registry InstanceRegistryError
  | EE_ServiceMismatch
  | EE_TokenRejected

definition ENROLLMENT_AUDIENCE :: string where
  "ENROLLMENT_AUDIENCE = ''infernal-law-enrollment''"

definition CHALLENGE_LIFETIME_SECONDS :: i64 where
  "CHALLENGE_LIFETIME_SECONDS = 30"

definition ENROLLMENT_PROOF_CONTEXT :: bytes where
  "ENROLLMENT_PROOF_CONTEXT = ''infernal-law/enrollment/v1''"

definition CHALLENGE_LENGTH :: nat where
  "CHALLENGE_LENGTH = 32"

definition MAX_NAME_LENGTH :: nat where
  "MAX_NAME_LENGTH = 253"

definition MAX_UID_LENGTH :: nat where
  "MAX_UID_LENGTH = 253"

definition MAX_TOKEN_LENGTH :: nat where
  "MAX_TOKEN_LENGTH = 32 * 1024"

datatype EnrollmentChallenge = EnrollmentChallenge bytes

primrec EnrollmentChallenge_as_bytes :: "EnrollmentChallenge \<Rightarrow> bytes" where
  "EnrollmentChallenge_as_bytes (EnrollmentChallenge b) = b"

lemma EnrollmentChallenge_as_bytes_inj [simp]:
  "EnrollmentChallenge_as_bytes c = EnrollmentChallenge_as_bytes d \<longleftrightarrow> c = d"
  by (cases c; cases d) simp

definition enrollment_field :: "string \<Rightarrow> nat \<Rightarrow> EnrollmentError + string" where
  "enrollment_field value max_len =
     (let value = str_trim value in
      if value = [] \<or> length value > max_len \<or> CHR 0x00 \<in> set value then Inl EE_InvalidField else Inr value)"

definition enrollment_endpoint :: "string \<Rightarrow> EnrollmentError + string" where
  "enrollment_endpoint value =
     bind_result (enrollment_field value 2048) (\<lambda>endpoint.
       if endpoint = ''https://'' \<or> \<not> starts_with ''https://'' endpoint then Inl EE_InvalidField
       else Inr endpoint)"

record VerifiedWorkload =
  vw_namespace :: string
  vw_service_account :: string
  vw_service_account_uid :: string
  vw_pod_name :: string
  vw_pod_uid :: string
  vw_audiences :: "string list"

definition VerifiedWorkload_new ::
  "string \<Rightarrow> string \<Rightarrow> string \<Rightarrow> string \<Rightarrow> string \<Rightarrow> string list \<Rightarrow> EnrollmentError + VerifiedWorkload" where
  "VerifiedWorkload_new namespace service_account service_account_uid pod_name pod_uid audiences =
     bind_result (enrollment_field namespace MAX_NAME_LENGTH) (\<lambda>namespace.
     bind_result (enrollment_field service_account MAX_NAME_LENGTH) (\<lambda>service_account.
     bind_result (enrollment_field service_account_uid MAX_UID_LENGTH) (\<lambda>service_account_uid.
     bind_result (enrollment_field pod_name MAX_NAME_LENGTH) (\<lambda>pod_name.
     bind_result (enrollment_field pod_uid MAX_UID_LENGTH) (\<lambda>pod_uid.
       Inr \<lparr>vw_namespace = namespace, vw_service_account = service_account,
            vw_service_account_uid = service_account_uid, vw_pod_name = pod_name, vw_pod_uid = pod_uid,
            vw_audiences = audiences\<rparr>)))))"

record EnrollmentBinding =
  eb_service_id :: ActorId
  eb_namespace :: string
  eb_service_account :: string
  eb_service_account_uid :: string
  eb_enabled :: bool

definition EnrollmentBinding_restore ::
  "ActorId \<Rightarrow> string \<Rightarrow> string \<Rightarrow> string \<Rightarrow> bool \<Rightarrow> EnrollmentError + EnrollmentBinding" where
  "EnrollmentBinding_restore service_id namespace service_account service_account_uid enabled =
     bind_result (enrollment_field namespace MAX_NAME_LENGTH) (\<lambda>namespace.
     bind_result (enrollment_field service_account MAX_NAME_LENGTH) (\<lambda>service_account.
     bind_result (enrollment_field service_account_uid MAX_UID_LENGTH) (\<lambda>service_account_uid.
       Inr \<lparr>eb_service_id = service_id, eb_namespace = namespace, eb_service_account = service_account,
            eb_service_account_uid = service_account_uid, eb_enabled = enabled\<rparr>)))"

definition EnrollmentBinding_new_disabled ::
  "ActorId \<Rightarrow> string \<Rightarrow> string \<Rightarrow> string \<Rightarrow> EnrollmentError + EnrollmentBinding" where
  "EnrollmentBinding_new_disabled service_id namespace service_account service_account_uid =
     EnrollmentBinding_restore service_id namespace service_account service_account_uid False"

record EnrollmentRequest =
  er_challenge :: EnrollmentChallenge
  er_public_key :: InstancePublicKey
  er_endpoint :: string
  er_claimed_pod_uid :: string
  er_workload_token :: string
  er_signature :: InstanceSignature

text \<open>The signed bytes: every field with its length as a big-endian \<open>u32\<close>.\<close>

definition proof_fields ::
  "Crates \<Rightarrow> EnrollmentChallenge \<Rightarrow> InstancePublicKey \<Rightarrow> string \<Rightarrow> string \<Rightarrow> string \<Rightarrow> bytes list" where
  "proof_fields X challenge public_key endpoint pod_uid token =
     [ENROLLMENT_PROOF_CONTEXT,
      EnrollmentChallenge_as_bytes challenge,
      uuid_as_bytes X (ActorId_as_uuid (ipk_service_id public_key)),
      uuid_as_bytes X (InstanceId_as_uuid (ipk_instance_id public_key)),
      uuid_as_bytes X (KeyId_as_uuid (ipk_key_id public_key)),
      ipk_public_key public_key,
      endpoint,
      pod_uid,
      sha256 X token]"

definition proof_message ::
  "Crates \<Rightarrow> EnrollmentChallenge \<Rightarrow> InstancePublicKey \<Rightarrow> string \<Rightarrow> string \<Rightarrow> string \<Rightarrow> bytes" where
  "proof_message X challenge public_key endpoint pod_uid token =
     concat (map (len_prefixed 4) (proof_fields X challenge public_key endpoint pod_uid token))"

definition EnrollmentRequest_restore ::
  "EnrollmentChallenge \<Rightarrow> InstancePublicKey \<Rightarrow> string \<Rightarrow> string \<Rightarrow> string \<Rightarrow> InstanceSignature
   \<Rightarrow> EnrollmentError + EnrollmentRequest" where
  "EnrollmentRequest_restore challenge public_key endpoint claimed_pod_uid workload_token signature =
     bind_result (enrollment_endpoint endpoint) (\<lambda>endpoint.
     bind_result (enrollment_field claimed_pod_uid MAX_UID_LENGTH) (\<lambda>claimed_pod_uid.
       if workload_token = [] \<or> length workload_token > MAX_TOKEN_LENGTH then Inl EE_InvalidField
       else Inr \<lparr>er_challenge = challenge, er_public_key = public_key, er_endpoint = endpoint,
                 er_claimed_pod_uid = claimed_pod_uid, er_workload_token = workload_token,
                 er_signature = signature\<rparr>))"

definition EnrollmentRequest_sign ::
  "Crates \<Rightarrow> InstanceCredential \<Rightarrow> EnrollmentChallenge \<Rightarrow> string \<Rightarrow> string \<Rightarrow> string
   \<Rightarrow> EnrollmentError + EnrollmentRequest" where
  "EnrollmentRequest_sign X credential challenge endpoint claimed_pod_uid workload_token =
     bind_result (enrollment_endpoint endpoint) (\<lambda>endpoint.
     bind_result (enrollment_field claimed_pod_uid MAX_UID_LENGTH) (\<lambda>claimed_pod_uid.
       if workload_token = [] \<or> length workload_token > MAX_TOKEN_LENGTH then Inl EE_InvalidField
       else let public_key = ic_public_key credential;
                message = proof_message X challenge public_key endpoint claimed_pod_uid workload_token
            in Inr \<lparr>er_challenge = challenge, er_public_key = public_key, er_endpoint = endpoint,
                    er_claimed_pod_uid = claimed_pod_uid, er_workload_token = workload_token,
                    er_signature = InstanceCredential_sign X credential message\<rparr>))"


section \<open>The service\<close>

type_synonym token_reviewer = "string \<Rightarrow> string \<Rightarrow> EnrollmentError + VerifiedWorkload"

definition issue_challenge ::
  "('s \<Rightarrow> ActorId \<Rightarrow> EnrollmentChallenge \<Rightarrow> i64 \<Rightarrow> 's \<times> (EnrollmentError + unit)) \<Rightarrow> EnrollmentChallenge \<Rightarrow>
   's \<Rightarrow> ActorId \<Rightarrow> i64 \<Rightarrow> 's \<times> (EnrollmentError + EnrollmentChallenge)" where
  "issue_challenge insert_challenge new_challenge s service_id now =
     (case (if now < 0 then Inl EE_InvalidField
            else ok_or EE_InvalidField (checked_add now CHALLENGE_LIFETIME_SECONDS)) of
        Inl e \<Rightarrow> (s, Inl e)
      | Inr expires_at \<Rightarrow>
          (case insert_challenge s service_id new_challenge expires_at of
             (s', Inl e) \<Rightarrow> (s', Inl e)
           | (s', Inr _) \<Rightarrow> (s', Inr new_challenge)))"

text \<open>What both entry points check of a token: its audience, its Pod, and its enabled binding.\<close>

definition enabled_binding_of ::
  "token_reviewer \<Rightarrow> ('s \<Rightarrow> string \<Rightarrow> string \<Rightarrow> string \<Rightarrow> EnrollmentError + EnrollmentBinding option) \<Rightarrow>
   's \<Rightarrow> string \<Rightarrow> string \<Rightarrow> EnrollmentError + EnrollmentBinding" where
  "enabled_binding_of review find_workload s workload_token claimed_pod_uid =
     bind_result (review workload_token ENROLLMENT_AUDIENCE) (\<lambda>workload.
       if ENROLLMENT_AUDIENCE \<notin> set (vw_audiences workload) then Inl EE_AudienceMismatch
       else if vw_pod_uid workload \<noteq> claimed_pod_uid then Inl EE_PodMismatch
       else bind_result (find_workload s (vw_namespace workload) (vw_service_account workload)
                           (vw_service_account_uid workload)) (\<lambda>found.
            bind_result (ok_or EE_BindingNotFound found) (\<lambda>binding.
              if \<not> eb_enabled binding then Inl EE_BindingDisabled else Inr binding)))"

definition issue_challenge_for_workload ::
  "token_reviewer \<Rightarrow> ('s \<Rightarrow> string \<Rightarrow> string \<Rightarrow> string \<Rightarrow> EnrollmentError + EnrollmentBinding option) \<Rightarrow>
   ('s \<Rightarrow> ActorId \<Rightarrow> EnrollmentChallenge \<Rightarrow> i64 \<Rightarrow> 's \<times> (EnrollmentError + unit)) \<Rightarrow> EnrollmentChallenge \<Rightarrow>
   's \<Rightarrow> string \<Rightarrow> string \<Rightarrow> i64 \<Rightarrow> 's \<times> (EnrollmentError + ActorId \<times> EnrollmentChallenge)" where
  "issue_challenge_for_workload review find_workload insert_challenge new_challenge s workload_token
      claimed_pod_uid now =
     (case bind_result (enrollment_field claimed_pod_uid MAX_UID_LENGTH)
             (enabled_binding_of review find_workload s workload_token) of
        Inl e \<Rightarrow> (s, Inl e)
      | Inr binding \<Rightarrow>
          (case issue_challenge insert_challenge new_challenge s (eb_service_id binding) now of
             (s', Inl e) \<Rightarrow> (s', Inl e)
           | (s', Inr challenge) \<Rightarrow> (s', Inr (eb_service_id binding, challenge))))"

text \<open>The checks of \<open>authenticate_and_register\<close> before it changes anything.\<close>

definition enrollment_admissible ::
  "Crates \<Rightarrow> token_reviewer \<Rightarrow> ('s \<Rightarrow> string \<Rightarrow> string \<Rightarrow> string \<Rightarrow> EnrollmentError + EnrollmentBinding option) \<Rightarrow>
   's \<Rightarrow> EnrollmentRequest \<Rightarrow> EnrollmentError + unit" where
  "enrollment_admissible X review find_workload s request =
     bind_result (map_err (\<lambda>_. EE_InvalidProof)
        (InstancePublicKey_verify X (er_public_key request)
          (proof_message X (er_challenge request) (er_public_key request) (er_endpoint request)
             (er_claimed_pod_uid request) (er_workload_token request))
          (er_signature request))) (\<lambda>_.
     bind_result (enabled_binding_of review find_workload s (er_workload_token request)
        (er_claimed_pod_uid request)) (\<lambda>binding.
       if eb_service_id binding \<noteq> ipk_service_id (er_public_key request) then Inl EE_ServiceMismatch
       else Inr ()))"

definition authenticate_and_register ::
  "Crates \<Rightarrow> token_reviewer \<Rightarrow> ('s \<Rightarrow> string \<Rightarrow> string \<Rightarrow> string \<Rightarrow> EnrollmentError + EnrollmentBinding option) \<Rightarrow>
   ('s \<Rightarrow> ActorId \<Rightarrow> EnrollmentChallenge \<Rightarrow> i64 \<Rightarrow> 's \<times> (EnrollmentError + unit)) \<Rightarrow>
   ('s \<Rightarrow> InstancePublicKey \<Rightarrow> string \<Rightarrow> i64 \<Rightarrow> 's \<times> (InstanceRegistryError + RegisteredInstance)) \<Rightarrow>
   's \<Rightarrow> EnrollmentRequest \<Rightarrow> i64 \<Rightarrow> 's \<times> (EnrollmentError + RegisteredInstance)" where
  "authenticate_and_register X review find_workload consume_challenge register s request now =
     (case enrollment_admissible X review find_workload s request of
        Inl e \<Rightarrow> (s, Inl e)
      | Inr _ \<Rightarrow>
          (case consume_challenge s (ipk_service_id (er_public_key request)) (er_challenge request) now of
             (s', Inl e) \<Rightarrow> (s', Inl e)
           | (s', Inr _) \<Rightarrow>
               (case register s' (er_public_key request) (er_endpoint request) now of
                  (s'', Inl e) \<Rightarrow> (s'', Inl (EE_Registry e))
                | (s'', Inr instance) \<Rightarrow> (s'', Inr instance))))"


section \<open>The signed proof\<close>

definition enrollment_request_wf :: "EnrollmentRequest \<Rightarrow> bool" where
  "enrollment_request_wf r \<longleftrightarrow>
     length (EnrollmentChallenge_as_bytes (er_challenge r)) = CHALLENGE_LENGTH \<and>
     length (ipk_public_key (er_public_key r)) = PUBLIC_KEY_LENGTH \<and>
     length (er_endpoint r) \<le> 2048 \<and> length (er_claimed_pod_uid r) \<le> MAX_UID_LENGTH"

lemma enrollment_field_length: "enrollment_field v n = Inr s \<Longrightarrow> length s \<le> n"
  by (auto simp: enrollment_field_def Let_def split: if_splits)

lemma EnrollmentRequest_restore_wf:
  assumes "EnrollmentRequest_restore c k e p t sig = Inr r"
    and "length (EnrollmentChallenge_as_bytes c) = CHALLENGE_LENGTH" and "length (ipk_public_key k) = PUBLIC_KEY_LENGTH"
  shows "enrollment_request_wf r"
  using assms
  by (auto simp: EnrollmentRequest_restore_def enrollment_request_wf_def enrollment_endpoint_def
      dest!: enrollment_field_length split: if_splits)

text \<open>The proof pins the challenge, the key with its IDs, the endpoint, the Pod and the token's digest.\<close>

lemma proof_message_inj:
  assumes X: "uuid_bytes_ok X" "sha256_ok X" and "enrollment_request_wf r" and "enrollment_request_wf q"
    and eq: "proof_message X (er_challenge r) (er_public_key r) (er_endpoint r) (er_claimed_pod_uid r) (er_workload_token r) =
      proof_message X (er_challenge q) (er_public_key q) (er_endpoint q) (er_claimed_pod_uid q) (er_workload_token q)"
  shows "er_challenge r = er_challenge q \<and> er_public_key r = er_public_key q \<and> er_endpoint r = er_endpoint q \<and>
    er_claimed_pod_uid r = er_claimed_pod_uid q \<and> sha256 X (er_workload_token r) = sha256 X (er_workload_token q)"
proof -
  have inj: "inj (uuid_as_bytes X)" and len: "length (uuid_as_bytes X u) = 16" for u
    using X(1) by (simp_all add: uuid_bytes_ok_def)
  let ?fields = "\<lambda>r. proof_fields X (er_challenge r) (er_public_key r) (er_endpoint r) (er_claimed_pod_uid r) (er_workload_token r)"
  have small: "length f < 256 ^ 4" if "f \<in> set (?fields r) \<union> set (?fields q)" for f
    using that assms(3,4) X(2) len
    by (auto simp: proof_fields_def enrollment_request_wf_def sha256_ok_def CHALLENGE_LENGTH_def PUBLIC_KEY_LENGTH_def
        MAX_UID_LENGTH_def ENROLLMENT_PROOF_CONTEXT_def)
  have "length (?fields r) = length (?fields q)" by (simp add: proof_fields_def)
  from concat_len_prefixed_inj [OF eq [unfolded proof_message_def] this small] have "?fields r = ?fields q" .
  then show ?thesis
    by (cases "er_public_key r"; cases "er_public_key q") (auto simp: proof_fields_def dest: injD [OF inj])
qed

lemma sign_admissible:
  assumes "ed25519_ok X" and "c = InstanceCredential_generate X sk i k a"
    and "EnrollmentRequest_sign X c ch ep pod token = Inr r"
    and "enabled_binding_of review find_workload s token (er_claimed_pod_uid r) = Inr b" and "eb_service_id b = a"
  shows "enrollment_admissible X review find_workload s r = Inr ()"
proof -
  have key: "ipk_service_id (ic_public_key c) = a" by (simp add: assms(2) InstanceCredential_generate_def)
  from assms(3) have r: "er_workload_token r = token" "er_public_key r = ic_public_key c"
    "er_signature r = InstanceCredential_sign X c (proof_message X (er_challenge r) (er_public_key r) (er_endpoint r)
       (er_claimed_pod_uid r) (er_workload_token r))"
    by (auto simp: EnrollmentRequest_sign_def Let_def split: if_splits)
  have "InstancePublicKey_verify X (er_public_key r) (proof_message X (er_challenge r) (er_public_key r) (er_endpoint r)
       (er_claimed_pod_uid r) (er_workload_token r)) (er_signature r) = Inr ()"
    unfolding r(3) unfolding r(2) by (rule generated_credential_verifies [OF assms(1,2)])
  with assms(4,5) r key show ?thesis by (simp add: enrollment_admissible_def)
qed


section \<open>The repository contract\<close>

text \<open>
  The laws of \<open>EnrollmentBindingRepository\<close> that one-time use rests on: a challenge is recorded
  once, for one service, until its expiry; it is consumed only by that service, before the expiry and
  while unused; and a used challenge stays used.
\<close>

locale enrollment_repository =
  fixes good_enr :: "'s \<Rightarrow> bool"
    and challenge_of :: "'s \<Rightarrow> EnrollmentChallenge \<Rightarrow> (ActorId \<times> i64 \<times> i64 option) option"
    and insert_op :: "'s \<Rightarrow> ActorId \<Rightarrow> EnrollmentChallenge \<Rightarrow> i64 \<Rightarrow> 's \<times> (EnrollmentError + unit)"
    and consume_op :: "'s \<Rightarrow> ActorId \<Rightarrow> EnrollmentChallenge \<Rightarrow> i64 \<Rightarrow> 's \<times> (EnrollmentError + unit)"
  assumes insert_good: "good_enr s \<Longrightarrow> insert_op s a c e = (s', x) \<Longrightarrow> good_enr s' \<and>
      (challenge_of s d \<noteq> None \<longrightarrow> challenge_of s' d = challenge_of s d)"
    and insert_new: "good_enr s \<Longrightarrow> insert_op s a c e = (s', Inr u) \<Longrightarrow>
      challenge_of s c = None \<and> challenge_of s' c = Some (a, e, None)"
    and consume_good: "good_enr s \<Longrightarrow> consume_op s a c now = (s', x) \<Longrightarrow> good_enr s' \<and>
      (challenge_of s d = Some (b, e, Some t) \<longrightarrow> challenge_of s' d = Some (b, e, Some t))"
    and consume_open: "good_enr s \<Longrightarrow> consume_op s a c now = (s', Inr u) \<Longrightarrow>
      \<exists>e. challenge_of s c = Some (a, e, None) \<and> now < e \<and> challenge_of s' c = Some (a, e, Some now)"
begin

definition used :: "'s \<Rightarrow> EnrollmentChallenge \<Rightarrow> bool" where
  "used s c \<longleftrightarrow> (\<exists>a e t. challenge_of s c = Some (a, e, Some t))"

lemma used_not_consumed:
  assumes "good_enr s" and "used s c"
  shows "consume_op s a c now \<noteq> (s', Inr u)"
  using consume_open [OF assms(1)] assms(2) by (fastforce simp: used_def)

lemma used_stays:
  assumes "good_enr s" and "used s c"
  shows "insert_op s a d e = (s', x) \<Longrightarrow> used s' c" and "consume_op s a d now = (s', x') \<Longrightarrow> used s' c"
  using assms insert_good [OF assms(1), of a d e s' x c] consume_good [OF assms(1), of a d now s' x' c]
  by (auto simp: used_def)

text \<open>An enrollment succeeds only by consuming the service's open, unexpired challenge, which is used
  afterwards whatever the registry answers.\<close>

lemma authenticate_consumes:
  assumes "good_enr s"
    and "authenticate_and_register X review find_workload consume_op register s r now = (s', Inr inst)"
  obtains s1 u e where "enrollment_admissible X review find_workload s r = Inr ()"
    and "consume_op s (ipk_service_id (er_public_key r)) (er_challenge r) now = (s1, Inr u)"
    and "challenge_of s (er_challenge r) = Some (ipk_service_id (er_public_key r), e, None)" and "now < e"
    and "good_enr s1" and "used s1 (er_challenge r)"
    and "register s1 (er_public_key r) (er_endpoint r) now = (s', Inr inst)"
proof -
  from assms(2) obtain s1 u where adm: "enrollment_admissible X review find_workload s r = Inr ()"
    and con: "consume_op s (ipk_service_id (er_public_key r)) (er_challenge r) now = (s1, Inr u)"
    and reg: "register s1 (er_public_key r) (er_endpoint r) now = (s', Inr inst)"
    by (auto simp: authenticate_and_register_def split: sum.splits prod.splits)
  from consume_open [OF assms(1) con] obtain e where
    "challenge_of s (er_challenge r) = Some (ipk_service_id (er_public_key r), e, None)" "now < e"
    "challenge_of s1 (er_challenge r) = Some (ipk_service_id (er_public_key r), e, Some now)" by blast
  moreover have "good_enr s1" using consume_good [OF assms(1) con] by blast
  ultimately show thesis using that adm con reg by (auto simp: used_def)
qed

lemma used_rejects_enrollment:
  assumes "good_enr s" and "used s (er_challenge r)"
  shows "snd (authenticate_and_register X review find_workload consume_op register s r now) \<noteq> Inr inst"
proof
  assume "snd (authenticate_and_register X review find_workload consume_op register s r now) = Inr inst"
  then obtain s' where "authenticate_and_register X review find_workload consume_op register s r now = (s', Inr inst)"
    by (metis prod.collapse)
  then show False
    by (rule authenticate_consumes [OF assms(1)]) (use used_not_consumed [OF assms] in blast)
qed

end

end
