(* ===== verification/Pg_Enrollment.thy ===== *)
theory Pg_Enrollment
  imports Enrollment Database
begin

text \<open>
  \<open>src/infrastructure/postgres_enrollment_binding_repository.rs\<close> on the tables of migration
  0003; every operation is one statement on its own (statement 0 is the connection). The
  interpretation \<open>pgenr\<close> discharges the laws of \<open>enrollment_repository\<close>.
\<close>

abbreviation enr_stmt ::
  "faults \<Rightarrow> nat \<Rightarrow> Db \<Rightarrow> Db \<times> (EnrollmentError + 'a) \<Rightarrow> Db \<times> (EnrollmentError + 'a)" where
  "enr_stmt io k db rest \<equiv> db_stmt io k EE_Repository db rest"

definition enrollment_text_check :: "string \<Rightarrow> bool" where
  "enrollment_text_check s \<longleftrightarrow> sql_text s \<and> length_between 1 253 (btrim s)"

definition workload_key :: "binding_row \<Rightarrow> string \<times> string \<times> string" where
  "workload_key r = (ebr_namespace r, ebr_service_account r, ebr_service_account_uid r)"

definition pg_insert_disabled :: "faults \<Rightarrow> Db \<Rightarrow> EnrollmentBinding \<Rightarrow> Db \<times> (EnrollmentError + unit)" where
  "pg_insert_disabled io db binding =
     enr_stmt io 0 db (enr_stmt io 1 db (
       let row = \<lparr>ebr_service_id = eb_service_id binding, ebr_namespace = eb_namespace binding,
                  ebr_service_account = eb_service_account binding,
                  ebr_service_account_uid = eb_service_account_uid binding, ebr_enabled = False\<rparr>
       in if \<not> (enrollment_text_check (ebr_namespace row) \<and> enrollment_text_check (ebr_service_account row) \<and>
                 enrollment_text_check (ebr_service_account_uid row))
          then (db, Inl (EE_Repository db_error))
          else if fk ebr_service_id (service_enrollment_bindings db) (ebr_service_id row)
             \<or> fk workload_key (service_enrollment_bindings db) (workload_key row)
          then (db, Inl (EE_Repository ''enrollment binding already exists''))
          else if \<not> fk idr_id (identities db) (ebr_service_id row)
          then (db, Inl (EE_Repository ''service identity was not found''))
          else (db\<lparr>service_enrollment_bindings := service_enrollment_bindings db @ [row]\<rparr>, Inr ())))"

definition pg_set_enabled :: "faults \<Rightarrow> Db \<Rightarrow> ActorId \<Rightarrow> bool \<Rightarrow> Db \<times> (EnrollmentError + unit)" where
  "pg_set_enabled io db service_id enabled =
     enr_stmt io 0 db (enr_stmt io 1 db (
       let rows = count_where (\<lambda>r. ebr_service_id r = service_id) (service_enrollment_bindings db);
           db' = db\<lparr>service_enrollment_bindings :=
             update_where (\<lambda>r. ebr_service_id r = service_id) (\<lambda>r. r\<lparr>ebr_enabled := enabled\<rparr>)
               (service_enrollment_bindings db)\<rparr>
       in if rows \<noteq> 1 then (db', Inl EE_BindingNotFound) else (db', Inr ())))"

definition binding_from_row :: "binding_row \<Rightarrow> EnrollmentError + EnrollmentBinding" where
  "binding_from_row row =
     map_err (\<lambda>_. EE_Repository ''stored enrollment binding is invalid'')
       (EnrollmentBinding_restore (ebr_service_id row) (ebr_namespace row) (ebr_service_account row)
          (ebr_service_account_uid row) (ebr_enabled row))"

definition pg_find_workload ::
  "faults \<Rightarrow> Db \<Rightarrow> string \<Rightarrow> string \<Rightarrow> string \<Rightarrow> EnrollmentError + EnrollmentBinding option" where
  "pg_find_workload io db namespace service_account service_account_uid =
     snd (enr_stmt io 0 db (enr_stmt io 1 db
       (db, if \<not> (sql_text namespace \<and> sql_text service_account \<and> sql_text service_account_uid)
            then Inl (EE_Repository db_error)
            else transpose_option (map_option binding_from_row
              (find (\<lambda>r. workload_key r = (namespace, service_account, service_account_uid))
                 (service_enrollment_bindings db))))))"

definition pg_insert_challenge ::
  "Crates \<Rightarrow> faults \<Rightarrow> Db \<Rightarrow> ActorId \<Rightarrow> EnrollmentChallenge \<Rightarrow> i64 \<Rightarrow> Db \<times> (EnrollmentError + unit)" where
  "pg_insert_challenge X io db service_id challenge expires_at =
     (let digest = sha256 X (EnrollmentChallenge_as_bytes challenge)
      in enr_stmt io 0 db (enr_stmt io 1 db (
           let row = \<lparr>ecr_challenge_digest = digest, ecr_service_id = service_id, ecr_expires_at = expires_at,
                      ecr_consumed_at = None\<rparr>
           in if length digest \<noteq> 32 \<or> expires_at < 0
                \<or> fk ecr_challenge_digest (service_enrollment_challenges db) digest
                \<or> \<not> fk idr_id (identities db) service_id
              then (db, Inl (EE_Repository db_error))
              else (db\<lparr>service_enrollment_challenges := service_enrollment_challenges db @ [row]\<rparr>, Inr ()))))"

definition pg_consume_challenge ::
  "Crates \<Rightarrow> faults \<Rightarrow> Db \<Rightarrow> ActorId \<Rightarrow> EnrollmentChallenge \<Rightarrow> i64 \<Rightarrow> Db \<times> (EnrollmentError + unit)" where
  "pg_consume_challenge X io db service_id challenge now =
     (let digest = sha256 X (EnrollmentChallenge_as_bytes challenge);
          P = (\<lambda>r. ecr_challenge_digest r = digest \<and> ecr_service_id r = service_id
                 \<and> ecr_consumed_at r = None \<and> ecr_expires_at r > now)
      in enr_stmt io 0 db (enr_stmt io 1 db (
           let rows = count_where P (service_enrollment_challenges db);
               db' = db\<lparr>service_enrollment_challenges :=
                 update_where P (\<lambda>r. r\<lparr>ecr_consumed_at := Some now\<rparr>) (service_enrollment_challenges db)\<rparr>
           in if rows \<noteq> 0 \<and> now < 0 then (db, Inl (EE_Repository db_error))
              else if rows \<noteq> 1 then (db', Inl EE_ChallengeRejected) else (db', Inr ()))))"


section \<open>The contract\<close>

definition stored_challenge :: "Crates \<Rightarrow> Db \<Rightarrow> EnrollmentChallenge \<Rightarrow> (ActorId \<times> i64 \<times> i64 option) option" where
  "stored_challenge X db c =
     map_option (\<lambda>r. (ecr_service_id r, ecr_expires_at r, ecr_consumed_at r))
       (find (\<lambda>r. ecr_challenge_digest r = sha256 X (EnrollmentChallenge_as_bytes c)) (service_enrollment_challenges db))"

definition good_challenges :: "Db \<Rightarrow> bool" where
  "good_challenges db \<longleftrightarrow> distinct (map ecr_challenge_digest (service_enrollment_challenges db))"

lemma pg_insert_challenge_cases:
  assumes "pg_insert_challenge X io db a c e = (db', x)"
  shows "x \<noteq> Inr () \<and> db' = db \<or>
    x = Inr () \<and> sha256 X (EnrollmentChallenge_as_bytes c) \<notin> ecr_challenge_digest ` set (service_enrollment_challenges db) \<and>
    db' = db\<lparr>service_enrollment_challenges := service_enrollment_challenges db @
      [\<lparr>ecr_challenge_digest = sha256 X (EnrollmentChallenge_as_bytes c), ecr_service_id = a, ecr_expires_at = e,
        ecr_consumed_at = None\<rparr>]\<rparr>"
  using assms by (auto simp: pg_insert_challenge_def Let_def fk_iff split: if_splits db_stmt_splits)

lemma pg_consume_challenge_cases:
  assumes "good_challenges db" and con: "pg_consume_challenge X io db a c now = (db', x)"
  obtains (error) e where "x = Inl e" and "db' = db"
  | (consumed) r where "x = Inr ()"
      and "find (\<lambda>r. ecr_challenge_digest r = sha256 X (EnrollmentChallenge_as_bytes c)) (service_enrollment_challenges db) = Some r"
      and "ecr_service_id r = a" and "ecr_consumed_at r = None" and "now < ecr_expires_at r"
      and "db' = db\<lparr>service_enrollment_challenges :=
        update_where (\<lambda>r. ecr_challenge_digest r = sha256 X (EnrollmentChallenge_as_bytes c))
          (\<lambda>r. r\<lparr>ecr_consumed_at := Some now\<rparr>) (service_enrollment_challenges db)\<rparr>"
proof -
  let ?k = "sha256 X (EnrollmentChallenge_as_bytes c)"
  let ?Q = "\<lambda>r. ecr_service_id r = a \<and> ecr_consumed_at r = None \<and> ecr_expires_at r > now"
  have dist: "distinct (map ecr_challenge_digest (service_enrollment_challenges db))"
    using assms(1) by (simp add: good_challenges_def)
  show thesis
  proof (cases "count_where (\<lambda>r. ecr_challenge_digest r = ?k \<and> ?Q r) (service_enrollment_challenges db) = 0")
    case True
    then have "update_where (\<lambda>r. ecr_challenge_digest r = ?k \<and> ?Q r) (\<lambda>r. r\<lparr>ecr_consumed_at := Some now\<rparr>)
        (service_enrollment_challenges db) = service_enrollment_challenges db"
      by (intro update_where_id) auto
    with con True error show thesis
      by (auto simp: pg_consume_challenge_def Let_def split: if_splits db_stmt_splits)
  next
    case False
    with dist obtain r where r: "find (\<lambda>r. ecr_challenge_digest r = ?k) (service_enrollment_challenges db) = Some r" "?Q r"
      and upd: "update_where (\<lambda>r. ecr_challenge_digest r = ?k \<and> ?Q r) (\<lambda>r. r\<lparr>ecr_consumed_at := Some now\<rparr>)
          (service_enrollment_challenges db) =
        update_where (\<lambda>r. ecr_challenge_digest r = ?k) (\<lambda>r. r\<lparr>ecr_consumed_at := Some now\<rparr>) (service_enrollment_challenges db)"
      by (rule count_where_keyed)
    have one: "count_where (\<lambda>r. ecr_challenge_digest r = ?k \<and> ?Q r) (service_enrollment_challenges db) = 1"
      by (rule count_where_one [OF dist False])
    show thesis
    proof (cases x)
      case (Inl e)
      then have "db' = db" using con one
        by (auto simp: pg_consume_challenge_def Let_def split: if_splits db_stmt_splits)
      with Inl error show thesis by blast
    next
      case (Inr u)
      then have "db' = db\<lparr>service_enrollment_challenges :=
        update_where (\<lambda>r. ecr_challenge_digest r = ?k) (\<lambda>r. r\<lparr>ecr_consumed_at := Some now\<rparr>) (service_enrollment_challenges db)\<rparr>"
        using con upd by (auto simp: pg_consume_challenge_def Let_def split: if_splits)
      with Inr r consumed [of r] show thesis by simp
    qed
  qed
qed

lemma stored_challenge_append:
  assumes "sha256 X (EnrollmentChallenge_as_bytes c) \<notin> ecr_challenge_digest ` set (service_enrollment_challenges db)"
    and "db' = db\<lparr>service_enrollment_challenges := service_enrollment_challenges db @
      [\<lparr>ecr_challenge_digest = sha256 X (EnrollmentChallenge_as_bytes c), ecr_service_id = a, ecr_expires_at = e,
        ecr_consumed_at = None\<rparr>]\<rparr>"
  shows "stored_challenge X db c = None" and "stored_challenge X db' c = Some (a, e, None)"
    and "stored_challenge X db d \<noteq> None \<Longrightarrow> stored_challenge X db' d = stored_challenge X db d"
proof -
  have none: "find (\<lambda>r. ecr_challenge_digest r = sha256 X (EnrollmentChallenge_as_bytes c)) (service_enrollment_challenges db) = None"
    using assms(1) by (force simp: find_None_iff)
  then show "stored_challenge X db c = None" and "stored_challenge X db' c = Some (a, e, None)"
    by (simp_all add: stored_challenge_def assms(2) find_append_single)
  show "stored_challenge X db' d = stored_challenge X db d" if "stored_challenge X db d \<noteq> None"
    using that by (auto simp: stored_challenge_def assms(2) find_append_single split: option.splits)
qed

interpretation pgenr: enrollment_repository good_challenges "stored_challenge X" "pg_insert_challenge X io"
  "pg_consume_challenge X io" for X io
proof
  fix s s' :: Db and a b c d e x u now t
  assume good: "good_challenges s"
  show "good_challenges s' \<and> (stored_challenge X s d \<noteq> None \<longrightarrow> stored_challenge X s' d = stored_challenge X s d)"
    if "pg_insert_challenge X io s a c e = (s', x)"
    using pg_insert_challenge_cases [OF that]
  proof
    assume new: "x = Inr () \<and> sha256 X (EnrollmentChallenge_as_bytes c) \<notin> ecr_challenge_digest ` set (service_enrollment_challenges s) \<and>
      s' = s\<lparr>service_enrollment_challenges := service_enrollment_challenges s @
        [\<lparr>ecr_challenge_digest = sha256 X (EnrollmentChallenge_as_bytes c), ecr_service_id = a, ecr_expires_at = e,
          ecr_consumed_at = None\<rparr>]\<rparr>"
    then have "good_challenges s'" using good by (simp add: good_challenges_def)
    with new stored_challenge_append(3) show ?thesis by blast
  qed (use good in simp)
  show "stored_challenge X s c = None \<and> stored_challenge X s' c = Some (a, e, None)"
    if "pg_insert_challenge X io s a c e = (s', Inr u)"
    using pg_insert_challenge_cases [OF that] stored_challenge_append(1,2) by (metis old.unit.exhaust)
  show "good_challenges s' \<and> (stored_challenge X s d = Some (b, e, Some t) \<longrightarrow> stored_challenge X s' d = Some (b, e, Some t))"
    if con: "pg_consume_challenge X io s a c now = (s', x)"
    using good con
  proof (cases rule: pg_consume_challenge_cases)
    case (consumed r)
    have good': "good_challenges s'"
      using good by (simp add: good_challenges_def consumed(6) map_update_where)
    have "stored_challenge X s' d = Some (b, e, Some t)" if "stored_challenge X s d = Some (b, e, Some t)"
      using that consumed(2,4) by (auto simp: stored_challenge_def consumed(6) find_update_key)
    with good' show ?thesis by blast
  qed (use good in auto)
  show "\<exists>e. stored_challenge X s c = Some (a, e, None) \<and> now < e \<and> stored_challenge X s' c = Some (a, e, Some now)"
    if con: "pg_consume_challenge X io s a c now = (s', Inr u)"
    using good con
    by (cases rule: pg_consume_challenge_cases) (auto simp: stored_challenge_def find_update_key)
qed

end
