(* ===== verification/Enrollment_Properties.thy ===== *)
theory Enrollment_Properties
  imports Pg_Enrollment Pg_Instance_Registry Sample_Crates
begin

text \<open>
  What enrollment promises, proved of \<open>EnrollmentService\<close> as \<open>wiring.rs\<close> composes it: the
  bindings and challenges of one adapter, the registry of another, each statement committing by
  itself. The token reviewer is arbitrary.
\<close>

definition pg_enroll ::
  "Crates \<Rightarrow> token_reviewer \<Rightarrow> faults \<Rightarrow> faults \<Rightarrow> faults \<Rightarrow> Db \<Rightarrow> EnrollmentRequest \<Rightarrow> i64 \<Rightarrow>
   Db \<times> (EnrollmentError + RegisteredInstance)" where
  "pg_enroll X review io io' io'' =
     authenticate_and_register X review (pg_find_workload io) (pg_consume_challenge X io')
       (register_verified LeasePolicy_default (pg_instance_insert X io''))"

text \<open>Histories: challenges issued to anyone, enrollments of anyone, and anything else that leaves the
  challenges alone.\<close>

inductive enrollment_run :: "Crates \<Rightarrow> Db \<Rightarrow> Db \<Rightarrow> bool" for X where
  erun_issue: "issue_challenge (pg_insert_challenge X io) c db a now = (db', x) \<Longrightarrow> enrollment_run X db db'"
| erun_enroll: "pg_enroll X review io io' io'' db r now = (db', y) \<Longrightarrow> enrollment_run X db db'"
| erun_other: "service_enrollment_challenges db' = service_enrollment_challenges db \<Longrightarrow> enrollment_run X db db'"

lemma register_keeps_challenges:
  assumes "register_verified p (pg_instance_insert X io) db k ep now = (db', x)"
  shows "service_enrollment_challenges db' = service_enrollment_challenges db"
proof -
  have "service_enrollment_challenges (fst (pg_instance_insert X io db i)) = service_enrollment_challenges db" for i
    unfolding pg_instance_insert_def append_registry_audit_def Let_def
    by (simp add: db_stmt_def split: option.split)
  then show ?thesis
    using assms by (auto simp: register_verified_def split: sum.splits prod.splits) (metis fst_conv)+
qed

lemma challenges_cong:
  "service_enrollment_challenges db' = service_enrollment_challenges db \<Longrightarrow>
     good_challenges db' = good_challenges db \<and> stored_challenge X db' = stored_challenge X db \<and>
     pgenr.used X db' = pgenr.used X db"
  by (simp add: good_challenges_def stored_challenge_def pgenr.used_def fun_eq_iff)

lemma enroll_step:
  assumes "good_challenges db" and "pg_enroll X review io io' io'' db r now = (db', y)"
  shows "good_challenges db' \<and> (\<forall>c. pgenr.used X db c \<longrightarrow> pgenr.used X db' c)"
proof (cases "enrollment_admissible X review (pg_find_workload io) db r")
  case (Inl e)
  with assms show ?thesis by (simp add: pg_enroll_def authenticate_and_register_def)
next
  case (Inr u)
  obtain db1 z where con: "pg_consume_challenge X io' db (ipk_service_id (er_public_key r)) (er_challenge r) now = (db1, z)"
    by fastforce
  have step: "good_challenges db1 \<and> (\<forall>c. pgenr.used X db c \<longrightarrow> pgenr.used X db1 c)"
    using pgenr.consume_good [OF assms(1) con] pgenr.used_stays(2) [OF assms(1) _ con] by blast
  show ?thesis
  proof (cases z)
    case (Inl e)
    with assms(2) con Inr step show ?thesis by (simp add: pg_enroll_def authenticate_and_register_def)
  next
    case (Inr u')
    obtain db2 w where reg: "register_verified LeasePolicy_default (pg_instance_insert X io'') db1 (er_public_key r)
        (er_endpoint r) now = (db2, w)" by fastforce
    with assms(2) con Inr \<open>enrollment_admissible X review (pg_find_workload io) db r = Inr u\<close> have "db' = db2"
      by (auto simp: pg_enroll_def authenticate_and_register_def split: sum.splits)
    with step challenges_cong [OF register_keeps_challenges [OF reg], of X] show ?thesis by simp
  qed
qed

lemma enrollment_run_step:
  assumes "enrollment_run X db db'" and "good_challenges db"
  shows "good_challenges db' \<and> (\<forall>c. pgenr.used X db c \<longrightarrow> pgenr.used X db' c)"
  using assms
proof (induction rule: enrollment_run.induct)
  case (erun_issue io c db a now db' x)
  then have "db' = db \<or> (\<exists>e y. pg_insert_challenge X io db a c e = (db', y))"
    by (auto simp: issue_challenge_def split: sum.splits prod.splits if_splits)
  with erun_issue(2) pgenr.insert_good [OF erun_issue(2)] pgenr.used_stays(1) [OF erun_issue(2)] show ?case by blast
next
  case (erun_enroll review io io' io'' db r now db' y)
  then show ?case using enroll_step by blast
next
  case (erun_other db' db)
  with challenges_cong [OF erun_other(1), of X] show ?case by simp
qed

lemma enrollment_runs_step:
  assumes "(enrollment_run X)\<^sup>*\<^sup>* db db'" and "good_challenges db"
  shows "good_challenges db' \<and> (\<forall>c. pgenr.used X db c \<longrightarrow> pgenr.used X db' c)"
  using assms by (induction rule: rtranclp_induct) (use enrollment_run_step in blast)+

lemma good_challenges_reachable: "(enrollment_run X)\<^sup>*\<^sup>* empty_db db \<Longrightarrow> good_challenges db"
  using enrollment_runs_step [of X empty_db db] by (simp add: good_challenges_def empty_db_def)

lemma enabled_binding_ofD:
  assumes "enabled_binding_of review (pg_find_workload io) db token pod = Inr b"
  shows "\<exists>w row. review token ENROLLMENT_AUDIENCE = Inr w \<and> ENROLLMENT_AUDIENCE \<in> set (vw_audiences w) \<and>
    vw_pod_uid w = pod \<and> row \<in> set (service_enrollment_bindings db) \<and>
    workload_key row = (vw_namespace w, vw_service_account w, vw_service_account_uid w) \<and>
    ebr_enabled row \<and> ebr_service_id row = eb_service_id b"
proof -
  from assms obtain w where w: "review token ENROLLMENT_AUDIENCE = Inr w" "ENROLLMENT_AUDIENCE \<in> set (vw_audiences w)"
    "vw_pod_uid w = pod" and found: "pg_find_workload io db (vw_namespace w) (vw_service_account w) (vw_service_account_uid w) = Inr (Some b)"
    and on: "eb_enabled b"
    by (auto simp: enabled_binding_of_def split: if_splits)
  from found obtain row where
    row: "find (\<lambda>r. workload_key r = (vw_namespace w, vw_service_account w, vw_service_account_uid w)) (service_enrollment_bindings db) = Some row"
    and b: "binding_from_row row = Inr b"
    by (auto simp: pg_find_workload_def transpose_option_def split: db_stmt_splits if_splits option.splits sum.splits)
  from b have "eb_service_id b = ebr_service_id row" "eb_enabled b = ebr_enabled row"
    by (auto simp: binding_from_row_def EnrollmentBinding_restore_def)
  with w on find_SomeD [OF row] show ?thesis by auto
qed

section \<open>Who gets in\<close>

text \<open>C19: Only the workload it claims to be gets in. A successful enrollment has a token the reviewer
  verified for the enrollment audience, a Pod equal to the one in the signed proof, an enabled
  binding of that token's workload to the very service of the key, a signature of that key over the
  challenge, the key, the endpoint, the Pod and the token's digest, and a challenge that had been
  issued to that service, was unexpired and unused; it registers that key for one default lease.\<close>

theorem enrolled_workload_is_authentic:
  assumes "(enrollment_run X)\<^sup>*\<^sup>* empty_db db" and "pg_enroll X review io io' io'' db r now = (db', Inr inst)"
  shows "\<exists>w row e. review (er_workload_token r) ENROLLMENT_AUDIENCE = Inr w \<and>
    ENROLLMENT_AUDIENCE \<in> set (vw_audiences w) \<and> vw_pod_uid w = er_claimed_pod_uid r \<and>
    row \<in> set (service_enrollment_bindings db) \<and> ebr_enabled row \<and>
    workload_key row = (vw_namespace w, vw_service_account w, vw_service_account_uid w) \<and>
    ebr_service_id row = ipk_service_id (er_public_key r) \<and>
    ed_verify_strict X (ipk_public_key (er_public_key r))
      (proof_message X (er_challenge r) (er_public_key r) (er_endpoint r) (er_claimed_pod_uid r) (er_workload_token r))
      (InstanceSignature_as_bytes (er_signature r)) \<and>
    stored_challenge X db (er_challenge r) = Some (ipk_service_id (er_public_key r), e, None) \<and> now < e \<and>
    ri_public_key inst = er_public_key r \<and> ri_registered_at inst = now \<and> ri_lease_expires_at inst = now + 60 \<and>
    ri_revoked_at inst = None"
proof -
  obtain s1 u e where adm: "enrollment_admissible X review (pg_find_workload io) db r = Inr ()"
    and ch: "stored_challenge X db (er_challenge r) = Some (ipk_service_id (er_public_key r), e, None)" "now < e"
    and reg: "register_verified LeasePolicy_default (pg_instance_insert X io'') s1 (er_public_key r) (er_endpoint r) now = (db', Inr inst)"
    by (rule pgenr.authenticate_consumes [OF good_challenges_reachable [OF assms(1)] assms(2) [unfolded pg_enroll_def]])
  from adm obtain b where sig: "ed_verify_strict X (ipk_public_key (er_public_key r))
      (proof_message X (er_challenge r) (er_public_key r) (er_endpoint r) (er_claimed_pod_uid r) (er_workload_token r))
      (InstanceSignature_as_bytes (er_signature r))"
    and b: "enabled_binding_of review (pg_find_workload io) db (er_workload_token r) (er_claimed_pod_uid r) = Inr b"
      "eb_service_id b = ipk_service_id (er_public_key r)"
    by (auto simp: enrollment_admissible_def split: if_splits)
  have inst: "ri_public_key inst = er_public_key r \<and> ri_registered_at inst = now \<and> ri_lease_expires_at inst = now + 60 \<and>
      ri_revoked_at inst = None"
    using reg
    by (auto simp: register_verified_def LeasePolicy_default_def DEFAULT_LEASE_SECONDS_def RegisteredInstance_create_def
        dest!: RegisteredInstance_restore_Inr split: sum.splits prod.splits)
  from enabled_binding_ofD [OF b(1)] b(2) sig ch inst show ?thesis by auto
qed

text \<open>C20: A challenge enrolls once. After a successful enrollment, and whatever follows, no enrollment
  presenting the same challenge succeeds, for any key, service, Pod, token or time.\<close>

theorem enrollment_challenge_single_use:
  assumes "(enrollment_run X)\<^sup>*\<^sup>* empty_db db" and "pg_enroll X review io io' io'' db r now = (db', Inr inst)"
    and "(enrollment_run X)\<^sup>*\<^sup>* db' db''" and "er_challenge q = er_challenge r"
  shows "snd (pg_enroll X review' jo jo' jo'' db'' q t) \<noteq> Inr inst'"
proof -
  note good = good_challenges_reachable [OF assms(1)]
  obtain s1 u where used: "pgenr.used X s1 (er_challenge r)" and good1: "good_challenges s1"
    and reg: "register_verified LeasePolicy_default (pg_instance_insert X io'') s1 (er_public_key r) (er_endpoint r) now = (db', Inr inst)"
    by (rule pgenr.authenticate_consumes [OF good assms(2) [unfolded pg_enroll_def]])
  from challenges_cong [OF register_keeps_challenges [OF reg], of X] used good1
  have "good_challenges db'" "pgenr.used X db' (er_challenge r)" by simp_all
  with enrollment_runs_step [OF assms(3)] assms(4) have "good_challenges db''" "pgenr.used X db'' (er_challenge q)" by auto
  from pgenr.used_rejects_enrollment [OF this] show ?thesis by (simp add: pg_enroll_def)
qed


section \<open>Issue and enroll\<close>

lemma pg_consume_challenge_succeeds:
  assumes "good_challenges db" and "stored_challenge X db c = Some (a, e, None)" and "0 \<le> now" and "now < e"
  shows "\<exists>db'. pg_consume_challenge X no_faults db a c now = (db', Inr ()) \<and>
    db' = db\<lparr>service_enrollment_challenges := service_enrollment_challenges db'\<rparr>"
proof -
  let ?k = "sha256 X (EnrollmentChallenge_as_bytes c)"
  let ?Q = "\<lambda>r. ecr_service_id r = a \<and> ecr_consumed_at r = None \<and> ecr_expires_at r > now"
  obtain r where r: "find (\<lambda>r. ecr_challenge_digest r = ?k) (service_enrollment_challenges db) = Some r" "?Q r"
    using assms(2,4) by (auto simp: stored_challenge_def)
  with find_SomeD [OF r(1)] have "count_where (\<lambda>r. ecr_challenge_digest r = ?k \<and> ?Q r) (service_enrollment_challenges db) \<noteq> 0"
    by auto
  from count_where_one [OF assms(1) [unfolded good_challenges_def] this] assms(3) show ?thesis
    by (simp add: pg_consume_challenge_def Let_def)
qed

lemma enrollment_endpoint_registers:
  assumes "enrollment_endpoint v = Inr ep"
  shows "validate_endpoint ep = Inr ep" and "sql_text ep" and "length_between 1 2048 ep" and "starts_with ''https://'' ep"
proof -
  from assms have ep: "str_trim ep = ep" "ep \<noteq> []" "length ep \<le> 2048" "CHR 0x00 \<notin> set ep" "starts_with ''https://'' ep"
    "ep \<noteq> ''https://''"
    by (auto simp: enrollment_endpoint_def enrollment_field_def Let_def split: if_splits)
  then obtain rest where rest: "ep = ''https://'' @ rest" "rest \<noteq> []"
    by (auto simp: starts_with_iff)
  have "CHR ''h'' \<in> set (filter (\<lambda>c. \<not> in_byte_range 128 191 c) ep)"
    by (simp add: rest in_byte_range_def byte_val_def)
  from length_pos_if_in_set [OF this] have "1 \<le> chars_count ep" by (simp only: chars_count_def)
  with ep chars_count_le [of ep] show "length_between 1 2048 ep" by (simp add: length_between_def)
  from ep show "sql_text ep" "starts_with ''https://'' ep" by (simp_all add: sql_text_def)
  from rest ep show "validate_endpoint ep = Inr ep"
    by (simp add: validate_endpoint_def MAX_ENDPOINT_LENGTH_def)
qed

lemma pg_find_workload_cong:
  "service_enrollment_bindings db' = service_enrollment_bindings db \<Longrightarrow>
     pg_find_workload io db' n sa u = pg_find_workload io db n sa u"
  by (auto simp: pg_find_workload_def db_stmt_def split: option.split)

lemma register_verified_succeeds:
  assumes "sha256_ok X" and "length (ipk_public_key k) = 32" and "enrollment_endpoint v = Inr ep" and "0 \<le> now" and "in_i64 (now + 60)"
    and "fk idr_id (identities db) (ipk_service_id k)"
    and "\<not> fk sir_instance_id (service_instances db) (ipk_instance_id k)"
    and "\<not> fk sik_instance_id (service_instance_keys db) (ipk_instance_id k)"
    and "\<not> fk sik_key_id (service_instance_keys db) (ipk_key_id k)"
    and "\<not> fk sik_fingerprint (service_instance_keys db) (InstancePublicKey_fingerprint X k)"
  shows "snd (register_verified LeasePolicy_default (pg_instance_insert X no_faults) db k ep now) =
    Inr \<lparr>ri_public_key = k, ri_endpoint = ep, ri_registered_at = now, ri_lease_expires_at = now + 60,
         ri_lease_revision = 1, ri_revoked_at = None\<rparr>"
proof -
  note ep = enrollment_endpoint_registers [OF assms(3)]
  have create: "RegisteredInstance_create k ep now (now + 60) =
      Inr \<lparr>ri_public_key = k, ri_endpoint = ep, ri_registered_at = now, ri_lease_expires_at = now + 60,
         ri_lease_revision = 1, ri_revoked_at = None\<rparr>" (is "_ = Inr ?i")
    using assms(4) by (simp add: RegisteredInstance_create_def RegisteredInstance_restore_def ep(1))
  have fp: "length (InstancePublicKey_fingerprint X k) = 32"
    using assms(1) by (simp add: sha256_ok_def InstancePublicKey_fingerprint_def)
  have "snd (pg_instance_insert X no_faults db ?i) = Inr ()"
    using assms(2,4,6-10) ep fp
    by (simp add: pg_instance_insert_def Let_def service_instances_check_def service_instance_keys_check_def ALGORITHM_def
        in_i64_interval append_registry_audit_def registry_audit_check_def audit_row_def)
  then obtain db' where ins: "pg_instance_insert X no_faults db ?i = (db', Inr ())" by (metis prod.collapse)
  have checked: "bind_result (validate_registry_timestamp now) (\<lambda>_.
      bind_result (ok_or IRE_InvalidTimestamp (checked_add now 60)) (RegisteredInstance_create k ep now)) = Inr ?i"
    using assms(4,5) create by simp
  show ?thesis
    unfolding register_verified_def LeasePolicy_default_def DEFAULT_LEASE_SECONDS_def LeasePolicy.select_convs checked
    by (simp add: ins)
qed

text \<open>What issuing to a workload leaves behind.\<close>

lemma issued_challenge:
  assumes "issue_challenge_for_workload review (pg_find_workload no_faults) (pg_insert_challenge X no_faults) c db token pod t0 =
      (db1, Inr (a, c'))"
  obtains pod' b where "enrollment_field pod MAX_UID_LENGTH = Inr pod'"
    and "enabled_binding_of review (pg_find_workload no_faults) db token pod' = Inr b" and "eb_service_id b = a"
    and "c' = c" and "pg_insert_challenge X no_faults db a c (t0 + 30) = (db1, Inr ())" and "0 \<le> t0"
proof -
  from assms obtain pod' b where pod: "enrollment_field pod MAX_UID_LENGTH = Inr pod'"
    and b: "enabled_binding_of review (pg_find_workload no_faults) db token pod' = Inr b"
    and iss: "issue_challenge (pg_insert_challenge X no_faults) c db (eb_service_id b) t0 = (db1, Inr c')" and a: "a = eb_service_id b"
    by (auto simp: issue_challenge_for_workload_def split: sum.splits prod.splits)
  from iss have "c' = c \<and> pg_insert_challenge X no_faults db a c (t0 + 30) = (db1, Inr ()) \<and> 0 \<le> t0"
    by (auto simp: issue_challenge_def CHALLENGE_LIFETIME_SECONDS_def a split: sum.splits prod.splits if_splits)
  with pod b a show thesis using that by blast
qed

lemma issued_enrolls:
  assumes X: "ed25519_ok X" "sha256_ok X" and key: "length (ed_public X sk) = 32"
    and reach: "(enrollment_run X)\<^sup>*\<^sup>* empty_db db"
    and issue: "issue_challenge_for_workload review (pg_find_workload no_faults) (pg_insert_challenge X no_faults) c db token pod t0 =
      (db1, Inr (a, c'))"
    and sign: "EnrollmentRequest_sign X (InstanceCredential_generate X sk i k a) c' endpoint pod token = Inr r"
    and time: "t0 \<le> t" "t < t0 + 30" "in_i64 (t + 60)"
    and new: "\<not> fk sir_instance_id (service_instances db) i" "\<not> fk sik_instance_id (service_instance_keys db) i"
      "\<not> fk sik_key_id (service_instance_keys db) k" "\<not> fk sik_fingerprint (service_instance_keys db) (sha256 X (ed_public X sk))"
  shows "snd (pg_enroll X review no_faults no_faults no_faults db1 r t) =
    Inr \<lparr>ri_public_key = er_public_key r, ri_endpoint = er_endpoint r, ri_registered_at = t, ri_lease_expires_at = t + 60,
         ri_lease_revision = 1, ri_revoked_at = None\<rparr>"
proof -
  note good = good_challenges_reachable [OF reach]
  obtain pod' b where pod: "enrollment_field pod MAX_UID_LENGTH = Inr pod'"
    and b: "enabled_binding_of review (pg_find_workload no_faults) db token pod' = Inr b" "eb_service_id b = a"
    and c: "c' = c" and ins: "pg_insert_challenge X no_faults db a c (t0 + 30) = (db1, Inr ())" and "0 \<le> t0"
    by (rule issued_challenge [OF issue])
  have good1: "good_challenges db1" using pgenr.insert_good [OF good ins] by blast
  have st: "stored_challenge X db1 c = Some (a, t0 + 30, None)" using pgenr.insert_new [OF good ins] by blast
  from ins have db1: "db1 = db\<lparr>service_enrollment_challenges := service_enrollment_challenges db1\<rparr>"
    and a: "fk idr_id (identities db) a"
    by (auto simp: pg_insert_challenge_def Let_def split: if_splits)
  let ?pk = "ic_public_key (InstanceCredential_generate X sk i k a)"
  from sign pod have r: "er_claimed_pod_uid r = pod'" "er_challenge r = c" "er_public_key r = ?pk"
    and ep: "enrollment_endpoint endpoint = Inr (er_endpoint r)"
    by (auto simp: EnrollmentRequest_sign_def Let_def c split: if_splits)
  have "enabled_binding_of review (pg_find_workload no_faults) db1 token (er_claimed_pod_uid r) = Inr b"
    using b(1) unfolding r(1) enabled_binding_of_def
    by (subst pg_find_workload_cong [of db1 db]) (subst db1, simp, assumption)
  from sign_admissible [OF X(1) refl sign this b(2)]
  have adm: "enrollment_admissible X review (pg_find_workload no_faults) db1 r = Inr ()" .
  obtain db2 where con: "pg_consume_challenge X no_faults db1 a c t = (db2, Inr ())"
    and db2: "db2 = db1\<lparr>service_enrollment_challenges := service_enrollment_challenges db2\<rparr>"
    using pg_consume_challenge_succeeds [OF good1 st, of t] time \<open>0 \<le> t0\<close> by auto
  have tables: "identities db2 = identities db" "service_instances db2 = service_instances db"
    "service_instance_keys db2 = service_instance_keys db"
    by (subst db2, subst db1, simp)+
  have pk: "ipk_service_id ?pk = a" "ipk_instance_id ?pk = i" "ipk_key_id ?pk = k" "ipk_public_key ?pk = ed_public X sk"
    by (simp_all add: InstanceCredential_generate_def)
  have "snd (register_verified LeasePolicy_default (pg_instance_insert X no_faults) db2 ?pk (er_endpoint r) t) =
    Inr \<lparr>ri_public_key = ?pk, ri_endpoint = er_endpoint r, ri_registered_at = t, ri_lease_expires_at = t + 60,
         ri_lease_revision = 1, ri_revoked_at = None\<rparr>"
    by (rule register_verified_succeeds [OF X(2) _ ep])
      (use key time \<open>0 \<le> t0\<close> a new in \<open>simp_all add: pk tables InstancePublicKey_fingerprint_def\<close>)
  with adm con show ?thesis
    by (auto simp: pg_enroll_def authenticate_and_register_def r pk split: prod.splits)
qed

text \<open>C38: A workload that was issued a challenge can enroll with it. If a token and Pod were given a
  challenge for a service, then a request signed with a freshly generated key of that service, over
  that challenge and the same token and Pod, and presented within 30 seconds, is registered for a
  60-second lease, provided no statement fails and the instance, key and fingerprint are new.\<close>

theorem issued_workload_can_enroll:
  assumes X: "ed25519_ok X" "sha256_ok X" and key: "length (ed_public X sk) = 32"
    and reach: "(enrollment_run X)\<^sup>*\<^sup>* empty_db db"
    and issue: "issue_challenge_for_workload review (pg_find_workload no_faults) (pg_insert_challenge X no_faults) c db token pod t0 =
      (db1, Inr (a, c'))"
    and sign: "EnrollmentRequest_sign X (InstanceCredential_generate X sk i k a) c' endpoint pod token = Inr r"
    and time: "t0 \<le> t" "t < t0 + 30" "in_i64 (t + 60)"
    and new: "\<not> fk sir_instance_id (service_instances db) i" "\<not> fk sik_instance_id (service_instance_keys db) i"
      "\<not> fk sik_key_id (service_instance_keys db) k" "\<not> fk sik_fingerprint (service_instance_keys db) (sha256 X (ed_public X sk))"
  shows "snd (pg_enroll X review no_faults no_faults no_faults db1 r t) =
    Inr \<lparr>ri_public_key = er_public_key r, ri_endpoint = er_endpoint r, ri_registered_at = t, ri_lease_expires_at = t + 60,
         ri_lease_revision = 1, ri_revoked_at = None\<rparr>"
  by (rule issued_enrolls [OF assms])


section \<open>A concrete enrollment\<close>

definition sample_review :: token_reviewer where
  "sample_review token audience =
     (if token = ''token'' then VerifiedWorkload_new ''apps'' ''billing'' ''uid-1'' ''billing-0'' ''pod-1'' [audience]
      else Inl EE_TokenRejected)"

definition bound_db :: Db where
  "bound_db = sample_db\<lparr>service_enrollment_bindings :=
     [\<lparr>ebr_service_id = ActorId 1, ebr_namespace = ''apps'', ebr_service_account = ''billing'',
       ebr_service_account_uid = ''uid-1'', ebr_enabled = True\<rparr>]\<rparr>"

definition sample_challenge :: EnrollmentChallenge where
  "sample_challenge = EnrollmentChallenge (replicate 32 (CHR 0x0A))"

definition issued_db :: Db where
  "issued_db = fst (issue_challenge_for_workload sample_review (pg_find_workload no_faults)
     (pg_insert_challenge sample_crates no_faults) sample_challenge bound_db ''token'' ''pod-1'' 200)"

definition new_credential :: InstanceCredential where
  "new_credential = InstanceCredential_generate sample_crates (replicate 32 (CHR 0x09)) (InstanceId 12) (KeyId 13) (ActorId 1)"

definition sample_enrollment :: EnrollmentRequest where
  "sample_enrollment = (case EnrollmentRequest_sign sample_crates new_credential sample_challenge ''https://billing'' ''pod-1'' ''token'' of
     Inr r \<Rightarrow> r | Inl _ \<Rightarrow> undefined)"

definition enrolled_db :: Db where
  "enrolled_db = fst (pg_enroll sample_crates sample_review no_faults no_faults no_faults issued_db sample_enrollment 210)"

lemma sample_issue:
  "issue_challenge_for_workload sample_review (pg_find_workload no_faults) (pg_insert_challenge sample_crates no_faults)
     sample_challenge bound_db ''token'' ''pod-1'' 200 = (issued_db, Inr (ActorId 1, sample_challenge))"
proof -
  have "snd (issue_challenge_for_workload sample_review (pg_find_workload no_faults) (pg_insert_challenge sample_crates no_faults)
     sample_challenge bound_db ''token'' ''pod-1'' 200) = Inr (ActorId 1, sample_challenge)" by code_simp
  then show ?thesis by (simp add: issued_db_def prod_eq_iff)
qed

lemma sample_enrollment_sign:
  "EnrollmentRequest_sign sample_crates new_credential sample_challenge ''https://billing'' ''pod-1'' ''token'' = Inr sample_enrollment"
proof -
  have "enrollment_endpoint ''https://billing'' = Inr ''https://billing''" "enrollment_field ''pod-1'' MAX_UID_LENGTH = Inr ''pod-1''"
    by code_simp+
  then show ?thesis by (simp add: sample_enrollment_def EnrollmentRequest_sign_def MAX_TOKEN_LENGTH_def Let_def)
qed

lemma bound_reachable: "(enrollment_run sample_crates)\<^sup>*\<^sup>* empty_db bound_db"
proof -
  have "service_enrollment_challenges bound_db = service_enrollment_challenges empty_db" by (simp add: bound_db_def sample_db_def)
  then show ?thesis by (intro r_into_rtranclp erun_other)
qed

lemma issued_reachable: "(enrollment_run sample_crates)\<^sup>*\<^sup>* empty_db issued_db"
proof (rule rtranclp.rtrancl_into_rtrancl [OF bound_reachable])
  have "fst (issue_challenge (pg_insert_challenge sample_crates no_faults) sample_challenge bound_db (ActorId 1) 200) = issued_db"
    by code_simp
  then show "enrollment_run sample_crates bound_db issued_db" by (metis erun_issue prod.collapse)
qed

lemma sample_key_length: "length (ed_public sample_crates sk) = 32"
  by (simp add: sample_crates_defs)

lemma sample_tables_free:
  "\<not> fk sir_instance_id (service_instances bound_db) (InstanceId 12)"
  "\<not> fk sik_instance_id (service_instance_keys bound_db) (InstanceId 12)"
  "\<not> fk sik_key_id (service_instance_keys bound_db) (KeyId 13)"
  "\<not> fk sik_fingerprint (service_instance_keys bound_db) (sha256 sample_crates (ed_public sample_crates (replicate 32 (CHR 0x09))))"
  by code_simp+

definition enrolled_instance :: RegisteredInstance where
  "enrolled_instance = \<lparr>ri_public_key = er_public_key sample_enrollment, ri_endpoint = er_endpoint sample_enrollment,
     ri_registered_at = 210, ri_lease_expires_at = 270, ri_lease_revision = 1, ri_revoked_at = None\<rparr>"

lemma sample_enroll:
  "pg_enroll sample_crates sample_review no_faults no_faults no_faults issued_db sample_enrollment 210 = (enrolled_db, Inr enrolled_instance)"
proof -
  have "snd (pg_enroll sample_crates sample_review no_faults no_faults no_faults issued_db sample_enrollment 210) = Inr enrolled_instance"
    using issued_enrolls [OF sample_crates_ok(4,3) sample_key_length bound_reachable sample_issue
        sample_enrollment_sign [unfolded new_credential_def] _ _ _ sample_tables_free, of 210]
    by (simp add: enrolled_instance_def in_i64_interval)
  then show ?thesis by (simp add: enrolled_db_def prod_eq_iff)
qed

theorem enrolled_workload_is_authentic_witness:
  "\<exists>row \<in> set (service_enrollment_bindings issued_db). ebr_enabled row \<and> ebr_service_id row = ipk_service_id (ri_public_key enrolled_instance)"
  using enrolled_workload_is_authentic [OF issued_reachable sample_enroll] by (auto simp: enrolled_instance_def)

theorem enrollment_challenge_single_use_witness:
  "snd (pg_enroll sample_crates sample_review no_faults no_faults no_faults enrolled_db sample_enrollment 211) \<noteq> Inr enrolled_instance"
  by (rule enrollment_challenge_single_use [OF issued_reachable sample_enroll rtranclp.rtrancl_refl refl])

theorem issued_workload_can_enroll_witness:
  "snd (pg_enroll sample_crates sample_review no_faults no_faults no_faults issued_db sample_enrollment 229) =
     Inr (enrolled_instance\<lparr>ri_registered_at := 229, ri_lease_expires_at := 289\<rparr>)"
  using issued_workload_can_enroll [OF sample_crates_ok(4,3) sample_key_length bound_reachable sample_issue
      sample_enrollment_sign [unfolded new_credential_def] _ _ _ sample_tables_free, of 229]
  by (simp add: enrolled_instance_def in_i64_interval)

end
