(* ===== verification/Handshakes.thy ===== *)
theory Handshakes
  imports Instance_Registry
begin

text \<open>
  \<open>src/kernel/handshakes.rs\<close>: before an instance becomes eligible for delivery, the kernel and the
  instance each sign for the other: a challenge of the kernel, a response of the instance. Discovery,
  repository and transport are arguments; the repository's laws are a locale.
\<close>

datatype HandshakeError =
    HE_ChallengeAlreadyUsed
  | HE_ChallengeExpired
  | HE_HandshakeRequired InstanceId
  | HE_IneligibleInstance InstanceId
  | HE_InvalidKernelSignature
  | HE_InvalidStoredRecord
  | HE_InvalidTargetSignature
  | HE_InvalidTimestamp
  | HE_KernelKeyMismatch
  | HE_RandomSource
  | HE_Repository string
  | HE_TargetMismatch
  | HE_Transport string

definition HANDSHAKE_CHALLENGE_LIFETIME_SECONDS :: i64 where
  "HANDSHAKE_CHALLENGE_LIFETIME_SECONDS = 15"

definition HANDSHAKE_LIFETIME_SECONDS :: i64 where
  "HANDSHAKE_LIFETIME_SECONDS = 30"

definition CHALLENGE_CONTEXT :: bytes where
  "CHALLENGE_CONTEXT = ''infernal-law/instance-handshake/challenge/v1''"

definition RESPONSE_CONTEXT :: bytes where
  "RESPONSE_CONTEXT = ''infernal-law/instance-handshake/response/v1''"


section \<open>The signed messages\<close>

definition encode_fields :: "bytes list \<Rightarrow> bytes" where
  "encode_fields fs = concat (map (len_prefixed 4) fs)"

definition challenge_message ::
  "Crates \<Rightarrow> bytes \<Rightarrow> InstancePublicKey \<Rightarrow> InstanceId \<Rightarrow> KeyId \<Rightarrow> i64 \<Rightarrow> i64 \<Rightarrow> bytes" where
  "challenge_message X nonce kernel_key target_instance_id target_key_id issued_at expires_at =
     encode_fields
       [CHALLENGE_CONTEXT,
        nonce,
        uuid_as_bytes X (ActorId_as_uuid (ipk_service_id kernel_key)),
        uuid_as_bytes X (InstanceId_as_uuid (ipk_instance_id kernel_key)),
        uuid_as_bytes X (KeyId_as_uuid (ipk_key_id kernel_key)),
        ipk_public_key kernel_key,
        uuid_as_bytes X (InstanceId_as_uuid target_instance_id),
        uuid_as_bytes X (KeyId_as_uuid target_key_id),
        i64_be_bytes issued_at,
        i64_be_bytes expires_at]"

definition response_message :: "Crates \<Rightarrow> InstanceId \<Rightarrow> InstanceId \<Rightarrow> KeyId \<Rightarrow> bytes \<Rightarrow> bytes" where
  "response_message X kernel_instance_id target_instance_id target_key_id challenge_digest =
     encode_fields
       [RESPONSE_CONTEXT,
        uuid_as_bytes X (InstanceId_as_uuid kernel_instance_id),
        uuid_as_bytes X (InstanceId_as_uuid target_instance_id),
        uuid_as_bytes X (KeyId_as_uuid target_key_id),
        challenge_digest]"

record SignedHandshakeChallenge =
  shc_nonce :: bytes
  shc_kernel_key :: InstancePublicKey
  shc_target_instance_id :: InstanceId
  shc_target_key_id :: KeyId
  shc_issued_at :: i64
  shc_expires_at :: i64
  shc_signature :: InstanceSignature

definition SignedHandshakeChallenge_message :: "Crates \<Rightarrow> SignedHandshakeChallenge \<Rightarrow> bytes" where
  "SignedHandshakeChallenge_message X c =
     challenge_message X (shc_nonce c) (shc_kernel_key c) (shc_target_instance_id c) (shc_target_key_id c)
       (shc_issued_at c) (shc_expires_at c)"

text \<open>\<open>random\<close> is what the operating system's random source gives.\<close>

definition SignedHandshakeChallenge_issue ::
  "Crates \<Rightarrow> bytes option \<Rightarrow> InstanceCredential \<Rightarrow> RegisteredInstance \<Rightarrow> i64 \<Rightarrow> HandshakeError + SignedHandshakeChallenge" where
  "SignedHandshakeChallenge_issue X random krn target now =
     (if now < 0 \<or> \<not> is_eligible_at target now then Inl (HE_IneligibleInstance (ri_id target))
      else bind_result (ok_or HE_InvalidTimestamp (checked_add now HANDSHAKE_CHALLENGE_LIFETIME_SECONDS)) (\<lambda>limit.
        let expires_at = min limit (ri_lease_expires_at target)
        in if expires_at \<le> now then Inl HE_InvalidTimestamp
           else bind_result (ok_or HE_RandomSource random) (\<lambda>nonce.
             let kernel_key = ic_public_key krn;
                 target_instance_id = ri_id target;
                 target_key_id = ipk_key_id (ri_public_key target);
                 message = challenge_message X nonce kernel_key target_instance_id target_key_id now expires_at
             in Inr \<lparr>shc_nonce = nonce, shc_kernel_key = kernel_key, shc_target_instance_id = target_instance_id,
                     shc_target_key_id = target_key_id, shc_issued_at = now, shc_expires_at = expires_at,
                     shc_signature = InstanceCredential_sign X krn message\<rparr>)))"

definition verify_kernel ::
  "Crates \<Rightarrow> SignedHandshakeChallenge \<Rightarrow> InstancePublicKey \<Rightarrow> HandshakeError + unit" where
  "verify_kernel X c trusted_kernel_key =
     (if trusted_kernel_key \<noteq> shc_kernel_key c then Inl HE_KernelKeyMismatch
      else map_err (\<lambda>_. HE_InvalidKernelSignature)
             (InstancePublicKey_verify X trusted_kernel_key (SignedHandshakeChallenge_message X c) (shc_signature c)))"

text \<open>The digest of the signed challenge: message, then signature.\<close>

definition SignedHandshakeChallenge_digest :: "Crates \<Rightarrow> SignedHandshakeChallenge \<Rightarrow> bytes" where
  "SignedHandshakeChallenge_digest X c =
     sha256 X (SignedHandshakeChallenge_message X c @ InstanceSignature_as_bytes (shc_signature c))"

record SignedHandshakeResponse =
  shr_kernel_instance_id :: InstanceId
  shr_target_instance_id :: InstanceId
  shr_target_key_id :: KeyId
  shr_challenge_digest :: bytes
  shr_signature :: InstanceSignature

definition SignedHandshakeResponse_sign ::
  "Crates \<Rightarrow> SignedHandshakeChallenge \<Rightarrow> InstanceCredential \<Rightarrow> HandshakeError + SignedHandshakeResponse" where
  "SignedHandshakeResponse_sign X challenge target =
     (if ipk_instance_id (ic_public_key target) \<noteq> shc_target_instance_id challenge
         \<or> ipk_key_id (ic_public_key target) \<noteq> shc_target_key_id challenge
      then Inl HE_TargetMismatch
      else let kernel_instance_id = ipk_instance_id (shc_kernel_key challenge);
               target_instance_id = shc_target_instance_id challenge;
               target_key_id = shc_target_key_id challenge;
               challenge_digest = SignedHandshakeChallenge_digest X challenge;
               message = response_message X kernel_instance_id target_instance_id target_key_id challenge_digest
           in Inr \<lparr>shr_kernel_instance_id = kernel_instance_id, shr_target_instance_id = target_instance_id,
                   shr_target_key_id = target_key_id, shr_challenge_digest = challenge_digest,
                   shr_signature = InstanceCredential_sign X target message\<rparr>)"

definition SignedHandshakeResponse_verify ::
  "Crates \<Rightarrow> SignedHandshakeResponse \<Rightarrow> SignedHandshakeChallenge \<Rightarrow> InstancePublicKey \<Rightarrow> i64 \<Rightarrow> HandshakeError + unit" where
  "SignedHandshakeResponse_verify X r challenge target now =
     (if now < shc_issued_at challenge \<or> now \<ge> shc_expires_at challenge then Inl HE_ChallengeExpired
      else if shr_kernel_instance_id r \<noteq> ipk_instance_id (shc_kernel_key challenge)
         \<or> shr_target_instance_id r \<noteq> shc_target_instance_id challenge
         \<or> shr_target_key_id r \<noteq> shc_target_key_id challenge
         \<or> shr_challenge_digest r \<noteq> SignedHandshakeChallenge_digest X challenge
         \<or> ipk_instance_id target \<noteq> shr_target_instance_id r
         \<or> ipk_key_id target \<noteq> shr_target_key_id r
      then Inl HE_TargetMismatch
      else map_err (\<lambda>_. HE_InvalidTargetSignature)
             (InstancePublicKey_verify X target
               (response_message X (shr_kernel_instance_id r) (shr_target_instance_id r) (shr_target_key_id r)
                  (shr_challenge_digest r))
               (shr_signature r)))"


section \<open>Handshake records\<close>

record InstanceHandshake =
  ih_challenge_digest :: bytes
  ih_kernel_instance_id :: InstanceId
  ih_target_instance_id :: InstanceId
  ih_target_key_id :: KeyId
  ih_verified_at :: i64
  ih_expires_at :: i64

definition InstanceHandshake_restore ::
  "bytes \<Rightarrow> InstanceId \<Rightarrow> InstanceId \<Rightarrow> KeyId \<Rightarrow> i64 \<Rightarrow> i64 \<Rightarrow> HandshakeError + InstanceHandshake" where
  "InstanceHandshake_restore challenge_digest kernel_instance_id target_instance_id target_key_id verified_at expires_at =
     (if verified_at < 0 \<or> expires_at \<le> verified_at then Inl HE_InvalidStoredRecord
      else Inr \<lparr>ih_challenge_digest = challenge_digest, ih_kernel_instance_id = kernel_instance_id,
                ih_target_instance_id = target_instance_id, ih_target_key_id = target_key_id,
                ih_verified_at = verified_at, ih_expires_at = expires_at\<rparr>)"

definition is_fresh_at :: "InstanceHandshake \<Rightarrow> i64 \<Rightarrow> bool" where
  "is_fresh_at h now \<longleftrightarrow> now \<ge> ih_verified_at h \<and> now < ih_expires_at h"

record HandshakeChallengeRecord =
  hcrec_digest :: bytes
  hcrec_kernel_instance_id :: InstanceId
  hcrec_target_instance_id :: InstanceId
  hcrec_target_key_id :: KeyId
  hcrec_issued_at :: i64
  hcrec_expires_at :: i64

definition HandshakeChallengeRecord_from :: "Crates \<Rightarrow> SignedHandshakeChallenge \<Rightarrow> HandshakeChallengeRecord" where
  "HandshakeChallengeRecord_from X c =
     \<lparr>hcrec_digest = SignedHandshakeChallenge_digest X c,
      hcrec_kernel_instance_id = ipk_instance_id (shc_kernel_key c),
      hcrec_target_instance_id = shc_target_instance_id c, hcrec_target_key_id = shc_target_key_id c,
      hcrec_issued_at = shc_issued_at c, hcrec_expires_at = shc_expires_at c\<rparr>"

record HandshakeExchange =
  hx_response :: SignedHandshakeResponse
  hx_received_at :: i64

datatype HandshakeAttemptOutcome =
    HAO_AlreadyFresh InstanceHandshake
  | HAO_Verified InstanceHandshake
  | HAO_Failed HandshakeError

record HandshakeAttempt =
  ha_instance_id :: InstanceId
  ha_outcome :: HandshakeAttemptOutcome

record ReconcileReport =
  rr_attempts :: "HandshakeAttempt list"


section \<open>The reconciler\<close>

type_synonym handshake_transport = "string \<Rightarrow> SignedHandshakeChallenge \<Rightarrow> HandshakeError + HandshakeExchange"

definition verified_handshake ::
  "Crates \<Rightarrow> handshake_transport \<Rightarrow> InstanceCredential \<Rightarrow> RegisteredInstance \<Rightarrow> SignedHandshakeChallenge \<Rightarrow>
   HandshakeError + InstanceHandshake" where
  "verified_handshake X exchange krn instance challenge =
     bind_result (exchange (ri_endpoint instance) challenge) (\<lambda>x.
     bind_result (SignedHandshakeResponse_verify X (hx_response x) challenge (ri_public_key instance) (hx_received_at x)) (\<lambda>_.
     bind_result (ok_or HE_InvalidTimestamp (checked_add (hx_received_at x) HANDSHAKE_LIFETIME_SECONDS)) (\<lambda>limit.
       InstanceHandshake_restore (SignedHandshakeChallenge_digest X challenge)
         (ipk_instance_id (ic_public_key krn)) (ri_id instance) (ipk_key_id (ri_public_key instance))
         (hx_received_at x) (min limit (ri_lease_expires_at instance)))))"

definition reconcile_instance ::
  "Crates \<Rightarrow> ('s \<Rightarrow> InstanceId \<Rightarrow> InstanceId \<Rightarrow> i64 \<Rightarrow> HandshakeError + InstanceHandshake option) \<Rightarrow>
   ('s \<Rightarrow> HandshakeChallengeRecord \<Rightarrow> 's \<times> (HandshakeError + unit)) \<Rightarrow>
   ('s \<Rightarrow> InstanceHandshake \<Rightarrow> 's \<times> (HandshakeError + unit)) \<Rightarrow> handshake_transport \<Rightarrow> InstanceCredential \<Rightarrow>
   bytes option \<Rightarrow> 's \<Rightarrow> RegisteredInstance \<Rightarrow> i64 \<Rightarrow> 's \<times> (HandshakeError + HandshakeAttemptOutcome)" where
  "reconcile_instance X find_fresh insert_challenge complete exchange krn random s instance now =
     (case find_fresh s (ipk_instance_id (ic_public_key krn)) (ri_id instance) now of
        Inl e \<Rightarrow> (s, Inl e)
      | Inr (Some existing) \<Rightarrow> (s, Inr (HAO_AlreadyFresh existing))
      | Inr None \<Rightarrow>
          (case SignedHandshakeChallenge_issue X random krn instance now of
             Inl e \<Rightarrow> (s, Inl e)
           | Inr challenge \<Rightarrow>
               (case insert_challenge s (HandshakeChallengeRecord_from X challenge) of
                  (s', Inl e) \<Rightarrow> (s', Inl e)
                | (s', Inr _) \<Rightarrow>
                    (case verified_handshake X exchange krn instance challenge of
                       Inl e \<Rightarrow> (s', Inl e)
                     | Inr handshake \<Rightarrow>
                         (case complete s' handshake of
                            (s'', Inl e) \<Rightarrow> (s'', Inl e)
                          | (s'', Inr _) \<Rightarrow> (s'', Inr (HAO_Verified handshake)))))))"

text \<open>The loop of \<open>reconcile\<close>: a failing instance is reported and the next one tried.\<close>

fun reconcile_each ::
  "('s \<Rightarrow> RegisteredInstance \<Rightarrow> nat \<Rightarrow> 's \<times> (HandshakeError + HandshakeAttemptOutcome)) \<Rightarrow>
   's \<Rightarrow> nat \<Rightarrow> RegisteredInstance list \<Rightarrow> 's \<times> HandshakeAttempt list" where
  "reconcile_each one s k [] = (s, [])"
| "reconcile_each one s k (x # xs) =
     (let (s', r) = one s x k;
          attempt = \<lparr>ha_instance_id = ri_id x, ha_outcome = (case r of Inl e \<Rightarrow> HAO_Failed e | Inr o' \<Rightarrow> o')\<rparr>;
          (s'', rest) = reconcile_each one s' (k + 1) xs
      in (s'', attempt # rest))"

definition reconcile ::
  "Crates \<Rightarrow> ('s \<Rightarrow> i64 \<Rightarrow> HandshakeError + RegisteredInstance list) \<Rightarrow>
   ('s \<Rightarrow> InstanceId \<Rightarrow> InstanceId \<Rightarrow> i64 \<Rightarrow> HandshakeError + InstanceHandshake option) \<Rightarrow>
   ('s \<Rightarrow> HandshakeChallengeRecord \<Rightarrow> 's \<times> (HandshakeError + unit)) \<Rightarrow>
   ('s \<Rightarrow> InstanceHandshake \<Rightarrow> 's \<times> (HandshakeError + unit)) \<Rightarrow> handshake_transport \<Rightarrow> InstanceCredential \<Rightarrow>
   (nat \<Rightarrow> bytes option) \<Rightarrow> 's \<Rightarrow> i64 \<Rightarrow> 's \<times> (HandshakeError + ReconcileReport)" where
  "reconcile X discover find_fresh insert_challenge complete exchange krn randoms s now =
     (if now < 0 then (s, Inl HE_InvalidTimestamp)
      else (case discover s now of
              Inl e \<Rightarrow> (s, Inl e)
            | Inr candidates \<Rightarrow>
                (let (s', attempts) = reconcile_each (\<lambda>s x k.
                       reconcile_instance X find_fresh insert_challenge complete exchange krn (randoms k) s x now)
                       s 0 candidates
                 in (s', Inr \<lparr>rr_attempts = attempts\<rparr>))))"

definition require_fresh ::
  "('s \<Rightarrow> InstanceId \<Rightarrow> InstanceId \<Rightarrow> i64 \<Rightarrow> HandshakeError + InstanceHandshake option) \<Rightarrow> InstanceCredential \<Rightarrow>
   's \<Rightarrow> InstanceId \<Rightarrow> i64 \<Rightarrow> HandshakeError + InstanceHandshake" where
  "require_fresh find_fresh krn s target_instance_id now =
     bind_result (find_fresh s (ipk_instance_id (ic_public_key krn)) target_instance_id now)
       (ok_or (HE_HandshakeRequired target_instance_id))"


section \<open>The repository contract\<close>

text \<open>
  The laws of \<open>HandshakeRepository\<close>: only \<open>complete\<close> stores a handshake, at most one
  per challenge digest; what is found fresh is stored, fresh, and of that pair; and a fresh handshake
  of the pair is found.
\<close>

locale handshake_repository =
  fixes good_hs :: "'s \<Rightarrow> bool"
    and handshakes_of :: "'s \<Rightarrow> InstanceHandshake list"
    and find_op :: "'s \<Rightarrow> InstanceId \<Rightarrow> InstanceId \<Rightarrow> i64 \<Rightarrow> HandshakeError + InstanceHandshake option"
    and insert_op :: "'s \<Rightarrow> HandshakeChallengeRecord \<Rightarrow> 's \<times> (HandshakeError + unit)"
    and complete_op :: "'s \<Rightarrow> InstanceHandshake \<Rightarrow> 's \<times> (HandshakeError + unit)"
  assumes find_sound: "good_hs s \<Longrightarrow> find_op s k i now = Inr (Some h) \<Longrightarrow>
      h \<in> set (handshakes_of s) \<and> ih_kernel_instance_id h = k \<and> ih_target_instance_id h = i \<and> is_fresh_at h now"
    and insert_keeps: "good_hs s \<Longrightarrow> insert_op s c = (s', x) \<Longrightarrow> good_hs s' \<and> handshakes_of s' = handshakes_of s"
    and complete_stores: "good_hs s \<Longrightarrow> complete_op s h = (s', Inr u) \<Longrightarrow>
      good_hs s' \<and> handshakes_of s' = handshakes_of s @ [h] \<and>
      ih_challenge_digest h \<notin> ih_challenge_digest ` set (handshakes_of s)"
    and complete_error: "good_hs s \<Longrightarrow> complete_op s h = (s', Inl e) \<Longrightarrow> good_hs s' \<and> handshakes_of s' = handshakes_of s"
begin

text \<open>One attempt stores nothing, or exactly the handshake it reports as verified, for which the
  challenge was issued and the response verified.\<close>

lemma reconcile_instance_stores:
  assumes "good_hs s"
    and "reconcile_instance X find_op insert_op complete_op exchange krn random s instance now = (s', x)"
  shows "good_hs s' \<and> (handshakes_of s' = handshakes_of s \<or>
    (\<exists>challenge h. x = Inr (HAO_Verified h) \<and> handshakes_of s' = handshakes_of s @ [h] \<and>
      SignedHandshakeChallenge_issue X random krn instance now = Inr challenge \<and>
      verified_handshake X exchange krn instance challenge = Inr h))"
proof -
  consider (none) "s' = s" | (ins) c y where "insert_op s c = (s', y)"
    | (comp) challenge s1 u h where "SignedHandshakeChallenge_issue X random krn instance now = Inr challenge"
      and "insert_op s (HandshakeChallengeRecord_from X challenge) = (s1, Inr u)"
      and "verified_handshake X exchange krn instance challenge = Inr h"
      and "complete_op s1 h = (s', Inr ()) \<and> x = Inr (HAO_Verified h) \<or> (\<exists>e. complete_op s1 h = (s', Inl e))"
    using assms(2) by (auto simp: reconcile_instance_def split: sum.splits option.splits prod.splits)
  then show ?thesis
  proof cases
    case none
    with assms(1) show ?thesis by simp
  next
    case ins
    from insert_keeps [OF assms(1) this] show ?thesis by simp
  next
    case comp
    from insert_keeps [OF assms(1) comp(2)] have s1: "good_hs s1" "handshakes_of s1 = handshakes_of s" by simp_all
    from comp(4) show ?thesis
    proof
      assume "complete_op s1 h = (s', Inr ()) \<and> x = Inr (HAO_Verified h)"
      with complete_stores [OF s1(1), of h s' "()"] s1(2) comp(1,3) show ?thesis by auto
    next
      assume "\<exists>e. complete_op s1 h = (s', Inl e)"
      with complete_error [OF s1(1)] s1(2) show ?thesis by fastforce
    qed
  qed
qed

lemma reconcile_each_stores:
  assumes "good_hs s"
    and "reconcile_each (\<lambda>s x k. reconcile_instance X find_op insert_op complete_op exchange krn (randoms k) s x now)
      s k xs = (s', as)"
    and h: "h \<in> set (handshakes_of s')" "h \<notin> set (handshakes_of s)"
  shows "\<exists>instance \<in> set xs. \<exists>random challenge.
      SignedHandshakeChallenge_issue X random krn instance now = Inr challenge \<and>
      verified_handshake X exchange krn instance challenge = Inr h"
  using assms
proof (induction xs arbitrary: s k as)
  case (Cons x xs)
  obtain s1 y where first: "reconcile_instance X find_op insert_op complete_op exchange krn (randoms k) s x now = (s1, y)"
    by fastforce
  note st = reconcile_instance_stores [OF Cons.prems(1) first]
  show ?case
  proof (cases "h \<in> set (handshakes_of s1)")
    case True
    with st Cons.prems(4) show ?thesis by auto
  next
    case False
    obtain s2 bs where rest: "reconcile_each (\<lambda>s x k. reconcile_instance X find_op insert_op complete_op exchange krn (randoms k) s x now)
        s1 (k + 1) xs = (s2, bs)" by fastforce
    with Cons.prems(2) first have "s2 = s'" by simp
    with Cons.IH [OF conjunct1 [OF st] rest [unfolded \<open>s2 = s'\<close>] Cons.prems(3) False] show ?thesis by auto
  qed
qed simp

lemma reconcile_each_good:
  assumes "good_hs s"
    and "reconcile_each (\<lambda>s x k. reconcile_instance X find_op insert_op complete_op exchange krn (randoms k) s x now)
      s k xs = (s', as)"
  shows "good_hs s' \<and> set (handshakes_of s) \<subseteq> set (handshakes_of s')"
  using assms
proof (induction xs arbitrary: s k as)
  case (Cons x xs)
  obtain s1 y where first: "reconcile_instance X find_op insert_op complete_op exchange krn (randoms k) s x now = (s1, y)"
    by fastforce
  obtain s2 bs where rest: "reconcile_each (\<lambda>s x k. reconcile_instance X find_op insert_op complete_op exchange krn (randoms k) s x now)
      s1 (k + 1) xs = (s2, bs)" by fastforce
  with Cons.prems(2) first have "s2 = s'" by simp
  with reconcile_instance_stores [OF Cons.prems(1) first] Cons.IH [OF _ rest [unfolded \<open>s2 = s'\<close>]] show ?case
    by (metis Un_iff set_append subset_iff)
qed simp

end

text \<open>What a verified handshake rests on.\<close>

lemma verified_handshakeD:
  assumes "verified_handshake X exchange krn instance challenge = Inr h"
  shows "\<exists>x. exchange (ri_endpoint instance) challenge = Inr x \<and>
    SignedHandshakeResponse_verify X (hx_response x) challenge (ri_public_key instance) (hx_received_at x) = Inr () \<and>
    ih_challenge_digest h = SignedHandshakeChallenge_digest X challenge \<and>
    ih_kernel_instance_id h = ipk_instance_id (ic_public_key krn) \<and> ih_target_instance_id h = ri_id instance \<and>
    ih_target_key_id h = ipk_key_id (ri_public_key instance) \<and> ih_verified_at h = hx_received_at x \<and>
    ih_expires_at h = min (hx_received_at x + 30) (ri_lease_expires_at instance) \<and>
    0 \<le> ih_verified_at h \<and> ih_verified_at h < ih_expires_at h"
  using assms
  by (auto simp: verified_handshake_def InstanceHandshake_restore_def HANDSHAKE_LIFETIME_SECONDS_def split: if_splits)

text \<open>What the kernel issues verifies as its own.\<close>

lemma issued_verifies:
  assumes "ed25519_ok X" and "krn = InstanceCredential_generate X sk i k a"
    and "SignedHandshakeChallenge_issue X random krn instance now = Inr c"
  shows "verify_kernel X c (ic_public_key krn) = Inr ()" and "shc_kernel_key c = ic_public_key krn"
    and "shc_target_instance_id c = ri_id instance" and "shc_target_key_id c = ipk_key_id (ri_public_key instance)"
    and "shc_issued_at c = now" and "shc_expires_at c \<le> now + 15" and "shc_expires_at c \<le> ri_lease_expires_at instance"
proof -
  from assms(3) show c: "shc_kernel_key c = ic_public_key krn" "shc_target_instance_id c = ri_id instance"
    "shc_target_key_id c = ipk_key_id (ri_public_key instance)" "shc_issued_at c = now" "shc_expires_at c \<le> now + 15"
    "shc_expires_at c \<le> ri_lease_expires_at instance"
    by (auto simp: SignedHandshakeChallenge_issue_def Let_def HANDSHAKE_CHALLENGE_LIFETIME_SECONDS_def split: if_splits)
  from assms(3) have "shc_signature c = InstanceCredential_sign X krn (SignedHandshakeChallenge_message X c)"
    by (auto simp: SignedHandshakeChallenge_issue_def SignedHandshakeChallenge_message_def Let_def split: if_splits)
  with generated_credential_verifies [OF assms(1,2)] c(1) show "verify_kernel X c (ic_public_key krn) = Inr ()"
    by (simp add: verify_kernel_def)
qed

end
