(* ===== verification/Pg_Handshakes.thy ===== *)
theory Pg_Handshakes
  imports Handshakes Pg_Instance_Registry Pg_Subscriptions
begin

text \<open>
  \<open>src/infrastructure/postgres_handshake_repository.rs\<close> and
  \<open>postgres_subscribed_instance_discovery.rs\<close>, with the checks and triggers of migration 0005.
  The interpretation \<open>pghs\<close> discharges the laws of \<open>handshake_repository\<close>.
\<close>

section \<open>Rows and constraints\<close>

abbreviation hs_stmt ::
  "faults \<Rightarrow> nat \<Rightarrow> Db \<Rightarrow> Db \<times> (HandshakeError + 'a) \<Rightarrow> Db \<times> (HandshakeError + 'a)" where
  "hs_stmt io k db rest \<equiv> db_stmt io k HE_Repository db rest"

definition handshake_challenges_check :: "handshake_challenge_row \<Rightarrow> bool" where
  "handshake_challenges_check r \<longleftrightarrow>
     length (hcr_challenge_digest r) = 32 \<and> 0 \<le> hcr_issued_at r \<and> hcr_issued_at r < hcr_expires_at r \<and>
     (case hcr_consumed_at r of None \<Rightarrow> True | Some t \<Rightarrow> hcr_issued_at r \<le> t)"

definition handshakes_check :: "handshake_row \<Rightarrow> bool" where
  "handshakes_check r \<longleftrightarrow> 0 \<le> hsr_verified_at r \<and> hsr_verified_at r < hsr_expires_at r"

definition handshake_audit_check :: "handshake_audit_row \<Rightarrow> bool" where
  "handshake_audit_check r \<longleftrightarrow>
     length (hsa_challenge_digest r) = 32 \<and> hsa_action r \<in> set [''issued'', ''verified''] \<and> 0 \<le> hsa_recorded_at r"

definition handshake_from_row :: "handshake_row \<Rightarrow> HandshakeError + InstanceHandshake" where
  "handshake_from_row row =
     (if length (hsr_challenge_digest row) \<noteq> 32 then Inl HE_InvalidStoredRecord
      else InstanceHandshake_restore (hsr_challenge_digest row) (hsr_kernel_instance_id row)
             (hsr_target_instance_id row) (hsr_target_key_id row) (hsr_verified_at row) (hsr_expires_at row))"

definition handshake_row_of :: "InstanceHandshake \<Rightarrow> handshake_row" where
  "handshake_row_of h =
     \<lparr>hsr_challenge_digest = ih_challenge_digest h, hsr_kernel_instance_id = ih_kernel_instance_id h,
      hsr_target_instance_id = ih_target_instance_id h, hsr_target_key_id = ih_target_key_id h,
      hsr_verified_at = ih_verified_at h, hsr_expires_at = ih_expires_at h\<rparr>"


section \<open>The operations\<close>

text \<open>\<open>append_audit\<close> as statement \<open>k\<close>, then the commit.\<close>

definition append_handshake_audit ::
  "faults \<Rightarrow> nat \<Rightarrow> Db \<Rightarrow> Db \<Rightarrow> bytes \<Rightarrow> InstanceId \<Rightarrow> InstanceId \<Rightarrow> string \<Rightarrow> i64 \<Rightarrow> Db \<times> (HandshakeError + unit)" where
  "append_handshake_audit io k before db digest kernel_instance_id target_instance_id action recorded_at =
     hs_stmt io k before (
       let row = \<lparr>hsa_challenge_digest = digest, hsa_kernel_instance_id = kernel_instance_id,
                  hsa_target_instance_id = target_instance_id, hsa_action = action, hsa_recorded_at = recorded_at\<rparr>
       in if \<not> handshake_audit_check row then (before, Inl (HE_Repository db_error))
          else hs_stmt io (k + 1) before
            (db\<lparr>service_instance_handshake_audit := service_instance_handshake_audit db @ [row]\<rparr>, Inr ()))"

definition pg_handshake_insert_challenge ::
  "faults \<Rightarrow> Db \<Rightarrow> HandshakeChallengeRecord \<Rightarrow> Db \<times> (HandshakeError + unit)" where
  "pg_handshake_insert_challenge io db challenge =
     hs_stmt io 0 db (hs_stmt io 1 db (hs_stmt io 2 db (
       let row = \<lparr>hcr_challenge_digest = hcrec_digest challenge,
                  hcr_kernel_instance_id = hcrec_kernel_instance_id challenge,
                  hcr_target_instance_id = hcrec_target_instance_id challenge,
                  hcr_target_key_id = hcrec_target_key_id challenge, hcr_issued_at = hcrec_issued_at challenge,
                  hcr_expires_at = hcrec_expires_at challenge, hcr_consumed_at = None\<rparr>
       in if \<not> handshake_challenges_check row
             \<or> fk hcr_challenge_digest (service_instance_handshake_challenges db) (hcr_challenge_digest row)
             \<or> \<not> fk sir_instance_id (service_instances db) (hcr_target_instance_id row)
             \<or> \<not> fk sik_key_id (service_instance_keys db) (hcr_target_key_id row)
          then (db, Inl (HE_Repository db_error))
          else append_handshake_audit io 3 db
            (db\<lparr>service_instance_handshake_challenges := service_instance_handshake_challenges db @ [row]\<rparr>)
            (hcrec_digest challenge) (hcrec_kernel_instance_id challenge) (hcrec_target_instance_id challenge)
            ''issued'' (hcrec_issued_at challenge))))"

definition pg_handshake_complete :: "faults \<Rightarrow> Db \<Rightarrow> InstanceHandshake \<Rightarrow> Db \<times> (HandshakeError + unit)" where
  "pg_handshake_complete io db handshake =
     hs_stmt io 0 db (hs_stmt io 1 db (hs_stmt io 2 db (
       let c = (\<lambda>r. hcr_challenge_digest r = ih_challenge_digest handshake \<and>
                    (hcr_kernel_instance_id r = ih_kernel_instance_id handshake \<and>
                     hcr_target_instance_id r = ih_target_instance_id handshake \<and>
                     hcr_consumed_at r = None \<and> hcr_expires_at r > ih_verified_at handshake));
           f = (\<lambda>r. r\<lparr>hcr_consumed_at := Some (ih_verified_at handshake)\<rparr>);
           rows = count_where c (service_instance_handshake_challenges db);
           row = handshake_row_of handshake
       in if \<not> list_all (\<lambda>r. c r \<longrightarrow> handshake_challenges_check (f r)) (service_instance_handshake_challenges db)
          then (db, Inl (HE_Repository db_error))
          else if rows \<noteq> 1 then (db, Inl HE_ChallengeAlreadyUsed)
          else hs_stmt io 3 db (
            if \<not> handshakes_check row
               \<or> fk hsr_challenge_digest (service_instance_handshakes db) (hsr_challenge_digest row)
               \<or> \<not> fk sir_instance_id (service_instances db) (hsr_target_instance_id row)
               \<or> \<not> fk sik_key_id (service_instance_keys db) (hsr_target_key_id row)
            then (db, Inl (HE_Repository db_error))
            else append_handshake_audit io 4 db
              (db\<lparr>service_instance_handshake_challenges :=
                    update_where c f (service_instance_handshake_challenges db),
                  service_instance_handshakes := service_instance_handshakes db @ [row]\<rparr>)
              (ih_challenge_digest handshake) (ih_kernel_instance_id handshake) (ih_target_instance_id handshake)
              ''verified'' (ih_verified_at handshake)))))"

definition pg_find_fresh ::
  "faults \<Rightarrow> Db \<Rightarrow> InstanceId \<Rightarrow> InstanceId \<Rightarrow> i64 \<Rightarrow> HandshakeError + InstanceHandshake option" where
  "pg_find_fresh io db kernel_instance_id target_instance_id now =
     (if now < 0 then Inl HE_InvalidTimestamp
      else snd (hs_stmt io 0 db (hs_stmt io 1 db
        (db, transpose_option (map_option handshake_from_row
               (top_by hsr_verified_at (filter (\<lambda>r.
                  hsr_kernel_instance_id r = kernel_instance_id \<and> hsr_target_instance_id r = target_instance_id \<and>
                  hsr_verified_at r \<le> now \<and> hsr_expires_at r > now) (service_instance_handshakes db))))))))"

text \<open>Discovery: the three-way join, projected to the selected columns, without duplicates, in the order
  of the instance IDs (the text form of a UUID orders like its value).\<close>

definition discovery_from_row :: "Crates \<Rightarrow> instance_row \<times> instance_key_row \<Rightarrow> HandshakeError + RegisteredInstance" where
  "discovery_from_row X row =
     (let (si, sik) = row
      in if length (sik_public_key sik) \<noteq> PUBLIC_KEY_LENGTH then Inl HE_InvalidStoredRecord
         else bind_result (map_err (\<lambda>_. HE_InvalidStoredRecord) (InstancePublicKey_restore X (sir_service_id si)
                 (sir_instance_id si) (sik_key_id sik) (sik_public_key sik))) (\<lambda>public_key.
           map_err (\<lambda>_. HE_InvalidStoredRecord) (RegisteredInstance_restore public_key (sir_endpoint si)
             (sir_registered_at si) (sir_lease_expires_at si) (sir_lease_revision si) (sir_revoked_at si))))"

definition subscribed_instance_rows :: "Db \<Rightarrow> i64 \<Rightarrow> (instance_row \<times> instance_key_row) list" where
  "subscribed_instance_rows db now =
     sort_key (\<lambda>p. InstanceId_as_uuid (sir_instance_id (fst p))) (remdups
       (concat (map (\<lambda>s. concat (map (\<lambda>si. map (Pair si) (filter (\<lambda>sik.
            sik_instance_id sik = sir_instance_id si \<and> sik_revoked_at sik = None) (service_instance_keys db)))
          (filter (\<lambda>si. sir_service_id si = sbr_service_id s \<and> sir_revoked_at si = None \<and>
            sir_registered_at si \<le> now \<and> sir_lease_expires_at si > now) (service_instances db))))
        (filter (\<lambda>s. sbr_disabled_at s = None) (subscriptions db)))))"

definition pg_eligible_subscribed_instances ::
  "Crates \<Rightarrow> faults \<Rightarrow> Db \<Rightarrow> i64 \<Rightarrow> HandshakeError + RegisteredInstance list" where
  "pg_eligible_subscribed_instances X io db now =
     (if now < 0 then Inl HE_InvalidTimestamp
      else snd (hs_stmt io 0 db (hs_stmt io 1 db
        (db, collect_results (discovery_from_row X) (subscribed_instance_rows db now)))))"


section \<open>The contract\<close>

definition row_handshake :: "handshake_row \<Rightarrow> InstanceHandshake" where
  "row_handshake r =
     \<lparr>ih_challenge_digest = hsr_challenge_digest r, ih_kernel_instance_id = hsr_kernel_instance_id r,
      ih_target_instance_id = hsr_target_instance_id r, ih_target_key_id = hsr_target_key_id r,
      ih_verified_at = hsr_verified_at r, ih_expires_at = hsr_expires_at r\<rparr>"

definition stored_handshakes :: "Db \<Rightarrow> InstanceHandshake list" where
  "stored_handshakes db = map row_handshake (service_instance_handshakes db)"

text \<open>Every handshake is the one use of a challenge of the same pair that had not expired.\<close>

definition uses_challenge :: "handshake_row \<Rightarrow> handshake_challenge_row \<Rightarrow> bool" where
  "uses_challenge h c \<longleftrightarrow>
     hcr_challenge_digest c = hsr_challenge_digest h \<and>
     hcr_kernel_instance_id c = hsr_kernel_instance_id h \<and> hcr_target_instance_id c = hsr_target_instance_id h \<and>
     hcr_consumed_at c = Some (hsr_verified_at h) \<and> hcr_issued_at c \<le> hsr_verified_at h \<and>
     hsr_verified_at h < hcr_expires_at c"

definition good_handshakes :: "Db \<Rightarrow> bool" where
  "good_handshakes db \<longleftrightarrow>
     distinct (map hcr_challenge_digest (service_instance_handshake_challenges db)) \<and>
     distinct (map hsr_challenge_digest (service_instance_handshakes db)) \<and>
     list_all (\<lambda>h. length (hsr_challenge_digest h) = 32 \<and> handshakes_check h \<and>
        list_ex (uses_challenge h) (service_instance_handshake_challenges db)) (service_instance_handshakes db)"

lemma row_handshake_of [simp]: "row_handshake (handshake_row_of h) = h"
  by (simp add: row_handshake_def handshake_row_of_def)

lemma append_handshake_audit_cases:
  "append_handshake_audit io k before db d ki ti a t = (db', x) \<Longrightarrow>
     (\<exists>e. x = Inl e \<and> db' = before) \<or> (x = Inr () \<and> (\<exists>rows. db' = db\<lparr>service_instance_handshake_audit := rows\<rparr>))"
  unfolding append_handshake_audit_def Let_def by (auto split: if_splits db_stmt_splits)

lemma pg_handshake_insert_cases:
  assumes "pg_handshake_insert_challenge io db c = (db', x)"
  shows "db' = db \<or> hcrec_digest c \<notin> hcr_challenge_digest ` set (service_instance_handshake_challenges db) \<and>
    service_instance_handshakes db' = service_instance_handshakes db \<and>
    (\<exists>row. hcr_challenge_digest row = hcrec_digest c \<and>
      service_instance_handshake_challenges db' = service_instance_handshake_challenges db @ [row])"
  using assms unfolding pg_handshake_insert_challenge_def Let_def
  by (auto simp: fk_iff split: if_splits db_stmt_splits dest!: append_handshake_audit_cases)

lemma pg_handshake_complete_Inl:
  "pg_handshake_complete io db h = (db', Inl e) \<Longrightarrow> db' = db"
  unfolding pg_handshake_complete_def Let_def
  by (auto split: if_splits db_stmt_splits dest!: append_handshake_audit_cases)

lemma pg_handshake_complete_Inr:
  assumes "distinct (map hcr_challenge_digest (service_instance_handshake_challenges db))"
    and "pg_handshake_complete io db h = (db', Inr u)"
  obtains r where "r \<in> set (service_instance_handshake_challenges db)" and "hcr_challenge_digest r = ih_challenge_digest h"
    and "hcr_kernel_instance_id r = ih_kernel_instance_id h" and "hcr_target_instance_id r = ih_target_instance_id h"
    and "hcr_consumed_at r = None" and "ih_verified_at h < hcr_expires_at r"
    and "hcr_issued_at r \<le> ih_verified_at h" and "length (ih_challenge_digest h) = 32"
    and "handshakes_check (handshake_row_of h)"
    and "ih_challenge_digest h \<notin> hsr_challenge_digest ` set (service_instance_handshakes db)"
    and "service_instance_handshakes db' = service_instance_handshakes db @ [handshake_row_of h]"
    and "service_instance_handshake_challenges db' =
      update_where (\<lambda>r. hcr_challenge_digest r = ih_challenge_digest h)
        (\<lambda>r. r\<lparr>hcr_consumed_at := Some (ih_verified_at h)\<rparr>) (service_instance_handshake_challenges db)"
proof -
  let ?Q = "\<lambda>r. hcr_kernel_instance_id r = ih_kernel_instance_id h \<and> hcr_target_instance_id r = ih_target_instance_id h \<and>
      hcr_consumed_at r = None \<and> hcr_expires_at r > ih_verified_at h"
  let ?c = "\<lambda>r. hcr_challenge_digest r = ih_challenge_digest h \<and> ?Q r"
  let ?f = "\<lambda>r. r\<lparr>hcr_consumed_at := Some (ih_verified_at h)\<rparr>"
  from assms(2) have one: "count_where ?c (service_instance_handshake_challenges db) = 1"
    and chk: "list_all (\<lambda>r. ?c r \<longrightarrow> handshake_challenges_check (?f r)) (service_instance_handshake_challenges db)"
    and new: "handshakes_check (handshake_row_of h)"
      "\<not> fk hsr_challenge_digest (service_instance_handshakes db) (hsr_challenge_digest (handshake_row_of h))"
    and aud: "append_handshake_audit io 4 db
        (db\<lparr>service_instance_handshake_challenges := update_where ?c ?f (service_instance_handshake_challenges db),
            service_instance_handshakes := service_instance_handshakes db @ [handshake_row_of h]\<rparr>)
        (ih_challenge_digest h) (ih_kernel_instance_id h) (ih_target_instance_id h) ''verified'' (ih_verified_at h) = (db', Inr u)"
    unfolding pg_handshake_complete_def Let_def by (auto split: if_splits)
  from one have "count_where ?c (service_instance_handshake_challenges db) \<noteq> 0" by simp
  with assms(1) obtain r where r: "r \<in> set (service_instance_handshake_challenges db)" "hcr_challenge_digest r = ih_challenge_digest h" "?Q r"
    and upd: "update_where ?c ?f (service_instance_handshake_challenges db) =
      update_where (\<lambda>r. hcr_challenge_digest r = ih_challenge_digest h) ?f (service_instance_handshake_challenges db)"
    by (rule count_where_keyed)
  from chk r have "handshake_challenges_check (?f r)" by (auto simp: list_all_iff)
  then have "length (ih_challenge_digest h) = 32" "hcr_issued_at r \<le> ih_verified_at h"
    using r(2) by (simp_all add: handshake_challenges_check_def)
  moreover have "service_instance_handshakes db' = service_instance_handshakes db @ [handshake_row_of h]"
    "service_instance_handshake_challenges db' = update_where ?c ?f (service_instance_handshake_challenges db)"
    using append_handshake_audit_cases [OF aud] by auto
  ultimately show thesis
    using that [OF r(1,2)] r(3) new upd by (simp add: fk_iff handshake_row_of_def)
qed

lemma good_handshakes_insert:
  assumes "good_handshakes db" and "service_instance_handshakes db' = service_instance_handshakes db"
    and "service_instance_handshake_challenges db' = service_instance_handshake_challenges db @ [row]"
    and "hcr_challenge_digest row \<notin> hcr_challenge_digest ` set (service_instance_handshake_challenges db)"
  shows "good_handshakes db'"
  using assms by (auto simp: good_handshakes_def list_all_iff)

lemma pg_handshake_complete_good:
  assumes good: "good_handshakes db" and "pg_handshake_complete io db h = (db', Inr u)"
  shows "good_handshakes db'"
proof -
  have dist: "distinct (map hcr_challenge_digest (service_instance_handshake_challenges db))"
    using good by (simp add: good_handshakes_def)
  let ?f = "\<lambda>r. r\<lparr>hcr_consumed_at := Some (ih_verified_at h)\<rparr>"
  obtain r where r: "r \<in> set (service_instance_handshake_challenges db)" "hcr_challenge_digest r = ih_challenge_digest h"
    "hcr_kernel_instance_id r = ih_kernel_instance_id h" "hcr_target_instance_id r = ih_target_instance_id h"
    "hcr_consumed_at r = None" "ih_verified_at h < hcr_expires_at r" "hcr_issued_at r \<le> ih_verified_at h"
    and len: "length (ih_challenge_digest h) = 32" and chk: "handshakes_check (handshake_row_of h)"
    and new: "ih_challenge_digest h \<notin> hsr_challenge_digest ` set (service_instance_handshakes db)"
    and hs: "service_instance_handshakes db' = service_instance_handshakes db @ [handshake_row_of h]"
    and ch: "service_instance_handshake_challenges db' =
      update_where (\<lambda>r. hcr_challenge_digest r = ih_challenge_digest h) ?f (service_instance_handshake_challenges db)"
    by (rule pg_handshake_complete_Inr [OF dist assms(2)])
  have in_ch: "(if hcr_challenge_digest c = ih_challenge_digest h then ?f c else c) \<in> set (service_instance_handshake_challenges db')"
    if "c \<in> set (service_instance_handshake_challenges db)" for c
    using that by (simp add: ch set_update_where)
  have old: "list_ex (uses_challenge g) (service_instance_handshake_challenges db')"
    if g: "g \<in> set (service_instance_handshakes db)" for g
  proof -
    obtain c where c: "c \<in> set (service_instance_handshake_challenges db)" "uses_challenge g c"
      using good g by (auto simp: good_handshakes_def list_all_iff list_ex_iff)
    moreover have "hsr_challenge_digest g \<noteq> ih_challenge_digest h" using new g by (metis image_eqI)
    ultimately show ?thesis using in_ch [OF c(1)] by (auto simp: uses_challenge_def list_ex_iff)
  qed
  have "uses_challenge (handshake_row_of h) (?f r)"
    using r by (simp add: uses_challenge_def handshake_row_of_def)
  with in_ch [OF r(1)] r(2) have "list_ex (uses_challenge (handshake_row_of h)) (service_instance_handshake_challenges db')"
    by (auto simp: list_ex_iff)
  moreover have "distinct (map hcr_challenge_digest (service_instance_handshake_challenges db'))"
    using dist by (simp add: ch map_update_where)
  moreover have "distinct (map hsr_challenge_digest (service_instance_handshakes db'))"
    using good new by (simp add: hs good_handshakes_def handshake_row_of_def)
  moreover have "length (hsr_challenge_digest (handshake_row_of h)) = 32" using len by (simp add: handshake_row_of_def)
  ultimately show ?thesis using old good chk by (simp add: good_handshakes_def hs list_all_iff)
qed

lemma good_handshakes_cong:
  "service_instance_handshakes db' = service_instance_handshakes db \<Longrightarrow>
   service_instance_handshake_challenges db' = service_instance_handshake_challenges db \<Longrightarrow>
     good_handshakes db' = good_handshakes db \<and> stored_handshakes db' = stored_handshakes db"
  by (simp add: good_handshakes_def stored_handshakes_def)

lemma digests_of_stored: "ih_challenge_digest ` set (stored_handshakes db) = hsr_challenge_digest ` set (service_instance_handshakes db)"
  by (simp add: stored_handshakes_def image_image row_handshake_def)

interpretation pghs: handshake_repository good_handshakes stored_handshakes "pg_find_fresh io'"
  "pg_handshake_insert_challenge io" "pg_handshake_complete io''" for io io' io''
proof
  fix s s' :: Db and k i now h c x u e
  assume good: "good_handshakes s"
  show "h \<in> set (stored_handshakes s) \<and> ih_kernel_instance_id h = k \<and> ih_target_instance_id h = i \<and> is_fresh_at h now"
    if "pg_find_fresh io' s k i now = Inr (Some h)"
  proof -
    from that obtain row where top: "top_by hsr_verified_at (filter (\<lambda>r. hsr_kernel_instance_id r = k \<and> hsr_target_instance_id r = i \<and>
        hsr_verified_at r \<le> now \<and> hsr_expires_at r > now) (service_instance_handshakes s)) = Some row"
      and h: "handshake_from_row row = Inr h"
      by (auto simp: pg_find_fresh_def transpose_option_def split: if_splits option.splits sum.splits db_stmt_splits)
    from h have "h = row_handshake row"
      by (auto simp: handshake_from_row_def InstanceHandshake_restore_def row_handshake_def split: if_splits)
    with top_by_Some [OF top] show ?thesis
      by (auto simp: stored_handshakes_def row_handshake_def is_fresh_at_def)
  qed
  show "good_handshakes s' \<and> stored_handshakes s' = stored_handshakes s"
    if "pg_handshake_insert_challenge io s c = (s', x)"
    using pg_handshake_insert_cases [OF that] good good_handshakes_insert [OF good]
    by (auto simp: stored_handshakes_def)
  show "good_handshakes s' \<and> stored_handshakes s' = stored_handshakes s @ [h] \<and>
      ih_challenge_digest h \<notin> ih_challenge_digest ` set (stored_handshakes s)"
    if com: "pg_handshake_complete io'' s h = (s', Inr u)"
  proof (rule pg_handshake_complete_Inr [OF _ com])
    show "distinct (map hcr_challenge_digest (service_instance_handshake_challenges s))"
      using good by (simp add: good_handshakes_def)
  next
    assume "ih_challenge_digest h \<notin> hsr_challenge_digest ` set (service_instance_handshakes s)"
      and "service_instance_handshakes s' = service_instance_handshakes s @ [handshake_row_of h]"
    with pg_handshake_complete_good [OF good com] show ?thesis
      by (simp add: digests_of_stored) (simp add: stored_handshakes_def)
  qed
  show "good_handshakes s' \<and> stored_handshakes s' = stored_handshakes s" if "pg_handshake_complete io'' s h = (s', Inl e)"
    using good pg_handshake_complete_Inl [OF that] by simp
qed

end
