(* ===== verification/Handshake_Properties.thy ===== *)
theory Handshake_Properties
  imports Pg_Handshakes Sample_Crates
begin

text \<open>
  What a delivery-eligible instance stands for, over whole histories of the handshake reconciler on
  the PostgreSQL adapters, with arbitrary peers: the transport may answer anything.
\<close>

definition pg_reconcile ::
  "Crates \<Rightarrow> faults \<Rightarrow> faults \<Rightarrow> faults \<Rightarrow> faults \<Rightarrow> handshake_transport \<Rightarrow> InstanceCredential \<Rightarrow> (nat \<Rightarrow> bytes option) \<Rightarrow>
   Db \<Rightarrow> i64 \<Rightarrow> Db \<times> (HandshakeError + ReconcileReport)" where
  "pg_reconcile X io1 io2 io3 io4 exchange =
     reconcile X (pg_eligible_subscribed_instances X io1) (pg_find_fresh io2) (pg_handshake_insert_challenge io3)
       (pg_handshake_complete io4) exchange"

text \<open>Histories: reconciliations by any kernel instance with a generated credential, and anything that
  leaves the two tables alone.\<close>

inductive handshake_run :: "Crates \<Rightarrow> Db \<Rightarrow> Db \<Rightarrow> bool" for X where
  hrun_reconcile: "pg_reconcile X io1 io2 io3 io4 exchange (InstanceCredential_generate X sk i k a) randoms db now = (db', x) \<Longrightarrow>
    handshake_run X db db'"
| hrun_other: "service_instance_handshakes db' = service_instance_handshakes db \<Longrightarrow>
    service_instance_handshake_challenges db' = service_instance_handshake_challenges db \<Longrightarrow> handshake_run X db db'"

text \<open>What a handshake stored by a pass that found the database \<open>db\<close> proves of the two parties. The
  target is a row of the registry as the pass found it, with its key: neither is revoked, its lease
  runs, its service has an active subscription; the response verifies under the key of that row, and the
  handshake ends with the lease of that row at the latest.\<close>

definition mutually_signed :: "Crates \<Rightarrow> Db \<Rightarrow> InstanceHandshake \<Rightarrow> bool" where
  "mutually_signed X db h \<longleftrightarrow> (\<exists>challenge signature.
     ipk_instance_id (shc_kernel_key challenge) = ih_kernel_instance_id h \<and>
     verify_kernel X challenge (shc_kernel_key challenge) = Inr () \<and>
     shc_target_instance_id challenge = ih_target_instance_id h \<and> shc_target_key_id challenge = ih_target_key_id h \<and>
     shc_issued_at challenge \<le> ih_verified_at h \<and> ih_verified_at h < shc_expires_at challenge \<and>
     shc_expires_at challenge \<le> shc_issued_at challenge + 15 \<and>
     ih_challenge_digest h = SignedHandshakeChallenge_digest X challenge \<and>
     ih_expires_at h \<le> ih_verified_at h + 30 \<and>
     (\<exists>si \<in> set (service_instances db). \<exists>sik \<in> set (service_instance_keys db).
        sir_instance_id si = ih_target_instance_id h \<and> sir_revoked_at si = None \<and>
        sik_instance_id sik = ih_target_instance_id h \<and> sik_key_id sik = ih_target_key_id h \<and> sik_revoked_at sik = None \<and>
        (\<exists>s \<in> set (subscriptions db). sbr_service_id s = sir_service_id si \<and> sbr_disabled_at s = None) \<and>
        sir_registered_at si \<le> shc_issued_at challenge \<and> shc_issued_at challenge < sir_lease_expires_at si \<and>
        ih_expires_at h \<le> sir_lease_expires_at si \<and>
        ed_verify_strict X (sik_public_key sik)
          (response_message X (ih_kernel_instance_id h) (ih_target_instance_id h) (ih_target_key_id h) (ih_challenge_digest h))
          (InstanceSignature_as_bytes signature)))"

lemma discovered_registered:
  assumes "pg_eligible_subscribed_instances X io db now = Inr xs" and "x \<in> set xs"
  shows "\<exists>si \<in> set (service_instances db). \<exists>sik \<in> set (service_instance_keys db).
    sir_instance_id si = ri_id x \<and> sir_revoked_at si = None \<and>
    sik_instance_id sik = ri_id x \<and> sik_key_id sik = ipk_key_id (ri_public_key x) \<and> sik_revoked_at sik = None \<and>
    (\<exists>s \<in> set (subscriptions db). sbr_service_id s = sir_service_id si \<and> sbr_disabled_at s = None) \<and>
    sir_registered_at si \<le> now \<and> now < sir_lease_expires_at si \<and>
    ri_lease_expires_at x = sir_lease_expires_at si \<and> ipk_public_key (ri_public_key x) = sik_public_key sik"
proof -
  from assms(1) have "collect_results (discovery_from_row X) (subscribed_instance_rows db now) = Inr xs"
    by (auto simp: pg_eligible_subscribed_instances_def split: if_splits db_stmt_splits)
  then have "list_all2 (\<lambda>p y. discovery_from_row X p = Inr y) (subscribed_instance_rows db now) xs"
    by (simp add: collect_results_Inr_iff)
  moreover obtain i where "i < length xs" "x = xs ! i" using assms(2) by (auto simp: in_set_conv_nth)
  ultimately have "subscribed_instance_rows db now ! i \<in> set (subscribed_instance_rows db now)"
    "discovery_from_row X (subscribed_instance_rows db now ! i) = Inr x"
    by (simp_all add: list_all2_conv_all_nth)
  then obtain si sik where row: "(si, sik) \<in> set (subscribed_instance_rows db now)" "discovery_from_row X (si, sik) = Inr x"
    by (metis surj_pair)
  from row(1) have "si \<in> set (service_instances db)" "sik \<in> set (service_instance_keys db)"
    "sir_revoked_at si = None" "sik_revoked_at sik = None" "sik_instance_id sik = sir_instance_id si"
    "sir_registered_at si \<le> now" "now < sir_lease_expires_at si"
    "\<exists>s \<in> set (subscriptions db). sbr_service_id s = sir_service_id si \<and> sbr_disabled_at s = None"
    by (auto simp: subscribed_instance_rows_def)
  moreover from row(2) have "ri_id x = sir_instance_id si" "ipk_key_id (ri_public_key x) = sik_key_id sik"
    "ipk_public_key (ri_public_key x) = sik_public_key sik" "ri_lease_expires_at x = sir_lease_expires_at si"
    by (auto simp: discovery_from_row_def RegisteredInstance_restore_def InstancePublicKey_restore_def split: if_splits)
  ultimately show ?thesis by (intro bexI [of _ si] bexI [of _ sik]) simp_all
qed

lemma verified_handshake_signed:
  assumes "ed25519_ok X" and "krn = InstanceCredential_generate X sk i k a"
    and issue: "SignedHandshakeChallenge_issue X random krn instance now = Inr challenge"
    and ver: "verified_handshake X exchange krn instance challenge = Inr h"
    and disc: "pg_eligible_subscribed_instances X io db now = Inr xs" "instance \<in> set xs"
  shows "mutually_signed X db h"
proof -
  note c = issued_verifies [OF assms(1-3)]
  obtain x :: HandshakeExchange where x: "SignedHandshakeResponse_verify X (hx_response x) challenge (ri_public_key instance) (hx_received_at x) = Inr ()"
    and h: "ih_challenge_digest h = SignedHandshakeChallenge_digest X challenge"
      "ih_kernel_instance_id h = ipk_instance_id (ic_public_key krn)" "ih_target_instance_id h = ri_id instance"
      "ih_target_key_id h = ipk_key_id (ri_public_key instance)" "ih_verified_at h = hx_received_at x"
      "ih_expires_at h = min (hx_received_at x + 30) (ri_lease_expires_at instance)"
    using verified_handshakeD [OF ver] by (elim exE conjE) (rule that)
  from x have r: "shc_issued_at challenge \<le> hx_received_at x" "hx_received_at x < shc_expires_at challenge"
    "ed_verify_strict X (ipk_public_key (ri_public_key instance))
       (response_message X (ih_kernel_instance_id h) (ih_target_instance_id h) (ih_target_key_id h) (ih_challenge_digest h))
       (InstanceSignature_as_bytes (shr_signature (hx_response x)))"
    using c h by (auto simp: SignedHandshakeResponse_verify_def split: if_splits)
  obtain si sik where reg: "si \<in> set (service_instances db)" "sik \<in> set (service_instance_keys db)"
    "sir_instance_id si = ri_id instance" "sir_revoked_at si = None"
    "sik_instance_id sik = ri_id instance" "sik_key_id sik = ipk_key_id (ri_public_key instance)" "sik_revoked_at sik = None"
    "\<exists>s \<in> set (subscriptions db). sbr_service_id s = sir_service_id si \<and> sbr_disabled_at s = None"
    "sir_registered_at si \<le> now" "now < sir_lease_expires_at si" "ri_lease_expires_at instance = sir_lease_expires_at si"
    "ipk_public_key (ri_public_key instance) = sik_public_key sik"
    using discovered_registered [OF disc] by blast
  show ?thesis
    unfolding mutually_signed_def
    by (intro exI [of _ challenge] exI [of _ "shr_signature (hx_response x)"] conjI bexI [of _ si] bexI [of _ sik])
      (use c h r reg in simp_all)
qed

lemma reconcile_signed:
  assumes "ed25519_ok X" and good: "good_handshakes db"
    and rec: "pg_reconcile X io1 io2 io3 io4 exchange (InstanceCredential_generate X sk i k a) randoms db now = (db', x)"
  shows "good_handshakes db' \<and>
    (\<forall>h \<in> set (stored_handshakes db'). h \<in> set (stored_handshakes db) \<or> mutually_signed X db h)"
proof -
  let ?krn = "InstanceCredential_generate X sk i k a"
  from rec consider "db' = db" | xs as where
    "pg_eligible_subscribed_instances X io1 db now = Inr xs" "reconcile_each (\<lambda>s x n. reconcile_instance X (pg_find_fresh io2) (pg_handshake_insert_challenge io3) (pg_handshake_complete io4)
      exchange ?krn (randoms n) s x now) db 0 xs = (db', as)"
    by (auto simp: pg_reconcile_def reconcile_def split: if_splits sum.splits prod.splits)
  then show ?thesis
  proof cases
    case 2
    have "mutually_signed X db h" if "h \<in> set (stored_handshakes db')" "h \<notin> set (stored_handshakes db)" for h
      using pghs.reconcile_each_stores [OF good 2(2) that] verified_handshake_signed [OF assms(1) refl] 2(1) by blast
    with pghs.reconcile_each_good [OF good 2(2)] show ?thesis by blast
  qed (use good in simp)
qed

lemma handshake_run_signed:
  assumes "ed25519_ok X" and "handshake_run X db db'" and "good_handshakes db"
  shows "good_handshakes db' \<and> (\<forall>h \<in> set (stored_handshakes db'). h \<in> set (stored_handshakes db) \<or> mutually_signed X db h)"
  using assms(2)
proof cases
  case (hrun_reconcile io1 io2 io3 io4 exchange sk i k a randoms now x)
  from reconcile_signed [OF assms(1,3) hrun_reconcile] show ?thesis .
next
  case hrun_other
  with good_handshakes_cong [OF hrun_other] assms(3) show ?thesis by (simp add: stored_handshakes_def)
qed

lemma good_handshakes_empty: "good_handshakes empty_db"
  by (simp add: good_handshakes_def empty_db_def)

lemma handshake_runs_good:
  assumes "ed25519_ok X" and "(handshake_run X)\<^sup>*\<^sup>* empty_db db"
  shows "good_handshakes db"
  using assms(2) by (induction rule: rtranclp_induct) (use good_handshakes_empty handshake_run_signed [OF assms(1)] in blast)+

text \<open>A history of databases from the empty one, step by step.\<close>

definition handshake_history :: "Crates \<Rightarrow> nat \<Rightarrow> (nat \<Rightarrow> Db) \<Rightarrow> bool" where
  "handshake_history X n dbs \<longleftrightarrow> dbs 0 = empty_db \<and> (\<forall>t < n. handshake_run X (dbs t) (dbs (t + 1)))"

lemma handshake_history_signed:
  assumes "ed25519_ok X" and "handshake_history X n dbs"
  shows "good_handshakes (dbs n) \<and> (\<forall>h \<in> set (stored_handshakes (dbs n)).
    \<exists>t < n. h \<notin> set (stored_handshakes (dbs t)) \<and> h \<in> set (stored_handshakes (dbs (t + 1))) \<and> mutually_signed X (dbs t) h)"
  using assms(2)
proof (induction n)
  case 0
  then show ?case using good_handshakes_empty by (simp add: handshake_history_def stored_handshakes_def empty_db_def)
next
  case (Suc n)
  then have hist: "handshake_history X n dbs" and last: "handshake_run X (dbs n) (dbs (Suc n))"
    by (auto simp: handshake_history_def)
  note IH = Suc.IH [OF hist] and step = handshake_run_signed [OF assms(1) last conjunct1 [OF Suc.IH [OF hist]]]
  show ?case
  proof (intro conjI ballI)
    fix h
    assume h: "h \<in> set (stored_handshakes (dbs (Suc n)))"
    show "\<exists>t < Suc n. h \<notin> set (stored_handshakes (dbs t)) \<and> h \<in> set (stored_handshakes (dbs (t + 1))) \<and> mutually_signed X (dbs t) h"
    proof (cases "h \<in> set (stored_handshakes (dbs n))")
      case True
      with IH show ?thesis by (meson less_SucI)
    next
      case False
      with step h have "mutually_signed X (dbs n) h" by blast
      with False h show ?thesis by (intro exI [of _ n]) simp
    qed
  qed (use step in simp)
qed

text \<open>C21: A fresh handshake means both sides signed. Whatever peers answered over a history of the
  kernel's reconciliations, when a kernel instance finds a fresh handshake with an instance, it is that
  pair's and fresh at that time, and the pass that stored it found the instance in the registry,
  unrevoked and leased, of a service with an active subscription, and holds a challenge signed by that
  kernel instance, naming the instance and its key, at most 15 seconds wide and open when the
  handshake was verified, whose digest the key registered for the instance signed; it lasts at
  most 30 seconds and never beyond the lease the registry gave the instance.\<close>

theorem fresh_handshake_mutually_signed:
  assumes "ed25519_ok X" and "handshake_history X n dbs"
    and "require_fresh (pg_find_fresh io) krn (dbs n) target now = Inr h"
  shows "ih_kernel_instance_id h = ipk_instance_id (ic_public_key krn) \<and> ih_target_instance_id h = target \<and>
    is_fresh_at h now \<and>
    (\<exists>t < n. h \<notin> set (stored_handshakes (dbs t)) \<and> h \<in> set (stored_handshakes (dbs (t + 1))) \<and> mutually_signed X (dbs t) h)"
proof -
  have "pg_find_fresh io (dbs n) (ipk_instance_id (ic_public_key krn)) target now = Inr (Some h)"
    using assms(3) by (auto simp: require_fresh_def)
  with pghs.find_sound handshake_history_signed [OF assms(1,2)] show ?thesis by blast
qed

text \<open>A challenge is used for at most one handshake. In every reachable database each handshake has
  its own challenge row, of the same kernel and target instance, consumed at the time of verification,
  at or after its issue and before its expiry; two handshakes with the same challenge are the same.\<close>

theorem handshake_challenge_single_use:
  assumes "ed25519_ok X" and "(handshake_run X)\<^sup>*\<^sup>* empty_db db"
    and "h \<in> set (service_instance_handshakes db)" and "g \<in> set (service_instance_handshakes db)"
  shows "(\<exists>c \<in> set (service_instance_handshake_challenges db). uses_challenge h c) \<and>
    (hsr_challenge_digest g = hsr_challenge_digest h \<longrightarrow> g = h)"
proof -
  have good: "good_handshakes db" by (rule handshake_runs_good [OF assms(1,2)])
  then have "inj_on hsr_challenge_digest (set (service_instance_handshakes db))"
    by (simp add: good_handshakes_def distinct_map)
  with good assms(3,4) show ?thesis
    by (auto simp: good_handshakes_def list_all_iff list_ex_iff dest: inj_onD)
qed


section \<open>An honest instance\<close>

text \<open>The transport to an instance that signs with its credential and answers at \<open>t\<close>.\<close>

definition honest_exchange :: "Crates \<Rightarrow> InstanceCredential \<Rightarrow> i64 \<Rightarrow> handshake_transport" where
  "honest_exchange X target t endpoint challenge =
     bind_result (SignedHandshakeResponse_sign X challenge target) (\<lambda>r. Inr \<lparr>hx_response = r, hx_received_at = t\<rparr>)"

lemma honest_exchange_verified:
  assumes "ed25519_ok X" and "target = InstanceCredential_generate X sk i k a" and "ri_public_key instance = ic_public_key target"
    and c: "shc_target_instance_id c = ri_id instance" "shc_target_key_id c = ipk_key_id (ri_public_key instance)"
      "ipk_instance_id (shc_kernel_key c) = ipk_instance_id (ic_public_key krn)"
    and t: "shc_issued_at c \<le> t" "t < shc_expires_at c" "0 \<le> t" "in_i64 (t + 30)" "t < ri_lease_expires_at instance"
  shows "verified_handshake X (honest_exchange X target t) krn instance c =
    Inr \<lparr>ih_challenge_digest = SignedHandshakeChallenge_digest X c, ih_kernel_instance_id = ipk_instance_id (ic_public_key krn),
         ih_target_instance_id = ri_id instance, ih_target_key_id = ipk_key_id (ri_public_key instance),
         ih_verified_at = t, ih_expires_at = min (t + 30) (ri_lease_expires_at instance)\<rparr>"
proof -
  let ?r = "\<lparr>shr_kernel_instance_id = ipk_instance_id (shc_kernel_key c), shr_target_instance_id = shc_target_instance_id c,
      shr_target_key_id = shc_target_key_id c, shr_challenge_digest = SignedHandshakeChallenge_digest X c,
      shr_signature = InstanceCredential_sign X target (response_message X (ipk_instance_id (shc_kernel_key c))
        (shc_target_instance_id c) (shc_target_key_id c) (SignedHandshakeChallenge_digest X c))\<rparr>"
  have sig: "SignedHandshakeResponse_sign X c target = Inr ?r"
    using assms(3) c by (simp add: SignedHandshakeResponse_sign_def Let_def)
  have "SignedHandshakeResponse_verify X ?r c (ri_public_key instance) t = Inr ()"
    using generated_credential_verifies [OF assms(1,2)] assms(3) c t
    by (simp add: SignedHandshakeResponse_verify_def)
  with sig t c show ?thesis
    by (simp add: verified_handshake_def honest_exchange_def InstanceHandshake_restore_def HANDSHAKE_LIFETIME_SECONDS_def
        checked_add_def)
qed

lemma issue_succeeds:
  assumes "is_eligible_at instance now" and "0 \<le> now" and "in_i64 (now + 15)"
  shows "\<exists>c. SignedHandshakeChallenge_issue X (Some nonce) krn instance now = Inr c \<and>
    shc_expires_at c = min (now + 15) (ri_lease_expires_at instance)"
  using assms
  by (auto simp: SignedHandshakeChallenge_issue_def HANDSHAKE_CHALLENGE_LIFETIME_SECONDS_def is_eligible_at_def checked_add_def
      Let_def min_def)

text \<open>A stored handshake that is fresh makes the lookup of its pair succeed.\<close>

lemma pg_find_fresh_finds:
  assumes "good_handshakes db" and "h \<in> set (stored_handshakes db)" and "is_fresh_at h t" and "0 \<le> t"
  shows "\<exists>g. pg_find_fresh no_faults db (ih_kernel_instance_id h) (ih_target_instance_id h) t = Inr (Some g)"
proof -
  let ?rows = "filter (\<lambda>r. hsr_kernel_instance_id r = ih_kernel_instance_id h \<and>
      hsr_target_instance_id r = ih_target_instance_id h \<and> hsr_verified_at r \<le> t \<and> hsr_expires_at r > t)
      (service_instance_handshakes db)"
  have "?rows \<noteq> []"
    using assms(2,3) by (auto simp: stored_handshakes_def row_handshake_def is_fresh_at_def filter_empty_conv)
  then obtain row where top: "top_by hsr_verified_at ?rows = Some row"
    by (cases "top_by hsr_verified_at ?rows") (simp_all only: top_by_None_iff not_True_eq_False)
  then have "row \<in> set (service_instance_handshakes db)" using top_by_Some by fastforce
  with assms(1) have "handshake_from_row row = Inr (row_handshake row)"
    by (auto simp: good_handshakes_def list_all_iff handshake_from_row_def handshakes_check_def row_handshake_def
        InstanceHandshake_restore_def)
  with top assms(4) show ?thesis by (simp add: pg_find_fresh_def transpose_option_def)
qed

definition challenge_row_of :: "HandshakeChallengeRecord \<Rightarrow> handshake_challenge_row" where
  "challenge_row_of c =
     \<lparr>hcr_challenge_digest = hcrec_digest c, hcr_kernel_instance_id = hcrec_kernel_instance_id c,
      hcr_target_instance_id = hcrec_target_instance_id c, hcr_target_key_id = hcrec_target_key_id c,
      hcr_issued_at = hcrec_issued_at c, hcr_expires_at = hcrec_expires_at c, hcr_consumed_at = None\<rparr>"

lemma pg_handshake_insert_succeeds:
  assumes "length (hcrec_digest c) = 32" and "0 \<le> hcrec_issued_at c" and "hcrec_issued_at c < hcrec_expires_at c"
    and "hcrec_digest c \<notin> hcr_challenge_digest ` set (service_instance_handshake_challenges db)"
    and "fk sir_instance_id (service_instances db) (hcrec_target_instance_id c)"
    and "fk sik_key_id (service_instance_keys db) (hcrec_target_key_id c)"
  shows "\<exists>aud. pg_handshake_insert_challenge no_faults db c =
    (db\<lparr>service_instance_handshake_challenges := service_instance_handshake_challenges db @ [challenge_row_of c],
        service_instance_handshake_audit := aud\<rparr>, Inr ())"
  using assms
  by (simp add: pg_handshake_insert_challenge_def append_handshake_audit_def handshake_challenges_check_def
      handshake_audit_check_def challenge_row_of_def fk_iff Let_def) (rule exI, rule refl)

lemma pg_handshake_complete_succeeds:
  assumes dist: "distinct (map hcr_challenge_digest (service_instance_handshake_challenges db))"
    and r: "r \<in> set (service_instance_handshake_challenges db)" "hcr_challenge_digest r = ih_challenge_digest h"
      "hcr_kernel_instance_id r = ih_kernel_instance_id h" "hcr_target_instance_id r = ih_target_instance_id h"
      "hcr_consumed_at r = None" "ih_verified_at h < hcr_expires_at r" "hcr_issued_at r \<le> ih_verified_at h"
      "0 \<le> hcr_issued_at r" "hcr_issued_at r < hcr_expires_at r"
    and h: "length (ih_challenge_digest h) = 32" "0 \<le> ih_verified_at h" "ih_verified_at h < ih_expires_at h"
      "ih_challenge_digest h \<notin> hsr_challenge_digest ` set (service_instance_handshakes db)"
      "fk sir_instance_id (service_instances db) (ih_target_instance_id h)"
      "fk sik_key_id (service_instance_keys db) (ih_target_key_id h)"
  shows "\<exists>db'. pg_handshake_complete no_faults db h = (db', Inr ())"
proof -
  let ?c = "\<lambda>r. hcr_challenge_digest r = ih_challenge_digest h \<and> (hcr_kernel_instance_id r = ih_kernel_instance_id h \<and>
      hcr_target_instance_id r = ih_target_instance_id h \<and> hcr_consumed_at r = None \<and> hcr_expires_at r > ih_verified_at h)"
  let ?f = "\<lambda>r. r\<lparr>hcr_consumed_at := Some (ih_verified_at h)\<rparr>"
  have uniq: "s = r" if "s \<in> set (service_instance_handshake_challenges db)" "hcr_challenge_digest s = ih_challenge_digest h" for s
    using dist that r(1,2) unfolding distinct_map by (metis inj_onD)
  have "count_where ?c (service_instance_handshake_challenges db) = 1"
    by (rule count_where_one [OF dist]) (use r in \<open>auto intro!: bexI [of _ r]\<close>)
  moreover have "list_all (\<lambda>r. ?c r \<longrightarrow> handshake_challenges_check (?f r)) (service_instance_handshake_challenges db)"
    unfolding list_all_iff
  proof (intro ballI impI)
    fix s
    assume "s \<in> set (service_instance_handshake_challenges db)" "?c s"
    with uniq have "s = r" by blast
    with r h show "handshake_challenges_check (?f s)" by (simp add: handshake_challenges_check_def)
  qed
  moreover have "handshakes_check (handshake_row_of h)"
    using h by (simp add: handshakes_check_def handshake_row_of_def)
  ultimately show ?thesis
    using h unfolding pg_handshake_complete_def Let_def
    by (simp add: append_handshake_audit_def handshake_audit_check_def handshake_row_of_def fk_iff Let_def)
qed


lemma honest_instance_reconciles:
  assumes X: "ed25519_ok X" "sha256_ok X" and good: "good_handshakes db"
    and krn: "krn = InstanceCredential_generate X sk i k a"
    and target: "target = InstanceCredential_generate X sk' i' k' a'" "ri_public_key instance = ic_public_key target"
    and none: "pg_find_fresh no_faults db (ipk_instance_id (ic_public_key krn)) (ri_id instance) now = Inr None"
    and elig: "is_eligible_at instance now" "0 \<le> now" "in_i64 (t + 30)"
    and t: "now \<le> t" "t < now + 15" "t < ri_lease_expires_at instance"
    and issue: "SignedHandshakeChallenge_issue X (Some nonce) krn instance now = Inr c"
    and new: "SignedHandshakeChallenge_digest X c \<notin> hcr_challenge_digest ` set (service_instance_handshake_challenges db)"
    and fks: "fk sir_instance_id (service_instances db) (ri_id instance)"
      "fk sik_key_id (service_instance_keys db) (ipk_key_id (ri_public_key instance))"
  shows "\<exists>db' h. reconcile_instance X (pg_find_fresh no_faults) (pg_handshake_insert_challenge no_faults)
      (pg_handshake_complete no_faults) (honest_exchange X target t) krn (Some nonce) db instance now =
        (db', Inr (HAO_Verified h)) \<and>
    (\<exists>g. require_fresh (pg_find_fresh no_faults) krn db' (ri_id instance) t = Inr g)"
proof -
  note c = issued_verifies [OF X(1) krn issue]
  have "in_i64 (now + 15)" using elig t by (simp add: in_i64_def i64_min_def)
  from issue_succeeds [OF elig(1,2) this, of X nonce krn] issue
  have ce: "shc_expires_at c = min (now + 15) (ri_lease_expires_at instance)" by auto
  let ?h = "\<lparr>ih_challenge_digest = SignedHandshakeChallenge_digest X c, ih_kernel_instance_id = ipk_instance_id (ic_public_key krn),
         ih_target_instance_id = ri_id instance, ih_target_key_id = ipk_key_id (ri_public_key instance),
         ih_verified_at = t, ih_expires_at = min (t + 30) (ri_lease_expires_at instance)\<rparr>"
  have ver: "verified_handshake X (honest_exchange X target t) krn instance c = Inr ?h"
    by (rule honest_exchange_verified [OF X(1) target]) (use c ce elig t in auto)
  let ?rec = "HandshakeChallengeRecord_from X c"
  have rec: "hcrec_digest ?rec = SignedHandshakeChallenge_digest X c" "hcrec_issued_at ?rec = now"
    "hcrec_expires_at ?rec = shc_expires_at c" "hcrec_target_instance_id ?rec = ri_id instance"
    "hcrec_kernel_instance_id ?rec = ipk_instance_id (ic_public_key krn)"
    "hcrec_target_key_id ?rec = ipk_key_id (ri_public_key instance)"
    using c by (simp_all add: HandshakeChallengeRecord_from_def)
  have dig: "length (SignedHandshakeChallenge_digest X c) = 32"
    using X(2) by (simp add: sha256_ok_def SignedHandshakeChallenge_digest_def)
  obtain aud where ins: "pg_handshake_insert_challenge no_faults db ?rec =
      (db\<lparr>service_instance_handshake_challenges := service_instance_handshake_challenges db @ [challenge_row_of ?rec],
          service_instance_handshake_audit := aud\<rparr>, Inr ())" (is "_ = (?db1, _)")
    using pg_handshake_insert_succeeds [of ?rec db] dig new fks elig t ce by (auto simp: rec)
  have good1: "good_handshakes ?db1" using pghs.insert_keeps [OF good ins] by blast
  have fresh: "SignedHandshakeChallenge_digest X c \<notin> hsr_challenge_digest ` set (service_instance_handshakes db)"
  proof
    assume "SignedHandshakeChallenge_digest X c \<in> hsr_challenge_digest ` set (service_instance_handshakes db)"
    then obtain g where "g \<in> set (service_instance_handshakes db)" "hsr_challenge_digest g = SignedHandshakeChallenge_digest X c"
      by auto
    with good obtain r where "r \<in> set (service_instance_handshake_challenges db)" "uses_challenge g r"
      by (auto simp: good_handshakes_def list_all_iff list_ex_iff)
    then have "hcr_challenge_digest r = SignedHandshakeChallenge_digest X c"
      using \<open>hsr_challenge_digest g = _\<close> by (simp add: uses_challenge_def)
    with new \<open>r \<in> _\<close> show False by (metis image_eqI)
  qed
  obtain db2 where com: "pg_handshake_complete no_faults ?db1 ?h = (db2, Inr ())"
  proof (rule exE [OF pg_handshake_complete_succeeds [of ?db1 "challenge_row_of ?rec" ?h]])
    show "distinct (map hcr_challenge_digest (service_instance_handshake_challenges ?db1))"
      using good1 unfolding good_handshakes_def by blast
  qed (use fresh dig fks elig t ce in \<open>simp_all add: challenge_row_of_def rec\<close>)
  have run: "reconcile_instance X (pg_find_fresh no_faults) (pg_handshake_insert_challenge no_faults)
      (pg_handshake_complete no_faults) (honest_exchange X target t) krn (Some nonce) db instance now =
        (db2, Inr (HAO_Verified ?h))"
    using none issue ins ver com by (simp add: reconcile_instance_def)
  from pghs.complete_stores [OF good1 com] have "good_handshakes db2" "?h \<in> set (stored_handshakes db2)" by simp_all
  then obtain g where "pg_find_fresh no_faults db2 (ipk_instance_id (ic_public_key krn)) (ri_id instance) t = Inr (Some g)"
    using pg_find_fresh_finds [of db2 ?h t] elig t by (auto simp: is_fresh_at_def)
  then have "require_fresh (pg_find_fresh no_faults) krn db2 (ri_id instance) t = Inr g"
    by (simp add: require_fresh_def)
  with run show ?thesis by blast
qed

text \<open>C39: A live instance that answers with its registered key becomes deliverable. If a kernel instance
  attempts a handshake with an eligible instance it has no fresh handshake with, the instance signs
  the challenge with its credential, and the response arrives within 15 seconds and before the
  lease ends, then, provided no statement fails and the challenge digest is new, the attempt is
  verified and a fresh handshake is found at the time of the response.\<close>

theorem honest_instance_becomes_deliverable:
  assumes X: "ed25519_ok X" "sha256_ok X" and good: "good_handshakes db"
    and krn: "krn = InstanceCredential_generate X sk i k a"
    and target: "target = InstanceCredential_generate X sk' i' k' a'" "ri_public_key instance = ic_public_key target"
    and none: "pg_find_fresh no_faults db (ipk_instance_id (ic_public_key krn)) (ri_id instance) now = Inr None"
    and elig: "is_eligible_at instance now" "0 \<le> now" "in_i64 (t + 30)"
    and t: "now \<le> t" "t < now + 15" "t < ri_lease_expires_at instance"
    and issue: "SignedHandshakeChallenge_issue X (Some nonce) krn instance now = Inr c"
    and new: "SignedHandshakeChallenge_digest X c \<notin> hcr_challenge_digest ` set (service_instance_handshake_challenges db)"
    and fks: "fk sir_instance_id (service_instances db) (ri_id instance)"
      "fk sik_key_id (service_instance_keys db) (ipk_key_id (ri_public_key instance))"
  shows "\<exists>db' h. reconcile_instance X (pg_find_fresh no_faults) (pg_handshake_insert_challenge no_faults)
      (pg_handshake_complete no_faults) (honest_exchange X target t) krn (Some nonce) db instance now =
        (db', Inr (HAO_Verified h)) \<and>
    (\<exists>g. require_fresh (pg_find_fresh no_faults) krn db' (ri_id instance) t = Inr g)"
  by (rule honest_instance_reconciles [OF assms])


section \<open>A concrete handshake\<close>

definition sample_kernel :: InstanceCredential where
  "sample_kernel = InstanceCredential_generate sample_crates (replicate 32 (CHR 0x09)) (InstanceId 1) (KeyId 2) (ActorId 0)"

definition sample_target :: InstanceCredential where
  "sample_target = InstanceCredential_generate sample_crates (replicate 32 (CHR 0x07)) (InstanceId 10) (KeyId 11) (ActorId 2)"

definition sample_target_instance :: RegisteredInstance where
  "sample_target_instance = \<lparr>ri_public_key = ic_public_key sample_target, ri_endpoint = ''https://ledger'',
     ri_registered_at = 100, ri_lease_expires_at = 160, ri_lease_revision = 1, ri_revoked_at = None\<rparr>"

definition sample_nonce :: bytes where
  "sample_nonce = replicate 32 (CHR 0x0B)"

lemma sample_discovered: "pg_eligible_subscribed_instances sample_crates no_faults sample_db 120 = Inr [sample_target_instance]"
  by code_simp

lemma sample_not_fresh: "pg_find_fresh no_faults sample_db (InstanceId 1) (InstanceId 10) 120 = Inr None"
  by code_simp

lemma sample_handshakes_good: "good_handshakes sample_db"
  by (simp add: good_handshakes_def sample_db_def empty_db_def)

lemma sample_target_simps:
  "ri_public_key sample_target_instance = ic_public_key sample_target" "ipk_instance_id (ic_public_key sample_target) = InstanceId 10"
  "ipk_key_id (ic_public_key sample_target) = KeyId 11" "ipk_instance_id (ic_public_key sample_kernel) = InstanceId 1"
  "ri_lease_expires_at sample_target_instance = 160" "is_eligible_at sample_target_instance 120"
  by (simp_all add: sample_target_instance_def sample_target_def sample_kernel_def InstanceCredential_generate_def is_eligible_at_def)

lemma sample_challenge_issued:
  "\<exists>c. SignedHandshakeChallenge_issue sample_crates (Some sample_nonce) sample_kernel sample_target_instance 120 = Inr c"
  using issue_succeeds [of sample_target_instance 120 sample_crates sample_nonce sample_kernel] by (auto simp: sample_target_simps in_i64_interval)

lemma sample_handshake_tables:
  "service_instance_handshake_challenges sample_db = []"
  "fk sir_instance_id (service_instances sample_db) (InstanceId 10)"
  "fk sik_key_id (service_instance_keys sample_db) (KeyId 11)"
  by (simp_all add: sample_db_def empty_db_def fk_iff)

lemma sample_reconciles:
  "\<exists>db' h. reconcile_instance sample_crates (pg_find_fresh no_faults) (pg_handshake_insert_challenge no_faults)
      (pg_handshake_complete no_faults) (honest_exchange sample_crates sample_target 125) sample_kernel (Some sample_nonce)
      sample_db sample_target_instance 120 = (db', Inr (HAO_Verified h)) \<and>
    (\<exists>g. require_fresh (pg_find_fresh no_faults) sample_kernel db' (InstanceId 10) 125 = Inr g)"
proof -
  obtain c where "SignedHandshakeChallenge_issue sample_crates (Some sample_nonce) sample_kernel sample_target_instance 120 = Inr c"
    using sample_challenge_issued by blast
  from honest_instance_reconciles [OF sample_crates_ok(4,3) sample_handshakes_good sample_kernel_def sample_target_def
      sample_target_simps(1) _ _ _ _ _ _ _ this, of 125]
  show ?thesis
    by (simp add: sample_target_simps sample_not_fresh sample_handshake_tables in_i64_interval)
qed

text \<open>The same attempt as a run of the whole reconciler.\<close>

lemma sample_handshake_history:
  "\<exists>dbs g. handshake_history sample_crates 2 dbs \<and>
     require_fresh (pg_find_fresh no_faults) sample_kernel (dbs 2) (InstanceId 10) 125 = Inr g"
proof -
  obtain db h g where run: "reconcile_instance sample_crates (pg_find_fresh no_faults) (pg_handshake_insert_challenge no_faults)
      (pg_handshake_complete no_faults) (honest_exchange sample_crates sample_target 125) sample_kernel (Some sample_nonce)
      sample_db sample_target_instance 120 = (db, Inr (HAO_Verified h))"
    and g: "require_fresh (pg_find_fresh no_faults) sample_kernel db (InstanceId 10) 125 = Inr g"
    using sample_reconciles by blast
  have "pg_reconcile sample_crates no_faults no_faults no_faults no_faults (honest_exchange sample_crates sample_target 125)
      sample_kernel (\<lambda>_. Some sample_nonce) sample_db 120 =
      (db, Inr \<lparr>rr_attempts = [\<lparr>ha_instance_id = InstanceId 10, ha_outcome = HAO_Verified h\<rparr>]\<rparr>)"
    using run by (simp add: pg_reconcile_def reconcile_def sample_discovered sample_target_simps)
  then have "handshake_run sample_crates sample_db db" unfolding sample_kernel_def by (rule hrun_reconcile)
  moreover have "handshake_run sample_crates empty_db sample_db" by (rule hrun_other) (simp_all add: sample_db_def)
  ultimately have "handshake_history sample_crates 2 (\<lambda>t. if t = 0 then empty_db else if t = 1 then sample_db else db)"
    by (simp add: handshake_history_def numeral_2_eq_2 less_Suc_eq)
  with g show ?thesis by (intro exI [of _ "\<lambda>t. if t = 0 then empty_db else if t = 1 then sample_db else db"] exI [of _ g]) simp
qed

lemma handshake_history_reachable: "handshake_history X n dbs \<Longrightarrow> (handshake_run X)\<^sup>*\<^sup>* empty_db (dbs n)"
  by (induction n) (auto simp: handshake_history_def intro: rtranclp.rtrancl_into_rtrancl)

theorem honest_instance_becomes_deliverable_witness:
  "\<exists>db' h. reconcile_instance sample_crates (pg_find_fresh no_faults) (pg_handshake_insert_challenge no_faults)
      (pg_handshake_complete no_faults) (honest_exchange sample_crates sample_target 125) sample_kernel (Some sample_nonce)
      sample_db sample_target_instance 120 = (db', Inr (HAO_Verified h)) \<and>
    (\<exists>g. require_fresh (pg_find_fresh no_faults) sample_kernel db' (InstanceId 10) 125 = Inr g)"
proof -
  obtain c where "SignedHandshakeChallenge_issue sample_crates (Some sample_nonce) sample_kernel sample_target_instance 120 = Inr c"
    using sample_challenge_issued by blast
  from honest_instance_becomes_deliverable [OF sample_crates_ok(4,3) sample_handshakes_good sample_kernel_def sample_target_def
      sample_target_simps(1) _ _ _ _ _ _ _ this, of 125]
  show ?thesis
    by (simp add: sample_target_simps sample_not_fresh sample_handshake_tables in_i64_interval)
qed

theorem fresh_handshake_mutually_signed_witness:
  "\<exists>dbs g. require_fresh (pg_find_fresh no_faults) sample_kernel (dbs (2 :: nat)) (InstanceId 10) 125 = Inr g \<and>
     (\<exists>t < 2. mutually_signed sample_crates (dbs t) g)"
  using sample_handshake_history fresh_handshake_mutually_signed [OF sample_crates_ok(4)] by meson

theorem handshake_challenge_single_use_witness:
  "\<exists>(db :: Db) h c. h \<in> set (service_instance_handshakes db) \<and> c \<in> set (service_instance_handshake_challenges db) \<and> uses_challenge h c"
proof -
  obtain dbs g where hist: "handshake_history sample_crates 2 dbs"
    and "require_fresh (pg_find_fresh no_faults) sample_kernel (dbs 2) (InstanceId 10) 125 = Inr g"
    using sample_handshake_history by blast
  then have "pg_find_fresh no_faults (dbs 2) (InstanceId 1) (InstanceId 10) 125 = Inr (Some g)"
    by (simp add: require_fresh_def sample_target_simps)
  note run = handshake_history_reachable [OF hist]
  have "g \<in> set (stored_handshakes (dbs 2))"
    using pghs.find_sound [OF handshake_runs_good [OF sample_crates_ok(4) run] \<open>pg_find_fresh _ _ _ _ _ = _\<close>] by blast
  then obtain h where "h \<in> set (service_instance_handshakes (dbs 2))" by (auto simp: stored_handshakes_def)
  with handshake_challenge_single_use [OF sample_crates_ok(4) run this this] show ?thesis by blast
qed

end
