(* ===== verification/Http_Reading.thy ===== *)
theory Http_Reading
  imports Service_Requests
begin

text \<open>
  The request reader of \<open>src/http.rs\<close>: \<open>read_request\<close> takes one HTTP/1.1 request off a
  stream, with bounds on the header and the body. A stream is what the peer's bytes arrive as; both
  loops stop whatever it gives, since every read that does not end them adds a byte towards a bound. Like
  the \<open>&mut impl Read\<close> of the source, the stream is state: reading returns what is left of it, on
  success and on every error.
\<close>

definition MAX_HEADER_BYTES :: nat where
  "MAX_HEADER_BYTES = 8 * 1024"

definition MAX_ENROLLMENT_BODY_BYTES :: nat where
  "MAX_ENROLLMENT_BODY_BYTES = 40 * 1024"

datatype RequestReadError = Malformed | PayloadTooLarge

record ParsedRequest =
  pr_method :: string
  pr_path :: string
  pr_authority :: "string option"
  pr_content_type :: "string option"
  pr_content_digest :: "string option"
  pr_service_id :: "string option"
  pr_instance_id :: "string option"
  pr_request_id :: "string option"
  pr_signature_input :: "string option"
  pr_signature :: "string option"
  pr_body :: bytes


section \<open>The standard library\<close>

text \<open>
  \<open>Read::read\<close> on a connection that delivers segments: a read of at most \<open>n\<close> bytes
  returns what is there of the next segment, no bytes at the end, or fails (\<open>None\<close>).
\<close>

datatype segment = Data bytes | Broken

fun stream_read :: "nat \<Rightarrow> segment list \<Rightarrow> (bytes \<times> segment list) option" where
  "stream_read n [] = Some ([], [])"
| "stream_read n (Broken # s) = None"
| "stream_read n (Data d # s) =
     Some (if length d \<le> n then (d, s) else (take n d, Data (drop n d) # s))"

text \<open>\<open>str::from_utf8\<close>: the well-formed byte sequences of the Unicode standard.\<close>

fun utf8_valid :: "bytes \<Rightarrow> bool" where
  "utf8_valid [] \<longleftrightarrow> True"
| "utf8_valid (a # s) \<longleftrightarrow>
     (if in_byte_range 0 127 a then utf8_valid s
      else if in_byte_range 194 223 a then
        (case s of b # s' \<Rightarrow> in_byte_range 128 191 b \<and> utf8_valid s' | _ \<Rightarrow> False)
      else if in_byte_range 224 239 a then
        (case s of b # c # s' \<Rightarrow>
           (if byte_val a = 224 then in_byte_range 160 191 b
            else if byte_val a = 237 then in_byte_range 128 159 b
            else in_byte_range 128 191 b) \<and>
           in_byte_range 128 191 c \<and> utf8_valid s'
         | _ \<Rightarrow> False)
      else if in_byte_range 240 244 a then
        (case s of b # c # d # s' \<Rightarrow>
           (if byte_val a = 240 then in_byte_range 144 191 b
            else if byte_val a = 244 then in_byte_range 128 143 b
            else in_byte_range 128 191 b) \<and>
           in_byte_range 128 191 c \<and> in_byte_range 128 191 d \<and> utf8_valid s'
         | _ \<Rightarrow> False)
      else False)"

definition CRLF :: bytes where
  "CRLF = [CHR 0x0D, CHR 0x0A]"

text \<open>\<open>split("\r\n")\<close>.\<close>

fun split_crlf :: "string \<Rightarrow> string list" where
  "split_crlf [] = [[]]"
| "split_crlf (c # cs) =
     (if c = CHR 0x0D \<and> cs \<noteq> [] \<and> hd cs = CHR 0x0A then [] # split_crlf (tl cs)
      else (case split_crlf cs of [] \<Rightarrow> [[c]] | p # ps \<Rightarrow> (c # p) # ps))"

text \<open>\<open>split_whitespace\<close>: the non-empty pieces between white space characters.\<close>

fun take_word :: "string \<Rightarrow> string \<times> string" where
  "take_word [] = ([], [])"
| "take_word (c # cs) =
     (if ws_len (c # cs) \<noteq> 0 then ([], c # cs) else (let (w, r) = take_word cs in (c # w, r)))"

lemma take_word_append: "take_word s = (w, r) \<Longrightarrow> s = w @ r"
  by (induction s arbitrary: w) (auto split: if_splits prod.splits)

lemma take_word_progress:
  assumes "s \<noteq> []" and "ws_len s = 0"
  shows "length (snd (take_word s)) < length s"
proof -
  obtain c cs where s: "s = c # cs" using assms(1) by (cases s) auto
  obtain w r where w: "take_word cs = (w, r)" by fastforce
  from take_word_append [OF this] have "length r \<le> length cs" by simp
  with assms(2) show ?thesis by (simp add: s w)
qed

function split_whitespace :: "string \<Rightarrow> string list" where
  "split_whitespace s =
     (let t = trim_start s
      in if t = [] then [] else fst (take_word t) # split_whitespace (snd (take_word t)))"
  by pat_completeness auto
termination
proof (relation "measure length")
  fix s t :: string
  assume t: "t = trim_start s" "t \<noteq> []"
  with trim_start_fixed [of s] have "length (snd (take_word t)) < length t"
    by (intro take_word_progress) auto
  with length_trim_start [of s] t show "(snd (take_word t), s) \<in> measure length" by simp
qed simp

declare split_whitespace.simps [simp del]

text \<open>\<open>parse::<usize>\<close>: decimal digits, with an optional plus sign, of a 64-bit value.\<close>

definition parse_usize :: "string \<Rightarrow> nat option" where
  "parse_usize s =
     (let ds = (case s of c # cs \<Rightarrow> if c = CHR ''+'' then cs else s | [] \<Rightarrow> [])
      in if ds \<noteq> [] \<and> list_all is_ascii_digit ds \<and> digits_val ds < 2 ^ 64 then Some (digits_val ds) else None)"


section \<open>Reading the header and the body\<close>

definition header_terminator :: bytes where
  "header_terminator = CRLF @ CRLF"

fun find_header_end :: "bytes \<Rightarrow> nat option" where
  "find_header_end [] = None"
| "find_header_end (c # cs) =
     (if starts_with header_terminator (c # cs) then Some 0 else map_option Suc (find_header_end cs))"

text \<open>The first loop: read until the bytes contain the end of the header, at most so far.\<close>

function read_header_bytes :: "bytes \<Rightarrow> segment list \<Rightarrow> segment list \<times> (RequestReadError + nat \<times> bytes)" where
  "read_header_bytes bs s =
     (case find_header_end bs of
        Some position \<Rightarrow> (s, if position > MAX_HEADER_BYTES then Inl Malformed else Inr (position, bs))
      | None \<Rightarrow>
          if length bs > MAX_HEADER_BYTES then (s, Inl Malformed)
          else (case stream_read 4096 s of
                  None \<Rightarrow> (s, Inl Malformed)
                | Some (d, s') \<Rightarrow> if d = [] then (s', Inl Malformed) else read_header_bytes (bs @ d) s'))"
  by pat_completeness auto
termination
  by (relation "measure (\<lambda>(bs, s). MAX_HEADER_BYTES + 1 - length bs)") (auto simp: neq_Nil_conv)

declare read_header_bytes.simps [simp del]

text \<open>The last loop: read until the body has its announced length.\<close>

function read_body_bytes :: "nat \<Rightarrow> nat \<Rightarrow> bytes \<Rightarrow> segment list \<Rightarrow> segment list \<times> (RequestReadError + bytes)" where
  "read_body_bytes body_start content_length bs s =
     (if length bs - body_start < content_length
      then (let remaining = content_length - (length bs - body_start)
            in case stream_read (min remaining 4096) s of
                 None \<Rightarrow> (s, Inl Malformed)
               | Some (d, s') \<Rightarrow>
                   if d = [] then (s', Inl Malformed) else read_body_bytes body_start content_length (bs @ d) s')
      else (s, Inr bs))"
  by pat_completeness auto
termination
  by (relation "measure (\<lambda>(body_start, content_length, bs, s). body_start + content_length - length bs)")
    (auto simp: neq_Nil_conv)

declare read_body_bytes.simps [simp del]


section \<open>Parsing the header\<close>

definition valid_header_name :: "string \<Rightarrow> bool" where
  "valid_header_name name \<longleftrightarrow>
     name \<noteq> [] \<and> list_all (\<lambda>c. is_ascii_alphanumeric c \<or> c \<in> set ''!#$%&*+-.^_`|~'' \<or> c = CHR 0x27) name"

definition set_header :: "string option \<Rightarrow> string \<Rightarrow> RequestReadError + string option" where
  "set_header target value = (if target \<noteq> None \<or> value = [] then Inl Malformed else Inr (Some value))"

text \<open>The variables the header lines are collected in.\<close>

record HeaderFields =
  hf_content_length :: "nat option"
  hf_authority :: "string option"
  hf_content_type :: "string option"
  hf_content_digest :: "string option"
  hf_service_id :: "string option"
  hf_instance_id :: "string option"
  hf_request_id :: "string option"
  hf_signature_input :: "string option"
  hf_signature :: "string option"

definition no_fields :: HeaderFields where
  "no_fields = \<lparr>hf_content_length = None, hf_authority = None, hf_content_type = None, hf_content_digest = None,
     hf_service_id = None, hf_instance_id = None, hf_request_id = None, hf_signature_input = None, hf_signature = None\<rparr>"

text \<open>What a field of that name and value does to them; fields of other names are skipped.\<close>

definition header_field :: "HeaderFields \<Rightarrow> string \<Rightarrow> string \<Rightarrow> RequestReadError + HeaderFields" where
  "header_field h name value =
     (if eq_ignore_ascii_case name ''content-length'' then
        (if hf_content_length h \<noteq> None then Inl Malformed
         else bind_result (ok_or Malformed (parse_usize value)) (\<lambda>n. Inr (h\<lparr>hf_content_length := Some n\<rparr>)))
      else if eq_ignore_ascii_case name ''content-type'' then
        bind_result (set_header (hf_content_type h) value) (\<lambda>v. Inr (h\<lparr>hf_content_type := v\<rparr>))
      else if eq_ignore_ascii_case name ''host'' then
        bind_result (set_header (hf_authority h) value) (\<lambda>v. Inr (h\<lparr>hf_authority := v\<rparr>))
      else if eq_ignore_ascii_case name ''content-digest'' then
        bind_result (set_header (hf_content_digest h) value) (\<lambda>v. Inr (h\<lparr>hf_content_digest := v\<rparr>))
      else if eq_ignore_ascii_case name ''infernal-service-id'' then
        bind_result (set_header (hf_service_id h) value) (\<lambda>v. Inr (h\<lparr>hf_service_id := v\<rparr>))
      else if eq_ignore_ascii_case name ''infernal-instance-id'' then
        bind_result (set_header (hf_instance_id h) value) (\<lambda>v. Inr (h\<lparr>hf_instance_id := v\<rparr>))
      else if eq_ignore_ascii_case name ''infernal-request-id'' then
        bind_result (set_header (hf_request_id h) value) (\<lambda>v. Inr (h\<lparr>hf_request_id := v\<rparr>))
      else if eq_ignore_ascii_case name ''signature-input'' then
        bind_result (set_header (hf_signature_input h) value) (\<lambda>v. Inr (h\<lparr>hf_signature_input := v\<rparr>))
      else if eq_ignore_ascii_case name ''signature'' then
        bind_result (set_header (hf_signature h) value) (\<lambda>v. Inr (h\<lparr>hf_signature := v\<rparr>))
      else if eq_ignore_ascii_case name ''transfer-encoding'' then Inl Malformed
      else Inr h)"

definition header_line :: "HeaderFields \<Rightarrow> string \<Rightarrow> RequestReadError + HeaderFields" where
  "header_line h line =
     (case split_once '':'' line of
        None \<Rightarrow> Inl Malformed
      | Some (name, value) \<Rightarrow>
          if \<not> valid_header_name name then Inl Malformed else header_field h name (str_trim value))"

fun header_lines :: "HeaderFields \<Rightarrow> string list \<Rightarrow> RequestReadError + HeaderFields" where
  "header_lines h [] = Inr h"
| "header_lines h (line # rest) = bind_result (header_line h line) (\<lambda>h'. header_lines h' rest)"

text \<open>The request line: exactly three words, the last the version, the second an absolute path.\<close>

definition request_line :: "string \<Rightarrow> RequestReadError + string \<times> string" where
  "request_line line =
     (case split_whitespace line of
        [verb, path, version] \<Rightarrow>
          if version \<noteq> ''HTTP/1.1'' \<or> \<not> starts_with ''/'' path then Inl Malformed else Inr (verb, path)
      | _ \<Rightarrow> Inl Malformed)"

text \<open>Everything between the two loops: the header's text, its lines, and the length of the body.\<close>

definition parse_header :: "bytes \<Rightarrow> RequestReadError + string \<times> string \<times> HeaderFields \<times> nat" where
  "parse_header header =
     (if \<not> utf8_valid header then Inl Malformed
      else let ls = split_crlf header in
        bind_result (request_line (hd ls)) (\<lambda>(verb, path).
        bind_result (header_lines no_fields (tl ls)) (\<lambda>h.
          let content_length = (case hf_content_length h of None \<Rightarrow> 0 | Some n \<Rightarrow> n)
          in if verb = ''POST'' \<and> path = ''/v1/enrollments'' \<and> content_length = 0 then Inl Malformed
             else if content_length > MAX_ENROLLMENT_BODY_BYTES then Inl PayloadTooLarge
             else Inr (verb, path, h, content_length))))"

text \<open>The whole function, with what it leaves of the stream; \<open>read_request\<close> is its answer.\<close>

definition read_request_from :: "segment list \<Rightarrow> segment list \<times> (RequestReadError + ParsedRequest)" where
  "read_request_from stream =
     (case read_header_bytes [] stream of
        (s, Inl e) \<Rightarrow> (s, Inl e)
      | (s, Inr (header_end, bs)) \<Rightarrow>
          (case parse_header (take header_end bs) of
             Inl e \<Rightarrow> (s, Inl e)
           | Inr (verb, path, h, content_length) \<Rightarrow>
               let body_start = header_end + 4
               in (case read_body_bytes body_start content_length bs s of
                     (s', Inl e) \<Rightarrow> (s', Inl e)
                   | (s', Inr bs') \<Rightarrow>
                       (s', Inr \<lparr>pr_method = verb, pr_path = path, pr_authority = hf_authority h,
                          pr_content_type = hf_content_type h, pr_content_digest = hf_content_digest h,
                          pr_service_id = hf_service_id h, pr_instance_id = hf_instance_id h,
                          pr_request_id = hf_request_id h, pr_signature_input = hf_signature_input h,
                          pr_signature = hf_signature h,
                          pr_body = take content_length (drop body_start bs')\<rparr>))))"

definition read_request :: "segment list \<Rightarrow> RequestReadError + ParsedRequest" where
  "read_request stream = snd (read_request_from stream)"

end
