(* ===== verification/Http_Reading_Properties.thy ===== *)
theory Http_Reading_Properties
  imports Http_Reading
begin

text \<open>
  The reader against a reference that sees all bytes at once: what it returns does not depend on how
  the network cuts the bytes into segments; what it buffers and how often it reads is bounded.
\<close>

section \<open>Streams\<close>

fun arriving :: "segment list \<Rightarrow> bytes" where
  "arriving [] = []"
| "arriving (Data d # s) = d @ arriving s"
| "arriving (Broken # s) = arriving s"

text \<open>A connection that does not fail before its end; a segment has at least one byte.\<close>

fun intact :: "segment list \<Rightarrow> bool" where
  "intact [] \<longleftrightarrow> True"
| "intact (Data d # s) \<longleftrightarrow> d \<noteq> [] \<and> intact s"
| "intact (Broken # s) \<longleftrightarrow> False"

lemma stream_read_intact:
  assumes "intact s" and "0 < n"
  shows "\<exists>d s'. stream_read n s = Some (d, s') \<and> intact s' \<and> arriving s = d @ arriving s' \<and> length d \<le> n \<and>
    (d = [] \<longleftrightarrow> s = [])"
  using assms by (cases "(n, s)" rule: stream_read.cases) auto

lemma stream_read_takes: "stream_read n s = Some (d, s') \<Longrightarrow> arriving s = d @ arriving s' \<and> length d \<le> n"
  by (cases "(n, s)" rule: stream_read.cases) (auto split: if_splits)

text \<open>A read looks at one segment.\<close>

lemma stream_read_append:
  assumes "s \<noteq> []"
  shows "stream_read n (s @ t) = map_option (\<lambda>(d, s'). (d, s' @ t)) (stream_read n s)"
    and "stream_read n s = Some (d, s') \<Longrightarrow> length s \<le> length s' + 1"
  using assms by (cases "(n, s)" rule: stream_read.cases; auto split: if_splits)+


section \<open>The end of the header\<close>

lemma find_header_end_Some:
  "find_header_end s = Some p \<Longrightarrow> \<exists>a b. s = a @ header_terminator @ b \<and> length a = p"
proof (induction s arbitrary: p)
  case (Cons c cs)
  show ?case
  proof (cases "starts_with header_terminator (c # cs)")
    case True
    with Cons.prems obtain r where "c # cs = header_terminator @ r" "p = 0" by (auto simp: starts_with_iff)
    then show ?thesis by (intro exI [of _ "[]"] exI [of _ r]) simp
  next
    case False
    with Cons.prems obtain q where q: "find_header_end cs = Some q" "p = Suc q" by auto
    from Cons.IH [OF q(1)] obtain a b where "cs = a @ header_terminator @ b" "length a = q" by blast
    with q(2) show ?thesis by (intro exI [of _ "c # a"] exI [of _ b]) simp
  qed
qed simp

lemma length_header_terminator [simp]: "length header_terminator = 4"
  by (simp add: header_terminator_def CRLF_def)

lemma find_header_end_length: "find_header_end s = Some p \<Longrightarrow> p + 4 \<le> length s"
  using find_header_end_Some by fastforce

lemma starts_with_append: "starts_with p s \<Longrightarrow> starts_with p (s @ t)"
  by (auto simp: starts_with_iff)

lemma starts_with_shorter: "starts_with p (s @ t) \<Longrightarrow> length p \<le> length s \<Longrightarrow> starts_with p s"
  by (metis append_eq_append_conv_if append_take_drop_id starts_with_iff)

lemma find_header_end_append: "find_header_end s = Some p \<Longrightarrow> find_header_end (s @ t) = Some p"
proof (induction s arbitrary: p)
  case (Cons c cs)
  show ?case
  proof (cases "starts_with header_terminator (c # cs)")
    case True
    from starts_with_append [OF this, of t] True Cons.prems show ?thesis by simp
  next
    case False
    with Cons.prems obtain q where q: "find_header_end cs = Some q" "p = Suc q" by auto
    from find_header_end_length [OF q(1)] False have "\<not> starts_with header_terminator ((c # cs) @ t)"
      using starts_with_shorter [of header_terminator "c # cs" t] by auto
    with Cons.IH [OF q(1)] q(2) show ?thesis by simp
  qed
qed simp

lemma find_header_end_before: "find_header_end (s @ t) = Some p \<Longrightarrow> find_header_end s = None \<Longrightarrow> length s < p + 4"
proof (induction s arbitrary: p)
  case (Cons c cs)
  show ?case
  proof (cases "starts_with header_terminator ((c # cs) @ t)")
    case True
    with Cons.prems(2) starts_with_shorter [OF True] have "\<not> 4 \<le> length (c # cs)" by (auto split: if_splits)
    then show ?thesis by linarith
  next
    case False
    with Cons show ?thesis by (auto split: if_splits)
  qed
qed simp


section \<open>The loops\<close>

text \<open>What the first loop takes off the stream, whatever comes of it, and what it then holds.\<close>

lemma read_header_bytes_takes:
  assumes "read_header_bytes bs s = (s', r)"
  shows "\<exists>c. arriving s = c @ arriving s' \<and> length (bs @ c) \<le> max (length bs) (MAX_HEADER_BYTES + 4096) \<and>
    (\<forall>p bs'. r = Inr (p, bs') \<longrightarrow> bs' = bs @ c \<and> find_header_end bs' = Some p \<and> p \<le> MAX_HEADER_BYTES)"
  using assms
proof (induction bs s rule: read_header_bytes.induct)
  case (1 bs s)
  show ?case
  proof (cases "find_header_end bs = None \<and> length bs \<le> MAX_HEADER_BYTES")
    case False
    with "1.prems" have "s' = s \<and> (\<forall>p bs'. r = Inr (p, bs') \<longrightarrow> bs' = bs \<and> find_header_end bs' = Some p \<and> p \<le> MAX_HEADER_BYTES)"
      by (subst (asm) read_header_bytes.simps) (auto split: if_splits option.splits)
    then show ?thesis by (intro exI [of _ "[]"]) simp
  next
    case True
    show ?thesis
    proof (cases "stream_read 4096 s")
      case None
      with True "1.prems" have "s' = s \<and> r = Inl Malformed" by (subst (asm) read_header_bytes.simps) auto
      then show ?thesis by (intro exI [of _ "[]"]) simp
    next
      case (Some ds)
      obtain d s1 where ds: "ds = (d, s1)" by (cases ds)
      with Some have d: "arriving s = d @ arriving s1" "length d \<le> 4096" using stream_read_takes by blast+
      show ?thesis
      proof (cases "d = []")
        case d_nil: True
        with True Some ds "1.prems" have "s' = s1 \<and> r = Inl Malformed" by (subst (asm) read_header_bytes.simps) auto
        with d d_nil show ?thesis by (intro exI [of _ "[]"]) simp
      next
        case False
        with True Some ds "1.prems" have "read_header_bytes (bs @ d) s1 = (s', r)"
          by (subst (asm) read_header_bytes.simps) auto
        from "1.IH" [OF conjunct1 [OF True] _ Some ds [symmetric] False this] True obtain c where
          "arriving s1 = c @ arriving s'" "length (bs @ d @ c) \<le> max (length (bs @ d)) (MAX_HEADER_BYTES + 4096)"
          "\<forall>p bs'. r = Inr (p, bs') \<longrightarrow> bs' = bs @ d @ c \<and> find_header_end bs' = Some p \<and> p \<le> MAX_HEADER_BYTES"
          by auto
        with d True show ?thesis by (intro exI [of _ "d @ c"]) auto
      qed
    qed
  qed
qed

lemma read_header_bytes_found:
  assumes "intact s" and "find_header_end (bs @ arriving s) = Some p" and "p + 3 \<le> MAX_HEADER_BYTES"
  shows "\<exists>bs' s'. read_header_bytes bs s = (s', Inr (p, bs')) \<and> intact s' \<and> bs' @ arriving s' = bs @ arriving s"
  using assms
proof (induction bs s rule: read_header_bytes.induct)
  case (1 bs s)
  show ?case
  proof (cases "find_header_end bs")
    case None
    then have short: "\<not> length bs > MAX_HEADER_BYTES" using find_header_end_before [OF "1.prems"(2)] "1.prems"(3) by simp
    have "s \<noteq> []" using None "1.prems"(2) by auto
    with stream_read_intact [OF "1.prems"(1), of 4096] obtain d s1 where d: "stream_read 4096 s = Some (d, s1)" "d \<noteq> []"
      "intact s1" "arriving s = d @ arriving s1" by auto
    from "1.IH" [OF None short d(1) refl d(2,3)] "1.prems"(2,3) d(4) obtain bs' s' where
      "read_header_bytes (bs @ d) s1 = (s', Inr (p, bs'))" "intact s'" "bs' @ arriving s' = bs @ arriving s" by auto
    moreover have "read_header_bytes bs s = read_header_bytes (bs @ d) s1"
      using None short d(1,2) by (subst read_header_bytes.simps) simp
    ultimately show ?thesis by auto
  next
    case (Some q)
    from find_header_end_append [OF this] "1.prems"(2) have "q = p" by simp
    with Some "1.prems"(1,3) have "read_header_bytes bs s = (s, Inr (p, bs))" by (subst read_header_bytes.simps) simp
    with "1.prems"(1) show ?thesis by blast
  qed
qed

lemma read_header_bytes_not_found:
  assumes "\<forall>p. find_header_end (bs @ arriving s) = Some p \<longrightarrow> MAX_HEADER_BYTES < p" and "intact s"
  shows "snd (read_header_bytes bs s) = Inl Malformed"
  using assms
proof (induction bs s rule: read_header_bytes.induct)
  case (1 bs s)
  show ?case
  proof (cases "find_header_end bs")
    case None
    obtain d s1 where d: "stream_read 4096 s = Some (d, s1)" "intact s1" "arriving s = d @ arriving s1"
      using stream_read_intact [OF "1.prems"(2), of 4096] by auto
    show ?thesis
    proof (cases "length bs > MAX_HEADER_BYTES \<or> d = []")
      case True
      with None d show ?thesis by (subst read_header_bytes.simps) auto
    next
      case False
      with "1.IH" [OF None _ d(1) refl] "1.prems"(1) d have "snd (read_header_bytes (bs @ d) s1) = Inl Malformed" by simp
      with None False d(1) show ?thesis by (subst read_header_bytes.simps) auto
    qed
  next
    case (Some q)
    from find_header_end_append [OF this] "1.prems"(1) have "q > MAX_HEADER_BYTES" by blast
    with Some show ?thesis by (subst read_header_bytes.simps) simp
  qed
qed


lemma read_body_bytes_result:
  assumes "intact s" and "start \<le> length bs"
  shows "if length (bs @ arriving s) - start < n then snd (read_body_bytes start n bs s) = Inl Malformed
    else \<exists>bs' s'. read_body_bytes start n bs s = (s', Inr bs') \<and> bs' @ arriving s' = bs @ arriving s \<and> start + n \<le> length bs'"
  using assms
proof (induction start n bs s rule: read_body_bytes.induct)
  case (1 start n bs s)
  show ?case
  proof (cases "length bs - start < n")
    case True
    let ?m = "min (n - (length bs - start)) 4096"
    from True have "0 < ?m" by simp
    from stream_read_intact [OF "1.prems"(1) this] obtain d s1 where d: "stream_read ?m s = Some (d, s1)"
      "intact s1" "arriving s = d @ arriving s1" "d = [] \<longleftrightarrow> s = []" by auto
    show ?thesis
    proof (cases "d = []")
      case True
      with d \<open>length bs - start < n\<close> show ?thesis by (subst read_body_bytes.simps) (simp add: Let_def)
    next
      case False
      have "read_body_bytes start n bs s = read_body_bytes start n (bs @ d) s1"
        using True d(1) False by (subst read_body_bytes.simps) (simp add: Let_def)
      with "1.IH" [OF True refl d(1) refl False d(2)] "1.prems"(2) d(3) show ?thesis
        by (simp split: if_splits)
    qed
  next
    case False
    with "1.prems"(2) show ?thesis by (subst (1 2) read_body_bytes.simps) auto
  qed
qed



section \<open>The reference\<close>

text \<open>Reading with all the bytes at hand.\<close>

definition request_of :: "string \<times> string \<times> HeaderFields \<times> nat \<Rightarrow> bytes \<Rightarrow> ParsedRequest" where
  "request_of header body = (let (verb, path, h, n) = header in
     \<lparr>pr_method = verb, pr_path = path, pr_authority = hf_authority h, pr_content_type = hf_content_type h,
      pr_content_digest = hf_content_digest h, pr_service_id = hf_service_id h, pr_instance_id = hf_instance_id h,
      pr_request_id = hf_request_id h, pr_signature_input = hf_signature_input h, pr_signature = hf_signature h,
      pr_body = body\<rparr>)"

definition parse_whole :: "bytes \<Rightarrow> RequestReadError + ParsedRequest" where
  "parse_whole bs =
     (case find_header_end bs of
        None \<Rightarrow> Inl Malformed
      | Some p \<Rightarrow>
          if MAX_HEADER_BYTES < p then Inl Malformed
          else bind_result (parse_header (take p bs)) (\<lambda>header.
            let n = snd (snd (snd header)) in
            if length bs < p + 4 + n then Inl Malformed
            else Inr (request_of header (take n (drop (p + 4) bs)))))"

lemma read_request_whole:
  assumes "intact s" and "\<forall>p. find_header_end (arriving s) = Some p \<longrightarrow> p + 3 \<le> MAX_HEADER_BYTES \<or> MAX_HEADER_BYTES < p"
  shows "read_request s = parse_whole (arriving s)"
proof (cases "\<exists>p. find_header_end (arriving s) = Some p \<and> p \<le> MAX_HEADER_BYTES")
  case False
  then have "\<forall>p. find_header_end ([] @ arriving s) = Some p \<longrightarrow> MAX_HEADER_BYTES < p" by (auto simp: not_le)
  from read_header_bytes_not_found [OF this assms(1)] False show ?thesis
    by (cases "read_header_bytes [] s") (auto simp: read_request_def read_request_from_def parse_whole_def split: option.splits)
next
  case True
  then obtain p where p: "find_header_end (arriving s) = Some p" "p \<le> MAX_HEADER_BYTES" by blast
  with assms(2) have "p + 3 \<le> MAX_HEADER_BYTES" by auto
  with read_header_bytes_found [OF assms(1), of "[]" p] p(1) obtain bs s1 where hd: "read_header_bytes [] s = (s1, Inr (p, bs))"
    and s1: "intact s1" "bs @ arriving s1 = arriving s" by auto
  from read_header_bytes_takes [OF hd] find_header_end_length have len: "p + 4 \<le> length bs" by blast
  then have take: "take p (arriving s) = take p bs" by (simp flip: s1(2))
  show ?thesis
  proof (cases "parse_header (take p bs)")
    case (Inl e)
    with hd p take show ?thesis by (simp add: read_request_def read_request_from_def parse_whole_def)
  next
    case (Inr hd')
    obtain verb path h n where hd': "hd' = (verb, path, h, n)" by (cases hd')
    show ?thesis
    proof (cases "length (arriving s) < p + 4 + n")
      case True
      have "p + 4 \<le> length (arriving s)" using len by (simp flip: s1(2))
      with True have "length (bs @ arriving s1) - (p + 4) < n" unfolding s1(2) by linarith
      with read_body_bytes_result [OF s1(1) len, of n] have "snd (read_body_bytes (p + 4) n bs s1) = Inl Malformed" by simp
      with hd p take Inr hd' True show ?thesis
        by (cases "read_body_bytes (p + 4) n bs s1") (simp add: read_request_def read_request_from_def parse_whole_def Let_def)
    next
      case False
      then have "\<not> length (bs @ arriving s1) - (p + 4) < n" by (simp add: s1(2))
      with read_body_bytes_result [OF s1(1) len, of n] s1(2) obtain bs' s' where
        b: "read_body_bytes (p + 4) n bs s1 = (s', Inr bs')" "bs' @ arriving s' = arriving s" "p + 4 + n \<le> length bs'"
        by auto
      then have "take n (drop (p + 4) (arriving s)) = take n (drop (p + 4) bs')" by (simp flip: b(2))
      with hd p take Inr hd' False b(1) show ?thesis
        by (simp add: read_request_def read_request_from_def parse_whole_def request_of_def Let_def)
    qed
  qed
qed


text \<open>C28: The request does not depend on how the network cuts it. Over a connection that does not fail,
  and unless the header ends within the last two bytes of the 8 KiB limit, reading segment by segment
  gives exactly what parsing all the bytes at once gives, success or error.\<close>

theorem segmentation_irrelevant:
  assumes "intact s"
    and "\<forall>p. find_header_end (arriving s) = Some p \<longrightarrow> p + 3 \<le> MAX_HEADER_BYTES \<or> MAX_HEADER_BYTES < p"
  shows "read_request s = parse_whole (arriving s)"
  by (rule read_request_whole [OF assms])


section \<open>Bounds\<close>

lemma parse_header_length: "parse_header b = Inr (m, p, h, n) \<Longrightarrow> n \<le> MAX_ENROLLMENT_BODY_BYTES"
  by (auto simp: parse_header_def Let_def split: if_splits)


text \<open>Every read that continues a loop brings a byte, so the loops see a bounded number of segments.\<close>

lemma stream_read_Nil [simp]: "stream_read n [] = Some ([], [])"
  by simp

lemma read_header_bytes_more:
  assumes "MAX_HEADER_BYTES < length bs + length s"
  shows "read_header_bytes bs (s @ t) = map_prod (\<lambda>u. u @ t) id (read_header_bytes bs s)"
    and "read_header_bytes bs s = (s', Inr (p, b)) \<Longrightarrow> length bs + length s \<le> length b + length s'"
proof -
  have "read_header_bytes bs (s @ t) = map_prod (\<lambda>u. u @ t) id (read_header_bytes bs s) \<and>
    (\<forall>p b s'. read_header_bytes bs s = (s', Inr (p, b)) \<longrightarrow> length bs + length s \<le> length b + length s')"
    using assms
  proof (induction bs s rule: read_header_bytes.induct)
    case (1 bs s)
    note unfold = read_header_bytes.simps [of bs "s @ t"] read_header_bytes.simps [of bs s]
    show ?case
    proof (cases "find_header_end bs = None \<and> length bs \<le> MAX_HEADER_BYTES")
      case True
      with "1.prems" have s: "s \<noteq> []" by auto
      note app = stream_read_append [OF s]
      show ?thesis
      proof (cases "stream_read 4096 s")
        case None
        with True app(1) [of 4096 t] show ?thesis by (simp add: unfold)
      next
        case (Some ds)
        obtain d s1 where ds: "ds = (d, s1)" by (cases ds)
        show ?thesis
        proof (cases "d = []")
          case d_nil: True
          with True app(1) [of 4096 t] Some ds show ?thesis by (simp add: unfold)
        next
          case False
          have grow: "length s \<le> length s1 + 1" using app(2) Some ds by blast
          from False obtain y ys where "d = y # ys" by (cases d) auto
          with grow have more: "length bs + length s \<le> length (bs @ d) + length s1" by simp
          with "1.prems" have "MAX_HEADER_BYTES < length (bs @ d) + length s1" by linarith
          moreover have short: "\<not> length bs > MAX_HEADER_BYTES" using True by simp
          note IH = "1.IH" [OF conjunct1 [OF True] short Some ds [symmetric] False]
          ultimately show ?thesis using IH True Some ds False more app(1) [of 4096 t] by (auto simp: unfold)
        qed
      qed
    next
      case False
      then show ?thesis by (auto simp: unfold split: option.splits)
    qed
  qed
  then show "read_header_bytes bs (s @ t) = map_prod (\<lambda>u. u @ t) id (read_header_bytes bs s)"
    and "read_header_bytes bs s = (s', Inr (p, b)) \<Longrightarrow> length bs + length s \<le> length b + length s'" by blast+
qed

lemma read_body_bytes_more:
  assumes "start + n \<le> length bs + length s"
  shows "read_body_bytes start n bs (s @ t) = map_prod (\<lambda>u. u @ t) id (read_body_bytes start n bs s)"
  using assms
proof (induction start n bs s rule: read_body_bytes.induct)
  case (1 start n bs s)
  note unfold = read_body_bytes.simps [of start n bs "s @ t"] read_body_bytes.simps [of start n bs s] Let_def
  let ?m = "min (n - (length bs - start)) 4096"
  show ?case
  proof (cases "length bs - start < n")
    case True
    with "1.prems" have s: "s \<noteq> []" by auto
    note app = stream_read_append [OF s]
    show ?thesis
    proof (cases "stream_read ?m s")
      case None
      with True app(1) [of ?m t] show ?thesis by (simp add: unfold)
    next
      case (Some ds)
      obtain d s1 where ds: "ds = (d, s1)" by (cases ds)
      show ?thesis
      proof (cases "d = []")
        case d: True
        with True app(1) [of ?m t] Some ds show ?thesis by (simp add: unfold)
      next
        case False
        have "length s \<le> length s1 + 1" using app(2) Some ds by blast
        moreover from False obtain y ys where "d = y # ys" by (cases d) auto
        ultimately have "start + n \<le> length (bs @ d) + length s1" using "1.prems" by simp
        from "1.IH" [OF True refl Some ds [symmetric] False this] True Some ds False app(1) [of ?m t] show ?thesis
          by (simp add: unfold)
      qed
    qed
  next
    case False
    then show ?thesis by (simp add: unfold)
  qed
qed

lemma read_request_more:
  assumes "49156 \<le> length s"
  shows "read_request_from (s @ t) = map_prod (\<lambda>u. u @ t) id (read_request_from s)"
proof -
  have more: "MAX_HEADER_BYTES < length ([] :: bytes) + length s" using assms by (simp add: MAX_HEADER_BYTES_def)
  note hd = read_header_bytes_more [OF more]
  obtain s1 r where r: "read_header_bytes [] s = (s1, r)" by fastforce
  have r': "read_header_bytes [] (s @ t) = (s1 @ t, r)" by (simp add: hd(1) r)
  show ?thesis
  proof (cases "\<exists>p bs hdr. r = Inr (p, bs) \<and> parse_header (take p bs) = Inr hdr")
    case False
    with r r' show ?thesis by (auto simp: read_request_from_def split: sum.split)
  next
    case True
    then obtain p bs verb path h n where p: "r = Inr (p, bs)" "parse_header (take p bs) = Inr (verb, path, h, n)"
      by (metis prod_cases4)
    then have "n \<le> 40960" using parse_header_length by (force simp: MAX_ENROLLMENT_BODY_BYTES_def)
    moreover have "p \<le> 8192" using read_header_bytes_takes [OF r] p(1) by (auto simp: MAX_HEADER_BYTES_def)
    moreover have "length s \<le> length bs + length s1" using hd(2) r p(1) by fastforce
    ultimately have "p + 4 + n \<le> length bs + length s1" using assms by linarith
    from read_body_bytes_more [OF this, of t] r r' p show ?thesis
      by (cases "read_body_bytes (p + 4) n bs s1") (auto simp: read_request_from_def Let_def split: sum.split)
  qed
qed

text \<open>C30: Reading ends although the peer never does. For a peer that goes on sending for ever (its
  \<open>i\<close>-th segment is \<open>peer i\<close>) there is one answer and one rest \<open>u\<close> of its first 49156
  segments: however many more have arrived when the reader runs, it returns that answer and leaves
  \<open>u\<close> and every one of them on the connection.\<close>

theorem reading_terminates:
  "\<exists>u answer. \<forall>n \<ge> 49156. read_request_from (map peer [0..<n]) = (u @ map peer [49156..<n], answer)"
proof -
  let ?s = "map peer [0..<49156]"
  have "read_request_from (map peer [0..<n]) =
      (fst (read_request_from ?s) @ map peer [49156..<n], snd (read_request_from ?s))" if n: "49156 \<le> n" for n
  proof -
    have "[0..<n] = [0..<49156] @ [49156..<n]" using n by (metis le_add_diff_inverse upt_add_eq_append zero_le)
    then have "map peer [0..<n] = ?s @ map peer [49156..<n]" by simp
    then show ?thesis using read_request_more [of ?s "map peer [49156..<n]"] by (simp add: map_prod_def split_beta)
  qed
  then show ?thesis by blast
qed

section \<open>Concrete streams\<close>

definition sample_stream :: "segment list" where
  "sample_stream = [Data ''POST /v1/requests HTT'', Data (''P/1.1'' @ CRLF @ ''Content-Length: 3'' @ CRLF),
     Data (CRLF @ ''a''), Data ''bc'']"

lemma sample_stream_header:
  "find_header_end (arriving sample_stream) = Some 45" "intact sample_stream"
  by code_simp+

theorem segmentation_irrelevant_witness:
  "intact sample_stream \<and> read_request sample_stream = parse_whole (arriving sample_stream)"
  using segmentation_irrelevant [OF sample_stream_header(2)] sample_stream_header
  by (simp add: MAX_HEADER_BYTES_def)

text \<open>A peer that sends two segments of header and then only line noise.\<close>

definition chatty_peer :: "nat \<Rightarrow> segment" where
  "chatty_peer i = (if i < 2 then Data ''GET / HTTP/1.1'' else Data ''x'')"


theorem reading_terminates_witness:
  "\<exists>u answer. read_request_from (map chatty_peer [0..<100000]) = (u @ map chatty_peer [49156..<100000], answer)"
proof -
  from reading_terminates obtain u answer where
    "\<forall>n \<ge> 49156. read_request_from (map chatty_peer [0..<n]) = (u @ map chatty_peer [49156..<n], answer)" by blast
  then have "read_request_from (map chatty_peer [0..<100000]) = (u @ map chatty_peer [49156..<100000], answer)"
    by (rule allE [of _ 100000]) linarith
  then show ?thesis by blast
qed

end
