(* ===== verification/Http_Governed.thy ===== *)
theory Http_Governed
  imports Http_Reading_Properties
begin

text \<open>
  From the parsed HTTP request to the signed service request the gate judges
  (\<open>ParsedRequest::as_governed\<close>, \<open>GovernedHttpRequest::into_signed\<close> of \<open>src/http.rs\<close>),
  and back: what a client that writes a signed request on the wire is understood to have sent.
\<close>

record GovernedHttpRequest =
  ghr_method :: string
  ghr_authority :: string
  ghr_path_and_query :: string
  ghr_content_type :: string
  ghr_body :: bytes
  ghr_service_id :: string
  ghr_instance_id :: string
  ghr_request_id :: string
  ghr_content_digest :: string
  ghr_signature_input :: string
  ghr_signature :: string

definition as_governed :: "ParsedRequest \<Rightarrow> GovernedHttpRequest option" where
  "as_governed r =
     Option.bind (pr_authority r) (\<lambda>authority.
     Option.bind (pr_content_type r) (\<lambda>content_type.
     Option.bind (pr_service_id r) (\<lambda>service_id.
     Option.bind (pr_instance_id r) (\<lambda>instance_id.
     Option.bind (pr_request_id r) (\<lambda>request_id.
     Option.bind (pr_content_digest r) (\<lambda>digest.
     Option.bind (pr_signature_input r) (\<lambda>signature_input.
     Option.bind (pr_signature r) (\<lambda>signature.
       Some \<lparr>ghr_method = pr_method r, ghr_authority = authority, ghr_path_and_query = pr_path r,
             ghr_content_type = content_type, ghr_body = pr_body r, ghr_service_id = service_id,
             ghr_instance_id = instance_id, ghr_request_id = request_id, ghr_content_digest = digest,
             ghr_signature_input = signature_input, ghr_signature = signature\<rparr>))))))))"

definition into_signed ::
  "Crates \<Rightarrow> GovernedHttpRequest \<Rightarrow> ServiceRequestAuthenticationError + SignedServiceRequest" where
  "into_signed X g =
     bind_result (ok_or SRE_Malformed (uuid_parse X (ghr_request_id g))) (\<lambda>request_id.
     bind_result (ServiceRequestParts_new (ghr_method g) (ghr_authority g) (ghr_path_and_query g)
                    (ghr_content_type g) (ghr_body g) request_id) (\<lambda>parts.
       SignedServiceRequest_from_wire X parts (ghr_service_id g) (ghr_instance_id g)
         (ghr_content_digest g) (ghr_signature_input g) (ghr_signature g)))"


section \<open>What a client writes\<close>

text \<open>The request line, one line per header field, an empty line, the body.\<close>

definition wire_text :: "string \<Rightarrow> string \<Rightarrow> (string \<times> string) list \<Rightarrow> string" where
  "wire_text verb path fs =
     verb @ '' '' @ path @ '' HTTP/1.1'' @ concat (map (\<lambda>(n, v). CRLF @ n @ '': '' @ v) fs)"

definition governed_fields :: "Crates \<Rightarrow> SignedServiceRequest \<Rightarrow> (string \<times> string) list" where
  "governed_fields X r =
     [(''Host'', srp_authority (ssr_parts r)),
      (''Content-Type'', srp_content_type (ssr_parts r)),
      (''Content-Length'', show_nat (length (srp_body (ssr_parts r)))),
      (''Content-Digest'', ssr_content_digest r),
      (''Infernal-Service-Id'', ActorId_show X (ssr_service_id r)),
      (''Infernal-Instance-Id'', InstanceId_show X (ssr_instance_id r)),
      (''Infernal-Request-Id'', uuid_show X (srp_request_id (ssr_parts r))),
      (''Signature-Input'', ssr_signature_input r),
      (''Signature'', ssr_signature r)]"

definition governed_wire :: "Crates \<Rightarrow> SignedServiceRequest \<Rightarrow> bytes" where
  "governed_wire X r =
     wire_text (srp_method (ssr_parts r)) (srp_path_and_query (ssr_parts r)) (governed_fields X r) @
       CRLF @ CRLF @ srp_body (ssr_parts r)"


section \<open>Reading it back\<close>

definition no_cr :: "string \<Rightarrow> bool" where
  "no_cr s \<longleftrightarrow> CHR 0x0D \<notin> set s"

lemma find_header_end_skip: "no_cr a \<Longrightarrow> find_header_end (a @ r) = map_option ((+) (length a)) (find_header_end r)"
proof (induction a)
  case (Cons c a)
  then have "\<not> starts_with header_terminator ((c # a) @ r)"
    by (auto simp: no_cr_def starts_with_iff header_terminator_def CRLF_def)
  with Cons show ?case by (cases "find_header_end r") (auto simp: no_cr_def)
next
  case Nil
  show ?case by (cases "find_header_end r") simp_all
qed

lemma find_header_end_crlf:
  "x \<noteq> CHR 0x0D \<Longrightarrow> find_header_end (CRLF @ x # r) = map_option ((+) 2) (find_header_end (x # r))"
  by (cases "find_header_end (x # r)") (auto simp: CRLF_def header_terminator_def starts_with_def)

lemma split_crlf_last: "no_cr a \<Longrightarrow> split_crlf a = [a]"
  by (induction a) (auto simp: no_cr_def)

lemma split_crlf_line: "no_cr a \<Longrightarrow> split_crlf (a @ CRLF @ r) = a # split_crlf r"
proof (induction a)
  case Nil
  show ?case by (simp add: CRLF_def)
next
  case (Cons c a)
  then show ?case by (auto simp: no_cr_def)
qed

lemma ascii_utf8_valid: "list_all (in_byte_range 0 127) s \<Longrightarrow> utf8_valid s"
  by (induction s rule: utf8_valid.induct) auto

text \<open>The lines of a header field.\<close>

definition field_line :: "string \<times> string \<Rightarrow> string" where
  "field_line f = fst f @ '': '' @ snd f"

definition plain_field :: "string \<times> string \<Rightarrow> bool" where
  "plain_field f \<longleftrightarrow> valid_header_name (fst f) \<and> valid_header_value (snd f)"

lemma printable_no_cr: "list_all (in_byte_range 32 126) s \<Longrightarrow> no_cr s"
  by (auto simp: no_cr_def list_all_iff in_byte_range_def byte_val_def)

lemma valid_header_name_bytes:
  assumes "valid_header_name n"
  shows "list_all (in_byte_range 33 126) n" and "CHR '':'' \<notin> set n"
proof -
  from assms have n: "\<And>c. c \<in> set n \<Longrightarrow> is_ascii_alphanumeric c \<or> c \<in> set ''!#$%&*+-.^_`|~'' \<or> c = CHR 0x27"
    by (auto simp: valid_header_name_def list_all_iff)
  show "list_all (in_byte_range 33 126) n"
    unfolding list_all_iff
  proof
    fix c
    assume "c \<in> set n"
    from n [OF this] show "in_byte_range 33 126 c" by (auto simp: ascii_defs)
  qed
  show "CHR '':'' \<notin> set n" using n [of "CHR '':''"] by (auto simp: ascii_defs)
qed

lemma range_mono: "list_all (in_byte_range a b) s \<Longrightarrow> a' \<le> a \<Longrightarrow> b \<le> b' \<Longrightarrow> list_all (in_byte_range a' b') s"
  by (auto simp: list_all_iff in_byte_range_def)

lemma field_line_printable: "plain_field f \<Longrightarrow> list_all (in_byte_range 32 126) (field_line f)"
  using valid_header_name_bytes(1) [of "fst f"]
  by (auto simp: plain_field_def field_line_def valid_header_value_def in_byte_range_def byte_val_def intro: range_mono)

lemma str_trim_space: "str_trim (CHR '' '' # s) = str_trim s"
proof -
  have "ws_len (CHR '' '' # s) = 1"
    by (cases "CHR '' '' # s" rule: ws_len.cases) (auto simp: ws1_def in_byte_range_def byte_val_def)
  then have "trim_start (CHR '' '' # s) = trim_start s" by (simp add: trim_start.simps [of "CHR '' '' # s"])
  then show ?thesis by (simp add: str_trim_def)
qed

lemma plain_field_split:
  assumes "plain_field f"
  shows "split_once '':'' (field_line f) = Some (fst f, CHR '' '' # snd f)" and "str_trim (CHR '' '' # snd f) = snd f"
proof -
  have "split_once (CHR '':'' # []) (fst f @ (CHR '':'' # []) @ (CHR '' '' # snd f)) = Some (fst f, CHR '' '' # snd f)"
    by (rule split_once_append) (use assms valid_header_name_bytes(2) in \<open>simp add: plain_field_def\<close>)
  then show "split_once '':'' (field_line f) = Some (fst f, CHR '' '' # snd f)" by (simp add: field_line_def)
  show "str_trim (CHR '' '' # snd f) = snd f"
    using assms by (simp add: str_trim_space plain_field_def valid_header_value_def)
qed


lemma wire_fields: "map (\<lambda>(n, v). CRLF @ n @ '': '' @ v) fs = map (\<lambda>f. CRLF @ field_line f) fs"
  by (auto simp: field_line_def)

lemma split_wire:
  assumes "no_cr a" and "list_all plain_field fs"
  shows "split_crlf (a @ concat (map (\<lambda>f. CRLF @ field_line f) fs)) = a # map field_line fs"
  using assms
proof (induction fs arbitrary: a)
  case Nil
  then show ?case by (simp add: split_crlf_last)
next
  case (Cons f fs)
  then have "no_cr (field_line f)" by (auto intro: printable_no_cr field_line_printable)
  with Cons show ?case by (simp add: split_crlf_line)
qed

lemma find_wire_end:
  assumes "no_cr a" and "list_all plain_field fs"
  shows "find_header_end ((a @ concat (map (\<lambda>f. CRLF @ field_line f) fs)) @ CRLF @ CRLF @ body) =
    Some (length (a @ concat (map (\<lambda>f. CRLF @ field_line f) fs)))"
  using assms
proof (induction fs arbitrary: a)
  case Nil
  have "find_header_end (CRLF @ CRLF @ body) = Some 0" by (simp add: CRLF_def header_terminator_def starts_with_def)
  with find_header_end_skip [OF Nil(1), of "CRLF @ CRLF @ body"] show ?case by simp
next
  case (Cons f fs)
  then have cr: "no_cr (field_line f)" by (auto intro: printable_no_cr field_line_printable)
  obtain x xs where x: "field_line f = x # xs" by (cases "field_line f") (auto simp: field_line_def)
  with cr have "x \<noteq> CHR 0x0D" by (auto simp: no_cr_def)
  let ?rest = "concat (map (\<lambda>f. CRLF @ field_line f) fs) @ CRLF @ CRLF @ body"
  from Cons.IH [OF cr] Cons.prems(2) have "find_header_end (field_line f @ ?rest) =
      Some (length (field_line f @ concat (map (\<lambda>f. CRLF @ field_line f) fs)))" by simp
  with find_header_end_crlf [OF \<open>x \<noteq> CHR 0x0D\<close>, of "xs @ ?rest"] x
  have "find_header_end (CRLF @ field_line f @ ?rest) =
      Some (2 + length (field_line f @ concat (map (\<lambda>f. CRLF @ field_line f) fs)))" by simp
  with find_header_end_skip [OF Cons.prems(1), of "CRLF @ field_line f @ ?rest"] show ?case by (simp add: CRLF_def)
qed

lemma wire_text_printable:
  assumes "list_all (in_byte_range 32 126) a" and "list_all plain_field fs"
  shows "utf8_valid (a @ concat (map (\<lambda>f. CRLF @ field_line f) fs))"
proof (rule ascii_utf8_valid)
  have "list_all (in_byte_range 0 127) (field_line f)" if "plain_field f" for f
    by (rule range_mono [OF field_line_printable [OF that]]) simp_all
  with assms(2) have "list_all (in_byte_range 0 127) (concat (map (\<lambda>f. CRLF @ field_line f) fs))"
    by (induction fs) (auto simp: CRLF_def in_byte_range_def byte_val_def)
  with assms(1) show "list_all (in_byte_range 0 127) (a @ concat (map (\<lambda>f. CRLF @ field_line f) fs))"
    by (auto intro: range_mono)
qed

text \<open>The words of the request line.\<close>

lemma take_word_visible: "list_all visible w \<Longrightarrow> take_word (w @ CHR '' '' # r) = (w, CHR '' '' # r)"
proof (induction w)
  case Nil
  have "ws_len (CHR '' '' # r) \<noteq> 0"
    by (cases "CHR '' '' # r" rule: ws_len.cases) (auto simp: ws1_def in_byte_range_def byte_val_def)
  then show ?case by simp
next
  case (Cons c w)
  then show ?case by (simp add: ws_len_visible)
qed

lemma take_word_all: "list_all visible w \<Longrightarrow> take_word w = (w, [])"
  by (induction w) (auto simp: ws_len_visible)

lemma trim_start_space: "trim_start (CHR '' '' # s) = trim_start s"
proof -
  have "ws_len (CHR '' '' # s) = 1"
    by (cases "CHR '' '' # s" rule: ws_len.cases) (auto simp: ws1_def in_byte_range_def byte_val_def)
  then show ?thesis by (simp add: trim_start.simps [of "CHR '' '' # s"])
qed

lemma split_whitespace_word:
  assumes "w \<noteq> []" and "list_all visible w"
  shows "split_whitespace (w @ CHR '' '' # r) = w # split_whitespace r" and "split_whitespace w = [w]"
    and "split_whitespace (CHR '' '' # r) = split_whitespace r"
proof -
  obtain c cs where w: "w = c # cs" "visible c" using assms by (cases w) auto
  show space: "split_whitespace (CHR '' '' # r) = split_whitespace r"
    by (simp add: split_whitespace.simps [of "CHR '' '' # r"] split_whitespace.simps [of r] trim_start_space)
  have "trim_start (w @ CHR '' '' # r) = w @ CHR '' '' # r" "trim_start w = w"
    by (simp_all add: w trim_start_visible)
  with assms(1) take_word_visible [OF assms(2), of r] take_word_all [OF assms(2)] space show
    "split_whitespace (w @ CHR '' '' # r) = w # split_whitespace r" "split_whitespace w = [w]"
    by (simp_all add: split_whitespace.simps [of "w @ CHR '' '' # r"] split_whitespace.simps [of w]
        split_whitespace.simps [of "[]"] trim_start.simps [of "[]"])
qed

lemma request_line_words:
  assumes "verb \<noteq> []" and "list_all visible verb" and "path \<noteq> []" and "list_all visible path" and "starts_with ''/'' path"
  shows "request_line (verb @ '' '' @ path @ '' HTTP/1.1'') = Inr (verb, path)"
proof -
  have v: "list_all visible ''HTTP/1.1''" by (simp add: visible_def in_byte_range_def byte_val_def)
  have "split_whitespace (verb @ '' '' @ path @ '' HTTP/1.1'') = [verb, path, ''HTTP/1.1'']"
    using split_whitespace_word(1) [OF assms(1,2)] split_whitespace_word(1) [OF assms(3,4)] split_whitespace_word(2) [OF _ v]
    by simp
  with assms(5) show ?thesis by (simp add: request_line_def)
qed


text \<open>Each field of a governed request sets its variable.\<close>

lemma header_line_field: "plain_field (n, v) \<Longrightarrow> header_line h (field_line (n, v)) = header_field h n v"
  using plain_field_split [of "(n, v)"] by (simp add: header_line_def plain_field_def)

lemma parse_usize_show: "n < 2 ^ 64 \<Longrightarrow> parse_usize (show_nat n) = Some n"
  using show_nat_digits [of n] show_nat_not_Nil [of n]
  by (cases "show_nat n") (auto simp: parse_usize_def is_ascii_digit_def in_byte_range_def byte_val_def dest: arg_cong [of _ _ digits_val])

lemma eq_names [simp]:
  "eq_ignore_ascii_case ''Host'' ''host''" "\<not> eq_ignore_ascii_case ''Host'' ''content-length''"
  "\<not> eq_ignore_ascii_case ''Host'' ''content-type''"
  "eq_ignore_ascii_case ''Content-Type'' ''content-type''" "\<not> eq_ignore_ascii_case ''Content-Type'' ''content-length''"
  "eq_ignore_ascii_case ''Content-Length'' ''content-length''"
  "\<not> eq_ignore_ascii_case ''Content-Digest'' ''content-length''" "\<not> eq_ignore_ascii_case ''Content-Digest'' ''content-type''"
  "\<not> eq_ignore_ascii_case ''Content-Digest'' ''host''" "eq_ignore_ascii_case ''Content-Digest'' ''content-digest''"
  by code_simp+

lemma eq_names_ids [simp]:
  "eq_ignore_ascii_case ''Infernal-Service-Id'' ''infernal-service-id''"
  "eq_ignore_ascii_case ''Infernal-Instance-Id'' ''infernal-instance-id''"
  "eq_ignore_ascii_case ''Infernal-Request-Id'' ''infernal-request-id''"
  "eq_ignore_ascii_case ''Signature-Input'' ''signature-input''" "eq_ignore_ascii_case ''Signature'' ''signature''"
  by code_simp+

lemma eq_ignore_length: "eq_ignore_ascii_case a b \<Longrightarrow> length a = length b"
  by (auto simp: eq_ignore_ascii_case_def dest: map_eq_imp_length_eq)

lemma neq_names [simp]:
  "\<not> eq_ignore_ascii_case ''Infernal-Service-Id'' s" if "length s \<noteq> 19" for s
  using that by (auto dest: eq_ignore_length)

lemma neq_names' [simp]:
  "length s \<noteq> 20 \<Longrightarrow> \<not> eq_ignore_ascii_case ''Infernal-Instance-Id'' s"
  "length s \<noteq> 15 \<Longrightarrow> \<not> eq_ignore_ascii_case ''Signature-Input'' s"
  "length s \<noteq> 9 \<Longrightarrow> \<not> eq_ignore_ascii_case ''Signature'' s"
  "\<not> eq_ignore_ascii_case ''Infernal-Request-Id'' ''infernal-service-id''"
  "length s \<noteq> 19 \<Longrightarrow> \<not> eq_ignore_ascii_case ''Infernal-Request-Id'' s"
  by (auto dest: eq_ignore_length) (code_simp)

lemma governed_header_lines:
  assumes "list_all plain_field (governed_fields X r)"
    and "length (srp_body (ssr_parts r)) < 2 ^ 64"
  shows "header_lines no_fields (map field_line (governed_fields X r)) = Inr
    \<lparr>hf_content_length = Some (length (srp_body (ssr_parts r))), hf_authority = Some (srp_authority (ssr_parts r)),
     hf_content_type = Some (srp_content_type (ssr_parts r)), hf_content_digest = Some (ssr_content_digest r),
     hf_service_id = Some (ActorId_show X (ssr_service_id r)), hf_instance_id = Some (InstanceId_show X (ssr_instance_id r)),
     hf_request_id = Some (uuid_show X (srp_request_id (ssr_parts r))), hf_signature_input = Some (ssr_signature_input r),
     hf_signature = Some (ssr_signature r)\<rparr>"
proof -
  have len: "parse_usize (show_nat (length (srp_body (ssr_parts r)))) = Some (length (srp_body (ssr_parts r)))"
    by (rule parse_usize_show [OF assms(2)])
  have step: "header_line h (field_line (n, v)) = header_field h n v" if "(n, v) \<in> set (governed_fields X r)" for h n v
    by (rule header_line_field) (use assms(1) that in \<open>auto simp: list_all_iff\<close>)
  have ne: "srp_authority (ssr_parts r) \<noteq> []" "srp_content_type (ssr_parts r) \<noteq> []" "ssr_content_digest r \<noteq> []"
    "ActorId_show X (ssr_service_id r) \<noteq> []" "InstanceId_show X (ssr_instance_id r) \<noteq> []"
    "uuid_show X (srp_request_id (ssr_parts r)) \<noteq> []" "ssr_signature_input r \<noteq> []" "ssr_signature r \<noteq> []"
    using assms(1) by (simp_all add: governed_fields_def plain_field_def valid_header_value_def)
  show ?thesis
    using len step ne unfolding governed_fields_def
    by (simp add: header_field_def set_header_def no_fields_def)
qed


section \<open>The round trip\<close>

abbreviation governed_head :: "Crates \<Rightarrow> SignedServiceRequest \<Rightarrow> string" where
  "governed_head X r \<equiv>
     wire_text (srp_method (ssr_parts r)) (srp_path_and_query (ssr_parts r)) (governed_fields X r)"

lemma list_all_visible: "list_all (in_byte_range 33 126) s \<longleftrightarrow> list_all visible s"
  by (simp add: list_all_iff visible_def)

lemma parts_wf_words:
  assumes "parts_wf p"
  shows "srp_method p \<noteq> []" and "list_all visible (srp_method p)" and "srp_path_and_query p \<noteq> []"
    and "list_all visible (srp_path_and_query p)" and "starts_with ''/'' (srp_path_and_query p)"
    and "valid_header_value (srp_content_type p)" and "list_all visible (srp_authority p)" and "srp_authority p \<noteq> []"
  using assms
  by (auto simp: parts_wf_def ServiceRequestParts_new_def valid_uri_value_def list_all_visible list_all_iff visible_def
      is_ascii_uppercase_def in_byte_range_def split: if_splits)

lemma parse_governed_wire:
  assumes wf: "parts_wf (ssr_parts r)" and plain: "list_all plain_field (governed_fields X r)"
    and head: "length (governed_head X r) \<le> MAX_HEADER_BYTES"
    and body: "length (srp_body (ssr_parts r)) \<le> MAX_ENROLLMENT_BODY_BYTES"
      "srp_path_and_query (ssr_parts r) \<noteq> ''/v1/enrollments''"
  shows "find_header_end (governed_wire X r) = Some (length (governed_head X r))"
    and "parse_whole (governed_wire X r) = Inr
      \<lparr>pr_method = srp_method (ssr_parts r), pr_path = srp_path_and_query (ssr_parts r),
       pr_authority = Some (srp_authority (ssr_parts r)), pr_content_type = Some (srp_content_type (ssr_parts r)),
       pr_content_digest = Some (ssr_content_digest r), pr_service_id = Some (ActorId_show X (ssr_service_id r)),
       pr_instance_id = Some (InstanceId_show X (ssr_instance_id r)),
       pr_request_id = Some (uuid_show X (srp_request_id (ssr_parts r))),
       pr_signature_input = Some (ssr_signature_input r), pr_signature = Some (ssr_signature r),
       pr_body = srp_body (ssr_parts r)\<rparr>"
proof -
  let ?a = "srp_method (ssr_parts r) @ '' '' @ srp_path_and_query (ssr_parts r) @ '' HTTP/1.1''"
  let ?fs = "concat (map (\<lambda>f. CRLF @ field_line f) (governed_fields X r))"
  have hd: "governed_head X r = ?a @ ?fs" unfolding wire_text_def wire_fields by simp
  note words = parts_wf_words [OF wf]
  have "list_all (in_byte_range 32 126) ?a"
    using words(2,4) by (simp add: list_all_iff visible_def in_byte_range_def byte_val_def) fastforce
  note a = this printable_no_cr [OF this]
  from find_wire_end [OF a(2) plain] show fhe: "find_header_end (governed_wire X r) = Some (length (governed_head X r))"
    by (simp add: governed_wire_def hd)
  have len: "length (srp_body (ssr_parts r)) < 2 ^ 64" using body(1) by (simp add: MAX_ENROLLMENT_BODY_BYTES_def)
  have "parse_header (governed_head X r) = Inr (srp_method (ssr_parts r), srp_path_and_query (ssr_parts r),
    \<lparr>hf_content_length = Some (length (srp_body (ssr_parts r))), hf_authority = Some (srp_authority (ssr_parts r)),
     hf_content_type = Some (srp_content_type (ssr_parts r)), hf_content_digest = Some (ssr_content_digest r),
     hf_service_id = Some (ActorId_show X (ssr_service_id r)), hf_instance_id = Some (InstanceId_show X (ssr_instance_id r)),
     hf_request_id = Some (uuid_show X (srp_request_id (ssr_parts r))), hf_signature_input = Some (ssr_signature_input r),
     hf_signature = Some (ssr_signature r)\<rparr>, length (srp_body (ssr_parts r)))"
    using wire_text_printable [OF a(1) plain] split_wire [OF a(2) plain] governed_header_lines [OF plain len]
      request_line_words [OF words(1-5)] body
    by (simp add: parse_header_def hd Let_def)
  with fhe head show "parse_whole (governed_wire X r) = Inr
      \<lparr>pr_method = srp_method (ssr_parts r), pr_path = srp_path_and_query (ssr_parts r),
       pr_authority = Some (srp_authority (ssr_parts r)), pr_content_type = Some (srp_content_type (ssr_parts r)),
       pr_content_digest = Some (ssr_content_digest r), pr_service_id = Some (ActorId_show X (ssr_service_id r)),
       pr_instance_id = Some (InstanceId_show X (ssr_instance_id r)),
       pr_request_id = Some (uuid_show X (srp_request_id (ssr_parts r))),
       pr_signature_input = Some (ssr_signature_input r), pr_signature = Some (ssr_signature r),
       pr_body = srp_body (ssr_parts r)\<rparr>"
    by (simp add: parse_whole_def governed_wire_def request_of_def CRLF_def)
qed

text \<open>What signing produces can stand in a header.\<close>

lemma visible_header_value: "s \<noteq> [] \<Longrightarrow> list_all visible s \<Longrightarrow> valid_header_value s"
  by (auto simp: valid_header_value_def str_trim_visible list_all_iff visible_def in_byte_range_def)

lemma header_value_ends:
  assumes "visible a" and "visible b" and "list_all (in_byte_range 32 126) s"
  shows "valid_header_value (a # s @ [b])"
proof -
  have "trim_start (a # s @ [b]) = a # s @ [b]" using assms(1) by (rule trim_start_visible)
  moreover have "trim_end (a # s @ [b]) = a # s @ [b]"
    using trim_start_rev_visible [OF assms(2), of "rev s @ [a]"] by (simp add: trim_end_def)
  ultimately show ?thesis
    using assms by (auto simp: valid_header_value_def str_trim_def visible_def in_byte_range_def)
qed

lemma uuid_show_visible: "uuid_text_ok X \<Longrightarrow> list_all visible (uuid_show X u)"
  by (auto simp: list_all_iff visible_def is_ascii_digit_def in_byte_range_def byte_val_def dest: uuid_show_chars)

lemma b64_visible: "base64_ok X \<Longrightarrow> list_all visible (b64_encode X b)"
  by (auto simp: list_all_iff visible_def ascii_defs dest!: b64_encode_chars)

lemma show_nat_visible: "list_all visible (show_nat n)"
  using show_nat_digits [of n] by (auto simp: list_all_iff visible_def is_ascii_digit_def in_byte_range_def)


lemma signature_input_value:
  assumes "uuid_text_ok X" and "validate_signature_metadata created expires nonce = Inr ()"
  shows "valid_header_value (SIGNATURE_LABEL @ ''='' @ signature_parameters X created expires nonce key_id)"
proof -
  have ts: "0 \<le> created" "0 \<le> expires" "list_all (in_byte_range 32 126) nonce"
    using assms(2) by (auto simp: validate_signature_metadata_def list_all_iff ascii_defs split: if_splits)
  let ?s = "''ig1='' @ COVERED_COMPONENTS @ '';created='' @ show_i64 created @ '';expires='' @ show_i64 expires @
     '';nonce=\"'' @ nonce @ ''\";keyid=\"'' @ KeyId_show X key_id @ ''\";alg=\"ed25519''"
  have "list_all (in_byte_range 32 126) COVERED_COMPONENTS" by code_simp
  moreover have vis: "list_all (in_byte_range 32 126) s" if "list_all visible s" for s
    using that by (auto simp: list_all_iff visible_def in_byte_range_def)
  have "list_all (in_byte_range 32 126) (show_i64 created)" "list_all (in_byte_range 32 126) (show_i64 expires)"
    using ts by (simp_all add: show_i64_nonneg vis show_nat_visible)
  moreover have "list_all (in_byte_range 32 126) (KeyId_show X key_id)"
    by (simp add: KeyId_show_def vis uuid_show_visible [OF assms(1)])
  ultimately have "list_all (in_byte_range 32 126) ?s"
    using ts(3) by (simp add: in_byte_range_def byte_val_def)
  moreover have "SIGNATURE_LABEL @ ''='' @ signature_parameters X created expires nonce key_id = CHR ''s'' # ?s @ [CHR 0x22]"
    by (simp add: SIGNATURE_LABEL_def signature_parameters_def)
  moreover have "visible (CHR ''s'')" "visible (CHR 0x22)" by (simp_all add: visible_def in_byte_range_def byte_val_def)
  ultimately show ?thesis using header_value_ends by metis
qed

lemma colon_quoted:
  assumes "base64_ok X" and "list_all visible pre" and "pre \<noteq> []"
  shows "valid_header_value (pre @ b64_encode X b @ '':'')"
  by (rule visible_header_value)
    (use assms b64_visible [OF assms(1)] in \<open>simp_all add: visible_def in_byte_range_def byte_val_def\<close>)

lemma signed_fields_plain:
  assumes X: "uuid_text_ok X" "base64_ok X" "\<And>u. uuid_show X u \<noteq> []" and wf: "parts_wf parts"
    and sign: "SignedServiceRequest_sign X parts credential created expires nonce = Inr r"
  shows "list_all plain_field (governed_fields X r)" and "ssr_parts r = parts"
proof -
  have "validate_signature_metadata created expires nonce = Inr ()" using sign by (auto simp: SignedServiceRequest_sign_def)
  note input = signature_input_value [OF X(1) this]
  have r: "ssr_parts r = parts" "ssr_content_digest r = content_digest X (srp_body parts)"
    "\<exists>k. ssr_signature_input r = SIGNATURE_LABEL @ ''='' @ signature_parameters X created expires nonce k"
    "\<exists>b. ssr_signature r = (SIGNATURE_LABEL @ ''=:'') @ b64_encode X b @ '':''"
    using sign by (auto simp: SignedServiceRequest_sign_def Let_def)
  then show "ssr_parts r = parts" by simp
  have uuid: "valid_header_value (uuid_show X u)" for u
    by (rule visible_header_value [OF X(3) uuid_show_visible [OF X(1)]])
  have digest: "valid_header_value (ssr_content_digest r)"
    using colon_quoted [OF X(2), of "''sha-256=:''"] by (simp add: r(2) content_digest_def visible_def in_byte_range_def byte_val_def)
  have "valid_header_value (ssr_signature r)"
    using r(4) colon_quoted [OF X(2), of "SIGNATURE_LABEL @ ''=:''"]
    by (auto simp: SIGNATURE_LABEL_def visible_def in_byte_range_def byte_val_def)
  moreover have "valid_header_value (srp_authority parts)"
    by (rule visible_header_value [OF parts_wf_words(8,7) [OF wf]])
  moreover have "valid_header_value (show_nat n)" for n by (rule visible_header_value [OF show_nat_not_Nil show_nat_visible])
  moreover have names: "list_all valid_header_name [''Host'', ''Content-Type'', ''Content-Length'', ''Content-Digest'', ''Infernal-Service-Id'',
      ''Infernal-Instance-Id'', ''Infernal-Request-Id'', ''Signature-Input'', ''Signature'']" by code_simp
  ultimately show "list_all plain_field (governed_fields X r)"
    using input r(1,3) uuid digest parts_wf_words(6) [OF wf]
    by (auto simp: governed_fields_def plain_field_def ActorId_show_def InstanceId_show_def)
qed


text \<open>The parsed fields give the signed request back.\<close>

lemma into_signed_parsed:
  assumes "uuid_text_ok X" and "parts_wf (ssr_parts r)"
  shows "into_signed X \<lparr>ghr_method = srp_method (ssr_parts r), ghr_authority = srp_authority (ssr_parts r),
      ghr_path_and_query = srp_path_and_query (ssr_parts r), ghr_content_type = srp_content_type (ssr_parts r),
      ghr_body = srp_body (ssr_parts r), ghr_service_id = ActorId_show X (ssr_service_id r),
      ghr_instance_id = InstanceId_show X (ssr_instance_id r), ghr_request_id = uuid_show X (srp_request_id (ssr_parts r)),
      ghr_content_digest = ssr_content_digest r, ghr_signature_input = ssr_signature_input r,
      ghr_signature = ssr_signature r\<rparr> = Inr r"
proof -
  have id: "uuid_parse X (uuid_show X u) = Some u" for u using assms(1) by (simp add: uuid_text_ok_def)
  have "ActorId_from_str X (ActorId_show X a) = Inr a" for a
    by (cases a) (simp add: ActorId_from_str_def ActorId_show_def id)
  moreover have "InstanceId_from_str X (InstanceId_show X i) = Inr i" for i
    by (cases i) (simp add: InstanceId_from_str_def InstanceId_show_def id)
  ultimately show ?thesis
    using assms(2) by (simp add: into_signed_def SignedServiceRequest_from_wire_def parts_wf_def id)
qed

text \<open>The parsed fields of a written request give it back, however the bytes arrive.\<close>

lemma signed_request_read_back:
  assumes "uuid_text_ok X" and "base64_ok X" and "\<And>u. uuid_show X u \<noteq> []" and "parts_wf parts"
    and "SignedServiceRequest_sign X parts credential created expires nonce = Inr r"
    and "intact s" and "arriving s = governed_wire X r"
    and "length (governed_head X r) + 3 \<le> MAX_HEADER_BYTES"
    and "length (srp_body parts) \<le> MAX_ENROLLMENT_BODY_BYTES" and "srp_path_and_query parts \<noteq> ''/v1/enrollments''"
  shows "\<exists>p g. read_request s = Inr p \<and> as_governed p = Some g \<and> into_signed X g = Inr r"
proof -
  note plain = signed_fields_plain [OF assms(1-5)]
  have wf: "parts_wf (ssr_parts r)" using assms(4) by (simp add: plain(2))
  have parse: "find_header_end (governed_wire X r) = Some (length (governed_head X r))"
    "parse_whole (governed_wire X r) = Inr
      \<lparr>pr_method = srp_method (ssr_parts r), pr_path = srp_path_and_query (ssr_parts r),
       pr_authority = Some (srp_authority (ssr_parts r)), pr_content_type = Some (srp_content_type (ssr_parts r)),
       pr_content_digest = Some (ssr_content_digest r), pr_service_id = Some (ActorId_show X (ssr_service_id r)),
       pr_instance_id = Some (InstanceId_show X (ssr_instance_id r)),
       pr_request_id = Some (uuid_show X (srp_request_id (ssr_parts r))),
       pr_signature_input = Some (ssr_signature_input r), pr_signature = Some (ssr_signature r),
       pr_body = srp_body (ssr_parts r)\<rparr>"
    using parse_governed_wire [OF wf plain(1)] assms(8-10) by (simp_all add: plain(2))
  have "read_request s = parse_whole (arriving s)"
    by (rule read_request_whole [OF assms(6)]) (use parse(1) assms(7,8) in simp)
  with parse(2) assms(7) into_signed_parsed [OF assms(1) wf] show ?thesis by (simp add: as_governed_def)
qed


section \<open>At the limit\<close>

text \<open>A header that ends one byte below the limit is read when its terminator arrives in one piece, and
  refused when a read ends inside the terminator: the same bytes, cut differently.\<close>

lemma find_header_end_plain: "find_header_end (replicate n (CHR ''a'')) = None"
  using find_header_end_skip [of "replicate n (CHR ''a'')" "[]"] by (simp add: no_cr_def)

theorem limit_depends_on_segments:
  "arriving [Data (replicate 8191 (CHR ''a'')), Data (CRLF @ CRLF)] = arriving [Data (replicate 8191 (CHR ''a'') @ CRLF), Data CRLF] \<and>
   read_header_bytes [] [Data (replicate 8191 (CHR ''a'')), Data (CRLF @ CRLF)] =
     ([], Inr (8191, replicate 8191 (CHR ''a'') @ CRLF @ CRLF)) \<and>
   read_header_bytes [] [Data (replicate 8191 (CHR ''a'') @ CRLF), Data CRLF] = ([Data CRLF], Inl Malformed)"
proof (intro conjI)
  note step = read_header_bytes.simps [of _ "Data _ # _"]
  have nil: "find_header_end [] = None" by simp
  have first: "find_header_end (replicate 4096 (CHR ''a'')) = None" "find_header_end (replicate 8191 (CHR ''a'')) = None"
    by (rule find_header_end_plain)+
  have whole: "find_header_end (replicate 8191 (CHR ''a'') @ CRLF @ CRLF) = Some 8191"
    using find_header_end_skip [of "replicate 8191 (CHR ''a'')" "CRLF @ CRLF"]
    by (simp add: no_cr_def CRLF_def header_terminator_def starts_with_def)
  have cut: "find_header_end (replicate 8191 (CHR ''a'') @ [CHR 0x0D]) = None" "find_header_end (replicate 8191 (CHR ''a'') @ CRLF) = None"
    using find_header_end_skip [of "replicate 8191 (CHR ''a'')" "[CHR 0x0D]"] find_header_end_skip [of "replicate 8191 (CHR ''a'')" CRLF]
    by (simp_all add: no_cr_def CRLF_def header_terminator_def starts_with_def)
  have add: "replicate 4096 (CHR ''a'') @ replicate 4095 (CHR ''a'') = replicate 8191 (CHR ''a'')"
    by (simp add: replicate_add [symmetric])
  show "arriving [Data (replicate 8191 (CHR ''a'')), Data (CRLF @ CRLF)] = arriving [Data (replicate 8191 (CHR ''a'') @ CRLF), Data CRLF]"
    by (simp add: CRLF_def)
  have big: "take 4096 (replicate 8191 (CHR ''a'') @ r) = replicate 4096 (CHR ''a'')"
    "drop 4096 (replicate 8191 (CHR ''a'') @ r) = replicate 4095 (CHR ''a'') @ r" for r
    by (simp_all add: add [symmetric] del: replicate_eq_replicate)
  have not_nil: "replicate 4096 (CHR ''a'') \<noteq> []" "replicate 4095 (CHR ''a'') \<noteq> []" by simp_all
  show "read_header_bytes [] [Data (replicate 8191 (CHR ''a'')), Data (CRLF @ CRLF)] =
      ([], Inr (8191, replicate 8191 (CHR ''a'') @ CRLF @ CRLF))"
  proof -
    have "read_header_bytes [] [Data (replicate 8191 (CHR ''a'')), Data (CRLF @ CRLF)] =
        read_header_bytes (replicate 4096 (CHR ''a'')) [Data (replicate 4095 (CHR ''a'')), Data (CRLF @ CRLF)]"
      using big [of "[]"] not_nil by (subst read_header_bytes.simps) simp
    also have "\<dots> = read_header_bytes (replicate 8191 (CHR ''a'')) [Data (CRLF @ CRLF)]"
      using not_nil first by (subst read_header_bytes.simps) (simp add: MAX_HEADER_BYTES_def add)
    also have "\<dots> = read_header_bytes (replicate 8191 (CHR ''a'') @ CRLF @ CRLF) []"
      using first by (subst read_header_bytes.simps) (simp add: MAX_HEADER_BYTES_def CRLF_def)
    also have "\<dots> = ([], Inr (8191, replicate 8191 (CHR ''a'') @ CRLF @ CRLF))"
      using whole by (subst read_header_bytes.simps) (simp add: MAX_HEADER_BYTES_def)
    finally show ?thesis .
  qed
  show "read_header_bytes [] [Data (replicate 8191 (CHR ''a'') @ CRLF), Data CRLF] = ([Data CRLF], Inl Malformed)"
  proof -
    have "read_header_bytes [] [Data (replicate 8191 (CHR ''a'') @ CRLF), Data CRLF] =
        read_header_bytes (replicate 4096 (CHR ''a'')) [Data (replicate 4095 (CHR ''a'') @ CRLF), Data CRLF]"
      using big [of CRLF] not_nil by (subst read_header_bytes.simps) (simp add: CRLF_def)
    also have "\<dots> = read_header_bytes (replicate 8191 (CHR ''a'') @ [CHR 0x0D]) [Data [CHR 0x0A], Data CRLF]"
      using first by (subst read_header_bytes.simps) (simp add: MAX_HEADER_BYTES_def add [symmetric] CRLF_def)
    also have "\<dots> = read_header_bytes (replicate 8191 (CHR ''a'') @ CRLF) [Data CRLF]"
      using cut(1) by (subst read_header_bytes.simps) (simp add: MAX_HEADER_BYTES_def CRLF_def)
    also have "\<dots> = ([Data CRLF], Inl Malformed)"
      using cut(2) by (subst read_header_bytes.simps) (simp add: MAX_HEADER_BYTES_def CRLF_def)
    finally show ?thesis .
  qed
qed

end
