(* ===== verification/Http_Dto.thy ===== *)
theory Http_Dto
  imports Enrollment Authority Work_Claims Requests Error_Texts
begin

text \<open>
  \<open>src/http/*_dto.rs\<close>: the shapes of the JSON bodies and their translation from and to the
  domain. Turning a body into a shape, and a shape into text, is \<open>serde_json\<close>, a parameter
  of the handlers.
\<close>

section \<open>Enrollment\<close>

datatype EnrollmentDtoError =
    InvalidChallenge
  | InvalidEncoding
  | InvalidEnrollment
  | InvalidInstanceId
  | InvalidKeyId
  | InvalidPublicKey
  | InvalidServiceId
  | InvalidSignature
  | InvalidTimestamp
  | UnsupportedAlgorithm

record WorkloadChallengeRequest =
  wcq_pod_uid :: string
  wcq_workload_token :: string

record EnrollmentChallengeResponse =
  ecp_service_id :: string
  ecp_challenge :: string
  ecp_audience :: string
  ecp_expires_at :: i64

definition EnrollmentChallengeResponse_new ::
  "Crates \<Rightarrow> ActorId \<Rightarrow> EnrollmentChallenge \<Rightarrow> i64 \<Rightarrow> EnrollmentDtoError + EnrollmentChallengeResponse" where
  "EnrollmentChallengeResponse_new X service_id challenge issued_at =
     bind_result (ok_or InvalidTimestamp (checked_add issued_at CHALLENGE_LIFETIME_SECONDS)) (\<lambda>expires_at.
       if issued_at < 0 then Inl InvalidTimestamp
       else Inr \<lparr>ecp_service_id = ActorId_show X service_id,
                 ecp_challenge = b64url_encode X (EnrollmentChallenge_as_bytes challenge),
                 ecp_audience = ENROLLMENT_AUDIENCE, ecp_expires_at = expires_at\<rparr>)"

record EnrollmentSubmissionRequest =
  esr_service_id :: string
  esr_instance_id :: string
  esr_key_id :: string
  esr_algorithm :: string
  esr_public_key :: string
  esr_challenge :: string
  esr_endpoint :: string
  esr_pod_uid :: string
  esr_workload_token :: string
  esr_signature :: string

definition decode_fixed :: "Crates \<Rightarrow> nat \<Rightarrow> string \<Rightarrow> EnrollmentDtoError + bytes" where
  "decode_fixed X n value =
     bind_result (ok_or InvalidEncoding (b64url_decode X value)) (\<lambda>decoded.
       if length decoded = n then Inr decoded else Inl InvalidEncoding)"

definition EnrollmentSubmissionRequest_into_domain ::
  "Crates \<Rightarrow> EnrollmentSubmissionRequest \<Rightarrow> EnrollmentDtoError + EnrollmentRequest" where
  "EnrollmentSubmissionRequest_into_domain X d =
     (if esr_algorithm d \<noteq> ALGORITHM then Inl UnsupportedAlgorithm
      else bind_result (map_err (\<lambda>_. InvalidServiceId) (ActorId_from_str X (esr_service_id d))) (\<lambda>service_id.
        bind_result (map_err (\<lambda>_. InvalidInstanceId) (InstanceId_from_str X (esr_instance_id d))) (\<lambda>instance_id.
        bind_result (map_err (\<lambda>_. InvalidKeyId) (KeyId_from_str X (esr_key_id d))) (\<lambda>key_id.
        bind_result (map_err (\<lambda>_. InvalidPublicKey) (decode_fixed X PUBLIC_KEY_LENGTH (esr_public_key d))) (\<lambda>key_bytes.
        bind_result (map_err (\<lambda>_. InvalidPublicKey) (InstancePublicKey_restore X service_id instance_id key_id key_bytes)) (\<lambda>public_key.
        bind_result (map_err (\<lambda>_. InvalidChallenge) (decode_fixed X 32 (esr_challenge d))) (\<lambda>challenge.
        bind_result (map_err (\<lambda>_. InvalidSignature) (decode_fixed X SIGNATURE_LENGTH (esr_signature d))) (\<lambda>signature.
          map_err (\<lambda>_. InvalidEnrollment) (EnrollmentRequest_restore (EnrollmentChallenge challenge) public_key
            (esr_endpoint d) (esr_pod_uid d) (esr_workload_token d) (InstanceSignature signature))))))))))"

definition EnrollmentSubmissionRequest_from_domain :: "Crates \<Rightarrow> EnrollmentRequest \<Rightarrow> EnrollmentSubmissionRequest" where
  "EnrollmentSubmissionRequest_from_domain X r =
     \<lparr>esr_service_id = ActorId_show X (ipk_service_id (er_public_key r)),
      esr_instance_id = InstanceId_show X (ipk_instance_id (er_public_key r)),
      esr_key_id = KeyId_show X (ipk_key_id (er_public_key r)), esr_algorithm = ALGORITHM,
      esr_public_key = b64url_encode X (ipk_public_key (er_public_key r)),
      esr_challenge = b64url_encode X (EnrollmentChallenge_as_bytes (er_challenge r)),
      esr_endpoint = er_endpoint r, esr_pod_uid = er_claimed_pod_uid r, esr_workload_token = er_workload_token r,
      esr_signature = b64url_encode X (InstanceSignature_as_bytes (er_signature r))\<rparr>"

definition EnrollmentSubmissionRequest_sign ::
  "Crates \<Rightarrow> InstanceCredential \<Rightarrow> EnrollmentChallenge \<Rightarrow> string \<Rightarrow> string \<Rightarrow> string \<Rightarrow>
   EnrollmentDtoError + EnrollmentSubmissionRequest" where
  "EnrollmentSubmissionRequest_sign X credential challenge endpoint pod_uid workload_token =
     bind_result (map_err (\<lambda>_. InvalidEnrollment)
       (EnrollmentRequest_sign X credential challenge endpoint pod_uid workload_token))
       (\<lambda>request. Inr (EnrollmentSubmissionRequest_from_domain X request))"

record EnrollmentSuccessResponse =
  esp_service_id :: string
  esp_instance_id :: string
  esp_key_id :: string
  esp_algorithm :: string
  esp_endpoint :: string
  esp_registered_at :: i64
  esp_lease_expires_at :: i64
  esp_lease_revision :: i64

definition EnrollmentSuccessResponse_from :: "Crates \<Rightarrow> RegisteredInstance \<Rightarrow> EnrollmentSuccessResponse" where
  "EnrollmentSuccessResponse_from X instance =
     (let key = ri_public_key instance in
      \<lparr>esp_service_id = ActorId_show X (ipk_service_id key), esp_instance_id = InstanceId_show X (ipk_instance_id key),
       esp_key_id = KeyId_show X (ipk_key_id key), esp_algorithm = ALGORITHM, esp_endpoint = ri_endpoint instance,
       esp_registered_at = ri_registered_at instance, esp_lease_expires_at = ri_lease_expires_at instance,
       esp_lease_revision = ri_lease_revision instance\<rparr>)"

record EnrollmentErrorResponse =
  eer_code :: string
  eer_message :: string

definition EnrollmentErrorResponse_malformed_request :: EnrollmentErrorResponse where
  "EnrollmentErrorResponse_malformed_request =
     \<lparr>eer_code = ''invalid_enrollment_request'', eer_message = ''enrollment request is invalid''\<rparr>"

definition from_enrollment_error :: "EnrollmentError \<Rightarrow> EnrollmentErrorResponse" where
  "from_enrollment_error e =
     (case e of
        EE_InvalidField \<Rightarrow> EnrollmentErrorResponse_malformed_request
      | EE_Registry _ \<Rightarrow> \<lparr>eer_code = ''internal_error'', eer_message = ''enrollment could not be completed''\<rparr>
      | EE_Repository _ \<Rightarrow> \<lparr>eer_code = ''internal_error'', eer_message = ''enrollment could not be completed''\<rparr>
      | _ \<Rightarrow> \<lparr>eer_code = ''enrollment_rejected'', eer_message = ''enrollment authentication was rejected''\<rparr>)"

record InstanceRenewalRequest =
  irq_expected_revision :: i64


section \<open>Requests and routes\<close>

record SubmitRequestRequest =
  srq_action :: string
  srq_scope :: string
  srq_artifact_schema_version_id :: string
  srq_permission_policy_schema_version_id :: string

datatype SubmitRequestRequestError = InvalidScope | InvalidSchemaVersionId | InvalidAction

definition SchemaVersionId_from_str :: "Crates \<Rightarrow> string \<Rightarrow> AuthorityError + SchemaVersionId" where
  "SchemaVersionId_from_str X value =
     (case uuid_parse X value of None \<Rightarrow> Inl AE_InvalidSchemaVersionId | Some u \<Rightarrow> Inr (SchemaVersionId u))"

definition SubmitRequestRequest_into_request ::
  "Crates \<Rightarrow> SubmitRequestRequest \<Rightarrow> ActorId \<Rightarrow> RequestId \<Rightarrow> SubmitRequestRequestError + Request" where
  "SubmitRequestRequest_into_request X d source_service request_id =
     bind_result (map_err (\<lambda>_. InvalidScope) (Scope_new (srq_scope d))) (\<lambda>scope.
     bind_result (map_err (\<lambda>_. InvalidSchemaVersionId) (SchemaVersionId_from_str X (srq_artifact_schema_version_id d))) (\<lambda>artifact.
     bind_result (map_err (\<lambda>_. InvalidSchemaVersionId)
       (SchemaVersionId_from_str X (srq_permission_policy_schema_version_id d))) (\<lambda>permission_policy.
       map_err (\<lambda>_. InvalidAction) (Request_restore request_id source_service (srq_action d) scope
         \<lparr>svr_artifact = artifact, svr_permission_policy = permission_policy\<rparr>))))"


definition SchemaVersionId_show :: "Crates \<Rightarrow> SchemaVersionId \<Rightarrow> string" where
  "SchemaVersionId_show X i = uuid_show X (SchemaVersionId_as_uuid i)"

record AcceptedRequestResponse =
  arp_request_id :: string
  arp_source_service_id :: string
  arp_action :: string
  arp_scope :: string
  arp_artifact_schema_version_id :: string
  arp_permission_policy_schema_version_id :: string
  arp_accepted_at :: i64

definition AcceptedRequestResponse_from :: "Crates \<Rightarrow> AcceptedRequest \<Rightarrow> AcceptedRequestResponse" where
  "AcceptedRequestResponse_from X record =
     (let request = ar_request record in
      \<lparr>arp_request_id = RequestId_show X (rq_id request),
       arp_source_service_id = ActorId_show X (rq_source_service request),
       arp_action = ActionName_as_str (rq_action request), arp_scope = Scope_as_str (rq_scope request),
       arp_artifact_schema_version_id = SchemaVersionId_show X (svr_artifact (rq_schema_versions request)),
       arp_permission_policy_schema_version_id =
         SchemaVersionId_show X (svr_permission_policy (rq_schema_versions request)),
       arp_accepted_at = ar_accepted_at record\<rparr>)"

record RouteResponse =
  rtp_route_id :: string
  rtp_request_id :: string
  rtp_subscription_id :: string
  rtp_destination_service_id :: string
  rtp_created_at :: i64

definition RouteResponse_from :: "Crates \<Rightarrow> Route \<Rightarrow> RouteResponse" where
  "RouteResponse_from X route =
     \<lparr>rtp_route_id = RouteId_show X (rt_id route), rtp_request_id = RequestId_show X (rt_request_id route),
      rtp_subscription_id = SubscriptionId_show X (rt_subscription_id route),
      rtp_destination_service_id = ActorId_show X (rt_destination_service route), rtp_created_at = rt_created_at route\<rparr>"

record EligibleRouteListResponse =
  erl_routes :: "RouteResponse list"


section \<open>Schema publication\<close>

record PublishSchemaRequest =
  psq_kind :: string
  psq_name :: string
  psq_content_digest :: string

datatype PublishSchemaRequestError = InvalidKind | InvalidName | InvalidContentDigest

definition PublishSchemaRequest_kind :: "PublishSchemaRequest \<Rightarrow> PublishSchemaRequestError + SchemaKind" where
  "PublishSchemaRequest_kind d =
     (if psq_kind d = ''artifact'' then Inr Artifact
      else if psq_kind d = ''permission_policy'' then Inr PermissionPolicy
      else Inl InvalidKind)"

definition PublishSchemaRequest_name :: "PublishSchemaRequest \<Rightarrow> PublishSchemaRequestError + SchemaName" where
  "PublishSchemaRequest_name d = map_err (\<lambda>_. InvalidName) (SchemaName_new (psq_name d))"

definition PublishSchemaRequest_content_digest ::
  "Crates \<Rightarrow> PublishSchemaRequest \<Rightarrow> PublishSchemaRequestError + ContentDigest" where
  "PublishSchemaRequest_content_digest X d =
     bind_result (ok_or InvalidContentDigest (b64url_decode X (psq_content_digest d))) (\<lambda>decoded.
       if length decoded = 32 then Inr (ContentDigest decoded) else Inl InvalidContentDigest)"

primrec schema_kind_str :: "SchemaKind \<Rightarrow> string" where
  "schema_kind_str Artifact = ''artifact''"
| "schema_kind_str PermissionPolicy = ''permission_policy''"

primrec schema_status_str :: "SchemaStatus \<Rightarrow> string" where
  "schema_status_str Published = ''published''"
| "schema_status_str SchemaActive = ''active''"
| "schema_status_str Suspended = ''suspended''"
| "schema_status_str Superseded = ''superseded''"
| "schema_status_str Retired = ''retired''"

record SchemaVersionResponse =
  svp_schema_version_id :: string
  svp_kind :: string
  svp_name :: string
  svp_version :: i64
  svp_owner_service_id :: string
  svp_content_digest :: string
  svp_predecessor_id :: "string option"
  svp_published_at :: i64
  svp_status :: string

definition SchemaVersionResponse_from :: "Crates \<Rightarrow> SchemaRecord \<Rightarrow> SchemaVersionResponse" where
  "SchemaVersionResponse_from X record =
     (let version = sr_version record in
      \<lparr>svp_schema_version_id = SchemaVersionId_show X (sv_id version), svp_kind = schema_kind_str (sv_kind version),
       svp_name = SchemaName_as_str (sv_name version), svp_version = sv_version version,
       svp_owner_service_id = ActorId_show X (sv_owner version),
       svp_content_digest = b64url_encode X (ContentDigest_as_bytes (sv_content_digest version)),
       svp_predecessor_id = map_option (SchemaVersionId_show X) (sv_predecessor version),
       svp_published_at = sv_published_at version, svp_status = schema_status_str (sr_status record)\<rparr>)"


section \<open>Subscriptions\<close>

record CreateSubscriptionRequest =
  csq_event_type :: string

definition CreateSubscriptionRequest_event_type :: "CreateSubscriptionRequest \<Rightarrow> SubscriptionError + EventType" where
  "CreateSubscriptionRequest_event_type d = EventType_new (csq_event_type d)"

record SubscriptionResponse =
  sbp_id :: string
  sbp_service_id :: string
  sbp_event_type :: string
  sbp_created_at :: i64
  sbp_disabled_at :: "i64 option"
  sbp_active :: bool

definition SubscriptionResponse_from :: "Crates \<Rightarrow> Subscription \<Rightarrow> SubscriptionResponse" where
  "SubscriptionResponse_from X subscription =
     \<lparr>sbp_id = SubscriptionId_show X (sub_id subscription), sbp_service_id = ActorId_show X (sub_service_id subscription),
      sbp_event_type = EventType_as_str (sub_event_type subscription), sbp_created_at = sub_created_at subscription,
      sbp_disabled_at = sub_disabled_at subscription, sbp_active = Subscription_is_active subscription\<rparr>"

record SubscriptionListResponse =
  slp_subscriptions :: "SubscriptionResponse list"


section \<open>Work claims\<close>

record ClaimRequest =
  clq_lease_seconds :: i64

definition ClaimRequest_lease_expires_at :: "ClaimRequest \<Rightarrow> i64 \<Rightarrow> i64 option" where
  "ClaimRequest_lease_expires_at d now =
     Option.bind (checked_add now (clq_lease_seconds d)) (\<lambda>value. if value > now then Some value else None)"

record RenewRequest =
  rnq_fencing_token :: i64
  rnq_lease_seconds :: i64

definition RenewRequest_lease_expires_at :: "RenewRequest \<Rightarrow> i64 \<Rightarrow> i64 option" where
  "RenewRequest_lease_expires_at d now =
     Option.bind (checked_add now (rnq_lease_seconds d)) (\<lambda>value. if value > now then Some value else None)"

record FencedActionRequest =
  faq_fencing_token :: i64

primrec claim_status_str :: "WorkClaimStatus \<Rightarrow> string" where
  "claim_status_str WcActive = ''active''"
| "claim_status_str WcCompleted = ''completed''"
| "claim_status_str WcReleased = ''released''"
| "claim_status_str WcExpired = ''expired''"

record WorkClaimResponse =
  wcp_claim_id :: string
  wcp_route_id :: string
  wcp_worker_service_id :: string
  wcp_worker_instance_id :: string
  wcp_fencing_token :: i64
  wcp_status :: string
  wcp_claimed_at :: i64
  wcp_lease_expires_at :: i64

definition WorkClaimResponse_from :: "Crates \<Rightarrow> WorkClaim \<Rightarrow> WorkClaimResponse" where
  "WorkClaimResponse_from X claim =
     \<lparr>wcp_claim_id = ClaimId_show X (wc_id claim), wcp_route_id = RouteId_show X (wc_route_id claim),
      wcp_worker_service_id = ActorId_show X (wc_worker_service claim),
      wcp_worker_instance_id = InstanceId_show X (wc_worker_instance claim),
      wcp_fencing_token = wc_fencing_token claim, wcp_status = claim_status_str (wc_status claim),
      wcp_claimed_at = wc_claimed_at claim, wcp_lease_expires_at = wc_lease_expires_at claim\<rparr>"


section \<open>Enrollment submissions round trip\<close>

text \<open>URL-safe base64 decodes what it encodes.\<close>

definition base64url_ok :: "Crates \<Rightarrow> bool" where
  "base64url_ok X \<longleftrightarrow> (\<forall>b. b64url_decode X (b64url_encode X b) = Some b)"

lemma decode_fixed_encode:
  "base64url_ok X \<Longrightarrow> length b = n \<Longrightarrow> decode_fixed X n (b64url_encode X b) = Inr b"
  by (simp add: decode_fixed_def base64url_ok_def)

end
