(* ===== verification/Http_Responses.thy ===== *)
theory Http_Responses
  imports Http_Dto Request_Gate Http_Reading
begin

text \<open>
  Responses of \<open>src/http.rs\<close>: the bodies, and the mapping of every error to a status and a
  fixed body. The bodies are shapes; \<open>serde_json\<close>, which reads and writes their JSON, is the
  parameter \<open>J\<close>.
\<close>

record Response =
  rs_status :: string
  rs_content_type :: string
  rs_body :: string

section \<open>Bodies\<close>

record MalformedRequestResponse =
  mrp_code :: string
  mrp_message :: string

definition MalformedRequestResponse_malformed :: MalformedRequestResponse where
  "MalformedRequestResponse_malformed =
     \<lparr>mrp_code = ''malformed_request'', mrp_message = ''the HTTP request could not be parsed''\<rparr>"

definition MalformedRequestResponse_payload_too_large :: MalformedRequestResponse where
  "MalformedRequestResponse_payload_too_large =
     \<lparr>mrp_code = ''payload_too_large'', mrp_message = ''the request body exceeds the maximum accepted size''\<rparr>"

record KernelIdentityResponse =
  kip_algorithm :: string
  kip_instance_id :: string
  kip_key_id :: string
  kip_public_key :: string
  kip_fingerprint :: string

definition KernelIdentityResponse_from :: "Crates \<Rightarrow> InstancePublicKey \<Rightarrow> KernelIdentityResponse" where
  "KernelIdentityResponse_from X key =
     \<lparr>kip_algorithm = ALGORITHM, kip_instance_id = InstanceId_show X (ipk_instance_id key),
      kip_key_id = KeyId_show X (ipk_key_id key), kip_public_key = b64url_encode X (ipk_public_key key),
      kip_fingerprint = b64url_encode X (InstancePublicKey_fingerprint X key)\<rparr>"

record GovernedErrorResponse =
  ger_code :: string
  ger_message :: string

definition GE_authentication_rejected :: GovernedErrorResponse where
  "GE_authentication_rejected = \<lparr>ger_code = ''request_rejected'', ger_message = ''request authentication failed''\<rparr>"

definition GE_communication_disabled :: GovernedErrorResponse where
  "GE_communication_disabled = \<lparr>ger_code = ''communication_disabled'', ger_message = ''service communication is disabled''\<rparr>"

definition GE_unavailable :: GovernedErrorResponse where
  "GE_unavailable = \<lparr>ger_code = ''security_boundary_unavailable'', ger_message = ''request security checks are unavailable''\<rparr>"

definition GE_invalid_subscription_request :: GovernedErrorResponse where
  "GE_invalid_subscription_request = \<lparr>ger_code = ''invalid_subscription_request'', ger_message = ''subscription request is invalid''\<rparr>"

definition GE_subscription_not_found :: GovernedErrorResponse where
  "GE_subscription_not_found = \<lparr>ger_code = ''subscription_not_found'', ger_message = ''subscription was not found''\<rparr>"

definition GE_subscription_conflict :: GovernedErrorResponse where
  "GE_subscription_conflict = \<lparr>ger_code = ''subscription_conflict'', ger_message = ''subscription already exists in that state''\<rparr>"

definition GE_internal_error :: GovernedErrorResponse where
  "GE_internal_error = \<lparr>ger_code = ''internal_error'', ger_message = ''request could not be completed''\<rparr>"

definition GE_subscription_not_authorized :: GovernedErrorResponse where
  "GE_subscription_not_authorized = \<lparr>ger_code = ''subscription_not_authorized'', ger_message = ''subscription action is not authorized''\<rparr>"

definition GE_invalid_instance_renewal_request :: GovernedErrorResponse where
  "GE_invalid_instance_renewal_request = \<lparr>ger_code = ''invalid_instance_renewal_request'', ger_message = ''instance renewal request is invalid''\<rparr>"

definition GE_instance_lease_conflict :: GovernedErrorResponse where
  "GE_instance_lease_conflict = \<lparr>ger_code = ''instance_lease_conflict'', ger_message = ''instance lease revision does not match the current lease''\<rparr>"

definition GE_instance_not_found :: GovernedErrorResponse where
  "GE_instance_not_found = \<lparr>ger_code = ''instance_not_found'', ger_message = ''instance was not found''\<rparr>"

definition GE_invalid_schema_request :: GovernedErrorResponse where
  "GE_invalid_schema_request = \<lparr>ger_code = ''invalid_schema_request'', ger_message = ''schema request is invalid''\<rparr>"

definition GE_schema_namespace_conflict :: GovernedErrorResponse where
  "GE_schema_namespace_conflict = \<lparr>ger_code = ''schema_namespace_conflict'', ger_message = ''schema name is owned by a different service''\<rparr>"

definition GE_invalid_request :: GovernedErrorResponse where
  "GE_invalid_request = \<lparr>ger_code = ''invalid_request'', ger_message = ''request submission is invalid''\<rparr>"

definition GE_request_conflict :: GovernedErrorResponse where
  "GE_request_conflict = \<lparr>ger_code = ''request_conflict'', ger_message = ''request ID is bound to different content''\<rparr>"

definition GE_request_not_found :: GovernedErrorResponse where
  "GE_request_not_found = \<lparr>ger_code = ''request_not_found'', ger_message = ''request was not found''\<rparr>"

definition GE_invalid_route_id :: GovernedErrorResponse where
  "GE_invalid_route_id = \<lparr>ger_code = ''invalid_route_id'', ger_message = ''route ID must be a UUID''\<rparr>"

definition GE_request_not_authorized :: GovernedErrorResponse where
  "GE_request_not_authorized = \<lparr>ger_code = ''request_not_authorized'', ger_message = ''request is not authorized''\<rparr>"

definition GE_invalid_work_claim_request :: GovernedErrorResponse where
  "GE_invalid_work_claim_request = \<lparr>ger_code = ''invalid_work_claim_request'', ger_message = ''work claim request is invalid''\<rparr>"

definition GE_claim_not_found :: GovernedErrorResponse where
  "GE_claim_not_found = \<lparr>ger_code = ''claim_not_found'', ger_message = ''claim or route was not found''\<rparr>"

definition GE_route_already_claimed :: GovernedErrorResponse where
  "GE_route_already_claimed = \<lparr>ger_code = ''route_already_claimed'', ger_message = ''route already has an active claim''\<rparr>"

definition GE_route_already_completed :: GovernedErrorResponse where
  "GE_route_already_completed = \<lparr>ger_code = ''route_already_completed'', ger_message = ''route has already been completed''\<rparr>"

definition GE_claim_fenced :: GovernedErrorResponse where
  "GE_claim_fenced = \<lparr>ger_code = ''claim_fenced'', ger_message = ''fencing token does not match the current active claim''\<rparr>"


datatype ResponseBody =
    RB_Malformed MalformedRequestResponse
  | RB_KernelIdentity KernelIdentityResponse
  | RB_Error GovernedErrorResponse
  | RB_EnrollmentError EnrollmentErrorResponse
  | RB_EnrollmentChallenge EnrollmentChallengeResponse
  | RB_Instance EnrollmentSuccessResponse
  | RB_Subscription SubscriptionResponse
  | RB_Subscriptions SubscriptionListResponse
  | RB_Request AcceptedRequestResponse
  | RB_Schema SchemaVersionResponse
  | RB_Routes EligibleRouteListResponse
  | RB_Claim WorkClaimResponse

text \<open>What the source uses of \<open>serde_json\<close>: \<open>from_slice\<close> at each shape of a request
  body (\<open>None\<close> for an error), and \<open>to_string\<close>.\<close>

record Serde =
  from_slice_challenge :: "bytes \<Rightarrow> WorkloadChallengeRequest option"
  from_slice_enrollment :: "bytes \<Rightarrow> EnrollmentSubmissionRequest option"
  from_slice_subscription :: "bytes \<Rightarrow> CreateSubscriptionRequest option"
  from_slice_submission :: "bytes \<Rightarrow> SubmitRequestRequest option"
  from_slice_schema :: "bytes \<Rightarrow> PublishSchemaRequest option"
  from_slice_claim :: "bytes \<Rightarrow> ClaimRequest option"
  from_slice_renew :: "bytes \<Rightarrow> RenewRequest option"
  from_slice_fenced :: "bytes \<Rightarrow> FencedActionRequest option"
  from_slice_renewal :: "bytes \<Rightarrow> InstanceRenewalRequest option"
  to_string :: "ResponseBody \<Rightarrow> string option"


section \<open>Building responses\<close>

definition json_response :: "Serde \<Rightarrow> string \<Rightarrow> ResponseBody \<Rightarrow> Response" where
  "json_response J status value =
     (case to_string J value of
        Some body \<Rightarrow> \<lparr>rs_status = status, rs_content_type = ''application/json'', rs_body = body @ [newline]\<rparr>
      | None \<Rightarrow> \<lparr>rs_status = ''500 Internal Server Error'', rs_content_type = ''application/json'',
                rs_body = ''{\"code\":\"internal_error\",\"message\":\"response serialization failed\"}'' @ [newline]\<rparr>)"

definition text_response :: "string \<Rightarrow> string \<Rightarrow> Response" where
  "text_response status body = \<lparr>rs_status = status, rs_content_type = ''text/plain'', rs_body = body\<rparr>"

definition json_error :: "Serde \<Rightarrow> string \<Rightarrow> EnrollmentErrorResponse \<Rightarrow> Response" where
  "json_error J status e = json_response J status (RB_EnrollmentError e)"

definition error_response :: "Serde \<Rightarrow> string \<Rightarrow> GovernedErrorResponse \<Rightarrow> Response" where
  "error_response J status e = json_response J status (RB_Error e)"

definition method_not_allowed :: Response where
  "method_not_allowed = text_response ''405 Method Not Allowed'' (''method not allowed'' @ [newline])"

definition not_found :: Response where
  "not_found = text_response ''404 Not Found'' (''not found'' @ [newline])"

definition route :: "string \<Rightarrow> Response" where
  "route path =
     (if path = ''/'' then \<lparr>rs_status = ''200 OK'', rs_content_type = ''application/json'',
                             rs_body = ''{\"service\":\"infernal-law\"}'' @ [newline]\<rparr>
      else if path = ''/health/live'' then text_response ''200 OK'' (''ok'' @ [newline])
      else not_found)"

definition readiness_response :: "bool \<Rightarrow> Response" where
  "readiness_response database_ready =
     (if database_ready then text_response ''200 OK'' (''ok'' @ [newline])
      else text_response ''503 Service Unavailable'' (''database unavailable'' @ [newline]))"

definition is_json_content_type :: "string \<Rightarrow> bool" where
  "is_json_content_type value \<longleftrightarrow>
     eq_ignore_ascii_case (str_trim (hd (split_on (CHR '';'') value))) ''application/json''"

text \<open>\<open>write_response\<close>: the bytes of a response.\<close>

definition response_bytes :: "Response \<Rightarrow> bytes" where
  "response_bytes r =
     ''HTTP/1.1 '' @ rs_status r @ CRLF @ ''Content-Type: '' @ rs_content_type r @ CRLF @
     ''Content-Length: '' @ show_nat (length (rs_body r)) @ CRLF @ ''Connection: close'' @ CRLF @ CRLF @ rs_body r"


section \<open>Errors\<close>

definition authentication_rejected :: "Serde \<Rightarrow> Response" where
  "authentication_rejected J = error_response J ''401 Unauthorized'' GE_authentication_rejected"

definition gate_error_response :: "Serde \<Rightarrow> ServiceRequestGateError \<Rightarrow> Response" where
  "gate_error_response J e =
     (case e of
        SGE_Admission (AME_Disabled _) \<Rightarrow> error_response J ''403 Forbidden'' GE_communication_disabled
      | SGE_Signature (SRE_Registry (IRE_Repository _)) \<Rightarrow> error_response J ''503 Service Unavailable'' GE_unavailable
      | SGE_Replay (RPE_Repository _) \<Rightarrow> error_response J ''503 Service Unavailable'' GE_unavailable
      | SGE_Admission (AME_Repository _) \<Rightarrow> error_response J ''503 Service Unavailable'' GE_unavailable
      | SGE_Admission AME_InvalidStoredRecord \<Rightarrow> error_response J ''503 Service Unavailable'' GE_unavailable
      | SGE_Admission (AME_UnknownService _) \<Rightarrow> authentication_rejected J
      | SGE_Replay _ \<Rightarrow> authentication_rejected J
      | SGE_Signature _ \<Rightarrow> authentication_rejected J)"

definition subscription_error_response :: "Serde \<Rightarrow> SubscriptionError \<Rightarrow> Response" where
  "subscription_error_response J e =
     (case e of
        SE_InvalidEventType \<Rightarrow> error_response J ''400 Bad Request'' GE_invalid_subscription_request
      | SE_InvalidSubscriptionId \<Rightarrow> error_response J ''400 Bad Request'' GE_invalid_subscription_request
      | SE_InvalidTimestamp \<Rightarrow> error_response J ''400 Bad Request'' GE_invalid_subscription_request
      | SE_NotFound _ \<Rightarrow> error_response J ''404 Not Found'' GE_subscription_not_found
      | SE_AlreadyDisabled _ \<Rightarrow> error_response J ''409 Conflict'' GE_subscription_conflict
      | SE_DuplicateActive _ _ \<Rightarrow> error_response J ''409 Conflict'' GE_subscription_conflict
      | SE_UnknownService _ \<Rightarrow> authentication_rejected J
      | SE_AlreadyExists _ \<Rightarrow> error_response J ''503 Service Unavailable'' GE_internal_error
      | SE_Repository _ \<Rightarrow> error_response J ''503 Service Unavailable'' GE_internal_error)"

definition request_error_response :: "Serde \<Rightarrow> RequestError \<Rightarrow> Response" where
  "request_error_response J e =
     (case e of
        RE_InvalidRequestId \<Rightarrow> error_response J ''400 Bad Request'' GE_invalid_request
      | RE_InvalidActionName \<Rightarrow> error_response J ''400 Bad Request'' GE_invalid_request
      | RE_InvalidAcceptedAt \<Rightarrow> error_response J ''400 Bad Request'' GE_invalid_request
      | RE_RequestIdConflict _ \<Rightarrow> error_response J ''409 Conflict'' GE_request_conflict
      | RE_UnknownSource _ \<Rightarrow> authentication_rejected J
      | RE_UnknownSchemaVersion \<Rightarrow> error_response J ''503 Service Unavailable'' GE_internal_error
      | RE_UnknownSubscription \<Rightarrow> error_response J ''503 Service Unavailable'' GE_internal_error
      | RE_InvalidRouteId \<Rightarrow> error_response J ''503 Service Unavailable'' GE_internal_error
      | RE_Repository _ \<Rightarrow> error_response J ''503 Service Unavailable'' GE_internal_error)"

definition schema_error_response :: "Serde \<Rightarrow> AuthorityError \<Rightarrow> Response" where
  "schema_error_response J e =
     (case e of
        AE_InvalidSchemaName \<Rightarrow> error_response J ''400 Bad Request'' GE_invalid_schema_request
      | AE_InvalidSchemaVersion \<Rightarrow> error_response J ''400 Bad Request'' GE_invalid_schema_request
      | AE_SchemaNamespaceConflict _ \<Rightarrow> error_response J ''409 Conflict'' GE_schema_namespace_conflict
      | _ \<Rightarrow> error_response J ''503 Service Unavailable'' GE_internal_error)"

definition instance_renewal_error_response :: "Serde \<Rightarrow> InstanceRegistryError \<Rightarrow> Response" where
  "instance_renewal_error_response J e =
     (case e of
        IRE_RevisionConflict _ \<Rightarrow> error_response J ''409 Conflict'' GE_instance_lease_conflict
      | IRE_NotFound _ \<Rightarrow> error_response J ''404 Not Found'' GE_instance_not_found
      | IRE_Revoked _ \<Rightarrow> error_response J ''404 Not Found'' GE_instance_not_found
      | IRE_Expired _ \<Rightarrow> error_response J ''404 Not Found'' GE_instance_not_found
      | _ \<Rightarrow> error_response J ''503 Service Unavailable'' GE_internal_error)"

definition work_claim_error_response :: "Serde \<Rightarrow> WorkClaimError \<Rightarrow> Response" where
  "work_claim_error_response J e =
     (case e of
        WCE_InvalidClaimId \<Rightarrow> error_response J ''400 Bad Request'' GE_invalid_work_claim_request
      | WCE_InvalidFencingToken \<Rightarrow> error_response J ''400 Bad Request'' GE_invalid_work_claim_request
      | WCE_InvalidLease \<Rightarrow> error_response J ''400 Bad Request'' GE_invalid_work_claim_request
      | WCE_InvalidTimestamp \<Rightarrow> error_response J ''400 Bad Request'' GE_invalid_work_claim_request
      | WCE_RouteNotFound _ \<Rightarrow> error_response J ''404 Not Found'' GE_claim_not_found
      | WCE_NotFound _ \<Rightarrow> error_response J ''404 Not Found'' GE_claim_not_found
      | WCE_AlreadyClaimed _ \<Rightarrow> error_response J ''409 Conflict'' GE_route_already_claimed
      | WCE_AlreadyCompleted _ \<Rightarrow> error_response J ''409 Conflict'' GE_route_already_completed
      | WCE_Fenced \<Rightarrow> error_response J ''409 Conflict'' GE_claim_fenced
      | WCE_Repository _ \<Rightarrow> error_response J ''503 Service Unavailable'' GE_internal_error)"

text \<open>The status of an enrollment error goes by the code of its body.\<close>

definition enrollment_error_response :: "Serde \<Rightarrow> EnrollmentError \<Rightarrow> Response" where
  "enrollment_error_response J e =
     (let response = from_enrollment_error e;
          status = (if eer_code response = ''enrollment_rejected'' then ''401 Unauthorized''
                    else if eer_code response = ''invalid_enrollment_request'' then ''400 Bad Request''
                    else ''503 Service Unavailable'')
      in json_error J status response)"

end
