(* ===== verification/Http_Handlers.thy ===== *)
theory Http_Handlers
  imports Http_Responses Http_Governed Routing
begin

text \<open>
  The endpoint handlers of \<open>src/http.rs\<close>. Each is a function of the operations of the services
  it is given, the state, the parsed request and the caller's verified identity; the readings of the
  clock (\<open>unix_time\<close>) are arguments, one per call.
\<close>

section \<open>Shared parts\<close>

text \<open>\<open>request.path.split('?').next()\<close>\<close>

definition path_of :: "string \<Rightarrow> string" where
  "path_of path = hd (split_on (CHR ''?'') path)"

definition has_json_content :: "ParsedRequest \<Rightarrow> bool" where
  "has_json_content r \<longleftrightarrow> (case pr_content_type r of None \<Rightarrow> False | Some t \<Rightarrow> is_json_content_type t)"

text \<open>The two checks most handlers begin with: the content type, and the body's shape.\<close>

definition json_body ::
  "Serde \<Rightarrow> (bytes \<Rightarrow> 'd option) \<Rightarrow> GovernedErrorResponse \<Rightarrow> ParsedRequest \<Rightarrow> Response + 'd" where
  "json_body J from_slice invalid r =
     (if \<not> has_json_content r then Inl (error_response J ''415 Unsupported Media Type'' invalid)
      else ok_or (error_response J ''400 Bad Request'' invalid) (from_slice (pr_body r)))"

text \<open>Answering with the first failure, else going on.\<close>

definition respond :: "'s \<Rightarrow> Response + 'a \<Rightarrow> ('a \<Rightarrow> 's \<times> Response) \<Rightarrow> 's \<times> Response" where
  "respond s r k = (case r of Inl response \<Rightarrow> (s, response) | Inr x \<Rightarrow> k x)"

lemma respond_simps [simp]: "respond s (Inl e) k = (s, e)" "respond s (Inr x) k = k x"
  by (simp_all add: respond_def)


section \<open>Subscriptions\<close>

text \<open>\<open>SubscriptionAuthorizer\<close>, on \<open>AuthorityService::authorize\<close>; the action names are
  literals of the source.\<close>

definition authorize_subscription_action ::
  "('s \<Rightarrow> PolicyFacts \<Rightarrow> i64 \<Rightarrow> 's \<times> (AuthorityError + AuthorityDecision)) \<Rightarrow>
   's \<Rightarrow> ActorId \<Rightarrow> string \<Rightarrow> i64 \<Rightarrow> 's \<times> (AuthorityError + AuthorityDecision)" where
  "authorize_subscription_action authority s service_id action now =
     authority s (for_request_acceptance service_id (ActionName action) Scope_wildcard no_artifact_schema_versions) now"

lemma subscription_actions_valid:
  "ActionName_new ''subscription.create'' = Inr (ActionName ''subscription.create'')"
  "ActionName_new ''subscription.disable'' = Inr (ActionName ''subscription.disable'')"
  by code_simp+

definition check_authorized ::
  "Serde \<Rightarrow> ('s \<Rightarrow> PolicyFacts \<Rightarrow> i64 \<Rightarrow> 's \<times> (AuthorityError + AuthorityDecision)) \<Rightarrow>
   's \<Rightarrow> ActorId \<Rightarrow> string \<Rightarrow> i64 \<Rightarrow> 's \<times> Response option" where
  "check_authorized J authority s service_id action now =
     (case authorize_subscription_action authority s service_id action now of
        (s', Inr decision) \<Rightarrow>
          (s', if is_allowed decision then None
               else Some (error_response J ''403 Forbidden'' GE_subscription_not_authorized))
      | (s', Inl _) \<Rightarrow> (s', Some (error_response J ''503 Service Unavailable'' GE_internal_error)))"

definition create_subscription ::
  "Crates \<Rightarrow> Serde \<Rightarrow> ('s \<Rightarrow> PolicyFacts \<Rightarrow> i64 \<Rightarrow> 's \<times> (AuthorityError + AuthorityDecision)) \<Rightarrow>
   ('s \<Rightarrow> ActorId \<Rightarrow> EventType \<Rightarrow> DeliveryMode \<Rightarrow> i64 \<Rightarrow> 's \<times> (SubscriptionError + Subscription)) \<Rightarrow>
   i64 \<Rightarrow> i64 \<Rightarrow> 's \<Rightarrow> ParsedRequest \<Rightarrow> ActorId \<Rightarrow> 's \<times> Response" where
  "create_subscription X J authority create now1 now2 s r service_id =
     respond s (bind_result (json_body J (from_slice_subscription J) GE_invalid_subscription_request r) (\<lambda>dto.
                  map_err (subscription_error_response J) (CreateSubscriptionRequest_event_type dto)))
       (\<lambda>event_type.
         case check_authorized J authority s service_id ''subscription.create'' now1 of
           (s', Some response) \<Rightarrow> (s', response)
         | (s', None) \<Rightarrow>
             (case create s' service_id event_type Inclusive now2 of
                (s'', Inr subscription) \<Rightarrow>
                  (s'', json_response J ''201 Created'' (RB_Subscription (SubscriptionResponse_from X subscription)))
              | (s'', Inl e) \<Rightarrow> (s'', subscription_error_response J e)))"

definition list_subscriptions_route ::
  "Crates \<Rightarrow> Serde \<Rightarrow> ('s \<Rightarrow> ActorId \<Rightarrow> SubscriptionError + Subscription list) \<Rightarrow>
   ('s \<Rightarrow> ActorId \<Rightarrow> SubscriptionError + Subscription list) \<Rightarrow> 's \<Rightarrow> string \<Rightarrow> ActorId \<Rightarrow> Response" where
  "list_subscriptions_route X J list_every list_active s path_and_query service_id =
     (let active_only = (case split_once ''?'' path_and_query of
            None \<Rightarrow> False
          | Some (_, query) \<Rightarrow> ''active=true'' \<in> set (split_on (CHR ''&'') query))
      in case (if active_only then list_active s service_id else list_every s service_id) of
           Inr values \<Rightarrow> json_response J ''200 OK''
             (RB_Subscriptions \<lparr>slp_subscriptions = map (SubscriptionResponse_from X) values\<rparr>)
         | Inl e \<Rightarrow> subscription_error_response J e)"

definition disable_subscription ::
  "Crates \<Rightarrow> Serde \<Rightarrow> ('s \<Rightarrow> PolicyFacts \<Rightarrow> i64 \<Rightarrow> 's \<times> (AuthorityError + AuthorityDecision)) \<Rightarrow>
   ('s \<Rightarrow> ActorId \<Rightarrow> SubscriptionId \<Rightarrow> i64 \<Rightarrow> 's \<times> (SubscriptionError + Subscription)) \<Rightarrow>
   i64 \<Rightarrow> i64 \<Rightarrow> 's \<Rightarrow> string \<Rightarrow> ActorId \<Rightarrow> 's \<times> Response" where
  "disable_subscription X J authority disable now1 now2 s i service_id =
     (case SubscriptionId_from_str X i of
        Inl _ \<Rightarrow> (s, error_response J ''400 Bad Request'' GE_invalid_subscription_request)
      | Inr subscription_id \<Rightarrow>
          (case check_authorized J authority s service_id ''subscription.disable'' now1 of
             (s', Some response) \<Rightarrow> (s', response)
           | (s', None) \<Rightarrow>
               (case disable s' service_id subscription_id now2 of
                  (s'', Inr subscription) \<Rightarrow>
                    (s'', json_response J ''200 OK'' (RB_Subscription (SubscriptionResponse_from X subscription)))
                | (s'', Inl e) \<Rightarrow> (s'', subscription_error_response J e))))"


section \<open>Requests\<close>

definition submit_request ::
  "Crates \<Rightarrow> Serde \<Rightarrow> ('s \<Rightarrow> PolicyFacts \<Rightarrow> i64 \<Rightarrow> 's \<times> (AuthorityError + AuthorityDecision)) \<Rightarrow>
   ('s \<Rightarrow> Request \<Rightarrow> RequestFingerprint \<Rightarrow> 's \<times> (RequestError + RequestAcceptance)) \<Rightarrow>
   ('s \<Rightarrow> ActorId \<Rightarrow> RequestId \<Rightarrow> ActionName \<Rightarrow> i64 \<Rightarrow> 's \<times> (RequestError + Route list)) \<Rightarrow>
   i64 \<Rightarrow> 's \<Rightarrow> ParsedRequest \<Rightarrow> ActorId \<Rightarrow> RequestId \<Rightarrow> 's \<times> Response" where
  "submit_request X J authority accept materialize now s r service_id envelope_request_id =
     respond s (bind_result (json_body J (from_slice_submission J) GE_invalid_request r) (\<lambda>dto.
                  map_err (\<lambda>_. error_response J ''400 Bad Request'' GE_invalid_request)
                    (SubmitRequestRequest_into_request X dto service_id envelope_request_id)))
       (\<lambda>submitted.
         case authority s (for_request_acceptance service_id (rq_action submitted) (rq_scope submitted)
                             (rq_schema_versions submitted)) now of
           (s', Inl _) \<Rightarrow> (s', error_response J ''503 Service Unavailable'' GE_internal_error)
         | (s', Inr decision) \<Rightarrow>
             if \<not> is_allowed decision then (s', error_response J ''403 Forbidden'' GE_request_not_authorized)
             else (case accept s' submitted (Request_fingerprint X submitted) of
                     (s'', Inl e) \<Rightarrow> (s'', request_error_response J e)
                   | (s'', Inr acceptance) \<Rightarrow>
                       (let (status, record) = (case acceptance of
                              RA_Accepted record \<Rightarrow> (''201 Created'', record)
                            | RA_SafeRetry record \<Rightarrow> (''200 OK'', record));
                            (s''', _) = materialize s'' (rq_source_service (ar_request record))
                              (rq_id (ar_request record)) (rq_action (ar_request record)) now
                        in (s''', json_response J status (RB_Request (AcceptedRequestResponse_from X record))))))"

definition find_request ::
  "Crates \<Rightarrow> Serde \<Rightarrow> ('s \<Rightarrow> ActorId \<Rightarrow> RequestId \<Rightarrow> RequestError + AcceptedRequest option) \<Rightarrow>
   's \<Rightarrow> string \<Rightarrow> ActorId \<Rightarrow> Response" where
  "find_request X J lookup s i service_id =
     (case RequestId_from_str X i of
        Inl _ \<Rightarrow> error_response J ''400 Bad Request'' GE_invalid_request
      | Inr request_id \<Rightarrow>
          (case lookup s service_id request_id of
             Inr (Some record) \<Rightarrow> json_response J ''200 OK'' (RB_Request (AcceptedRequestResponse_from X record))
           | Inr None \<Rightarrow> error_response J ''404 Not Found'' GE_request_not_found
           | Inl e \<Rightarrow> request_error_response J e))"

definition publish_schema ::
  "Crates \<Rightarrow> Serde \<Rightarrow> ('s \<Rightarrow> SchemaKind \<Rightarrow> SchemaName \<Rightarrow> ActorId \<Rightarrow> ContentDigest \<Rightarrow> i64 \<Rightarrow> 's \<times> (AuthorityError + SchemaRecord)) \<Rightarrow>
   i64 \<Rightarrow> 's \<Rightarrow> ParsedRequest \<Rightarrow> ActorId \<Rightarrow> 's \<times> Response" where
  "publish_schema X J publish now s r service_id =
     respond s (bind_result (json_body J (from_slice_schema J) GE_invalid_schema_request r) (\<lambda>dto.
         map_err (\<lambda>_. error_response J ''400 Bad Request'' GE_invalid_schema_request)
           (bind_result (PublishSchemaRequest_kind dto) (\<lambda>kind.
            bind_result (PublishSchemaRequest_name dto) (\<lambda>name.
            bind_result (PublishSchemaRequest_content_digest X dto) (\<lambda>digest. Inr (kind, name, digest)))))))
       (\<lambda>(kind, name, digest).
         case publish s kind name service_id digest now of
           (s', Inr record) \<Rightarrow> (s', json_response J ''201 Created'' (RB_Schema (SchemaVersionResponse_from X record)))
         | (s', Inl e) \<Rightarrow> (s', schema_error_response J e))"

definition list_eligible_routes ::
  "Crates \<Rightarrow> Serde \<Rightarrow> ('s \<Rightarrow> ActorId \<Rightarrow> i64 \<Rightarrow> RequestError + Route list) \<Rightarrow> i64 \<Rightarrow> 's \<Rightarrow> ActorId \<Rightarrow> Response" where
  "list_eligible_routes X J eligible now s service_id =
     (case eligible s service_id now of
        Inr values \<Rightarrow> json_response J ''200 OK'' (RB_Routes \<lparr>erl_routes = map (RouteResponse_from X) values\<rparr>)
      | Inl e \<Rightarrow> request_error_response J e)"

definition find_routed_request ::
  "Crates \<Rightarrow> Serde \<Rightarrow> ('s \<Rightarrow> ActorId \<Rightarrow> RouteId \<Rightarrow> RequestError + AcceptedRequest option) \<Rightarrow>
   's \<Rightarrow> string \<Rightarrow> ActorId \<Rightarrow> Response" where
  "find_routed_request X J find_for s i service_id =
     (case RouteId_from_str X i of
        Inl _ \<Rightarrow> error_response J ''400 Bad Request'' GE_invalid_route_id
      | Inr route_id \<Rightarrow>
          (case find_for s service_id route_id of
             Inr (Some record) \<Rightarrow> json_response J ''200 OK'' (RB_Request (AcceptedRequestResponse_from X record))
           | Inr None \<Rightarrow> error_response J ''404 Not Found'' GE_claim_not_found
           | Inl e \<Rightarrow> request_error_response J e))"


section \<open>Work claims\<close>

definition claim_response :: "Crates \<Rightarrow> Serde \<Rightarrow> string \<Rightarrow> 's \<times> (WorkClaimError + WorkClaim) \<Rightarrow> 's \<times> Response" where
  "claim_response X J status r =
     (case r of
        (s, Inr claim) \<Rightarrow> (s, json_response J status (RB_Claim (WorkClaimResponse_from X claim)))
      | (s, Inl e) \<Rightarrow> (s, work_claim_error_response J e))"

definition claim_route ::
  "Crates \<Rightarrow> Serde \<Rightarrow> ('s \<Rightarrow> RouteId \<Rightarrow> ActorId \<Rightarrow> InstanceId \<Rightarrow> i64 \<Rightarrow> i64 \<Rightarrow> 's \<times> (WorkClaimError + WorkClaim)) \<Rightarrow>
   i64 \<Rightarrow> 's \<Rightarrow> ParsedRequest \<Rightarrow> ActorId \<Rightarrow> InstanceId \<Rightarrow> string \<Rightarrow> 's \<times> Response" where
  "claim_route X J claim now s r worker_service worker_instance i =
     (let invalid = error_response J ''400 Bad Request'' GE_invalid_work_claim_request in
      respond s (bind_result (map_err (\<lambda>_. invalid) (RouteId_from_str X i)) (\<lambda>route_id.
                 bind_result (json_body J (from_slice_claim J) GE_invalid_work_claim_request r) (\<lambda>dto.
                 bind_result (ok_or invalid (ClaimRequest_lease_expires_at dto now)) (\<lambda>lease_expires_at.
                   Inr (route_id, lease_expires_at)))))
        (\<lambda>(route_id, lease_expires_at).
          claim_response X J ''201 Created'' (claim s route_id worker_service worker_instance lease_expires_at now)))"

definition renew_claim_route ::
  "Crates \<Rightarrow> Serde \<Rightarrow> ('s \<Rightarrow> ClaimId \<Rightarrow> i64 \<Rightarrow> i64 \<Rightarrow> i64 \<Rightarrow> 's \<times> (WorkClaimError + WorkClaim)) \<Rightarrow>
   i64 \<Rightarrow> 's \<Rightarrow> ParsedRequest \<Rightarrow> string \<Rightarrow> 's \<times> Response" where
  "renew_claim_route X J renew now s r i =
     (let invalid = error_response J ''400 Bad Request'' GE_invalid_work_claim_request in
      respond s (bind_result (map_err (\<lambda>_. invalid) (ClaimId_from_str X i)) (\<lambda>claim_id.
                 bind_result (json_body J (from_slice_renew J) GE_invalid_work_claim_request r) (\<lambda>dto.
                 bind_result (ok_or invalid (RenewRequest_lease_expires_at dto now)) (\<lambda>lease_expires_at.
                   Inr (claim_id, rnq_fencing_token dto, lease_expires_at)))))
        (\<lambda>(claim_id, fencing_token, lease_expires_at).
          claim_response X J ''200 OK'' (renew s claim_id fencing_token lease_expires_at now)))"

definition parse_fenced_action ::
  "Crates \<Rightarrow> Serde \<Rightarrow> string \<Rightarrow> ParsedRequest \<Rightarrow> Response + ClaimId \<times> FencedActionRequest" where
  "parse_fenced_action X J i r =
     bind_result (map_err (\<lambda>_. error_response J ''400 Bad Request'' GE_invalid_work_claim_request) (ClaimId_from_str X i)) (\<lambda>claim_id.
     bind_result (json_body J (from_slice_fenced J) GE_invalid_work_claim_request r) (\<lambda>dto. Inr (claim_id, dto)))"

definition release_claim_route ::
  "Crates \<Rightarrow> Serde \<Rightarrow> ('s \<Rightarrow> ClaimId \<Rightarrow> i64 \<Rightarrow> i64 \<Rightarrow> 's \<times> (WorkClaimError + WorkClaim)) \<Rightarrow>
   i64 \<Rightarrow> 's \<Rightarrow> ParsedRequest \<Rightarrow> string \<Rightarrow> 's \<times> Response" where
  "release_claim_route X J release now s r i =
     respond s (parse_fenced_action X J i r) (\<lambda>(claim_id, dto).
       claim_response X J ''200 OK'' (release s claim_id (faq_fencing_token dto) now))"

definition complete_claim_route ::
  "Crates \<Rightarrow> Serde \<Rightarrow> ('s \<Rightarrow> ClaimId \<Rightarrow> i64 \<Rightarrow> i64 \<Rightarrow> 's \<times> (WorkClaimError + WorkClaim)) \<Rightarrow>
   i64 \<Rightarrow> 's \<Rightarrow> ParsedRequest \<Rightarrow> string \<Rightarrow> 's \<times> Response" where
  "complete_claim_route X J complete now s r i =
     respond s (parse_fenced_action X J i r) (\<lambda>(claim_id, dto).
       claim_response X J ''200 OK'' (complete s claim_id (faq_fencing_token dto) now))"


section \<open>Instances and enrollment\<close>

definition renew_instance_route ::
  "Crates \<Rightarrow> Serde \<Rightarrow> ('s \<Rightarrow> InstanceId \<Rightarrow> i64 \<Rightarrow> i64 \<Rightarrow> 's \<times> (InstanceRegistryError + RegisteredInstance)) \<Rightarrow>
   i64 \<Rightarrow> 's \<Rightarrow> ParsedRequest \<Rightarrow> InstanceId \<Rightarrow> 's \<times> Response" where
  "renew_instance_route X J renew now s r instance_id =
     respond s (json_body J (from_slice_renewal J) GE_invalid_instance_renewal_request r) (\<lambda>dto.
       case renew s instance_id (irq_expected_revision dto) now of
         (s', Inr instance) \<Rightarrow> (s', json_response J ''200 OK'' (RB_Instance (EnrollmentSuccessResponse_from X instance)))
       | (s', Inl e) \<Rightarrow> (s', instance_renewal_error_response J e))"

text \<open>The size and type checks of both enrollment bodies.\<close>

definition enrollment_body :: "Serde \<Rightarrow> (bytes \<Rightarrow> 'd option) \<Rightarrow> string option \<Rightarrow> bytes \<Rightarrow> Response + 'd" where
  "enrollment_body J from_slice content_type body =
     (if length body > MAX_ENROLLMENT_BODY_BYTES
      then Inl (json_error J ''413 Payload Too Large'' EnrollmentErrorResponse_malformed_request)
      else if \<not> (case content_type of None \<Rightarrow> False | Some t \<Rightarrow> is_json_content_type t)
      then Inl (json_error J ''415 Unsupported Media Type'' EnrollmentErrorResponse_malformed_request)
      else ok_or (json_error J ''400 Bad Request'' EnrollmentErrorResponse_malformed_request) (from_slice body))"

definition parse_enrollment_request ::
  "Crates \<Rightarrow> Serde \<Rightarrow> string option \<Rightarrow> bytes \<Rightarrow> Response + EnrollmentRequest" where
  "parse_enrollment_request X J content_type body =
     bind_result (enrollment_body J (from_slice_enrollment J) content_type body) (\<lambda>dto.
       map_err (\<lambda>_. json_error J ''400 Bad Request'' EnrollmentErrorResponse_malformed_request)
         (EnrollmentSubmissionRequest_into_domain X dto))"

definition parse_workload_challenge_request ::
  "Serde \<Rightarrow> string option \<Rightarrow> bytes \<Rightarrow> Response + WorkloadChallengeRequest" where
  "parse_workload_challenge_request J = enrollment_body J (from_slice_challenge J)"

definition issue_workload_challenge ::
  "Crates \<Rightarrow> Serde \<Rightarrow> ('s \<Rightarrow> string \<Rightarrow> string \<Rightarrow> i64 \<Rightarrow> 's \<times> (EnrollmentError + ActorId \<times> EnrollmentChallenge)) \<Rightarrow>
   i64 \<Rightarrow> 's \<Rightarrow> WorkloadChallengeRequest \<Rightarrow> 's \<times> Response" where
  "issue_workload_challenge X J issue now s request =
     (case issue s (wcq_workload_token request) (wcq_pod_uid request) now of
        (s', Inr (service_id, challenge)) \<Rightarrow>
          (s', case EnrollmentChallengeResponse_new X service_id challenge now of
                 Inr body \<Rightarrow> json_response J ''201 Created'' (RB_EnrollmentChallenge body)
               | Inl _ \<Rightarrow> json_error J ''503 Service Unavailable'' (from_enrollment_error EE_InvalidField))
      | (s', Inl e) \<Rightarrow> (s', enrollment_error_response J e))"

definition authenticate_enrollment ::
  "Crates \<Rightarrow> Serde \<Rightarrow> ('s \<Rightarrow> EnrollmentRequest \<Rightarrow> i64 \<Rightarrow> 's \<times> (EnrollmentError + RegisteredInstance)) \<Rightarrow>
   i64 \<Rightarrow> 's \<Rightarrow> EnrollmentRequest \<Rightarrow> 's \<times> Response" where
  "authenticate_enrollment X J authenticate now s request =
     (case authenticate s request now of
        (s', Inr registered) \<Rightarrow>
          (s', json_response J ''201 Created'' (RB_Instance (EnrollmentSuccessResponse_from X registered)))
      | (s', Inl e) \<Rightarrow> (s', enrollment_error_response J e))"

text \<open>The same endpoint as one function of the header's content type and the body.\<close>

definition enrollment_response ::
  "Crates \<Rightarrow> Serde \<Rightarrow> ('s \<Rightarrow> EnrollmentRequest \<Rightarrow> i64 \<Rightarrow> 's \<times> (EnrollmentError + RegisteredInstance)) \<Rightarrow>
   string option \<Rightarrow> bytes \<Rightarrow> i64 \<Rightarrow> 's \<Rightarrow> 's \<times> Response" where
  "enrollment_response X J authenticate content_type body now s =
     respond s (parse_enrollment_request X J content_type body) (authenticate_enrollment X J authenticate now s)"

end
