(* ===== verification/Http_Dispatch.thy ===== *)
theory Http_Dispatch
  imports Http_Handlers
begin

text \<open>
  \<open>dispatch\<close> and \<open>handle_connection\<close> of \<open>src/http.rs\<close>, over the operations of an
  application: the record \<open>Application\<close> has what \<open>wiring.rs\<close> offers the HTTP layer. The
  clock gives its \<open>k\<close>-th reading within one request.
\<close>

record 's Application =
  app_gate :: "'s \<Rightarrow> SignedServiceRequest \<Rightarrow> i64 \<Rightarrow> 's \<times> (ServiceRequestGateError + AdmittedServiceRequest)"
  app_reviewer_error :: "EnrollmentError option"
  app_issue_challenge :: "'s \<Rightarrow> string \<Rightarrow> string \<Rightarrow> i64 \<Rightarrow> 's \<times> (EnrollmentError + ActorId \<times> EnrollmentChallenge)"
  app_enroll :: "'s \<Rightarrow> EnrollmentRequest \<Rightarrow> i64 \<Rightarrow> 's \<times> (EnrollmentError + RegisteredInstance)"
  app_authority :: "('s \<Rightarrow> PolicyFacts \<Rightarrow> i64 \<Rightarrow> 's \<times> (AuthorityError + AuthorityDecision)) option"
  app_publish :: "'s \<Rightarrow> SchemaKind \<Rightarrow> SchemaName \<Rightarrow> ActorId \<Rightarrow> ContentDigest \<Rightarrow> i64 \<Rightarrow> 's \<times> (AuthorityError + SchemaRecord)"
  app_eligible :: "'s \<Rightarrow> ActorId \<Rightarrow> i64 \<Rightarrow> RequestError + Route list"
  app_find_routed :: "'s \<Rightarrow> ActorId \<Rightarrow> RouteId \<Rightarrow> RequestError + AcceptedRequest option"
  app_claim :: "'s \<Rightarrow> RouteId \<Rightarrow> ActorId \<Rightarrow> InstanceId \<Rightarrow> i64 \<Rightarrow> i64 \<Rightarrow> 's \<times> (WorkClaimError + WorkClaim)"
  app_renew_claim :: "'s \<Rightarrow> ClaimId \<Rightarrow> i64 \<Rightarrow> i64 \<Rightarrow> i64 \<Rightarrow> 's \<times> (WorkClaimError + WorkClaim)"
  app_release :: "'s \<Rightarrow> ClaimId \<Rightarrow> i64 \<Rightarrow> i64 \<Rightarrow> 's \<times> (WorkClaimError + WorkClaim)"
  app_complete :: "'s \<Rightarrow> ClaimId \<Rightarrow> i64 \<Rightarrow> i64 \<Rightarrow> 's \<times> (WorkClaimError + WorkClaim)"
  app_renew_instance :: "'s \<Rightarrow> InstanceId \<Rightarrow> i64 \<Rightarrow> i64 \<Rightarrow> 's \<times> (InstanceRegistryError + RegisteredInstance)"
  app_accept :: "'s \<Rightarrow> Request \<Rightarrow> RequestFingerprint \<Rightarrow> 's \<times> (RequestError + RequestAcceptance)"
  app_materialize :: "'s \<Rightarrow> ActorId \<Rightarrow> RequestId \<Rightarrow> ActionName \<Rightarrow> i64 \<Rightarrow> 's \<times> (RequestError + Route list)"
  app_find_request :: "'s \<Rightarrow> ActorId \<Rightarrow> RequestId \<Rightarrow> RequestError + AcceptedRequest option"
  app_create_subscription :: "'s \<Rightarrow> ActorId \<Rightarrow> EventType \<Rightarrow> DeliveryMode \<Rightarrow> i64 \<Rightarrow> 's \<times> (SubscriptionError + Subscription)"
  app_list_subscriptions :: "'s \<Rightarrow> ActorId \<Rightarrow> SubscriptionError + Subscription list"
  app_list_active_subscriptions :: "'s \<Rightarrow> ActorId \<Rightarrow> SubscriptionError + Subscription list"
  app_disable_subscription :: "'s \<Rightarrow> ActorId \<Rightarrow> SubscriptionId \<Rightarrow> i64 \<Rightarrow> 's \<times> (SubscriptionError + Subscription)"
  app_database_ready :: "'s \<Rightarrow> bool"
  app_instance_public_key :: InstancePublicKey


section \<open>Routing by path\<close>

definition is_claim_action_path :: "string \<Rightarrow> bool" where
  "is_claim_action_path path \<longleftrightarrow>
     starts_with ''/v1/claims/'' path \<and>
     (ends_with ''/renew'' path \<or> ends_with ''/release'' path \<or> ends_with ''/complete'' path)"

definition is_governed_route :: "string \<Rightarrow> bool" where
  "is_governed_route path_and_query \<longleftrightarrow>
     (let path = path_of path_and_query in
      path = ''/v1/subscriptions''
      \<or> starts_with ''/v1/subscriptions/'' path
      \<or> path = ''/v1/authority/schemas''
      \<or> path = ''/v1/requests''
      \<or> starts_with ''/v1/requests/'' path
      \<or> path = ''/v1/routes/eligible''
      \<or> (starts_with ''/v1/routes/'' path \<and> ends_with ''/claims'' path)
      \<or> (starts_with ''/v1/routes/'' path \<and> ends_with ''/request'' path)
      \<or> is_claim_action_path path
      \<or> path = ''/v1/instances/renew'')"

definition is_supported_governed_method :: "string \<Rightarrow> string \<Rightarrow> bool" where
  "is_supported_governed_method verb path_and_query \<longleftrightarrow>
     (let path = path_of path_and_query in
      (path = ''/v1/subscriptions'' \<and> (verb = ''GET'' \<or> verb = ''POST''))
      \<or> (starts_with ''/v1/subscriptions/'' path \<and> verb = ''DELETE'')
      \<or> (path = ''/v1/authority/schemas'' \<and> verb = ''POST'')
      \<or> (path = ''/v1/requests'' \<and> verb = ''POST'')
      \<or> (starts_with ''/v1/requests/'' path \<and> verb = ''GET'')
      \<or> (path = ''/v1/routes/eligible'' \<and> verb = ''GET'')
      \<or> (starts_with ''/v1/routes/'' path \<and> ends_with ''/claims'' path \<and> verb = ''POST'')
      \<or> (starts_with ''/v1/routes/'' path \<and> ends_with ''/request'' path \<and> verb = ''GET'')
      \<or> (is_claim_action_path path \<and> verb = ''POST'')
      \<or> (path = ''/v1/instances/renew'' \<and> verb = ''POST''))"

text \<open>The identifier between a prefix and a suffix of the path.\<close>

definition between :: "string \<Rightarrow> string \<Rightarrow> string \<Rightarrow> string option" where
  "between prefix suffix path = Option.bind (strip_prefix prefix path) (strip_suffix suffix)"


section \<open>The governed endpoints\<close>

definition authenticate_governed_request ::
  "Crates \<Rightarrow> Serde \<Rightarrow> ('s \<Rightarrow> SignedServiceRequest \<Rightarrow> i64 \<Rightarrow> 's \<times> (ServiceRequestGateError + AdmittedServiceRequest)) \<Rightarrow>
   's \<Rightarrow> GovernedHttpRequest \<Rightarrow> i64 \<Rightarrow> 's \<times> (Response + AdmittedServiceRequest)" where
  "authenticate_governed_request X J admit s request now =
     (case into_signed X request of
        Inl _ \<Rightarrow> (s, Inl (authentication_rejected J))
      | Inr sreq \<Rightarrow>
          (case admit s sreq now of
             (s', Inl e) \<Rightarrow> (s', Inl (gate_error_response J e))
           | (s', Inr admitted) \<Rightarrow> (s', Inr admitted)))"

definition subscription_route ::
  "Crates \<Rightarrow> Serde \<Rightarrow> 's Application \<Rightarrow> ('s \<Rightarrow> PolicyFacts \<Rightarrow> i64 \<Rightarrow> 's \<times> (AuthorityError + AuthorityDecision)) \<Rightarrow>
   (nat \<Rightarrow> i64) \<Rightarrow> 's \<Rightarrow> ParsedRequest \<Rightarrow> ActorId \<Rightarrow> 's \<times> Response" where
  "subscription_route X J app authority clock s r service_id =
     (let path = path_of (pr_path r) in
      if path = ''/v1/subscriptions'' then
        (if pr_method r = ''POST'' then
           create_subscription X J authority (app_create_subscription app) (clock 1) (clock 2) s r service_id
         else if pr_method r = ''GET'' then
           (s, list_subscriptions_route X J (app_list_subscriptions app) (app_list_active_subscriptions app) s
                 (pr_path r) service_id)
         else (s, method_not_allowed))
      else (case strip_prefix ''/v1/subscriptions/'' path of
              Some i \<Rightarrow> disable_subscription X J authority (app_disable_subscription app) (clock 1) (clock 2) s i service_id
            | None \<Rightarrow> (s, not_found)))"

definition request_route ::
  "Crates \<Rightarrow> Serde \<Rightarrow> 's Application \<Rightarrow> ('s \<Rightarrow> PolicyFacts \<Rightarrow> i64 \<Rightarrow> 's \<times> (AuthorityError + AuthorityDecision)) \<Rightarrow>
   (nat \<Rightarrow> i64) \<Rightarrow> 's \<Rightarrow> ParsedRequest \<Rightarrow> ActorId \<Rightarrow> RequestId \<Rightarrow> 's \<times> Response" where
  "request_route X J app authority clock s r service_id envelope_request_id =
     (let path = path_of (pr_path r) in
      if path = ''/v1/requests'' then
        (if pr_method r = ''POST'' then
           submit_request X J authority (app_accept app) (app_materialize app) (clock 1) s r service_id envelope_request_id
         else (s, method_not_allowed))
      else (case strip_prefix ''/v1/requests/'' path of
              Some i \<Rightarrow> (s, find_request X J (app_find_request app) s i service_id)
            | None \<Rightarrow> (s, not_found)))"

text \<open>What follows an admission, with the caller's verified identity.\<close>

definition governed_route ::
  "Crates \<Rightarrow> Serde \<Rightarrow> 's Application \<Rightarrow> (nat \<Rightarrow> i64) \<Rightarrow> 's \<Rightarrow> ParsedRequest \<Rightarrow> VerifiedServiceRequest \<Rightarrow> 's \<times> Response" where
  "governed_route X J app clock s r verified =
     (let service_id = vsr_service_id verified;
          path = path_of (pr_path r)
      in if path = ''/v1/authority/schemas'' then publish_schema X J (app_publish app) (clock 1) s r service_id
         else if path = ''/v1/routes/eligible'' then (s, list_eligible_routes X J (app_eligible app) (clock 1) s service_id)
         else (case between ''/v1/routes/'' ''/claims'' path of
           Some i \<Rightarrow> claim_route X J (app_claim app) (clock 1) s r service_id (vsr_instance_id verified) i
         | None \<Rightarrow>
         (case between ''/v1/routes/'' ''/request'' path of
           Some i \<Rightarrow> (s, find_routed_request X J (app_find_routed app) s i service_id)
         | None \<Rightarrow>
         (case between ''/v1/claims/'' ''/renew'' path of
           Some i \<Rightarrow> renew_claim_route X J (app_renew_claim app) (clock 1) s r i
         | None \<Rightarrow>
         (case between ''/v1/claims/'' ''/release'' path of
           Some i \<Rightarrow> release_claim_route X J (app_release app) (clock 1) s r i
         | None \<Rightarrow>
         (case between ''/v1/claims/'' ''/complete'' path of
           Some i \<Rightarrow> complete_claim_route X J (app_complete app) (clock 1) s r i
         | None \<Rightarrow>
           if path = ''/v1/instances/renew'' then
             renew_instance_route X J (app_renew_instance app) (clock 1) s r (vsr_instance_id verified)
           else (case app_authority app of
               None \<Rightarrow> (s, error_response J ''503 Service Unavailable'' GE_internal_error)
             | Some authority \<Rightarrow>
                 if path = ''/v1/requests'' \<or> starts_with ''/v1/requests/'' path then
                   request_route X J app authority clock s r service_id (RequestId (vsr_request_id verified))
                 else subscription_route X J app authority clock s r service_id)))))))"


section \<open>Dispatch\<close>

definition dispatch ::
  "Crates \<Rightarrow> Serde \<Rightarrow> 's Application \<Rightarrow> (nat \<Rightarrow> i64) \<Rightarrow> 's \<Rightarrow> ParsedRequest \<Rightarrow> 's \<times> Response" where
  "dispatch X J app clock s r =
     (if pr_path r = ''/v1/enrollments/challenges'' then
        (if pr_method r \<noteq> ''POST'' then (s, method_not_allowed)
         else case parse_workload_challenge_request J (pr_content_type r) (pr_body r) of
           Inl response \<Rightarrow> (s, response)
         | Inr request \<Rightarrow>
             (case app_reviewer_error app of
                Some e \<Rightarrow> (s, json_error J ''503 Service Unavailable'' (from_enrollment_error e))
              | None \<Rightarrow> issue_workload_challenge X J (app_issue_challenge app) (clock 0) s request))
      else if pr_path r = ''/v1/enrollments'' then
        (if pr_method r \<noteq> ''POST'' then (s, method_not_allowed)
         else case parse_enrollment_request X J (pr_content_type r) (pr_body r) of
           Inl response \<Rightarrow> (s, response)
         | Inr request \<Rightarrow>
             (case app_reviewer_error app of
                Some e \<Rightarrow> (s, json_error J ''503 Service Unavailable'' (from_enrollment_error e))
              | None \<Rightarrow> authenticate_enrollment X J (app_enroll app) (clock 0) s request))
      else if is_governed_route (pr_path r) then
        (if \<not> is_supported_governed_method (pr_method r) (pr_path r) then (s, method_not_allowed)
         else case as_governed r of
           None \<Rightarrow> (s, authentication_rejected J)
         | Some governed \<Rightarrow>
             (case authenticate_governed_request X J (app_gate app) s governed (clock 0) of
                (s', Inl response) \<Rightarrow> (s', response)
              | (s', Inr admitted) \<Rightarrow> governed_route X J app clock s' r (asr_verified admitted)))
      else if pr_path r = ''/health/ready'' then (s, readiness_response (app_database_ready app s))
      else if pr_path r = ''/v1/kernel-identity'' then
        (s, if pr_method r \<noteq> ''GET'' then method_not_allowed
            else json_response J ''200 OK'' (RB_KernelIdentity (KernelIdentityResponse_from X (app_instance_public_key app))))
      else (s, route (pr_path r)))"

definition handle_connection ::
  "Crates \<Rightarrow> Serde \<Rightarrow> 's Application \<Rightarrow> (nat \<Rightarrow> i64) \<Rightarrow> 's \<Rightarrow> segment list \<Rightarrow> 's \<times> bytes" where
  "handle_connection X J app clock s stream =
     (let (s', response) = (case read_request stream of
            Inr request \<Rightarrow> dispatch X J app clock s request
          | Inl PayloadTooLarge \<Rightarrow>
              (s, json_response J ''413 Payload Too Large'' (RB_Malformed MalformedRequestResponse_payload_too_large))
          | Inl Malformed \<Rightarrow>
              (s, json_response J ''400 Bad Request'' (RB_Malformed MalformedRequestResponse_malformed)))
      in (s', response_bytes response))"

end
