(* ===== verification/Http_Wiring.thy ===== *)
theory Http_Wiring
  imports Http_Dispatch Gate_Properties Routing_Properties Enrollment_Properties Authority_Properties
begin

text \<open>
  The application \<open>wiring.rs\<close> builds: the HTTP layer's operations are the services on the
  PostgreSQL adapters. What is outside the database (token reviewer, policy evaluator, fresh
  identifiers, the database's own clock) is the environment.
\<close>

record Environment =
  env_reviewer :: "EnrollmentError + token_reviewer"
  env_evaluator :: "(ActorId \<times> (PolicyFacts \<Rightarrow> Grant list \<Rightarrow> AuthorityError + PolicyEvaluation)) option"
  env_challenge :: EnrollmentChallenge
  env_decision_id :: DecisionId
  env_schema_id :: SchemaVersionId
  env_subscription_id :: SubscriptionId
  env_claim_id :: ClaimId
  env_route_ids :: "nat \<Rightarrow> RouteId"
  env_accepted_at :: i64
  env_public_key :: InstancePublicKey

text \<open>\<open>authority_service\<close>: the same repository gives the grants and records the decision.\<close>

definition pg_authority ::
  "faults \<Rightarrow> faults \<Rightarrow> DecisionId \<Rightarrow> ActorId \<times> (PolicyFacts \<Rightarrow> Grant list \<Rightarrow> AuthorityError + PolicyEvaluation) \<Rightarrow>
   Db \<Rightarrow> PolicyFacts \<Rightarrow> i64 \<Rightarrow> Db \<times> (AuthorityError + AuthorityDecision)" where
  "pg_authority io io' new_id evaluator =
     authorize (pg_matching_grants io) (snd evaluator) (fst evaluator) (pg_record_decision io') new_id"

text \<open>\<open>io n\<close> are the faults of the \<open>n\<close>-th repository call of the list.\<close>

definition pg_application :: "Crates \<Rightarrow> (nat \<Rightarrow> faults) \<Rightarrow> (RouteId \<Rightarrow> faults) \<Rightarrow> Environment \<Rightarrow> Db Application" where
  "pg_application X io ios env =
     \<lparr>app_gate = pg_gate X (io 0) (io 1) (io 2),
      app_reviewer_error = (case env_reviewer env of Inl e \<Rightarrow> Some e | Inr _ \<Rightarrow> None),
      app_issue_challenge = (\<lambda>db token pod now. case env_reviewer env of
          Inl e \<Rightarrow> (db, Inl e)
        | Inr review \<Rightarrow> issue_challenge_for_workload review (pg_find_workload (io 3)) (pg_insert_challenge X (io 4))
                          (env_challenge env) db token pod now),
      app_enroll = (\<lambda>db request now. case env_reviewer env of
          Inl e \<Rightarrow> (db, Inl e)
        | Inr review \<Rightarrow> pg_enroll X review (io 3) (io 4) (io 5) db request now),
      app_authority = map_option (pg_authority (io 6) (io 7) (env_decision_id env)) (env_evaluator env),
      app_publish = SchemaService_publish (pg_schema_publish (io 8) (env_schema_id env)),
      app_eligible = eligible_for X (pg_list_for_destination (io 8))
        (WorkClaimService_active_route_ids (pg_active_route_ids (io 9))) (pg_completed_route_ids (io 10)),
      app_find_routed = find_for_destination (pg_route_find (io 8)) (pg_request_find (io 9)),
      app_claim = WorkClaimService_claim (pg_claim (io 8) (env_claim_id env)),
      app_renew_claim = WorkClaimService_renew (pg_renew (io 8)),
      app_release = WorkClaimService_release (pg_release (io 8)),
      app_complete = WorkClaimService_complete (pg_complete (io 8)),
      app_renew_instance = InstanceRegistryService_renew LeasePolicy_default (pg_instance_renew X (io 8)),
      app_accept = (\<lambda>db. pg_request_accept (io 8) db (env_accepted_at env)),
      app_materialize = pg_materialize_routes X (io 9) ios (env_route_ids env),
      app_find_request = pg_request_find (io 8),
      app_create_subscription = SubscriptionService_create (pg_subscription_insert (io 8)) (env_subscription_id env),
      app_list_subscriptions = pg_list_for_service (io 8),
      app_list_active_subscriptions = pg_list_active_for_service (io 8),
      app_disable_subscription = SubscriptionService_disable (pg_subscription_disable (io 8)),
      app_database_ready = (\<lambda>db. io 0 0 = None \<and> io 0 1 = None),
      app_instance_public_key = env_public_key env\<rparr>"

definition pg_dispatch ::
  "Crates \<Rightarrow> Serde \<Rightarrow> (nat \<Rightarrow> faults) \<Rightarrow> (RouteId \<Rightarrow> faults) \<Rightarrow> Environment \<Rightarrow> (nat \<Rightarrow> i64) \<Rightarrow> Db \<Rightarrow> ParsedRequest \<Rightarrow> Db \<times> Response" where
  "pg_dispatch X J io ios env = dispatch X J (pg_application X io ios env)"

end
