(* ===== verification/Http_Frames.thy ===== *)
theory Http_Frames
  imports Http_Wiring
begin

text \<open>
  What each operation behind the HTTP layer leaves alone: \<open>keeps t\<close> says that two states have
  the same table \<open>t\<close>. The rules follow the control structure of an operation, so that the frame
  of an operation is proved by unfolding it and applying them.
\<close>

definition keeps :: "(Db \<Rightarrow> 'x) \<Rightarrow> Db \<Rightarrow> Db \<Rightarrow> bool" where
  "keeps t db db' \<longleftrightarrow> t db' = t db"

named_theorems keeps_intros \<open>introduction rules that follow the control structure of an operation\<close>

lemma keeps_refl [simp]: "keeps t db db"
  by (simp add: keeps_def)

lemma keeps_trans: "keeps t a b \<Longrightarrow> keeps t b c \<Longrightarrow> keeps t a c"
  by (simp add: keeps_def)

lemma keeps_stmt [keeps_intros]:
  "keeps t db db0 \<Longrightarrow> keeps t db (fst rest) \<Longrightarrow> keeps t db (fst (db_stmt io k mk db0 rest))"
  by (simp add: db_stmt_def split: option.splits)

lemma keeps_branches [keeps_intros]:
  "(b \<Longrightarrow> keeps t db (fst p)) \<Longrightarrow> (\<not> b \<Longrightarrow> keeps t db (fst q)) \<Longrightarrow> keeps t db (fst (if b then p else q))"
  "keeps t db (fst p) \<Longrightarrow> (\<And>a. opt = Some a \<Longrightarrow> keeps t db (fst (f a))) \<Longrightarrow>
     keeps t db (fst (case opt of None \<Rightarrow> p | Some a \<Rightarrow> f a))"
  "(\<And>e. keeps t db (fst (g e))) \<Longrightarrow> (\<And>a. res = Inr a \<Longrightarrow> keeps t db (fst (h a))) \<Longrightarrow>
     keeps t db (fst (case res of Inl e \<Rightarrow> g e | Inr a \<Rightarrow> h a))"
  "keeps t db (fst y) \<Longrightarrow> (\<And>s r. keeps t db s \<Longrightarrow> keeps t db (fst (k s r))) \<Longrightarrow> keeps t db (fst (case y of (s, r) \<Rightarrow> k s r))"
  by (auto split: option.splits sum.splits prod.splits)

section \<open>The adapters\<close>

text \<open>Each adapter keeps every \<open>t\<close> that does not depend on the tables it writes.\<close>

lemma keeps_audits:
  "(\<And>s x. t (s\<lparr>service_request_replay_audit := x\<rparr>) = t s) \<Longrightarrow> keeps t db b \<Longrightarrow> keeps t db db1 \<Longrightarrow>
     keeps t db (fst (append_replay_audit io k b db1 r out res))"
  "(\<And>s x. t (s\<lparr>service_instance_registry_audit := x\<rparr>) = t s) \<Longrightarrow> keeps t db b \<Longrightarrow> keeps t db db1 \<Longrightarrow>
     keeps t db (fst (append_registry_audit io k b db1 i act at y))"
  "(\<And>s x. t (s\<lparr>subscription_audit := x\<rparr>) = t s) \<Longrightarrow> keeps t db b \<Longrightarrow> keeps t db db1 \<Longrightarrow>
     keeps t db (fst (append_subscription_audit io k b db1 sub act at z))"
  "(\<And>s x. t (s\<lparr>request_acceptance_audit := x\<rparr>) = t s) \<Longrightarrow> keeps t db b \<Longrightarrow> keeps t db db1 \<Longrightarrow>
     keeps t db (fst (append_acceptance_audit io k b db1 rq fp out acc))"
  unfolding append_replay_audit_def append_registry_audit_def append_subscription_audit_def append_acceptance_audit_def Let_def
  by (intro keeps_intros; simp add: keeps_def)+

lemma keeps_reserve:
  assumes "\<And>s x. t (s\<lparr>service_request_nonces := x\<rparr>) = t s" and "\<And>s x. t (s\<lparr>service_request_ids := x\<rparr>) = t s"
    and "\<And>s x. t (s\<lparr>service_request_replay_audit := x\<rparr>) = t s"
  shows "keeps t db (fst (pg_replay_reserve io db r))"
  unfolding pg_replay_reserve_def Let_def by (intro keeps_intros keeps_audits; simp add: keeps_def assms)

lemma keeps_challenges:
  assumes "\<And>s x. t (s\<lparr>service_enrollment_challenges := x\<rparr>) = t s"
  shows "keeps t db (fst (pg_insert_challenge X io db i c e))" "keeps t db (fst (pg_consume_challenge X io db i c e))"
  unfolding pg_insert_challenge_def pg_consume_challenge_def Let_def by (intro keeps_intros; simp add: keeps_def assms)+

lemma keeps_instances:
  assumes "\<And>s x. t (s\<lparr>service_instances := x\<rparr>) = t s" and "\<And>s x. t (s\<lparr>service_instance_keys := x\<rparr>) = t s"
    and "\<And>s x. t (s\<lparr>service_instance_registry_audit := x\<rparr>) = t s"
  shows "keeps t db (fst (pg_instance_insert X io db inst))" "keeps t db (fst (pg_instance_renew X io db i rv at l))"
  unfolding pg_instance_insert_def pg_instance_renew_def Let_def
  by (intro keeps_intros keeps_audits; simp add: keeps_def assms)+

lemma keeps_subscriptions:
  assumes "\<And>s x. t (s\<lparr>subscriptions := x\<rparr>) = t s" and "\<And>s x. t (s\<lparr>subscription_audit := x\<rparr>) = t s"
  shows "keeps t db (fst (pg_subscription_insert io db sub))" "keeps t db (fst (pg_subscription_disable io db a i at))"
  unfolding pg_subscription_insert_def pg_subscription_disable_def Let_def
  by (intro keeps_intros keeps_audits; simp add: keeps_def assms)+

lemma keeps_decision:
  assumes "\<And>s x. t (s\<lparr>authority_decisions := x\<rparr>) = t s"
  shows "keeps t db (fst (pg_record_decision io db d))"
  unfolding pg_record_decision_def Let_def by (intro keeps_intros; simp add: keeps_def assms)

lemma keeps_publish:
  assumes "\<And>s x. t (s\<lparr>authority_schema_versions := x\<rparr>) = t s"
  shows "keeps t db (fst (pg_schema_publish io i db k n w c at))"
proof -
  have "keeps t db db'" if "publish_authority_schema_version db i kk nn w cc at = Some (db', row)" for kk nn cc db' row
    using that assms by (auto simp: keeps_def publish_authority_schema_version_def Let_def split: if_splits)
  then show ?thesis unfolding pg_schema_publish_def
    by (intro keeps_intros; force)
qed

lemma keeps_accept:
  assumes "\<And>s x. t (s\<lparr>accepted_requests := x\<rparr>) = t s" and "\<And>s x. t (s\<lparr>request_acceptance_audit := x\<rparr>) = t s"
  shows "keeps t db (fst (pg_request_accept io db at rq fp))"
  unfolding pg_request_accept_def Let_def by (intro keeps_intros keeps_audits; simp add: keeps_def assms)

lemma keeps_claims:
  assumes "\<And>s x. t (s\<lparr>work_claims := x\<rparr>) = t s"
  shows "keeps t db (fst (pg_claim io i db r w wi e now))" "keeps t db (fst (pg_renew io db c k e now))"
    "keeps t db (fst (pg_release io db c k now))" "keeps t db (fst (pg_complete io db c k now))"
proof -
  have upd: "keeps t db db'" if "update_work_claims i f db = Some db'" for i f db'
    using that assms by (auto simp: keeps_def update_work_claims_def split: if_splits)
  have ins: "keeps t db (fst (insert_claim io i db db' r w wi n e now))" if "keeps t db db'" for i db' r w wi n e now
    using that unfolding insert_claim_def Let_def by (intro keeps_intros; simp add: keeps_def assms)
  show "keeps t db (fst (pg_claim io i db r w wi e now))"
    unfolding pg_claim_def Let_def by (intro keeps_intros keeps_refl ins) (auto dest: upd)
  have lock: "keeps t db (fst (update_locked io db c k now f))" for f
    unfolding update_locked_def by (intro keeps_intros keeps_refl) (auto dest: upd)
  show "keeps t db (fst (pg_renew io db c k e now))" unfolding pg_renew_def by (rule lock)
  show "keeps t db (fst (pg_release io db c k now))" "keeps t db (fst (pg_complete io db c k now))"
    unfolding pg_release_def pg_complete_def pg_transition_def by (rule lock)+
qed

lemma keeps_materialize_routes:
  assumes t: "\<And>s x. t (s\<lparr>request_routes := x\<rparr>) = t s"
  shows "keeps t s (fst (pg_materialize_routes X io ios ids s src i a now))"
proof -
  have "keeps t s (fst (pg_materialize ios s r))" for s r
    unfolding pg_materialize_def pg_route_materialize_def Let_def by (intro keeps_intros; simp add: keeps_def t)
  then have one: "keeps t s (fst (RouteService_materialize (pg_materialize ios) i s src rq sub dst now))" for i s src rq sub dst now
    unfolding RouteService_materialize_def by (intro keeps_intros) simp_all
  have each: "keeps t s (fst (materialize_each (pg_materialize ios) ids src i now s k xs))" for k xs
  proof (induction xs arbitrary: s k)
    case (Cons x xs)
    obtain s' y where m: "RouteService_materialize (pg_materialize ios) (ids k) s src i (sub_id x) (sub_service_id x) now = (s', y)"
      by fastforce
    with one [of s "ids k" src i "sub_id x" "sub_service_id x" now] have s': "keeps t s s'" by simp
    obtain s'' z where rest: "materialize_each (pg_materialize ios) ids src i now s' (k + 1) xs = (s'', z)" by fastforce
    with Cons.IH [of s' "k + 1"] have "keeps t s' s''" by simp
    with keeps_trans [OF s'] s' m rest show ?case by (simp split: sum.split)
  qed simp
  show ?thesis unfolding pg_materialize_routes_def materialize_routes_def by (intro keeps_intros; simp add: each)
qed


section \<open>The services\<close>

lemma keeps_gate:
  assumes "\<And>s x. t (s\<lparr>service_request_nonces := x\<rparr>) = t s" and "\<And>s x. t (s\<lparr>service_request_ids := x\<rparr>) = t s"
    and "\<And>s x. t (s\<lparr>service_request_replay_audit := x\<rparr>) = t s"
  shows "keeps t db (fst (pg_gate X io io' io'' db r now))"
proof -
  have "keeps t db (fst (ReplayProtectionService_protect (pg_replay_reserve io') db v now))" for v
    unfolding ReplayProtectionService_protect_def by (intro keeps_intros; simp add: keeps_reserve assms)
  then show ?thesis unfolding pg_gate_def ServiceRequestGate_admit_def by (intro keeps_intros) simp_all
qed

lemma keeps_authority:
  assumes "\<And>s x. t (s\<lparr>authority_decisions := x\<rparr>) = t s"
  shows "keeps t db (fst (pg_authority io io' i ev db facts now))"
  unfolding pg_authority_def authorize_def Let_def split_beta
  by (intro keeps_intros; simp add: keeps_decision assms split_beta)

lemma keeps_publish_service:
  assumes "\<And>s x. t (s\<lparr>authority_schema_versions := x\<rparr>) = t s"
  shows "keeps t db (fst (SchemaService_publish (pg_schema_publish io i) db k n a c at))"
  unfolding SchemaService_publish_def by (intro keeps_intros; simp add: keeps_publish assms)

lemma keeps_instance_services:
  assumes "\<And>s x. t (s\<lparr>service_instances := x\<rparr>) = t s" and "\<And>s x. t (s\<lparr>service_instance_keys := x\<rparr>) = t s"
    and "\<And>s x. t (s\<lparr>service_instance_registry_audit := x\<rparr>) = t s"
  shows "keeps t db (fst (InstanceRegistryService_renew p (pg_instance_renew X io) db ii rv at))"
    "keeps t db (fst (register_verified p (pg_instance_insert X io) db pk ep at))"
  unfolding InstanceRegistryService_renew_def register_verified_def
  by (intro keeps_intros; simp add: keeps_instances assms)+

lemma keeps_claim_services:
  assumes "\<And>s x. t (s\<lparr>work_claims := x\<rparr>) = t s"
  shows "keeps t db (fst (WorkClaimService_claim (pg_claim io ci) db ri w wi e at))"
    "keeps t db (fst (WorkClaimService_renew (pg_renew io) db ci tok e at))"
    "keeps t db (fst (WorkClaimService_release (pg_release io) db ci tok at))"
    "keeps t db (fst (WorkClaimService_complete (pg_complete io) db ci tok at))"
  unfolding WorkClaimService_claim_def WorkClaimService_renew_def WorkClaimService_release_def WorkClaimService_complete_def
  by (intro keeps_intros; simp add: keeps_claims assms)+

lemma keeps_subscription_services:
  assumes "\<And>s x. t (s\<lparr>subscriptions := x\<rparr>) = t s" and "\<And>s x. t (s\<lparr>subscription_audit := x\<rparr>) = t s"
  shows "keeps t db (fst (SubscriptionService_create (pg_subscription_insert io) si db a ty m at))"
    "keeps t db (fst (SubscriptionService_disable (pg_subscription_disable io) db a i at))"
  unfolding SubscriptionService_create_def SubscriptionService_disable_def
  by (intro keeps_intros; simp add: keeps_subscriptions assms)+

lemma keeps_enrollment:
  assumes "\<And>s x. t (s\<lparr>service_enrollment_challenges := x\<rparr>) = t s"
  shows "keeps t db (fst (issue_challenge_for_workload rv fw (pg_insert_challenge X io) ch db tok pod at))"
    and "(\<And>s x. t (s\<lparr>service_instances := x\<rparr>) = t s) \<Longrightarrow> (\<And>s x. t (s\<lparr>service_instance_keys := x\<rparr>) = t s) \<Longrightarrow>
      (\<And>s x. t (s\<lparr>service_instance_registry_audit := x\<rparr>) = t s) \<Longrightarrow> keeps t db (fst (pg_enroll X rv io io' io'' db request at))"
proof -
  have "keeps t db (fst (issue_challenge (pg_insert_challenge X io) ch db a at))" for db a
    unfolding issue_challenge_def by (intro keeps_intros; simp add: keeps_challenges assms)
  then show "keeps t db (fst (issue_challenge_for_workload rv fw (pg_insert_challenge X io) ch db tok pod at))"
    unfolding issue_challenge_for_workload_def by (intro keeps_intros) simp_all
  assume t: "\<And>s x. t (s\<lparr>service_instances := x\<rparr>) = t s" "\<And>s x. t (s\<lparr>service_instance_keys := x\<rparr>) = t s"
    "\<And>s x. t (s\<lparr>service_instance_registry_audit := x\<rparr>) = t s"
  have reg: "keeps t db s \<Longrightarrow> keeps t db (fst (register_verified p (pg_instance_insert X io'') s pk ep at))" for s p pk ep
    by (rule keeps_trans [OF _ keeps_instance_services(2)]) (simp_all add: t)
  show "keeps t db (fst (pg_enroll X rv io io' io'' db request at))"
    unfolding pg_enroll_def authenticate_and_register_def
    by (intro keeps_intros) (simp_all add: keeps_challenges assms reg)
qed


section \<open>The handlers\<close>

lemma keeps_respond [keeps_intros]:
  "keeps t db s \<Longrightarrow> (\<And>x. r = Inr x \<Longrightarrow> keeps t db (fst (k x))) \<Longrightarrow> keeps t db (fst (respond s r k))"
  by (simp add: respond_def split: sum.split)

lemma keeps_claim_response [keeps_intros]: "keeps t db (fst y) \<Longrightarrow> keeps t db (fst (claim_response X J status y))"
  by (auto simp: claim_response_def split: prod.split sum.split)

lemma keeps_check_authorized:
  assumes "\<And>s f n. keeps t s (fst (authority s f n))"
  shows "keeps t s (fst (check_authorized J authority s a action now))"
  unfolding check_authorized_def authorize_subscription_action_def by (intro keeps_intros) (simp_all add: assms)

lemma keeps_create_subscription:
  assumes au: "\<And>s f n. keeps t s (fst (authority s f n))" and cr: "\<And>s e m n. keeps t s (fst (create s a e m n))"
  shows "keeps t s (fst (create_subscription X J authority create n1 n2 s r a))"
proof -
  have "keeps t s s' \<Longrightarrow> keeps t s (fst (create s' a e m n))" for s s' e m n using keeps_trans cr by blast
  then show ?thesis
    unfolding create_subscription_def by (intro keeps_intros; simp add: keeps_check_authorized au)
qed

lemma keeps_disable_subscription:
  assumes au: "\<And>s f n. keeps t s (fst (authority s f n))" and di: "\<And>s i n. keeps t s (fst (disable s a i n))"
  shows "keeps t s (fst (disable_subscription X J authority disable n1 n2 s i a))"
proof -
  have "keeps t s s' \<Longrightarrow> keeps t s (fst (disable s' a i n))" for s s' i n using keeps_trans di by blast
  then show ?thesis
    unfolding disable_subscription_def by (intro keeps_intros; simp add: keeps_check_authorized au)
qed

lemma keeps_publish_schema:
  assumes "\<And>s k n a c t'. keeps t s (fst (publish s k n a c t'))"
  shows "keeps t s (fst (publish_schema X J publish now s r a))"
  unfolding publish_schema_def split_beta by (intro keeps_intros; simp add: assms split_beta)

lemma keeps_claim_handlers:
  "(\<And>s r a i e n. keeps t s (fst (claim s r a i e n))) \<Longrightarrow> keeps t s (fst (claim_route X J claim now s r a wi i))"
  "(\<And>s c k e n. keeps t s (fst (renew s c k e n))) \<Longrightarrow> keeps t s (fst (renew_claim_route X J renew now s r i))"
  "(\<And>s c k n. keeps t s (fst (act s c k n))) \<Longrightarrow> keeps t s (fst (release_claim_route X J act now s r i))"
  "(\<And>s c k n. keeps t s (fst (act s c k n))) \<Longrightarrow> keeps t s (fst (complete_claim_route X J act now s r i))"
  unfolding claim_route_def renew_claim_route_def release_claim_route_def complete_claim_route_def Let_def split_beta
  by (intro keeps_intros; simp)+

lemma keeps_renew_instance_route:
  assumes "\<And>s i v n. keeps t s (fst (renew s i v n))"
  shows "keeps t s (fst (renew_instance_route X J renew now s r i))"
  unfolding renew_instance_route_def by (intro keeps_intros; simp add: assms)

lemma keeps_enrollment_handlers:
  "(\<And>s a b n. keeps t s (fst (issue s a b n))) \<Longrightarrow> keeps t s (fst (issue_workload_challenge X J issue now s request))"
  "(\<And>s q n. keeps t s (fst (enroll s q n))) \<Longrightarrow> keeps t s (fst (authenticate_enrollment X J enroll now s q))"
  unfolding issue_workload_challenge_def authenticate_enrollment_def by (intro keeps_intros; simp add: split_beta)+

text \<open>The operations \<open>pg_application\<close> offers, one by one.\<close>

lemma pg_application_simps:
  "app_gate (pg_application X io ios env) = pg_gate X (io 0) (io 1) (io 2)"
  "app_authority (pg_application X io ios env) = map_option (pg_authority (io 6) (io 7) (env_decision_id env)) (env_evaluator env)"
  "app_publish (pg_application X io ios env) = SchemaService_publish (pg_schema_publish (io 8) (env_schema_id env))"
  "app_claim (pg_application X io ios env) = WorkClaimService_claim (pg_claim (io 8) (env_claim_id env))"
  "app_renew_claim (pg_application X io ios env) = WorkClaimService_renew (pg_renew (io 8))"
  "app_release (pg_application X io ios env) = WorkClaimService_release (pg_release (io 8))"
  "app_complete (pg_application X io ios env) = WorkClaimService_complete (pg_complete (io 8))"
  "app_renew_instance (pg_application X io ios env) =
     InstanceRegistryService_renew LeasePolicy_default (pg_instance_renew X (io 8))"
  "app_accept (pg_application X io ios env) = (\<lambda>db. pg_request_accept (io 8) db (env_accepted_at env))"
  "app_materialize (pg_application X io ios env) = pg_materialize_routes X (io 9) ios (env_route_ids env)"
  "app_create_subscription (pg_application X io ios env) =
     SubscriptionService_create (pg_subscription_insert (io 8)) (env_subscription_id env)"
  "app_disable_subscription (pg_application X io ios env) = SubscriptionService_disable (pg_subscription_disable (io 8))"
  by (simp_all add: pg_application_def)

lemma keeps_application_enrollment:
  assumes "\<And>s x. t (s\<lparr>service_enrollment_challenges := x\<rparr>) = t s" and "\<And>s x. t (s\<lparr>service_instances := x\<rparr>) = t s"
    and "\<And>s x. t (s\<lparr>service_instance_keys := x\<rparr>) = t s" and "\<And>s x. t (s\<lparr>service_instance_registry_audit := x\<rparr>) = t s"
  shows "keeps t db (fst (app_issue_challenge (pg_application X io ios env) db token pod now))"
    and "keeps t db (fst (app_enroll (pg_application X io ios env) db request now))"
  by (simp_all add: pg_application_def keeps_enrollment assms split: sum.split)

end
