(* ===== verification/Http_Properties.thy ===== *)
theory Http_Properties
  imports Http_Frames Http_Governed
begin

text \<open>
  What the HTTP layer guarantees on the application of \<open>wiring.rs\<close>: what a request that
  arrives on a connection can change in the database, and on whose authority.
\<close>

text \<open>The identity a handler sees is the signer's.\<close>

lemma verified_is_signer:
  "ServiceRequestVerifier_verify X instances r now = Inr v \<Longrightarrow>
     vsr_service_id v = ssr_service_id r \<and> vsr_instance_id v = ssr_instance_id r \<and> vsr_request_id v = srp_request_id (ssr_parts r)"
  by (auto simp: ServiceRequestVerifier_verify_def Let_def split: if_splits)

lemma gate_verified:
  assumes "pg_gate X io io' io'' db r now = (db', Inr a)"
  shows "vsr_service_id (asr_verified a) = ssr_service_id r \<and> vsr_instance_id (asr_verified a) = ssr_instance_id r \<and>
    vsr_request_id (asr_verified a) = srp_request_id (ssr_parts r)"
  by (rule verified_is_signer [of X "find_eligible (pg_instance_find X io) db" r now])
    (use pggate.admit_Inr [OF assms [unfolded pg_gate_def]] in \<open>simp add: pg_verify_def\<close>)

lemma into_request_Inr:
  assumes "SubmitRequestRequest_into_request X d a i = Inr r"
  shows "rq_source_service r = a" and "rq_id r = i" and "request_wf r"
proof -
  show "rq_source_service r = a" "rq_id r = i"
    using assms by (auto simp: SubmitRequestRequest_into_request_def Request_restore_def)
  show "request_wf r"
    using assms by (auto simp: SubmitRequestRequest_into_request_def Request_restore_def request_wf_def action_name_wf_def
      Scope_new_def split: if_splits)
qed

lemma pg_authority_Inr:
  assumes "pg_authority io io' i ev db facts now = (db', Inr d)"
  shows "\<exists>grants. pg_matching_grants io db facts now = Inr grants \<and> ad_facts d = facts \<and> ad_decided_at d = now \<and>
      (is_allowed d \<longrightarrow> (\<exists>e. snd ev facts grants = Inr e \<and> pe_verdict e = Allow)) \<and>
      authority_decisions db' = authority_decisions db @ [decision_row_of d]"
  using assms
  by (auto simp: pg_authority_def authorize_def Let_def is_allowed_def split: sum.splits prod.splits dest!: pg_record_decision_Inr)

lemma accept_appends:
  assumes "request_wf r" and "pg_request_accept io db t r f = (db', x)" and "accepted_requests db' \<noteq> accepted_requests db"
  shows "accepted_requests db' = accepted_requests db @ [accepted_request_row_of r f t]"
proof (cases x)
  case (Inl e)
  with assms pg_request_accept_error show ?thesis by blast
next
  case (Inr acc)
  show ?thesis
  proof (cases acc)
    case (RA_Accepted a)
    with assms(1,2) Inr pg_request_accept_fresh show ?thesis by blast
  next
    case (RA_SafeRetry a)
    with assms(2,3) Inr pg_request_accept_retry show ?thesis by blast
  qed
qed


section \<open>Where the accepted requests change\<close>

lemma request_route_requests:
  assumes "pr_method r \<noteq> ''POST'' \<or> path_of (pr_path r) \<noteq> ''/v1/requests''"
  shows "fst (request_route X J app authority clock s r a i) = s"
  using assms by (auto simp: request_route_def Let_def split: option.split)

lemma keeps_request_route:
  assumes au: "\<And>s f n. keeps t s (fst (authority s f n))" and ac: "\<And>s q p. keeps t s (fst (app_accept app s q p))"
    and ma: "\<And>s a i n k. keeps t s (fst (app_materialize app s a i n k))"
  shows "keeps t s (fst (request_route X J app authority clock s r a i))"
proof -
  have step: "keeps t s s' \<Longrightarrow> keeps t s (fst (app_accept app s' q p))" "keeps t s s' \<Longrightarrow> keeps t s (fst (app_materialize app s' a i n k))"
    for s s' q p a i n k using keeps_trans ac ma by blast+
  have "keeps t s (fst (submit_request X J authority (app_accept app) (app_materialize app) now s r a i))" for now
    unfolding submit_request_def by (intro keeps_intros; simp add: au step Let_def split_beta)
  then show ?thesis unfolding request_route_def Let_def by (intro keeps_intros; simp)
qed

lemma keeps_subscription_route:
  assumes "\<And>s f n. keeps t s (fst (authority s f n))" and "\<And>s e m n. keeps t s (fst (app_create_subscription app s a e m n))"
    and "\<And>s i n. keeps t s (fst (app_disable_subscription app s a i n))"
  shows "keeps t s (fst (subscription_route X J app authority clock s r a))"
  unfolding subscription_route_def Let_def
  by (intro keeps_intros; simp add: keeps_create_subscription keeps_disable_subscription assms)

lemma keeps_governed_route:
  assumes "\<And>s x. t (s\<lparr>authority_schema_versions := x\<rparr>) = t s" and "\<And>s x. t (s\<lparr>work_claims := x\<rparr>) = t s"
    and "\<And>s x. t (s\<lparr>service_instances := x\<rparr>) = t s" and "\<And>s x. t (s\<lparr>service_instance_keys := x\<rparr>) = t s"
    and "\<And>s x. t (s\<lparr>service_instance_registry_audit := x\<rparr>) = t s"
    and "\<And>ev. keeps t db (fst (subscription_route X J (pg_application X io ios env)
      (pg_authority (io 6) (io 7) (env_decision_id env) ev) clock db r (vsr_service_id v)))"
    and "\<And>ev. keeps t db (fst (request_route X J (pg_application X io ios env)
      (pg_authority (io 6) (io 7) (env_decision_id env) ev) clock db r (vsr_service_id v) (RequestId (vsr_request_id v))))"
  shows "keeps t db (fst (governed_route X J (pg_application X io ios env) clock db r v))"
  unfolding governed_route_def Let_def
  by (intro keeps_intros)
    (use assms(6,7) in \<open>auto simp: pg_application_simps keeps_publish_schema keeps_claim_handlers keeps_renew_instance_route
        keeps_publish_service keeps_claim_services keeps_instance_services assms(1-5)\<close>)

lemma governed_route_requests:
  assumes "pr_method r \<noteq> ''POST'' \<or> path_of (pr_path r) \<noteq> ''/v1/requests''"
  shows "keeps accepted_requests db (fst (governed_route X J (pg_application X io ios env) clock db r v))"
proof (rule keeps_governed_route)
  show "keeps accepted_requests db (fst (subscription_route X J (pg_application X io ios env)
      (pg_authority (io 6) (io 7) (env_decision_id env) ev) clock db r (vsr_service_id v)))" for ev
    by (rule keeps_subscription_route) (simp_all add: pg_application_simps keeps_subscription_services keeps_authority)
qed (simp_all add: request_route_requests [OF assms])

lemma governed_submission:
  assumes "pr_method r = ''POST''" and "path_of (pr_path r) = ''/v1/requests''"
  shows "governed_route X J app clock s r v =
    (case app_authority app of
       None \<Rightarrow> (s, error_response J ''503 Service Unavailable'' GE_internal_error)
     | Some authority \<Rightarrow> submit_request X J authority (app_accept app) (app_materialize app) (clock 1) s r (vsr_service_id v)
         (RequestId (vsr_request_id v)))"
proof -
  have "between ''/v1/routes/'' ''/claims'' ''/v1/requests'' = None" "between ''/v1/routes/'' ''/request'' ''/v1/requests'' = None"
    "between ''/v1/claims/'' ''/renew'' ''/v1/requests'' = None" "between ''/v1/claims/'' ''/release'' ''/v1/requests'' = None"
    "between ''/v1/claims/'' ''/complete'' ''/v1/requests'' = None"
    by code_simp+
  then show ?thesis using assms by (simp add: governed_route_def request_route_def Let_def split: option.split)
qed

text \<open>A submission that stores anything: the facts the evaluator judged are the stored request's.\<close>

abbreviation facts_of :: "Request \<Rightarrow> PolicyFacts" where
  "facts_of rq \<equiv> for_request_acceptance (rq_source_service rq) (rq_action rq) (rq_scope rq) (rq_schema_versions rq)"

lemma submission_after_body:
  assumes "submit_request X J authority accept mat now db r a req = (db', resp)" and "accepted_requests db' \<noteq> accepted_requests db"
  obtains dto rq where "SubmitRequestRequest_into_request X dto a req = Inr rq"
    and "(case authority db (for_request_acceptance a (rq_action rq) (rq_scope rq) (rq_schema_versions rq)) now of
           (s', Inl _) \<Rightarrow> (s', error_response J ''503 Service Unavailable'' GE_internal_error)
         | (s', Inr decision) \<Rightarrow>
             if \<not> is_allowed decision then (s', error_response J ''403 Forbidden'' GE_request_not_authorized)
             else (case accept s' rq (Request_fingerprint X rq) of
                     (s'', Inl e) \<Rightarrow> (s'', request_error_response J e)
                   | (s'', Inr acceptance) \<Rightarrow>
                       (let (status, record) = (case acceptance of
                              RA_Accepted record \<Rightarrow> (''201 Created'', record)
                            | RA_SafeRetry record \<Rightarrow> (''200 OK'', record));
                            (s3, _) = mat s'' (rq_source_service (ar_request record))
                              (rq_id (ar_request record)) (rq_action (ar_request record)) now
                        in (s3, json_response J status (RB_Request (AcceptedRequestResponse_from X record)))))) = (db', resp)"
  using assms unfolding submit_request_def respond_def by (auto split: sum.splits)

lemma submission_stores:
  assumes sub: "submit_request X J (pg_authority io io' i ev) (\<lambda>db. pg_request_accept io8 db t) (pg_materialize_routes X io9 ios ids)
      now db r a req = (db', resp)"
    and changed: "accepted_requests db' \<noteq> accepted_requests db"
  obtains rq grants e d where "rq_source_service rq = a" and "rq_id rq = req"
    and "accepted_requests db' = accepted_requests db @ [accepted_request_row_of rq (Request_fingerprint X rq) t]"
    and "pg_matching_grants io db (facts_of rq) now = Inr grants"
    and "snd ev (facts_of rq) grants = Inr e" and "pe_verdict e = Allow"
    and "ad_facts d = facts_of rq" and "ad_decided_at d = now"
    and "is_allowed d" and "decision_row_of d \<in> set (authority_decisions db')"
proof -
  have same_mat: "accepted_requests (fst (pg_materialize_routes X io9 ios ids s src q act now)) = accepted_requests s"
    "authority_decisions (fst (pg_materialize_routes X io9 ios ids s src q act now)) = authority_decisions s" for s src q act
    using keeps_materialize_routes [of accepted_requests] keeps_materialize_routes [of authority_decisions]
    by (simp_all add: keeps_def)
  from sub changed show thesis
  proof (rule submission_after_body)
    fix dto rq
    assume rq: "SubmitRequestRequest_into_request X dto a req = Inr rq"
    let ?f = "for_request_acceptance a (rq_action rq) (rq_scope rq) (rq_schema_versions rq)"
    obtain db1 y where au: "pg_authority io io' i ev db ?f now = (db1, y)" by fastforce
    obtain db2 z where ac: "pg_request_accept io8 db1 t rq (Request_fingerprint X rq) = (db2, z)" by fastforce
    have same: "accepted_requests db1 = accepted_requests db"
      using keeps_authority [of accepted_requests db io io' i ev ?f now] by (simp add: au keeps_def)
    note wf = into_request_Inr [OF rq]
    assume run: "(case pg_authority io io' i ev db ?f now of
           (s', Inl _) \<Rightarrow> (s', error_response J ''503 Service Unavailable'' GE_internal_error)
         | (s', Inr decision) \<Rightarrow>
             if \<not> is_allowed decision then (s', error_response J ''403 Forbidden'' GE_request_not_authorized)
             else (case pg_request_accept io8 s' t rq (Request_fingerprint X rq) of
                     (s'', Inl e) \<Rightarrow> (s'', request_error_response J e)
                   | (s'', Inr acceptance) \<Rightarrow>
                       (let (status, record) = (case acceptance of
                              RA_Accepted record \<Rightarrow> (''201 Created'', record)
                            | RA_SafeRetry record \<Rightarrow> (''200 OK'', record));
                            (s3, _) = pg_materialize_routes X io9 ios ids s'' (rq_source_service (ar_request record))
                              (rq_id (ar_request record)) (rq_action (ar_request record)) now
                        in (s3, json_response J status (RB_Request (AcceptedRequestResponse_from X record)))))) = (db', resp)"
    obtain d where d: "y = Inr d" "is_allowed d"
      using run au same changed by (cases y) (auto split: if_splits)
    have db': "accepted_requests db' = accepted_requests db2 \<and> authority_decisions db' = authority_decisions db2"
    proof (cases z)
      case (Inl e)
      with run au ac d show ?thesis by simp
    next
      case (Inr acc)
      with run au ac d have "\<exists>src q act. db' = fst (pg_materialize_routes X io9 ios ids db2 src q act now)"
        by (auto simp: Let_def split_beta)
      then show ?thesis using same_mat by blast
    qed
    from accept_appends [OF wf(3) ac] changed db' same
    have rows: "accepted_requests db' = accepted_requests db @ [accepted_request_row_of rq (Request_fingerprint X rq) t]" by simp
    from pg_authority_Inr [OF au [unfolded d(1)]] d(2) obtain grants e where g: "pg_matching_grants io db ?f now = Inr grants"
      "ad_facts d = ?f" "ad_decided_at d = now" "snd ev ?f grants = Inr e" "pe_verdict e = Allow"
      "decision_row_of d \<in> set (authority_decisions db1)" by auto
    have "decision_row_of d \<in> set (authority_decisions db')"
      using g(6) keeps_accept [of authority_decisions db1 io8 t rq "Request_fingerprint X rq"] db' by (simp add: ac keeps_def)
    with that [OF wf(1,2) rows] g d(2) wf(1) show thesis by simp
  qed
qed


section \<open>How a request is dispatched\<close>

lemma dispatch_cases:
  assumes "dispatch X J app clock s r = (s', resp)" and "pr_path r \<notin> {''/v1/enrollments/challenges'', ''/v1/enrollments''}"
  obtains (unchanged) "s' = s"
    | (rejected) g sr e where "as_governed r = Some g" and "into_signed X g = Inr sr" and "app_gate app s sr (clock 0) = (s', Inl e)"
    | (admitted) g sr s1 adm where "as_governed r = Some g" and "into_signed X g = Inr sr"
        and "is_supported_governed_method (pr_method r) (pr_path r)"
        and "app_gate app s sr (clock 0) = (s1, Inr adm)" and "governed_route X J app clock s1 r (asr_verified adm) = (s', resp)"
  using assms
  by (auto simp: dispatch_def authenticate_governed_request_def split: if_splits option.splits sum.splits prod.splits)

lemma keeps_dispatch_enrollment:
  assumes "pr_path r \<in> {''/v1/enrollments/challenges'', ''/v1/enrollments''}"
    and t: "\<And>s x. t (s\<lparr>service_enrollment_challenges := x\<rparr>) = t s" "\<And>s x. t (s\<lparr>service_instances := x\<rparr>) = t s"
    "\<And>s x. t (s\<lparr>service_instance_keys := x\<rparr>) = t s" "\<And>s x. t (s\<lparr>service_instance_registry_audit := x\<rparr>) = t s"
  shows "keeps t db (fst (pg_dispatch X J io ios env clock db r))"
  using assms(1) unfolding pg_dispatch_def dispatch_def
  by (intro keeps_intros) (auto intro!: keeps_enrollment_handlers simp: keeps_application_enrollment t)

text \<open>C1: A request is stored only on the word of an authenticated service and of the policy. If a
  dispatched HTTP request changes the accepted requests in any way, it is a POST to /v1/requests whose
  signed form the gate admitted; exactly one row was appended, under the signer's service ID and the
  signed request ID; the evaluator, given the live grants, allowed exactly the source, action, scope
  and schema versions of the stored request; and that decision is in the decision record.\<close>

theorem stored_request_was_authorized:
  assumes "pg_dispatch X J io ios env clock db r = (db', resp)" and "accepted_requests db' \<noteq> accepted_requests db"
  shows "\<exists>g sr db1 adm rq ev grants e d.
    pr_method r = ''POST'' \<and> path_of (pr_path r) = ''/v1/requests'' \<and>
    as_governed r = Some g \<and> into_signed X g = Inr sr \<and>
    pg_gate X (io 0) (io 1) (io 2) db sr (clock 0) = (db1, Inr adm) \<and>
    accepted_requests db' = accepted_requests db @ [accepted_request_row_of rq (Request_fingerprint X rq) (env_accepted_at env)] \<and>
    rq_source_service rq = ssr_service_id sr \<and> rq_id rq = RequestId (srp_request_id (ssr_parts sr)) \<and>
    env_evaluator env = Some ev \<and> pg_matching_grants (io 6) db1 (facts_of rq) (clock 1) = Inr grants \<and>
    snd ev (facts_of rq) grants = Inr e \<and> pe_verdict e = Allow \<and>
    ad_facts d = facts_of rq \<and> is_allowed d \<and> ad_decided_at d = clock 1 \<and>
    decision_row_of d \<in> set (authority_decisions db')"
proof -
  let ?app = "pg_application X io ios env"
  have path: "pr_path r \<notin> {''/v1/enrollments/challenges'', ''/v1/enrollments''}"
    using keeps_dispatch_enrollment [of r accepted_requests db X J io ios env clock] assms by (auto simp: keeps_def)
  from assms(1) [unfolded pg_dispatch_def] path show ?thesis
  proof (cases rule: dispatch_cases)
    case unchanged
    with assms(2) show ?thesis by simp
  next
    case (rejected g sr e)
    with assms(2) keeps_gate [of accepted_requests db X "io 0" "io 1" "io 2" sr "clock 0"] show ?thesis
      by (simp add: pg_application_simps keeps_def)
  next
    case (admitted g sr db1 adm)
    from admitted(4) have gate: "pg_gate X (io 0) (io 1) (io 2) db sr (clock 0) = (db1, Inr adm)"
      by (simp add: pg_application_simps)
    with keeps_gate [of accepted_requests db X "io 0" "io 1" "io 2" sr "clock 0"] have same: "accepted_requests db1 = accepted_requests db"
      by (simp add: keeps_def)
    have post: "pr_method r = ''POST''" "path_of (pr_path r) = ''/v1/requests''"
      using governed_route_requests [of r db1 X J io ios env clock "asr_verified adm"] admitted(5) assms(2) same
      by (auto simp: keeps_def)
    from admitted(5) assms(2) same obtain ev where ev: "env_evaluator env = Some ev"
      and sub: "submit_request X J (pg_authority (io 6) (io 7) (env_decision_id env) ev)
        (\<lambda>db. pg_request_accept (io 8) db (env_accepted_at env)) (pg_materialize_routes X (io 9) ios (env_route_ids env))
        (clock 1) db1 r (vsr_service_id (asr_verified adm)) (RequestId (vsr_request_id (asr_verified adm))) = (db', resp)"
      unfolding governed_submission [OF post] by (auto simp: pg_application_simps split: option.splits)
    from assms(2) same have "accepted_requests db' \<noteq> accepted_requests db1" by simp
    from submission_stores [OF sub this] obtain rq grants e d where
      "rq_source_service rq = vsr_service_id (asr_verified adm)" "rq_id rq = RequestId (vsr_request_id (asr_verified adm))"
      "accepted_requests db' = accepted_requests db1 @ [accepted_request_row_of rq (Request_fingerprint X rq) (env_accepted_at env)]"
      "pg_matching_grants (io 6) db1 (facts_of rq) (clock 1) = Inr grants"
      "snd ev (facts_of rq) grants = Inr e" "pe_verdict e = Allow" "ad_facts d = facts_of rq" "ad_decided_at d = clock 1"
      "is_allowed d" "decision_row_of d \<in> set (authority_decisions db')" .
    with post admitted(1,2) gate gate_verified [OF gate] same ev show ?thesis by (metis (no_types, lifting))
  qed
qed


text \<open>What the gate itself may write is left out of the comparison.\<close>

definition outside_gate :: "Db \<Rightarrow> Db" where
  "outside_gate db = db\<lparr>service_request_nonces := [], service_request_ids := [], service_request_replay_audit := []\<rparr>"

text \<open>C12: Outside enrollment nothing happens without admission. If a request to any other path changes
  anything beyond the gate's own replay tables, then it uses a method of a governed path, it carries a
  signed service request that the gate admitted, and the change is what the governed handler does for
  the identity the gate verified.\<close>

theorem no_effect_without_admission:
  assumes "pg_dispatch X J io ios env clock db r = (db', resp)" and "outside_gate db' \<noteq> outside_gate db"
    and "pr_path r \<notin> {''/v1/enrollments/challenges'', ''/v1/enrollments''}"
  shows "\<exists>g sr db1 adm. as_governed r = Some g \<and> into_signed X g = Inr sr \<and>
    is_supported_governed_method (pr_method r) (pr_path r) \<and>
    pg_gate X (io 0) (io 1) (io 2) db sr (clock 0) = (db1, Inr adm) \<and>
    governed_route X J (pg_application X io ios env) clock db1 r (asr_verified adm) = (db', resp)"
  using assms(1,3) [unfolded pg_dispatch_def]
proof (cases rule: dispatch_cases)
  case unchanged
  with assms(2) show ?thesis by simp
next
  case (rejected g sr e)
  have "keeps outside_gate db (fst (pg_gate X (io 0) (io 1) (io 2) db sr (clock 0)))"
    by (rule keeps_gate) (simp_all add: outside_gate_def)
  with rejected assms(2) show ?thesis by (simp add: pg_application_simps keeps_def)
next
  case (admitted g sr db1 adm)
  then show ?thesis by (auto simp: pg_application_simps)
qed


section \<open>Subscriptions\<close>

definition subscriptions_of :: "ActorId \<Rightarrow> Db \<Rightarrow> subscription_row list" where
  "subscriptions_of a db = filter (\<lambda>r. sbr_service_id r = a) (subscriptions db)"

lemma filter_update_where:
  assumes "\<And>x. c x \<Longrightarrow> \<not> Q x \<and> \<not> Q (f x)"
  shows "filter Q (update_where c f xs) = filter Q xs"
  using assms by (induction xs) (auto simp: update_where_def)

lemma keeps_foreign_subscriptions:
  assumes "a \<noteq> b"
  shows "keeps (subscriptions_of b) s (fst (SubscriptionService_create (pg_subscription_insert io) i s a e m n))"
    and "keeps (subscriptions_of b) s (fst (SubscriptionService_disable (pg_subscription_disable io) s a i' n))"
proof -
  have [simp]: "subscriptions_of b (s\<lparr>subscription_audit := x\<rparr>) = subscriptions_of b s" for s x
    by (simp add: subscriptions_of_def)
  have "sub_service_id sub = a" if "Subscription_create i a e m n = Inr sub" for sub
    using that by (auto simp: Subscription_create_def Subscription_restore_def split: if_splits)
  then have "keeps (subscriptions_of b) s (fst (pg_subscription_insert io s sub))" if "Subscription_create i a e m n = Inr sub" for sub
    using assms that unfolding pg_subscription_insert_def Let_def
    by (intro keeps_intros keeps_audits; simp add: keeps_def subscriptions_of_def subscription_row_of_def)
  then show "keeps (subscriptions_of b) s (fst (SubscriptionService_create (pg_subscription_insert io) i s a e m n))"
    unfolding SubscriptionService_create_def by (intro keeps_intros) simp_all
  have "filter (\<lambda>r. sbr_service_id r = b) (update_where (\<lambda>r. sbr_id r = i' \<and> sbr_service_id r = a \<and> active_row r \<and> sbr_created_at r \<le> n)
      (\<lambda>r. r\<lparr>sbr_disabled_at := Some n\<rparr>) xs) = filter (\<lambda>r. sbr_service_id r = b) xs" for xs
    using assms by (intro filter_update_where) simp
  then have "keeps (subscriptions_of b) s (fst (pg_subscription_disable io s a i' n))"
    unfolding pg_subscription_disable_def Let_def
    by (intro keeps_intros keeps_audits; simp add: keeps_def subscriptions_of_def)
  then show "keeps (subscriptions_of b) s (fst (SubscriptionService_disable (pg_subscription_disable io) s a i' n))"
    unfolding SubscriptionService_disable_def by (intro keeps_intros) simp_all
qed

text \<open>A subscription handler that goes on has a recorded decision that allows its action.\<close>

abbreviation subscription_facts :: "ActorId \<Rightarrow> string \<Rightarrow> PolicyFacts" where
  "subscription_facts a action \<equiv> for_request_acceptance a (ActionName action) Scope_wildcard no_artifact_schema_versions"

definition allowed_on_record :: "PolicyFacts \<Rightarrow> i64 \<Rightarrow> Db \<Rightarrow> bool" where
  "allowed_on_record facts now db \<longleftrightarrow>
     (\<exists>d. ad_facts d = facts \<and> is_allowed d \<and> ad_decided_at d = now \<and> decision_row_of d \<in> set (authority_decisions db))"

lemma check_authorized_None:
  assumes "check_authorized J (pg_authority io io' i ev) s a action now = (s', None)"
  shows "allowed_on_record (subscription_facts a action) now s'"
proof -
  obtain d where "pg_authority io io' i ev s (subscription_facts a action) now = (s', Inr d)" "is_allowed d"
    using assms by (auto simp: check_authorized_def authorize_subscription_action_def split: prod.splits sum.splits if_splits)
  with pg_authority_Inr show ?thesis by (fastforce simp: allowed_on_record_def)
qed

lemma check_authorized_keeps:
  "check_authorized J (pg_authority io io' i ev) s a action now = (s', x) \<Longrightarrow> subscriptions s' = subscriptions s"
  using keeps_check_authorized [where t = subscriptions and authority = "pg_authority io io' i ev" and s = s, OF keeps_authority,
      of J a action now]
  by (simp add: keeps_def)

lemma keeps_allowed: "keeps authority_decisions s s' \<Longrightarrow> allowed_on_record f n s \<Longrightarrow> allowed_on_record f n s'"
  by (simp add: keeps_def allowed_on_record_def)

lemma create_subscription_allowed:
  assumes run: "create_subscription X J (pg_authority io io' i ev) (SubscriptionService_create (pg_subscription_insert io8) si) n1 n2 s r a = (s', y)"
    and "subscriptions s' \<noteq> subscriptions s"
  shows "allowed_on_record (subscription_facts a ''subscription.create'') n1 s'"
proof -
  obtain s1 x where au: "check_authorized J (pg_authority io io' i ev) s a ''subscription.create'' n1 = (s1, x)" by fastforce
  note s1 = check_authorized_keeps [OF au]
  have x: "x = None" using run assms(2) au s1 unfolding create_subscription_def respond_def by (auto split: sum.splits option.splits)
  with run assms(2) au obtain e where "s' = fst (SubscriptionService_create (pg_subscription_insert io8) si s1 a e Inclusive n2)"
    unfolding create_subscription_def respond_def by (auto split: sum.splits prod.splits) (metis fst_conv)+
  then have "keeps authority_decisions s1 s'" using keeps_subscription_services(1) [of authority_decisions] by simp
  with check_authorized_None [OF au [unfolded x]] show ?thesis by (rule keeps_allowed [rotated])
qed

lemma disable_subscription_allowed:
  assumes run: "disable_subscription X J (pg_authority io io' i ev) (SubscriptionService_disable (pg_subscription_disable io8)) n1 n2 s t a = (s', y)"
    and "subscriptions s' \<noteq> subscriptions s"
  shows "allowed_on_record (subscription_facts a ''subscription.disable'') n1 s'"
proof -
  obtain s1 x where au: "check_authorized J (pg_authority io io' i ev) s a ''subscription.disable'' n1 = (s1, x)" by fastforce
  note s1 = check_authorized_keeps [OF au]
  have x: "x = None" using run assms(2) au s1 unfolding disable_subscription_def by (auto split: sum.splits option.splits)
  with run assms(2) au obtain k where "s' = fst (SubscriptionService_disable (pg_subscription_disable io8) s1 a k n2)"
    unfolding disable_subscription_def by (auto split: sum.splits prod.splits) (metis fst_conv)+
  then have "keeps authority_decisions s1 s'" using keeps_subscription_services(2) [of authority_decisions] by simp
  with check_authorized_None [OF au [unfolded x]] show ?thesis by (rule keeps_allowed [rotated])
qed


lemma subscription_route_allowed:
  assumes "subscription_route X J (pg_application X io ios env) (pg_authority i6 i7 did ev) clock s r a = (s', y)"
    and "subscriptions s' \<noteq> subscriptions s"
  shows "\<exists>action \<in> {''subscription.create'', ''subscription.disable''}. allowed_on_record (subscription_facts a action) (clock 1) s'"
proof -
  from assms have "(create_subscription X J (pg_authority i6 i7 did ev)
        (SubscriptionService_create (pg_subscription_insert (io 8)) (env_subscription_id env)) (clock 1) (clock 2) s r a = (s', y)) \<or>
      (\<exists>k. disable_subscription X J (pg_authority i6 i7 did ev)
        (SubscriptionService_disable (pg_subscription_disable (io 8))) (clock 1) (clock 2) s k a = (s', y))"
    unfolding subscription_route_def Let_def pg_application_simps by (auto split: if_splits option.splits)
  then show ?thesis
  proof
    assume "create_subscription X J (pg_authority i6 i7 did ev)
        (SubscriptionService_create (pg_subscription_insert (io 8)) (env_subscription_id env)) (clock 1) (clock 2) s r a = (s', y)"
    from create_subscription_allowed [OF this assms(2)] show ?thesis by blast
  next
    assume "\<exists>k. disable_subscription X J (pg_authority i6 i7 did ev)
        (SubscriptionService_disable (pg_subscription_disable (io 8))) (clock 1) (clock 2) s k a = (s', y)"
    then show ?thesis using disable_subscription_allowed [OF _ assms(2)] by blast
  qed
qed

lemma governed_subscription_route:
  assumes "path_of (pr_path r) = ''/v1/subscriptions'' @ rest"
  shows "governed_route X J app clock s r v =
    (case app_authority app of
       None \<Rightarrow> (s, error_response J ''503 Service Unavailable'' GE_internal_error)
     | Some authority \<Rightarrow> subscription_route X J app authority clock s r (vsr_service_id v))"
proof -
  have "between ''/v1/routes/'' x (''/v1/subscriptions'' @ rest) = None" "between ''/v1/claims/'' x (''/v1/subscriptions'' @ rest) = None" for x
    by (simp_all add: between_def)
  then show ?thesis using assms by (simp add: governed_route_def Let_def starts_with_def split: option.split)
qed

lemma governed_route_subscriptions:
  assumes "governed_route X J (pg_application X io ios env) clock s r v = (s', y)" and "subscriptions s' \<noteq> subscriptions s"
  obtains ev where "env_evaluator env = Some ev"
    and "subscription_route X J (pg_application X io ios env) (pg_authority (io 6) (io 7) (env_decision_id env) ev) clock s r (vsr_service_id v) = (s', y)"
proof -
  have req: "keeps subscriptions s (fst (request_route X J (pg_application X io ios env)
      (pg_authority (io 6) (io 7) (env_decision_id env) ev) clock s r a i))" for ev a i
    by (rule keeps_request_route) (simp_all add: pg_application_simps keeps_authority keeps_accept keeps_materialize_routes)
  have "\<exists>rest. path_of (pr_path r) = ''/v1/subscriptions'' @ rest"
  proof (rule ccontr)
    assume no: "\<not> ?thesis"
    have "path_of (pr_path r) \<noteq> ''/v1/subscriptions''" using no by (metis append.right_neutral)
    moreover have "strip_prefix ''/v1/subscriptions/'' (path_of (pr_path r)) = None"
    proof (rule ccontr)
      assume "strip_prefix ''/v1/subscriptions/'' (path_of (pr_path r)) \<noteq> None"
      then obtain t where "path_of (pr_path r) = ''/v1/subscriptions'' @ ''/'' @ t" by auto
      with no show False by blast
    qed
    ultimately have "fst (subscription_route X J (pg_application X io ios env) au clock s r a) = s" for au a
      by (simp add: subscription_route_def Let_def)
    then have "keeps subscriptions s (fst (governed_route X J (pg_application X io ios env) clock s r v))"
      by (intro keeps_governed_route) (simp_all add: req)
    with assms show False by (simp add: keeps_def)
  qed
  then obtain rest where path: "path_of (pr_path r) = ''/v1/subscriptions'' @ rest" ..
  from assms that show thesis
    unfolding governed_subscription_route [OF path] by (auto simp: pg_application_simps split: option.splits)
qed


text \<open>C11: A service's subscriptions are changed by that service alone, and only when allowed. If a
  dispatched request changes the subscriptions of a service, the gate admitted a request signed by
  that very service, and a decision that allows it to create or disable subscriptions is on record.\<close>

theorem subscription_change_was_authorized:
  assumes "pg_dispatch X J io ios env clock db r = (db', resp)" and "subscriptions_of b db' \<noteq> subscriptions_of b db"
  shows "\<exists>g sr db1 adm action.
    as_governed r = Some g \<and> into_signed X g = Inr sr \<and> ssr_service_id sr = b \<and>
    pg_gate X (io 0) (io 1) (io 2) db sr (clock 0) = (db1, Inr adm) \<and>
    action \<in> {''subscription.create'', ''subscription.disable''} \<and>
    allowed_on_record (subscription_facts b action) (clock 1) db'"
proof -
  have path: "pr_path r \<notin> {''/v1/enrollments/challenges'', ''/v1/enrollments''}"
    using keeps_dispatch_enrollment [of r "subscriptions_of b" db X J io ios env clock] assms
    by (auto simp: keeps_def subscriptions_of_def)
  from assms(1) [unfolded pg_dispatch_def] path show ?thesis
  proof (cases rule: dispatch_cases)
    case unchanged
    with assms(2) show ?thesis by simp
  next
    case (rejected g sr e)
    with assms(2) keeps_gate [of "subscriptions_of b" db X "io 0" "io 1" "io 2" sr "clock 0"] show ?thesis
      by (simp add: pg_application_simps keeps_def subscriptions_of_def)
  next
    case (admitted g sr db1 adm)
    from admitted(4) have gate: "pg_gate X (io 0) (io 1) (io 2) db sr (clock 0) = (db1, Inr adm)"
      by (simp add: pg_application_simps)
    with keeps_gate [of subscriptions db X "io 0" "io 1" "io 2" sr "clock 0"] have same: "subscriptions db1 = subscriptions db"
      by (simp add: keeps_def)
    then have "subscriptions db' \<noteq> subscriptions db1" using assms(2) by (auto simp: subscriptions_of_def)
    with admitted(5) obtain ev where run: "subscription_route X J (pg_application X io ios env)
        (pg_authority (io 6) (io 7) (env_decision_id env) ev) clock db1 r (vsr_service_id (asr_verified adm)) = (db', resp)"
      by (rule governed_route_subscriptions)
    have "keeps (subscriptions_of b) db1 db'" if "vsr_service_id (asr_verified adm) \<noteq> b"
    proof -
      have "keeps (subscriptions_of b) db1 (fst (subscription_route X J (pg_application X io ios env)
          (pg_authority (io 6) (io 7) (env_decision_id env) ev) clock db1 r (vsr_service_id (asr_verified adm))))"
        by (rule keeps_subscription_route)
          (simp_all add: pg_application_simps keeps_foreign_subscriptions [OF that] keeps_authority subscriptions_of_def)
      with run show ?thesis by simp
    qed
    with assms(2) same have "vsr_service_id (asr_verified adm) = b" by (auto simp: keeps_def subscriptions_of_def)
    with subscription_route_allowed [OF run \<open>subscriptions db' \<noteq> subscriptions db1\<close>] gate_verified [OF gate] admitted(1,2) gate
    show ?thesis by metis
  qed
qed


section \<open>Two concrete requests\<close>

text \<open>The application on the sample database, with an evaluator that allows, and two signed requests
  of the sample instance: one creates a subscription, one submits a request.\<close>

definition sample_serde :: Serde where
  "sample_serde = \<lparr>from_slice_challenge = (\<lambda>_. None), from_slice_enrollment = (\<lambda>_. None),
     from_slice_subscription = (\<lambda>_. Some \<lparr>csq_event_type = ''ledger.closed''\<rparr>),
     from_slice_submission = (\<lambda>_. Some \<lparr>srq_action = ''ledger.close'', srq_scope = ''invoice'',
        srq_artifact_schema_version_id = show_uuid (SchemaVersionId_as_uuid NO_ARTIFACT_SCHEMA_VERSION),
        srq_permission_policy_schema_version_id = show_uuid (SchemaVersionId_as_uuid NO_ARTIFACT_PERMISSION_POLICY_SCHEMA_VERSION)\<rparr>),
     from_slice_schema = (\<lambda>_. None), from_slice_claim = (\<lambda>_. None), from_slice_renew = (\<lambda>_. None),
     from_slice_fenced = (\<lambda>_. None), from_slice_renewal = (\<lambda>_. None), to_string = (\<lambda>_. None)\<rparr>"

definition always_allow :: "PolicyFacts \<Rightarrow> Grant list \<Rightarrow> AuthorityError + PolicyEvaluation" where
  "always_allow facts grants = Inr \<lparr>pe_verdict = Allow, pe_policy_bundle_version = PolicyBundleVersion ''v1''\<rparr>"

definition sample_env :: Environment where
  "sample_env = \<lparr>env_reviewer = Inl EE_ChallengeRejected, env_evaluator = Some (ActorId 0, always_allow),
     env_challenge = EnrollmentChallenge [], env_decision_id = DecisionId 80, env_schema_id = SchemaVersionId 81,
     env_subscription_id = SubscriptionId 82, env_claim_id = ClaimId 83, env_route_ids = (\<lambda>_. RouteId 84),
     env_accepted_at = 127, env_public_key = ic_public_key sample_credential\<rparr>"

definition parsed :: "SignedServiceRequest \<Rightarrow> ParsedRequest" where
  "parsed r = \<lparr>pr_method = srp_method (ssr_parts r), pr_path = srp_path_and_query (ssr_parts r),
     pr_authority = Some (srp_authority (ssr_parts r)), pr_content_type = Some (srp_content_type (ssr_parts r)),
     pr_content_digest = Some (ssr_content_digest r), pr_service_id = Some (ActorId_show sample_crates (ssr_service_id r)),
     pr_instance_id = Some (InstanceId_show sample_crates (ssr_instance_id r)),
     pr_request_id = Some (uuid_show sample_crates (srp_request_id (ssr_parts r))),
     pr_signature_input = Some (ssr_signature_input r), pr_signature = Some (ssr_signature r), pr_body = srp_body (ssr_parts r)\<rparr>"

lemma parsed_signed:
  assumes "parts_wf (ssr_parts r)"
  shows "\<exists>g. as_governed (parsed r) = Some g \<and> into_signed sample_crates g = Inr r"
  using into_signed_parsed [OF sample_crates_ok(1) assms] by (simp add: as_governed_def parsed_def)

definition submission_parts :: ServiceRequestParts where
  "submission_parts = sample_parts\<lparr>srp_path_and_query := ''/v1/requests''\<rparr>"

definition sample_submission :: SignedServiceRequest where
  "sample_submission = (case SignedServiceRequest_sign sample_crates submission_parts sample_credential 120 140 ''nonce-0123456789'' of
     Inr r \<Rightarrow> r | Inl _ \<Rightarrow> undefined)"

lemma submission_sign:
  "SignedServiceRequest_sign sample_crates submission_parts sample_credential 120 140 ''nonce-0123456789'' = Inr sample_submission"
  by (auto simp: sample_submission_def SignedServiceRequest_sign_def Let_def validate_signature_metadata_def
      MIN_NONCE_LENGTH_def MAX_NONCE_LENGTH_def SIGNATURE_VALIDITY_SECONDS_def str_simps split: sum.splits)

lemma sign_parts: "SignedServiceRequest_sign X p c a b n = Inr r \<Longrightarrow> ssr_parts r = p"
  by (auto simp: SignedServiceRequest_sign_def Let_def)

lemma submission_parts_of: "ssr_parts sample_submission = submission_parts"
  by (rule sign_parts [OF submission_sign])

lemma submission_gate:
  "\<exists>v db1 adm. pg_gate sample_crates no_faults no_faults no_faults sample_db sample_submission 125 = (db1, Inr adm) \<and>
     asr_verified adm = v \<and> vsr_service_id v = ActorId 2 \<and> vsr_request_id v = 90"
proof -
  have "find_eligible (pg_instance_find sample_crates no_faults) sample_db (InstanceId 10) 125 =
      Inr \<lparr>ri_public_key = ic_public_key sample_credential, ri_endpoint = ''https://ledger'', ri_registered_at = 100,
           ri_lease_expires_at = 160, ri_lease_revision = 1, ri_revoked_at = None\<rparr>" (is "_ = Inr ?inst")
    by code_simp
  moreover have "validate_signature_time 120 140 125 = Inr ()" by code_simp
  moreover have "srp_request_id submission_parts = 90" by (simp add: submission_parts_def sample_parts_def)
  moreover have "in_i64 120" "in_i64 140" by (simp_all add: in_i64_interval)
  ultimately have "pg_verify sample_crates no_faults sample_db sample_submission 125 =
    Inr \<lparr>vsr_service_id = ActorId 2, vsr_instance_id = InstanceId 10, vsr_key_id = KeyId 11, vsr_request_id = 90,
         vsr_created = 120, vsr_expires = 140, vsr_nonce_digest = sha256 sample_crates ''nonce-0123456789'',
         vsr_request_fingerprint = request_fingerprint sample_crates sample_submission\<rparr>"
    using signed_request_verifies [OF sample_crates_ok(1,4,5) sample_credential_def submission_sign, of 125
        "find_eligible (pg_instance_find sample_crates no_faults) sample_db" ?inst]
    by (simp add: pg_verify_def)
  then show ?thesis
    using sample_tables
    by (simp add: pg_gate_def ServiceRequestGate_admit_def ReplayProtectionService_protect_def
        ReplayReservation_from_verified_def pg_replay_reserve_def Let_def nonce_row_of_def service_request_nonces_check_def
        fk_def [of nonce_key] fk_def [of request_id_key] service_request_ids_check_def request_id_row_of_def request_id_key_def
        append_replay_audit_def replay_audit_check_def require_communication_def require_enabled_def pg_admission_find_def
        admission_from_row_def CommunicationAdmission_restore_def)
qed

text \<open>What the gate leaves of the sample database.\<close>

lemma gate_tables:
  assumes "pg_gate X io io' io'' db r now = (db1, y)"
  shows "identities db1 = identities db" "authority_schema_versions db1 = authority_schema_versions db"
    "authority_decisions db1 = authority_decisions db" "authority_grants db1 = authority_grants db"
    "subscriptions db1 = subscriptions db" "accepted_requests db1 = accepted_requests db"
  using keeps_gate [of identities db X io io' io'' r now] keeps_gate [of authority_schema_versions db X io io' io'' r now]
    keeps_gate [of authority_decisions db X io io' io'' r now] keeps_gate [of authority_grants db X io io' io'' r now]
    keeps_gate [of subscriptions db X io io' io'' r now] keeps_gate [of accepted_requests db X io io' io'' r now] assms
  by (simp_all add: keeps_def)


lemma sample_authority:
  assumes "identities db1 = identities sample_db" and "authority_schema_versions db1 = authority_schema_versions sample_db"
    and "authority_decisions db1 = []" and "authority_grants db1 = []" and "action \<in> {''subscription.create'', ''ledger.close''}"
    and "scope \<in> {Scope_wildcard, Scope ''invoice''}"
  shows "\<exists>d. pg_authority no_faults no_faults (DecisionId 80) (ActorId 0, always_allow) db1
    (for_request_acceptance (ActorId 2) (ActionName action) scope no_artifact_schema_versions) 126 =
      (db1\<lparr>authority_decisions := [decision_row_of d]\<rparr>, Inr d) \<and> is_allowed d"
proof -
  have "action_check ''subscription.create''" "action_check ''ledger.close''" by code_simp+
  then have "action_check action" using assms(5) by auto
  moreover have "scope_check ''invoice''" "scope_check ''*''" "sql_text ''v1''" "sql_text ''*''" "sql_text ''invoice''" by code_simp+
  moreover have "fk idr_id (identities sample_db) (ActorId 2)" "fk idr_id (identities sample_db) (ActorId 0)"
    "fk svw_schema_version_id (authority_schema_versions sample_db) NO_ARTIFACT_SCHEMA_VERSION"
    "fk svw_schema_version_id (authority_schema_versions sample_db) NO_ARTIFACT_PERMISSION_POLICY_SCHEMA_VERSION"
    by code_simp+
  ultimately show ?thesis
    using assms
    by (auto simp: pg_authority_def authorize_def Let_def pg_matching_grants_def always_allow_def pg_record_decision_def
        authority_decisions_check_def decision_row_of_def for_request_acceptance_def no_artifact_schema_versions_def
        is_allowed_def fk_def [of adr_decision_id] Scope_wildcard_def)
qed


definition sample_clock :: "nat \<Rightarrow> i64" where
  "sample_clock n = (if n = 0 then 125 else 126)"

definition run_sample :: "SignedServiceRequest \<Rightarrow> Db \<times> Response" where
  "run_sample r = pg_dispatch sample_crates sample_serde (\<lambda>_. no_faults) (\<lambda>_. no_faults) sample_env sample_clock sample_db (parsed r)"

lemma run_sample_admitted:
  assumes "parts_wf (ssr_parts r)" and "pg_gate sample_crates no_faults no_faults no_faults sample_db r 125 = (db1, Inr adm)"
    and "srp_method (ssr_parts r) = ''POST''" and "srp_path_and_query (ssr_parts r) \<in> {''/v1/subscriptions'', ''/v1/requests''}"
  shows "run_sample r = governed_route sample_crates sample_serde
    (pg_application sample_crates (\<lambda>_. no_faults) (\<lambda>_. no_faults) sample_env) sample_clock db1 (parsed r) (asr_verified adm)"
proof -
  obtain g where g: "as_governed (parsed r) = Some g" "into_signed sample_crates g = Inr r" using parsed_signed [OF assms(1)] by blast
  have "is_governed_route ''/v1/subscriptions''" "is_governed_route ''/v1/requests''"
    "is_supported_governed_method ''POST'' ''/v1/subscriptions''" "is_supported_governed_method ''POST'' ''/v1/requests''"
    by code_simp+
  with assms g show ?thesis
    by (auto simp: run_sample_def pg_dispatch_def dispatch_def authenticate_governed_request_def pg_application_simps
        sample_clock_def parsed_def)
qed

lemma created_subscriptions:
  "subscriptions (fst (run_sample (sample_request ''nonce-0123456789''))) = subscriptions sample_db @
     [\<lparr>sbr_id = SubscriptionId 82, sbr_service_id = ActorId 2, sbr_event_type = ''ledger.closed'',
       sbr_delivery_mode = ''inclusive'', sbr_created_at = 126, sbr_disabled_at = None\<rparr>]"
proof -
  let ?r = "sample_request ''nonce-0123456789''"
  have parts: "ssr_parts ?r = sample_parts" by (rule sign_parts [OF sample_sign]) simp
  note tables = gate_tables [OF sample_admit]
  have "authority_decisions sample_db = []" "authority_grants sample_db = []" by (simp_all add: sample_db_def empty_db_def)
  with tables sample_authority [of admitted_db "''subscription.create''" Scope_wildcard] obtain d where
    au: "pg_authority no_faults no_faults (DecisionId 80) (ActorId 0, always_allow) admitted_db
      (for_request_acceptance (ActorId 2) (ActionName ''subscription.create'') Scope_wildcard no_artifact_schema_versions) 126 =
      (admitted_db\<lparr>authority_decisions := [decision_row_of d]\<rparr>, Inr d)" "is_allowed d" by auto
  have wf: "parts_wf (ssr_parts ?r)" by (rule sample_parts_wf(1))
  have "run_sample ?r = governed_route sample_crates sample_serde
      (pg_application sample_crates (\<lambda>_. no_faults) (\<lambda>_. no_faults) sample_env) sample_clock admitted_db (parsed ?r)
      (asr_verified (sample_admitted ''nonce-0123456789'' Fresh))"
    by (rule run_sample_admitted [OF wf sample_admit]) (simp_all add: parts sample_parts_def)
  also have "\<dots> = subscription_route sample_crates sample_serde
      (pg_application sample_crates (\<lambda>_. no_faults) (\<lambda>_. no_faults) sample_env)
      (pg_authority no_faults no_faults (DecisionId 80) (ActorId 0, always_allow)) sample_clock admitted_db (parsed ?r) (ActorId 2)"
  proof -
    have "path_of ''/v1/subscriptions'' = ''/v1/subscriptions''" by code_simp
    then have path: "path_of (pr_path (parsed ?r)) = ''/v1/subscriptions'' @ []" by (simp add: parsed_def parts sample_parts_def)
    show ?thesis
      unfolding governed_subscription_route [OF path] by (simp add: pg_application_simps sample_env_def sample_admitted_def)
  qed
  also have "\<dots> = create_subscription sample_crates sample_serde
      (pg_authority no_faults no_faults (DecisionId 80) (ActorId 0, always_allow))
      (SubscriptionService_create (pg_subscription_insert no_faults) (SubscriptionId 82)) 126 126 admitted_db (parsed ?r) (ActorId 2)"
  proof -
    have "path_of ''/v1/subscriptions'' = ''/v1/subscriptions''" by code_simp
    then show ?thesis
      by (simp add: subscription_route_def parsed_def parts sample_parts_def pg_application_simps sample_clock_def sample_env_def)
  qed
  finally have run: "run_sample ?r = create_subscription sample_crates sample_serde
      (pg_authority no_faults no_faults (DecisionId 80) (ActorId 0, always_allow))
      (SubscriptionService_create (pg_subscription_insert no_faults) (SubscriptionId 82)) 126 126 admitted_db (parsed ?r) (ActorId 2)" .
  have body: "bind_result (json_body sample_serde (from_slice_subscription sample_serde) GE_invalid_subscription_request (parsed ?r))
      (\<lambda>dto. map_err (subscription_error_response sample_serde) (CreateSubscriptionRequest_event_type dto)) =
      Inr (EventType ''ledger.closed'')"
  proof -
    have "is_json_content_type ''application/json''" "EventType_new ''ledger.closed'' = Inr (EventType ''ledger.closed'')" by code_simp+
    then show ?thesis
      by (simp add: json_body_def has_json_content_def parsed_def parts sample_parts_def sample_serde_def CreateSubscriptionRequest_event_type_def)
  qed
  let ?sub = "\<lparr>sub_id = SubscriptionId 82, sub_service_id = ActorId 2, sub_event_type = EventType ''ledger.closed'',
      sub_delivery_mode = Inclusive, sub_created_at = 126, sub_disabled_at = None\<rparr>"
  have "Subscription_create (SubscriptionId 82) (ActorId 2) (EventType ''ledger.closed'') Inclusive 126 = Inr ?sub" by code_simp
  moreover have "subscriptions (fst (pg_subscription_insert no_faults (admitted_db\<lparr>authority_decisions := [decision_row_of d]\<rparr>) ?sub)) =
      subscriptions sample_db @ [(subscription_row_of ?sub)\<lparr>sbr_disabled_at := None\<rparr>]"
  proof -
    have "subscriptions_check ((subscription_row_of ?sub)\<lparr>sbr_disabled_at := None\<rparr>)" "sql_text ''ledger.closed''"
      "\<not> fk sbr_id (subscriptions sample_db) (SubscriptionId 82)" "fk idr_id (identities sample_db) (ActorId 2)"
      "\<not> list_ex (\<lambda>r. active_row r \<and> sbr_service_id r = ActorId 2 \<and> sbr_event_type r = ''ledger.closed'') (subscriptions sample_db)"
      by code_simp+
    then show ?thesis
      by (simp add: pg_subscription_insert_def Let_def tables subscription_row_of_def append_subscription_audit_def)
  qed
  ultimately show ?thesis
    unfolding run create_subscription_def body respond_simps check_authorized_def authorize_subscription_action_def
    by (auto simp: au SubscriptionService_create_def subscription_row_of_def split: prod.split sum.split)
qed


lemma stored_submission: "accepted_requests (fst (run_sample sample_submission)) \<noteq> accepted_requests sample_db"
proof -
  let ?r = sample_submission
  obtain db1 adm where gate: "pg_gate sample_crates no_faults no_faults no_faults sample_db ?r 125 = (db1, Inr adm)"
    and v: "vsr_service_id (asr_verified adm) = ActorId 2" "vsr_request_id (asr_verified adm) = 90"
    using submission_gate by blast
  note tables = gate_tables [OF gate]
  have "authority_decisions sample_db = []" "authority_grants sample_db = []" by (simp_all add: sample_db_def empty_db_def)
  with tables sample_authority [of db1 "''ledger.close''" "Scope ''invoice''"] obtain d where
    au: "pg_authority no_faults no_faults (DecisionId 80) (ActorId 0, always_allow) db1
      (for_request_acceptance (ActorId 2) (ActionName ''ledger.close'') (Scope ''invoice'') no_artifact_schema_versions) 126 =
      (db1\<lparr>authority_decisions := [decision_row_of d]\<rparr>, Inr d)" "is_allowed d" by auto
  have wf: "parts_wf (ssr_parts ?r)" unfolding submission_parts_of by code_simp
  have "path_of ''/v1/requests'' = ''/v1/requests''" by code_simp
  then have path: "pr_method (parsed ?r) = ''POST''" "path_of (pr_path (parsed ?r)) = ''/v1/requests''"
    by (simp_all add: parsed_def submission_parts_of submission_parts_def sample_parts_def)
  let ?submit = "submit_request sample_crates sample_serde (pg_authority no_faults no_faults (DecisionId 80) (ActorId 0, always_allow))
      (\<lambda>db. pg_request_accept no_faults db 127) (pg_materialize_routes sample_crates no_faults (\<lambda>_. no_faults) (\<lambda>_. RouteId 84))
      126 db1 (parsed ?r) (ActorId 2) (RequestId 90)"
  have "run_sample ?r = governed_route sample_crates sample_serde
      (pg_application sample_crates (\<lambda>_. no_faults) (\<lambda>_. no_faults) sample_env) sample_clock db1 (parsed ?r) (asr_verified adm)"
    by (rule run_sample_admitted [OF wf gate]) (simp_all add: submission_parts_of submission_parts_def sample_parts_def)
  also have "\<dots> = ?submit"
    unfolding governed_submission [OF path] by (simp add: pg_application_simps sample_env_def sample_clock_def v)
  finally have run: "run_sample ?r = ?submit" .
  let ?rq = "\<lparr>rq_id = RequestId 90, rq_source_service = ActorId 2, rq_action = ActionName ''ledger.close'', rq_scope = Scope ''invoice'',
      rq_schema_versions = no_artifact_schema_versions\<rparr>"
  have body: "bind_result (json_body sample_serde (from_slice_submission sample_serde) GE_invalid_request (parsed ?r))
      (\<lambda>dto. map_err (\<lambda>_. error_response sample_serde ''400 Bad Request'' GE_invalid_request)
        (SubmitRequestRequest_into_request sample_crates dto (ActorId 2) (RequestId 90))) = Inr ?rq"
  proof -
    have "is_json_content_type ''application/json''" "Scope_new ''invoice'' = Inr (Scope ''invoice'')"
      "ActionName_new ''ledger.close'' = Inr (ActionName ''ledger.close'')" by code_simp+
    moreover have "uuid_parse sample_crates (show_uuid u) = Some u" for u
      using sample_crates_ok(1) by (simp add: uuid_text_ok_def sample_crates_def)
    ultimately show ?thesis
      by (simp add: json_body_def has_json_content_def parsed_def submission_parts_of submission_parts_def sample_parts_def sample_serde_def
          SubmitRequestRequest_into_request_def SchemaVersionId_from_str_def Request_restore_def no_artifact_schema_versions_def
          NO_ARTIFACT_SCHEMA_VERSION_def NO_ARTIFACT_PERMISSION_POLICY_SCHEMA_VERSION_def)
  qed
  let ?f = "Request_fingerprint sample_crates ?rq"
  let ?row = "accepted_request_row_of ?rq ?f 127"
  obtain db2 y where ac: "pg_request_accept no_faults (db1\<lparr>authority_decisions := [decision_row_of d]\<rparr>) 127 ?rq ?f = (db2, y)" by fastforce
  have len: "length (RequestFingerprint_as_bytes ?f) = 32" using sample_crates_ok(3) by (simp add: Request_fingerprint_def sha256_ok_def)
  have "accepted_requests db2 = accepted_requests sample_db @ [?row]"
  proof -
    have "action_check ''ledger.close''" "scope_check ''invoice''" "sql_text ''ledger.close''" "sql_text ''invoice''"
      "Scope_new ''invoice'' = Inr (Scope ''invoice'')" "ActionName_new ''ledger.close'' = Inr (ActionName ''ledger.close'')"
      "\<not> fk request_key (accepted_requests sample_db) (ActorId 2, RequestId 90)"
      "fk idr_id (identities sample_db) (ActorId 2)"
      "fk svw_schema_version_id (authority_schema_versions sample_db) NO_ARTIFACT_SCHEMA_VERSION"
      "fk svw_schema_version_id (authority_schema_versions sample_db) NO_ARTIFACT_PERMISSION_POLICY_SCHEMA_VERSION"
      by code_simp+
    with len have "accepted_requests (fst (pg_request_accept no_faults (db1\<lparr>authority_decisions := [decision_row_of d]\<rparr>) 127 ?rq ?f)) =
        accepted_requests sample_db @ [?row]"
      by (simp add: pg_request_accept_def Let_def tables accepted_requests_check_def request_reference_error_def
          accepted_request_from_row_def accepted_request_row_of_def Request_restore_def AcceptedRequest_restore_def
          append_acceptance_audit_def no_artifact_schema_versions_def fk_iff ActionName_new_def request_key_def)
    with ac show ?thesis by simp
  qed
  moreover have "accepted_requests (fst (pg_materialize_routes X io ios ids s src q act now)) = accepted_requests s" for X io ios ids s src q act now
    using keeps_materialize_routes [of accepted_requests s X io ios ids src q act now] by (simp add: keeps_def)
  ultimately show ?thesis
    unfolding run submit_request_def body respond_simps
    by (auto simp: au ac Let_def split_beta split: sum.split RequestAcceptance.split)
qed

theorem stored_request_was_authorized_witness:
  "\<exists>g. as_governed (parsed sample_submission) = Some g \<and> pr_method (parsed sample_submission) = ''POST''"
proof -
  have "pg_dispatch sample_crates sample_serde (\<lambda>_. no_faults) (\<lambda>_. no_faults) sample_env sample_clock sample_db (parsed sample_submission) =
      (fst (run_sample sample_submission), snd (run_sample sample_submission))"
    by (simp add: run_sample_def)
  from stored_request_was_authorized [OF this stored_submission] show ?thesis by blast
qed

lemma created_subscription_differs:
  "subscriptions_of (ActorId 2) (fst (run_sample (sample_request ''nonce-0123456789''))) \<noteq> subscriptions_of (ActorId 2) sample_db"
  by (simp add: subscriptions_of_def created_subscriptions)

theorem no_effect_without_admission_witness:
  "is_supported_governed_method (pr_method (parsed (sample_request ''nonce-0123456789''))) (pr_path (parsed (sample_request ''nonce-0123456789'')))"
proof -
  let ?r = "sample_request ''nonce-0123456789''"
  have run: "pg_dispatch sample_crates sample_serde (\<lambda>_. no_faults) (\<lambda>_. no_faults) sample_env sample_clock sample_db (parsed ?r) =
      (fst (run_sample ?r), snd (run_sample ?r))"
    by (simp add: run_sample_def)
  have "subscriptions (outside_gate (fst (run_sample ?r))) \<noteq> subscriptions (outside_gate sample_db)"
    by (simp add: outside_gate_def created_subscriptions)
  then have "outside_gate (fst (run_sample ?r)) \<noteq> outside_gate sample_db" by metis
  moreover have "pr_path (parsed ?r) \<notin> {''/v1/enrollments/challenges'', ''/v1/enrollments''}"
    using sign_parts [OF sample_sign [of "''nonce-0123456789''"]] by (simp add: parsed_def sample_parts_def)
  ultimately show ?thesis using no_effect_without_admission [OF run] by blast
qed

theorem subscription_change_was_authorized_witness:
  "\<exists>action. allowed_on_record (subscription_facts (ActorId 2) action) 126 (fst (run_sample (sample_request ''nonce-0123456789'')))"
proof -
  let ?r = "sample_request ''nonce-0123456789''"
  have "pg_dispatch sample_crates sample_serde (\<lambda>_. no_faults) (\<lambda>_. no_faults) sample_env sample_clock sample_db (parsed ?r) =
      (fst (run_sample ?r), snd (run_sample ?r))"
    by (simp add: run_sample_def)
  from subscription_change_was_authorized [OF this created_subscription_differs] show ?thesis
    by (auto simp: sample_clock_def)
qed


section \<open>The wire\<close>

lemma sign_shape:
  assumes "SignedServiceRequest_sign X p c cr ex n = Inr r"
  shows "ssr_parts r = p \<and> ssr_content_digest r = content_digest X (srp_body p) \<and>
    ssr_service_id r = ipk_service_id (ic_public_key c) \<and> ssr_instance_id r = ipk_instance_id (ic_public_key c) \<and>
    ssr_signature_input r = SIGNATURE_LABEL @ ''='' @ signature_parameters X cr ex n (ipk_key_id (ic_public_key c)) \<and>
    (\<exists>m. ssr_signature r = SIGNATURE_LABEL @ ''=:'' @ b64_encode X (ed_sign X (ic_signing_key c) m) @ '':'')"
  using assms by (auto simp: SignedServiceRequest_sign_def Let_def InstanceCredential_sign_def)

lemma length_letters_encode: "length (letters_encode b) = 2 * length b"
  by (induction b) simp_all

lemma sample_head_length:
  assumes "n \<in> {''nonce-0123456789'', ''nonce-abcdefghij''}"
  shows "length (governed_head sample_crates (sample_request n)) + 3 \<le> MAX_HEADER_BYTES"
proof -
  have "length (show_nat (length ''{}'')) = 1" "length (show_uuid 2) = 1" "length (show_uuid 10) = 2" "length (show_uuid 90) = 2"
    "length (show_uuid 11) = 2" "length (show_i64 120) = 3" "length (show_i64 140) = 3" by code_simp+
  moreover have "length (b64_encode sample_crates (ed_sign sample_crates k m)) = 128" "length (content_digest sample_crates ''{}'') \<le> 100" for k m
    by (simp_all add: sample_crates_defs length_letters_encode content_digest_def)
  moreover have "ic_public_key sample_credential = \<lparr>ipk_service_id = ActorId 2, ipk_instance_id = InstanceId 10,
      ipk_key_id = KeyId 11, ipk_public_key = ed_public sample_crates (replicate 32 (CHR 0x07))\<rparr>"
    by (simp add: sample_credential_def InstanceCredential_generate_def)
  moreover note sign_shape [OF sample_sign [OF assms]]
  moreover have "uuid_show sample_crates = show_uuid" by (simp add: sample_crates_def)
  moreover have "length n = 16" using assms by auto
  ultimately show ?thesis
    by (auto simp: wire_text_def governed_fields_def sample_parts_def COVERED_COMPONENTS_def
        signature_parameters_def SIGNATURE_LABEL_def ActorId_show_def InstanceId_show_def KeyId_show_def MAX_HEADER_BYTES_def CRLF_def)
qed

lemma sample_wire:
  assumes "n \<in> {''nonce-0123456789'', ''nonce-abcdefghij''}"
  shows "\<exists>p g. read_request [Data (governed_wire sample_crates (sample_request n))] = Inr p \<and>
     as_governed p = Some g \<and> into_signed sample_crates g = Inr (sample_request n)"
proof (rule signed_request_read_back [OF sample_crates_ok(1,5) _ _ sample_sign [OF assms]])
  show "uuid_show sample_crates u \<noteq> []" for u by (simp add: sample_crates_def show_uuid_def show_nat_not_Nil)
  show "parts_wf sample_parts" by code_simp
  have "governed_wire sample_crates r \<noteq> []" for r by (simp add: governed_wire_def CRLF_def)
  then show "intact [Data (governed_wire sample_crates (sample_request n))]" by simp
  show "arriving [Data (governed_wire sample_crates (sample_request n))] = governed_wire sample_crates (sample_request n)" by simp
  show "length (governed_head sample_crates (sample_request n)) + 3 \<le> MAX_HEADER_BYTES"
    using assms by (rule sample_head_length)
qed (simp_all add: sample_parts_def MAX_ENROLLMENT_BODY_BYTES_def)

text \<open>C22: A signed request arrives as it was signed. Written on the wire as one HTTP/1.1 request, with a
  header shorter than the limit and a body within it, and cut into segments in any way, it is read,
  and the signed request the server builds from the parsed fields is the one that was signed.\<close>

theorem signed_request_survives_the_wire:
  assumes "uuid_text_ok X" and "base64_ok X" and "\<And>u. uuid_show X u \<noteq> []" and "parts_wf parts"
    and "SignedServiceRequest_sign X parts credential created expires nonce = Inr r"
    and "intact s" and "arriving s = governed_wire X r"
    and "length (governed_head X r) + 3 \<le> MAX_HEADER_BYTES"
    and "length (srp_body parts) \<le> MAX_ENROLLMENT_BODY_BYTES" and "srp_path_and_query parts \<noteq> ''/v1/enrollments''"
  shows "\<exists>p g. read_request s = Inr p \<and> as_governed p = Some g \<and> into_signed X g = Inr r"
  by (rule signed_request_read_back [OF assms])

theorem signed_request_survives_the_wire_witness:
  "\<exists>p g. read_request [Data (governed_wire sample_crates (sample_request ''nonce-0123456789''))] = Inr p \<and>
     as_governed p = Some g \<and> into_signed sample_crates g = Inr (sample_request ''nonce-0123456789'')"
proof (rule signed_request_survives_the_wire [OF sample_crates_ok(1,5)])
  show "uuid_show sample_crates u \<noteq> []" for u by (simp add: sample_crates_def show_uuid_def show_nat_not_Nil)
  show "parts_wf sample_parts" by code_simp
  show "SignedServiceRequest_sign sample_crates sample_parts sample_credential 120 140 ''nonce-0123456789'' =
      Inr (sample_request ''nonce-0123456789'')"
    by (rule sample_sign) simp
  have "sample_parts = ssr_parts (sample_request ''nonce-0123456789'')" using sign_parts [OF sample_sign] by simp
  have "governed_wire sample_crates r \<noteq> []" for r by (simp add: governed_wire_def CRLF_def)
  then show "intact [Data (governed_wire sample_crates (sample_request ''nonce-0123456789''))]" by simp
  show "arriving [Data (governed_wire sample_crates (sample_request ''nonce-0123456789''))] =
      governed_wire sample_crates (sample_request ''nonce-0123456789'')"
    by simp
  show "length (governed_head sample_crates (sample_request ''nonce-0123456789'')) + 3 \<le> MAX_HEADER_BYTES"
    by (rule sample_head_length) simp
qed (simp_all add: sample_parts_def MAX_ENROLLMENT_BODY_BYTES_def)


section \<open>Enrollment submissions\<close>

lemma enrollment_field_again: "enrollment_field v n = Inr s \<Longrightarrow> enrollment_field s n = Inr s"
  by (auto simp: enrollment_field_def Let_def split: if_splits)

lemma enrollment_endpoint_again: "enrollment_endpoint v = Inr s \<Longrightarrow> enrollment_endpoint s = Inr s"
  by (auto simp: enrollment_endpoint_def dest: enrollment_field_again split: if_splits)

text \<open>An enrollment submission says what was signed. The body a workload builds with a generated
  credential for a challenge is read back as exactly the enrollment request it signed, through the
  textual identifiers and URL-safe base64 of every binary field, with the validation of the fields
  passed a second time.\<close>

theorem enrollment_submission_round_trip:
  assumes "uuid_text_ok X" and "base64url_ok X" and "ed25519_ok X" and "length challenge = 32"
    and "EnrollmentSubmissionRequest_sign X (InstanceCredential_generate X sk i k a) (EnrollmentChallenge challenge)
      endpoint pod token = Inr d"
  shows "\<exists>r. EnrollmentRequest_sign X (InstanceCredential_generate X sk i k a) (EnrollmentChallenge challenge) endpoint pod token = Inr r \<and>
    EnrollmentSubmissionRequest_into_domain X d = Inr r"
proof -
  define c where "c = InstanceCredential_generate X sk i k a"
  from assms(5) obtain r where r: "EnrollmentRequest_sign X c (EnrollmentChallenge challenge) endpoint pod token = Inr r"
    and d: "d = EnrollmentSubmissionRequest_from_domain X r"
    by (auto simp: EnrollmentSubmissionRequest_sign_def c_def)
  from r have f: "enrollment_endpoint (er_endpoint r) = Inr (er_endpoint r)"
    "enrollment_field (er_claimed_pod_uid r) MAX_UID_LENGTH = Inr (er_claimed_pod_uid r)"
    "er_workload_token r \<noteq> []" "length (er_workload_token r) \<le> MAX_TOKEN_LENGTH"
    "er_challenge r = EnrollmentChallenge challenge" "er_public_key r = ic_public_key c"
    "\<exists>m. er_signature r = InstanceCredential_sign X c m"
    by (auto simp: EnrollmentRequest_sign_def Let_def dest: enrollment_field_again enrollment_endpoint_again split: if_splits)
  have key: "length (ipk_public_key (er_public_key r)) = PUBLIC_KEY_LENGTH" "public_key_wf X (er_public_key r)"
    and sig: "length (InstanceSignature_as_bytes (er_signature r)) = SIGNATURE_LENGTH"
    using assms(3) f(6,7)
    by (auto simp: c_def InstanceCredential_generate_def InstanceCredential_sign_def ed25519_ok_def public_key_wf_def
        PUBLIC_KEY_LENGTH_def SIGNATURE_LENGTH_def)
  have id: "ActorId_from_str X (ActorId_show X x) = Inr x" "InstanceId_from_str X (InstanceId_show X y) = Inr y"
    "KeyId_from_str X (KeyId_show X z) = Inr z" for x y z
    using assms(1) by (cases x; cases y; cases z; simp add: ActorId_from_str_def ActorId_show_def InstanceId_from_str_def
        InstanceId_show_def KeyId_from_str_def KeyId_show_def uuid_text_ok_def)+
  have "decode_fixed X 32 (b64url_encode X challenge) = Inr challenge"
    "decode_fixed X PUBLIC_KEY_LENGTH (b64url_encode X (ipk_public_key (er_public_key r))) = Inr (ipk_public_key (er_public_key r))"
    "decode_fixed X SIGNATURE_LENGTH (b64url_encode X (InstanceSignature_as_bytes (er_signature r))) =
       Inr (InstanceSignature_as_bytes (er_signature r))"
    using decode_fixed_encode [OF assms(2)] assms(4) key(1) sig by blast+
  moreover have "EnrollmentRequest_restore (EnrollmentChallenge challenge) (er_public_key r) (er_endpoint r) (er_claimed_pod_uid r)
      (er_workload_token r) (er_signature r) = Inr r"
    using f by (simp add: EnrollmentRequest_restore_def)
  moreover have "InstanceSignature (InstanceSignature_as_bytes (er_signature r)) = er_signature r"
    by (cases "er_signature r") simp
  ultimately have "EnrollmentSubmissionRequest_into_domain X d = Inr r"
    using f(5) key(2) id by (simp add: EnrollmentSubmissionRequest_into_domain_def d EnrollmentSubmissionRequest_from_domain_def)
  with r show ?thesis unfolding c_def by blast
qed


section \<open>Claim actions\<close>

text \<open>A claim is acted on by whoever knows its ID and fencing token. Once a request is admitted,
  what renew, release and complete of a claim do and answer does not depend on the service or the
  instance that signed it.\<close>

theorem claim_actions_ignore_caller:
  assumes "action \<in> {''/renew'', ''/release'', ''/complete''}" and "between ''/v1/claims/'' action (path_of (pr_path r)) = Some i"
  shows "governed_route X J app clock s r v = governed_route X J app clock s r w"
proof -
  define p where "p = path_of (pr_path r)"
  from assms(2) obtain rest where rest: "p = ''/v1/claims/'' @ rest"
    by (auto simp: between_def bind_eq_Some_conv p_def)
  then have p: "p \<noteq> ''/v1/authority/schemas''" "p \<noteq> ''/v1/routes/eligible''" "between ''/v1/routes/'' x p = None" for x
    by (simp_all add: between_def)
  have "between ''/v1/claims/'' ''/renew'' p \<noteq> None \<or> between ''/v1/claims/'' ''/release'' p \<noteq> None \<or>
      between ''/v1/claims/'' ''/complete'' p \<noteq> None"
    using assms unfolding p_def [symmetric] by fastforce
  then show ?thesis
    unfolding governed_route_def Let_def p_def [symmetric]
    by (simp only: p if_False option.case) (cases "between ''/v1/claims/'' ''/renew'' p"; cases "between ''/v1/claims/'' ''/release'' p";
        cases "between ''/v1/claims/'' ''/complete'' p"; simp only: option.case simp_thms option.distinct)
qed

theorem enrollment_submission_round_trip_witness:
  "\<exists>d r. EnrollmentSubmissionRequest_sign sample_crates (InstanceCredential_generate sample_crates (replicate 32 (CHR 0x07)) (InstanceId 10) (KeyId 11) (ActorId 2))
      (EnrollmentChallenge (replicate 32 (CHR 0x01))) ''https://ledger'' ''pod'' ''token'' = Inr d \<and>
     EnrollmentSubmissionRequest_into_domain sample_crates d = Inr r"
proof -
  have "base64url_ok sample_crates" by (simp add: base64url_ok_def sample_crates_def letters_decode_encode)
  note ok = sample_crates_ok(1) this sample_crates_ok(4)
  obtain d where d: "EnrollmentSubmissionRequest_sign sample_crates (InstanceCredential_generate sample_crates (replicate 32 (CHR 0x07)) (InstanceId 10) (KeyId 11) (ActorId 2))
      (EnrollmentChallenge (replicate 32 (CHR 0x01))) ''https://ledger'' ''pod'' ''token'' = Inr d"
  proof -
    have "enrollment_endpoint ''https://ledger'' = Inr ''https://ledger''" "enrollment_field ''pod'' MAX_UID_LENGTH = Inr ''pod''"
      "length ''token'' \<le> MAX_TOKEN_LENGTH" by code_simp+
    then show thesis using that by (simp add: EnrollmentSubmissionRequest_sign_def EnrollmentRequest_sign_def Let_def)
  qed
  with enrollment_submission_round_trip [OF ok _ d] show ?thesis by auto
qed

definition verified_caller :: "ActorId \<Rightarrow> VerifiedServiceRequest" where
  "verified_caller a = \<lparr>vsr_service_id = a, vsr_instance_id = InstanceId 10, vsr_key_id = KeyId 11, vsr_request_id = 90,
     vsr_created = 120, vsr_expires = 140, vsr_nonce_digest = [], vsr_request_fingerprint = []\<rparr>"

theorem claim_actions_ignore_caller_witness:
  "governed_route sample_crates sample_serde (pg_application sample_crates (\<lambda>_. no_faults) (\<lambda>_. no_faults) sample_env)
     sample_clock sample_db (parsed (sample_request ''nonce-0123456789'')\<lparr>pr_path := ''/v1/claims/7/renew''\<rparr>)
     (verified_caller (ActorId 1)) =
   governed_route sample_crates sample_serde (pg_application sample_crates (\<lambda>_. no_faults) (\<lambda>_. no_faults) sample_env)
     sample_clock sample_db (parsed (sample_request ''nonce-0123456789'')\<lparr>pr_path := ''/v1/claims/7/renew''\<rparr>)
     (verified_caller (ActorId 2))"
proof -
  have "between ''/v1/claims/'' ''/renew'' (path_of ''/v1/claims/7/renew'') = Some ''7''" by code_simp
  then show ?thesis by (intro claim_actions_ignore_caller [where action = "''/renew''" and i = "''7''"]) simp_all
qed

end
