(* ===== verification/Http_Answers.thy ===== *)
theory Http_Answers
  imports Http_Dispatch
begin

text \<open>
  The answers of the HTTP layer, for every application: each is a success with a body made from domain
  values, one of a few plain texts, a status with a constant body, or the constant answer to a body that
  cannot be written as JSON. And no text that a lower layer puts into an error reaches the caller: erasing
  them all changes no byte of any answer.
\<close>

section \<open>Responses\<close>

text \<open>The successes: the status, and a body made from a value of the domain.\<close>

inductive success_answer :: "Crates \<Rightarrow> string \<Rightarrow> ResponseBody \<Rightarrow> bool" for X where
  sa_identity: "success_answer X ''200 OK'' (RB_KernelIdentity (KernelIdentityResponse_from X key))"
| sa_challenge: "EnrollmentChallengeResponse_new X service challenge now = Inr body \<Longrightarrow>
    success_answer X ''201 Created'' (RB_EnrollmentChallenge body)"
| sa_enrolled: "success_answer X ''201 Created'' (RB_Instance (EnrollmentSuccessResponse_from X instance))"
| sa_renewed: "success_answer X ''200 OK'' (RB_Instance (EnrollmentSuccessResponse_from X instance))"
| sa_created: "success_answer X ''201 Created'' (RB_Subscription (SubscriptionResponse_from X subscription))"
| sa_disabled: "success_answer X ''200 OK'' (RB_Subscription (SubscriptionResponse_from X subscription))"
| sa_listed: "success_answer X ''200 OK''
    (RB_Subscriptions \<lparr>slp_subscriptions = map (SubscriptionResponse_from X) values\<rparr>)"
| sa_accepted: "success_answer X ''201 Created'' (RB_Request (AcceptedRequestResponse_from X record))"
| sa_request: "success_answer X ''200 OK'' (RB_Request (AcceptedRequestResponse_from X record))"
| sa_schema: "success_answer X ''201 Created'' (RB_Schema (SchemaVersionResponse_from X schema))"
| sa_routes: "success_answer X ''200 OK'' (RB_Routes \<lparr>erl_routes = map (RouteResponse_from X) routes\<rparr>)"
| sa_claimed: "success_answer X ''201 Created'' (RB_Claim (WorkClaimResponse_from X claim))"
| sa_claim: "success_answer X ''200 OK'' (RB_Claim (WorkClaimResponse_from X claim))"

declare success_answer.intros [simp, intro]

text \<open>Every error the HTTP layer answers with: a status and a constant body.\<close>

definition error_answers :: "(string \<times> ResponseBody) list" where
  "error_answers =
     map (\<lambda>e. (''400 Bad Request'', RB_Error e))
      [GE_invalid_subscription_request, GE_invalid_instance_renewal_request, GE_invalid_schema_request,
       GE_invalid_request, GE_invalid_work_claim_request, GE_invalid_route_id] @
     map (\<lambda>e. (''415 Unsupported Media Type'', RB_Error e))
      [GE_invalid_subscription_request, GE_invalid_instance_renewal_request, GE_invalid_schema_request,
       GE_invalid_request, GE_invalid_work_claim_request] @
     map (\<lambda>e. (''401 Unauthorized'', RB_Error e))
      [GE_authentication_rejected] @
     map (\<lambda>e. (''403 Forbidden'', RB_Error e))
      [GE_communication_disabled, GE_subscription_not_authorized, GE_request_not_authorized] @
     map (\<lambda>e. (''404 Not Found'', RB_Error e))
      [GE_subscription_not_found, GE_instance_not_found, GE_request_not_found, GE_claim_not_found] @
     map (\<lambda>e. (''409 Conflict'', RB_Error e))
      [GE_subscription_conflict, GE_instance_lease_conflict, GE_schema_namespace_conflict,
       GE_request_conflict, GE_route_already_claimed, GE_route_already_completed, GE_claim_fenced] @
     map (\<lambda>e. (''503 Service Unavailable'', RB_Error e))
      [GE_unavailable, GE_internal_error] @
     map (\<lambda>status. (status, RB_EnrollmentError EnrollmentErrorResponse_malformed_request))
       [''400 Bad Request'', ''413 Payload Too Large'', ''415 Unsupported Media Type'', ''503 Service Unavailable''] @
     [(''401 Unauthorized'', RB_EnrollmentError (from_enrollment_error EE_ChallengeRejected)),
      (''503 Service Unavailable'', RB_EnrollmentError (from_enrollment_error EE_ChallengeRejected)),
      (''503 Service Unavailable'', RB_EnrollmentError (from_enrollment_error (EE_Repository []))),
      (''400 Bad Request'', RB_Malformed MalformedRequestResponse_malformed),
      (''413 Payload Too Large'', RB_Malformed MalformedRequestResponse_payload_too_large)]"

text \<open>The answer when \<open>serde_json\<close> cannot write a body.\<close>

definition serialization_failed :: Response where
  "serialization_failed =
     \<lparr>rs_status = ''500 Internal Server Error'', rs_content_type = ''application/json'',
      rs_body = ''{\"code\":\"internal_error\",\"message\":\"response serialization failed\"}'' @ [newline]\<rparr>"

definition text_responses :: "Response list" where
  "text_responses = [method_not_allowed, route ''/'', route ''/health/live'', not_found, readiness_response True, readiness_response False]"

definition response_fixed :: "Crates \<Rightarrow> Serde \<Rightarrow> Response \<Rightarrow> bool" where
  "response_fixed X J r \<longleftrightarrow>
     (\<exists>status v. (success_answer X status v \<or> (status, v) \<in> set error_answers) \<and>
        (case to_string J v of
           Some text \<Rightarrow> r = \<lparr>rs_status = status, rs_content_type = ''application/json'', rs_body = text @ [newline]\<rparr>
         | None \<Rightarrow> r = serialization_failed)) \<or>
     r \<in> set text_responses"

named_theorems fixed_intros \<open>responses of the fixed shapes\<close>

lemma response_fixed_json:
  "success_answer X status v \<or> (status, v) \<in> set error_answers \<Longrightarrow> response_fixed X J (json_response J status v)"
  unfolding response_fixed_def
  by (intro disjI1 exI [of _ status] exI [of _ v])
    (simp add: json_response_def serialization_failed_def split: option.split)

lemma response_fixed_success [simp]: "success_answer X status v \<Longrightarrow> response_fixed X J (json_response J status v)"
  by (simp add: response_fixed_json)

lemma response_fixed_error: "(status, RB_Error e) \<in> set error_answers \<Longrightarrow> response_fixed X J (error_response J status e)"
  by (simp add: response_fixed_json error_response_def)

lemma response_fixed_enrollment:
  "(status, RB_EnrollmentError e) \<in> set error_answers \<Longrightarrow> response_fixed X J (json_error J status e)"
  by (simp add: response_fixed_json json_error_def)

lemma error_answer [simp]:
  "(''400 Bad Request'', RB_Error GE_invalid_subscription_request) \<in> set error_answers"
  "(''400 Bad Request'', RB_Error GE_invalid_instance_renewal_request) \<in> set error_answers"
  "(''400 Bad Request'', RB_Error GE_invalid_schema_request) \<in> set error_answers"
  "(''400 Bad Request'', RB_Error GE_invalid_request) \<in> set error_answers"
  "(''400 Bad Request'', RB_Error GE_invalid_work_claim_request) \<in> set error_answers"
  "(''400 Bad Request'', RB_Error GE_invalid_route_id) \<in> set error_answers"
  "(''415 Unsupported Media Type'', RB_Error GE_invalid_subscription_request) \<in> set error_answers"
  "(''415 Unsupported Media Type'', RB_Error GE_invalid_instance_renewal_request) \<in> set error_answers"
  "(''415 Unsupported Media Type'', RB_Error GE_invalid_schema_request) \<in> set error_answers"
  "(''415 Unsupported Media Type'', RB_Error GE_invalid_request) \<in> set error_answers"
  "(''415 Unsupported Media Type'', RB_Error GE_invalid_work_claim_request) \<in> set error_answers"
  "(''401 Unauthorized'', RB_Error GE_authentication_rejected) \<in> set error_answers"
  "(''403 Forbidden'', RB_Error GE_communication_disabled) \<in> set error_answers"
  "(''403 Forbidden'', RB_Error GE_subscription_not_authorized) \<in> set error_answers"
  "(''403 Forbidden'', RB_Error GE_request_not_authorized) \<in> set error_answers"
  "(''404 Not Found'', RB_Error GE_subscription_not_found) \<in> set error_answers"
  "(''404 Not Found'', RB_Error GE_instance_not_found) \<in> set error_answers"
  "(''404 Not Found'', RB_Error GE_request_not_found) \<in> set error_answers"
  "(''404 Not Found'', RB_Error GE_claim_not_found) \<in> set error_answers"
  "(''409 Conflict'', RB_Error GE_subscription_conflict) \<in> set error_answers"
  "(''409 Conflict'', RB_Error GE_instance_lease_conflict) \<in> set error_answers"
  "(''409 Conflict'', RB_Error GE_schema_namespace_conflict) \<in> set error_answers"
  "(''409 Conflict'', RB_Error GE_request_conflict) \<in> set error_answers"
  "(''409 Conflict'', RB_Error GE_route_already_claimed) \<in> set error_answers"
  "(''409 Conflict'', RB_Error GE_route_already_completed) \<in> set error_answers"
  "(''409 Conflict'', RB_Error GE_claim_fenced) \<in> set error_answers"
  "(''503 Service Unavailable'', RB_Error GE_unavailable) \<in> set error_answers"
  "(''503 Service Unavailable'', RB_Error GE_internal_error) \<in> set error_answers"
  by (simp_all add: error_answers_def)

lemma enrollment_answer [simp]:
  "(''400 Bad Request'', RB_EnrollmentError EnrollmentErrorResponse_malformed_request) \<in> set error_answers"
  "(''413 Payload Too Large'', RB_EnrollmentError EnrollmentErrorResponse_malformed_request) \<in> set error_answers"
  "(''415 Unsupported Media Type'', RB_EnrollmentError EnrollmentErrorResponse_malformed_request) \<in> set error_answers"
  "(''503 Service Unavailable'', RB_EnrollmentError (from_enrollment_error e)) \<in> set error_answers"
  by (simp_all add: error_answers_def) (simp add: from_enrollment_error_def split: EnrollmentError.split)

lemma response_fixed_enrollment_error [simp]: "response_fixed X J (enrollment_error_response J e)"
proof -
  let ?v = "from_enrollment_error e"
  have "(if eer_code ?v = ''enrollment_rejected'' then ''401 Unauthorized''
      else if eer_code ?v = ''invalid_enrollment_request'' then ''400 Bad Request'' else ''503 Service Unavailable'',
      RB_EnrollmentError ?v) \<in> set error_answers"
    by (cases e) (simp_all add: error_answers_def from_enrollment_error_def EnrollmentErrorResponse_malformed_request_def)
  then show ?thesis by (simp add: enrollment_error_response_def Let_def response_fixed_enrollment)
qed

text \<open>The error mappings.\<close>

lemma response_fixed_errors [simp]:
  "response_fixed X J (authentication_rejected J)" "response_fixed X J (gate_error_response J ge)"
  "response_fixed X J (subscription_error_response J se)" "response_fixed X J (request_error_response J re)"
  "response_fixed X J (schema_error_response J ae)" "response_fixed X J (instance_renewal_error_response J ie)"
  "response_fixed X J (work_claim_error_response J we)"
  by (simp_all add: authentication_rejected_def gate_error_response_def subscription_error_response_def request_error_response_def
      schema_error_response_def instance_renewal_error_response_def work_claim_error_response_def
      response_fixed_error response_fixed_enrollment_error
      split: ServiceRequestGateError.split AdmissionError.split ServiceRequestAuthenticationError.split InstanceRegistryError.split
        ReplayProtectionError.split SubscriptionError.split RequestError.split AuthorityError.split WorkClaimError.split)

lemma response_fixed_text [simp]:
  "response_fixed X J method_not_allowed" "response_fixed X J not_found" "response_fixed X J (readiness_response b)"
  "response_fixed X J (route path)"
  by (cases b; auto simp: response_fixed_def text_responses_def route_def)+


section \<open>The handlers' responses\<close>

lemma response_fixed_branches [fixed_intros]:
  "(b \<Longrightarrow> response_fixed X J (snd p)) \<Longrightarrow> (\<not> b \<Longrightarrow> response_fixed X J (snd q)) \<Longrightarrow> response_fixed X J (snd (if b then p else q))"
  "response_fixed X J (snd p) \<Longrightarrow> (\<And>a. opt = Some a \<Longrightarrow> response_fixed X J (snd (f a))) \<Longrightarrow>
     response_fixed X J (snd (case opt of None \<Rightarrow> p | Some a \<Rightarrow> f a))"
  "(\<And>e. res = Inl e \<Longrightarrow> response_fixed X J (snd (g e))) \<Longrightarrow> (\<And>a. response_fixed X J (snd (h a))) \<Longrightarrow>
     response_fixed X J (snd (case res of Inl e \<Rightarrow> g e | Inr a \<Rightarrow> h a))"
  "(\<And>s r. y = (s, r) \<Longrightarrow> response_fixed X J (snd (k s r))) \<Longrightarrow> response_fixed X J (snd (case y of (s, r) \<Rightarrow> k s r))"
  by (auto split: option.splits sum.splits prod.splits)

lemma response_fixed_plain [fixed_intros]:
  "response_fixed X J p' \<Longrightarrow> (\<And>a. response_fixed X J (f' a)) \<Longrightarrow> response_fixed X J (case opt of None \<Rightarrow> p' | Some a \<Rightarrow> f' a)"
  "(\<And>e. response_fixed X J (g' e)) \<Longrightarrow> (\<And>a. response_fixed X J (h' a)) \<Longrightarrow>
     response_fixed X J (case res of Inl e \<Rightarrow> g' e | Inr a \<Rightarrow> h' a)"
  by (simp_all split: option.splits sum.splits)

definition fails_fixed :: "Crates \<Rightarrow> Serde \<Rightarrow> Response + 'a \<Rightarrow> bool" where
  "fails_fixed X J r \<longleftrightarrow> (\<forall>e. r = Inl e \<longrightarrow> response_fixed X J e)"

lemma fails_fixed_intros [fixed_intros]:
  "fails_fixed X J r \<Longrightarrow> (\<And>x. fails_fixed X J (k x)) \<Longrightarrow> fails_fixed X J (bind_result r k)"
  "response_fixed X J e \<Longrightarrow> fails_fixed X J (map_err (\<lambda>_. e) q)"
  "(\<And>x. response_fixed X J (g x)) \<Longrightarrow> fails_fixed X J (map_err g q)"
  "response_fixed X J e \<Longrightarrow> fails_fixed X J (ok_or e opt)"
  "(b \<Longrightarrow> fails_fixed X J p) \<Longrightarrow> (\<not> b \<Longrightarrow> fails_fixed X J q') \<Longrightarrow> fails_fixed X J (if b then p else q')"
  by (auto simp: fails_fixed_def ok_or_def split: option.splits)

lemma fails_fixed_simps [simp]: "fails_fixed X J (Inr x)" "fails_fixed X J (Inl e) = response_fixed X J e"
  by (simp_all add: fails_fixed_def)

lemma response_fixed_respond [fixed_intros]:
  "fails_fixed X J r \<Longrightarrow> (\<And>x. response_fixed X J (snd (k x))) \<Longrightarrow> response_fixed X J (snd (respond s r k))"
  by (simp add: respond_def fails_fixed_def split: sum.split)

lemma fails_fixed_json_body [fixed_intros]: 
  "(''400 Bad Request'', RB_Error ge) \<in> set error_answers \<Longrightarrow> (''415 Unsupported Media Type'', RB_Error ge) \<in> set error_answers \<Longrightarrow>
     fails_fixed X J (json_body J f ge r)"
  unfolding json_body_def by (intro fixed_intros) (simp_all add: response_fixed_error)

lemma fails_fixed_enrollment_body [fixed_intros]: "fails_fixed X J (enrollment_body J f ct body)"
  unfolding enrollment_body_def by (intro fixed_intros) (simp_all add: response_fixed_enrollment)

lemma response_fixed_claims [fixed_intros]:
  "status \<in> {''200 OK'', ''201 Created''} \<Longrightarrow> response_fixed X J (snd (claim_response X J status y))"
  by (auto simp: claim_response_def split: prod.split sum.split)

lemma response_fixed_check:
  assumes "check_authorized J authority s a action now = (s', Some resp)"
  shows "response_fixed X J resp"
  using assms by (auto simp: check_authorized_def response_fixed_error split: prod.splits sum.splits if_splits)

lemma response_fixed_create_subscription: "response_fixed X J (snd (create_subscription X J authority create n1 n2 s r a))"
  unfolding create_subscription_def by (intro fixed_intros) (auto simp: response_fixed_error dest: response_fixed_check)

lemma response_fixed_list_subscriptions_route: "response_fixed X J (list_subscriptions_route X J l1 l2 s i a)"
  unfolding list_subscriptions_route_def Let_def by (intro fixed_intros) (auto simp: response_fixed_error dest: response_fixed_check)

lemma response_fixed_disable_subscription: "response_fixed X J (snd (disable_subscription X J authority disable n1 n2 s i a))"
  unfolding disable_subscription_def by (intro fixed_intros) (auto simp: response_fixed_error dest: response_fixed_check)

lemma response_fixed_submit_request: "response_fixed X J (snd (submit_request X J authority accept mat n1 s r a req))"
  unfolding submit_request_def Let_def split_beta by (intro fixed_intros) (auto simp: response_fixed_error split: RequestAcceptance.split)

lemma response_fixed_find_request: "response_fixed X J (find_request X J lookup s i a)"
  unfolding find_request_def by (intro fixed_intros) (auto simp: response_fixed_error dest: response_fixed_check)

lemma response_fixed_publish_schema: "response_fixed X J (snd (publish_schema X J publish n1 s r a))"
  unfolding publish_schema_def Let_def split_beta by (intro fixed_intros) (auto simp: response_fixed_error dest: response_fixed_check)

lemma response_fixed_list_eligible_routes: "response_fixed X J (list_eligible_routes X J eligible n1 s a)"
  unfolding list_eligible_routes_def by (intro fixed_intros) (auto simp: response_fixed_error dest: response_fixed_check)

lemma response_fixed_find_routed_request: "response_fixed X J (find_routed_request X J find_for s i a)"
  unfolding find_routed_request_def by (intro fixed_intros) (auto simp: response_fixed_error dest: response_fixed_check)

lemma response_fixed_claim_route: "response_fixed X J (snd (claim_route X J claim n1 s r a wi i))"
  unfolding claim_route_def Let_def split_beta by (intro fixed_intros) (auto simp: response_fixed_error dest: response_fixed_check)

lemma response_fixed_renew_claim_route: "response_fixed X J (snd (renew_claim_route X J renew n1 s r i))"
  unfolding renew_claim_route_def Let_def split_beta by (intro fixed_intros) (auto simp: response_fixed_error dest: response_fixed_check)

lemma response_fixed_release_claim_route: "response_fixed X J (snd (release_claim_route X J act n1 s r i))"
  unfolding release_claim_route_def parse_fenced_action_def Let_def split_beta by (intro fixed_intros) (auto simp: response_fixed_error dest: response_fixed_check)

lemma response_fixed_complete_claim_route: "response_fixed X J (snd (complete_claim_route X J act n1 s r i))"
  unfolding complete_claim_route_def parse_fenced_action_def Let_def split_beta by (intro fixed_intros) (auto simp: response_fixed_error dest: response_fixed_check)

lemma response_fixed_renew_instance_route: "response_fixed X J (snd (renew_instance_route X J renew_i n1 s r ii))"
  unfolding renew_instance_route_def by (intro fixed_intros) (auto simp: response_fixed_error dest: response_fixed_check)

lemma response_fixed_issue_workload_challenge: "response_fixed X J (snd (issue_workload_challenge X J issue n1 s wc))"
  unfolding issue_workload_challenge_def by (intro fixed_intros) (auto simp: response_fixed_error response_fixed_enrollment split: sum.split)

lemma response_fixed_authenticate_enrollment: "response_fixed X J (snd (authenticate_enrollment X J enroll n1 s er))"
  unfolding authenticate_enrollment_def by (intro fixed_intros) (auto simp: response_fixed_error dest: response_fixed_check)

lemmas response_fixed_handlers = response_fixed_create_subscription response_fixed_list_subscriptions_route
  response_fixed_disable_subscription response_fixed_submit_request response_fixed_find_request response_fixed_publish_schema
  response_fixed_list_eligible_routes response_fixed_find_routed_request response_fixed_claim_route
  response_fixed_renew_claim_route response_fixed_release_claim_route response_fixed_complete_claim_route
  response_fixed_renew_instance_route response_fixed_issue_workload_challenge response_fixed_authenticate_enrollment

lemma response_fixed_governed: "response_fixed X J (snd (governed_route X J app clock s r v))"
proof -
  have "response_fixed X J (snd (subscription_route X J app authority clock s r a))"
    "response_fixed X J (snd (request_route X J app authority clock s r a i))" for authority a i
    unfolding subscription_route_def request_route_def Let_def by (intro fixed_intros; simp add: response_fixed_handlers)+
  then show ?thesis
    unfolding governed_route_def Let_def by (intro fixed_intros) (simp_all add: response_fixed_handlers response_fixed_error)
qed

lemma response_fixed_dispatch:
  "response_fixed X J (snd (dispatch X J app clock s r))"
proof -
  have "fails_fixed X J (parse_workload_challenge_request J ct body)" "fails_fixed X J (parse_enrollment_request X J ct body)" for ct body
    unfolding parse_workload_challenge_request_def parse_enrollment_request_def
    by (intro fixed_intros; simp add: response_fixed_enrollment)+
  then have parse: "parse_workload_challenge_request J ct body = Inl e \<Longrightarrow> response_fixed X J e"
    "parse_enrollment_request X J ct body = Inl e \<Longrightarrow> response_fixed X J e" for ct body e
    by (simp_all add: fails_fixed_def)
  have auth: "authenticate_governed_request X J admit s g now = (s', Inl e) \<Longrightarrow> response_fixed X J e" for admit :: "'a \<Rightarrow> _" and s g now s' e
    by (auto simp: authenticate_governed_request_def split: sum.splits prod.splits)
  show ?thesis
    unfolding dispatch_def
    by (intro fixed_intros)
      (auto simp: response_fixed_handlers response_fixed_governed response_fixed_enrollment dest: parse auth)
qed


section \<open>Messages\<close>

text \<open>The same error without the text a lower layer put into it.\<close>

definition quiet_registry :: "InstanceRegistryError \<Rightarrow> InstanceRegistryError" where
  "quiet_registry e = (case e of IRE_Repository _ \<Rightarrow> IRE_Repository [] | _ \<Rightarrow> e)"

definition quiet_admission :: "AdmissionError \<Rightarrow> AdmissionError" where
  "quiet_admission e = (case e of AME_Repository _ \<Rightarrow> AME_Repository [] | _ \<Rightarrow> e)"

definition quiet_replay :: "ReplayProtectionError \<Rightarrow> ReplayProtectionError" where
  "quiet_replay e = (case e of RPE_Repository _ \<Rightarrow> RPE_Repository [] | _ \<Rightarrow> e)"

definition quiet_gate :: "ServiceRequestGateError \<Rightarrow> ServiceRequestGateError" where
  "quiet_gate e =
     (case e of
        SGE_Admission a \<Rightarrow> SGE_Admission (quiet_admission a)
      | SGE_Replay r \<Rightarrow> SGE_Replay (quiet_replay r)
      | SGE_Signature (SRE_Registry i) \<Rightarrow> SGE_Signature (SRE_Registry (quiet_registry i))
      | SGE_Signature _ \<Rightarrow> e)"

definition quiet_enrollment :: "EnrollmentError \<Rightarrow> EnrollmentError" where
  "quiet_enrollment e =
     (case e of EE_Repository _ \<Rightarrow> EE_Repository [] | EE_Registry i \<Rightarrow> EE_Registry (quiet_registry i) | _ \<Rightarrow> e)"

definition quiet_authority :: "AuthorityError \<Rightarrow> AuthorityError" where
  "quiet_authority e = (case e of AE_Repository _ \<Rightarrow> AE_Repository [] | AE_Evaluator _ \<Rightarrow> AE_Evaluator [] | _ \<Rightarrow> e)"

definition quiet_request :: "RequestError \<Rightarrow> RequestError" where
  "quiet_request e = (case e of RE_Repository _ \<Rightarrow> RE_Repository [] | _ \<Rightarrow> e)"

definition quiet_subscription :: "SubscriptionError \<Rightarrow> SubscriptionError" where
  "quiet_subscription e = (case e of SE_Repository _ \<Rightarrow> SE_Repository [] | _ \<Rightarrow> e)"

definition quiet_claim :: "WorkClaimError \<Rightarrow> WorkClaimError" where
  "quiet_claim e = (case e of WCE_Repository _ \<Rightarrow> WCE_Repository [] | _ \<Rightarrow> e)"

text \<open>No error mapping looks at them.\<close>

lemma quiet_errors [simp]:
  "gate_error_response J (quiet_gate ge) = gate_error_response J ge"
  "enrollment_error_response J (quiet_enrollment ee) = enrollment_error_response J ee"
  "from_enrollment_error (quiet_enrollment ee) = from_enrollment_error ee"
  "schema_error_response J (quiet_authority ae) = schema_error_response J ae"
  "request_error_response J (quiet_request re) = request_error_response J re"
  "subscription_error_response J (quiet_subscription se) = subscription_error_response J se"
  "work_claim_error_response J (quiet_claim we) = work_claim_error_response J we"
  "instance_renewal_error_response J (quiet_registry ie) = instance_renewal_error_response J ie"
proof -
  show ee: "from_enrollment_error (quiet_enrollment ee) = from_enrollment_error ee"
    by (cases ee) (simp_all add: quiet_enrollment_def from_enrollment_error_def)
  then show "enrollment_error_response J (quiet_enrollment ee) = enrollment_error_response J ee"
    by (simp add: enrollment_error_response_def)
  show "gate_error_response J (quiet_gate ge) = gate_error_response J ge"
    by (simp add: quiet_gate_def gate_error_response_def quiet_admission_def quiet_replay_def quiet_registry_def
        split: ServiceRequestGateError.split AdmissionError.split ReplayProtectionError.split
          ServiceRequestAuthenticationError.split InstanceRegistryError.split)
qed (simp_all add: quiet_authority_def schema_error_response_def quiet_request_def request_error_response_def
    quiet_subscription_def subscription_error_response_def quiet_claim_def work_claim_error_response_def
    quiet_registry_def instance_renewal_error_response_def
    split: AuthorityError.split RequestError.split SubscriptionError.split WorkClaimError.split InstanceRegistryError.split)

text \<open>The application with every such text erased.\<close>

definition quiet_application :: "'s Application \<Rightarrow> 's Application" where
  "quiet_application app = app
     \<lparr>app_gate := \<lambda>s r t. apsnd (map_err quiet_gate) (app_gate app s r t),
      app_reviewer_error := map_option quiet_enrollment (app_reviewer_error app),
      app_issue_challenge := \<lambda>s w p t. apsnd (map_err quiet_enrollment) (app_issue_challenge app s w p t),
      app_enroll := \<lambda>s r t. apsnd (map_err quiet_enrollment) (app_enroll app s r t),
      app_authority := map_option (\<lambda>authority s f t. apsnd (map_err quiet_authority) (authority s f t)) (app_authority app),
      app_publish := \<lambda>s k n a d t. apsnd (map_err quiet_authority) (app_publish app s k n a d t),
      app_eligible := \<lambda>s a t. map_err quiet_request (app_eligible app s a t),
      app_find_routed := \<lambda>s a i. map_err quiet_request (app_find_routed app s a i),
      app_claim := \<lambda>s i a w l t. apsnd (map_err quiet_claim) (app_claim app s i a w l t),
      app_renew_claim := \<lambda>s i k l t. apsnd (map_err quiet_claim) (app_renew_claim app s i k l t),
      app_release := \<lambda>s i k t. apsnd (map_err quiet_claim) (app_release app s i k t),
      app_complete := \<lambda>s i k t. apsnd (map_err quiet_claim) (app_complete app s i k t),
      app_renew_instance := \<lambda>s i n t. apsnd (map_err quiet_registry) (app_renew_instance app s i n t),
      app_accept := \<lambda>s r f. apsnd (map_err quiet_request) (app_accept app s r f),
      app_materialize := \<lambda>s a r n t. apsnd (map_err quiet_request) (app_materialize app s a r n t),
      app_find_request := \<lambda>s a i. map_err quiet_request (app_find_request app s a i),
      app_create_subscription := \<lambda>s a e m t. apsnd (map_err quiet_subscription) (app_create_subscription app s a e m t),
      app_list_subscriptions := \<lambda>s a. map_err quiet_subscription (app_list_subscriptions app s a),
      app_list_active_subscriptions := \<lambda>s a. map_err quiet_subscription (app_list_active_subscriptions app s a),
      app_disable_subscription := \<lambda>s a i t. apsnd (map_err quiet_subscription) (app_disable_subscription app s a i t)\<rparr>"

lemma case_quiet [simp]:
  "(case apsnd h p of (s, x) \<Rightarrow> k s x) = (case p of (s, x) \<Rightarrow> k s (h x))"
  "(case map_err q r of Inl e \<Rightarrow> f e | Inr x \<Rightarrow> g x) = (case r of Inl e \<Rightarrow> f (q e) | Inr x \<Rightarrow> g x)"
  by (simp_all add: split_beta split: sum.split)

lemma quiet_check_authorized [simp]:
  "check_authorized J (\<lambda>s f t. apsnd (map_err quiet_authority) (authority s f t)) s a n t = check_authorized J authority s a n t"
  by (simp add: check_authorized_def authorize_subscription_action_def cong: prod.case_cong sum.case_cong)

lemma quiet_claim_response [simp]:
  "claim_response X J status (apsnd (map_err quiet_claim) y) = claim_response X J status y"
  by (simp add: claim_response_def cong: prod.case_cong sum.case_cong)

lemma quiet_handlers:
  "create_subscription X J (\<lambda>s f t. apsnd (map_err quiet_authority) (authority s f t))
     (\<lambda>s a e m t. apsnd (map_err quiet_subscription) (create s a e m t)) n1 n2 s r a =
   create_subscription X J authority create n1 n2 s r a"
  "list_subscriptions_route X J (\<lambda>s a. map_err quiet_subscription (l1 s a)) (\<lambda>s a. map_err quiet_subscription (l2 s a)) s p a =
   list_subscriptions_route X J l1 l2 s p a"
  "disable_subscription X J (\<lambda>s f t. apsnd (map_err quiet_authority) (authority s f t))
     (\<lambda>s a i t. apsnd (map_err quiet_subscription) (disable s a i t)) n1 n2 s p a =
   disable_subscription X J authority disable n1 n2 s p a"
  "submit_request X J (\<lambda>s f t. apsnd (map_err quiet_authority) (authority s f t))
     (\<lambda>s r f. apsnd (map_err quiet_request) (accept s r f))
     (\<lambda>s a r n t. apsnd (map_err quiet_request) (mat s a r n t)) n1 s r a i =
   submit_request X J authority accept mat n1 s r a i"
  "find_request X J (\<lambda>s a i. map_err quiet_request (lookup s a i)) s p a = find_request X J lookup s p a"
  "publish_schema X J (\<lambda>s k n a d t. apsnd (map_err quiet_authority) (publish s k n a d t)) n1 s r a =
   publish_schema X J publish n1 s r a"
  "list_eligible_routes X J (\<lambda>s a t. map_err quiet_request (eligible s a t)) n1 s a = list_eligible_routes X J eligible n1 s a"
  "find_routed_request X J (\<lambda>s a i. map_err quiet_request (find_for s a i)) s p a = find_routed_request X J find_for s p a"
  "claim_route X J (\<lambda>s i a w l t. apsnd (map_err quiet_claim) (claim s i a w l t)) n1 s r a w p = claim_route X J claim n1 s r a w p"
  "renew_claim_route X J (\<lambda>s i k l t. apsnd (map_err quiet_claim) (renew s i k l t)) n1 s r p = renew_claim_route X J renew n1 s r p"
  "release_claim_route X J (\<lambda>s i k t. apsnd (map_err quiet_claim) (act s i k t)) n1 s r p = release_claim_route X J act n1 s r p"
  "complete_claim_route X J (\<lambda>s i k t. apsnd (map_err quiet_claim) (act s i k t)) n1 s r p = complete_claim_route X J act n1 s r p"
  "renew_instance_route X J (\<lambda>s i n t. apsnd (map_err quiet_registry) (renew_i s i n t)) n1 s r i' =
   renew_instance_route X J renew_i n1 s r i'"
  "issue_workload_challenge X J (\<lambda>s w p t. apsnd (map_err quiet_enrollment) (issue s w p t)) n1 s wc =
   issue_workload_challenge X J issue n1 s wc"
  "authenticate_enrollment X J (\<lambda>s r t. apsnd (map_err quiet_enrollment) (enroll s r t)) n1 s er =
   authenticate_enrollment X J enroll n1 s er"
  "authenticate_governed_request X J (\<lambda>s r t. apsnd (map_err quiet_gate) (admit s r t)) s g t =
   authenticate_governed_request X J admit s g t"
  by (simp_all add: create_subscription_def list_subscriptions_route_def disable_subscription_def submit_request_def
      find_request_def publish_schema_def list_eligible_routes_def find_routed_request_def claim_route_def
      renew_claim_route_def release_claim_route_def complete_claim_route_def renew_instance_route_def
      issue_workload_challenge_def authenticate_enrollment_def authenticate_governed_request_def Let_def cong: prod.case_cong sum.case_cong option.case_cong if_cong)

lemma quiet_dispatch: "dispatch X J (quiet_application app) clock s r = dispatch X J app clock s r"
proof -
  have sub: "subscription_route X J (quiet_application app) (\<lambda>s f t. apsnd (map_err quiet_authority) (authority s f t)) clock s r a =
      subscription_route X J app authority clock s r a"
    and req: "request_route X J (quiet_application app) (\<lambda>s f t. apsnd (map_err quiet_authority) (authority s f t)) clock s r a i =
      request_route X J app authority clock s r a i" for authority s a i
    by (simp_all add: subscription_route_def request_route_def quiet_application_def quiet_handlers cong: if_cong option.case_cong)
  have gov: "governed_route X J (quiet_application app) clock s r v = governed_route X J app clock s r v" for s v
  proof (cases "app_authority app")
    case None
    then have "app_authority (quiet_application app) = None" by (simp add: quiet_application_def)
    with None show ?thesis
      unfolding governed_route_def Let_def
      by (simp add: quiet_application_def quiet_handlers cong: if_cong option.case_cong)
  next
    case (Some authority)
    then have "app_authority (quiet_application app) = Some (\<lambda>s f t. apsnd (map_err quiet_authority) (authority s f t))"
      by (simp add: quiet_application_def)
    then show ?thesis
      unfolding governed_route_def Let_def Some 
      by (simp add: sub req cong: if_cong option.case_cong)
        (simp add: quiet_application_def quiet_handlers cong: if_cong option.case_cong)
  qed
  have "app_reviewer_error (quiet_application app) = map_option quiet_enrollment (app_reviewer_error app)"
    by (simp add: quiet_application_def)
  then show ?thesis
    unfolding dispatch_def gov
    by (cases "app_reviewer_error app")
      (simp_all add: quiet_application_def quiet_handlers cong: if_cong option.case_cong sum.case_cong prod.case_cong)
qed


section \<open>What a caller sees\<close>

text \<open>C31: Every connection is answered, and nothing internal leaks through the answer. Whatever arrives,
  whatever the application does, the bytes written back are one complete HTTP/1.1 response: a success
  whose body is made from domain values (\<open>success_answer\<close>: 200 or 201 with the identity, challenge,
  instance, subscription, request, schema, route or claim response), an error that is one of 37 pairs of a
  status and a constant body (\<open>error_answers\<close>), one of six plain texts, or, when a body cannot be
  written as JSON, the constant 500 answer. And no message of the database, the registries, the token
  reviewer or the policy evaluator reaches the caller: over the application in which the text of
  every internal error is erased, the very same bytes are written and the same state is left.\<close>

theorem responses_are_fixed:
  "(\<exists>r. snd (handle_connection X J app clock s stream) = response_bytes r \<and> response_fixed X J r) \<and>
   handle_connection X J (quiet_application app) clock s stream = handle_connection X J app clock s stream"
proof
  have "response_fixed X J (json_response J ''413 Payload Too Large'' (RB_Malformed MalformedRequestResponse_payload_too_large))"
    "response_fixed X J (json_response J ''400 Bad Request'' (RB_Malformed MalformedRequestResponse_malformed))"
    by (rule response_fixed_json, simp add: error_answers_def)+
  then show "\<exists>r. snd (handle_connection X J app clock s stream) = response_bytes r \<and> response_fixed X J r"
    using response_fixed_dispatch [of X J app clock s]
    by (auto simp: handle_connection_def Let_def split_beta split: sum.split RequestReadError.split)
  show "handle_connection X J (quiet_application app) clock s stream = handle_connection X J app clock s stream"
    unfolding handle_connection_def quiet_dispatch ..
qed

end
