(* ===== verification/Token_Reviewer.thy ===== *)
theory Token_Reviewer
  imports Enrollment
begin

text \<open>
  \<open>src/infrastructure/kubernetes_token_reviewer.rs\<close>: what the Kubernetes TokenReview API must
  answer for a workload token to count as verified. The HTTPS exchange, the file system and
  \<open>serde_json\<close> are arguments.
\<close>

record TokenReviewUser =
  tru_username :: string
  tru_uid :: string
  tru_extra :: "string \<rightharpoonup> string list"

record TokenReviewStatus =
  trs_authenticated :: bool
  trs_audiences :: "string list"
  trs_user :: "TokenReviewUser option"

record TokenReviewResponse =
  trr_status :: "TokenReviewStatus option"

record TokenReviewSpec =
  trsp_token :: string
  trsp_audiences :: "string list"

record TokenReviewRequest =
  trq_api_version :: string
  trq_kind :: string
  trq_spec :: TokenReviewSpec

definition single_extra :: "(string \<rightharpoonup> string list) \<Rightarrow> string \<Rightarrow> EnrollmentError + string" where
  "single_extra extra key =
     bind_result (ok_or EE_TokenRejected (extra key)) (\<lambda>values.
       case values of [v] \<Rightarrow> Inr v | _ \<Rightarrow> Inl EE_TokenRejected)"

definition parse_review :: "TokenReviewResponse \<Rightarrow> string \<Rightarrow> EnrollmentError + VerifiedWorkload" where
  "parse_review review audience =
     bind_result (ok_or EE_TokenRejected (trr_status review)) (\<lambda>status.
       if \<not> trs_authenticated status then Inl EE_TokenRejected
       else if audience \<notin> set (trs_audiences status) then Inl EE_AudienceMismatch
       else
         bind_result (ok_or EE_TokenRejected (trs_user status)) (\<lambda>user.
         bind_result (ok_or EE_TokenRejected (strip_prefix ''system:serviceaccount:'' (tru_username user))) (\<lambda>account.
         bind_result (ok_or EE_TokenRejected (split_once '':'' account)) (\<lambda>(namespace, service_account).
         bind_result (single_extra (tru_extra user) ''authentication.kubernetes.io/pod-name'') (\<lambda>pod_name.
         bind_result (single_extra (tru_extra user) ''authentication.kubernetes.io/pod-uid'') (\<lambda>pod_uid.
           VerifiedWorkload_new namespace service_account (tru_uid user) pod_name pod_uid (trs_audiences status)))))))"

record 'c KubernetesTokenReviewer =
  ktr_client :: 'c
  ktr_endpoint :: string
  ktr_reviewer_token :: string

definition KubernetesTokenReviewer_review ::
  "('c \<Rightarrow> string \<Rightarrow> string \<Rightarrow> TokenReviewRequest \<Rightarrow> string + nat \<times> bytes) \<Rightarrow>
   (bytes \<Rightarrow> string + TokenReviewResponse) \<Rightarrow> 'c KubernetesTokenReviewer \<Rightarrow> token_reviewer" where
  "KubernetesTokenReviewer_review post json R token audience =
     bind_result (map_err (\<lambda>_. EE_TokenRejected)
        (post (ktr_client R) (ktr_endpoint R) (ktr_reviewer_token R)
           \<lparr>trq_api_version = ''authentication.k8s.io/v1'', trq_kind = ''TokenReview'',
            trq_spec = \<lparr>trsp_token = token, trsp_audiences = [audience]\<rparr>\<rparr>))
       (\<lambda>(status, body).
          if \<not> (200 \<le> status \<and> status < 300) then Inl EE_TokenRejected
          else bind_result (map_err (\<lambda>_. EE_TokenRejected) (json body)) (\<lambda>review. parse_review review audience))"

definition configuration_error :: "string \<Rightarrow> string \<Rightarrow> EnrollmentError" where
  "configuration_error label error = EE_Repository (''Kubernetes '' @ label @ '' configuration failed: '' @ error)"

definition trim_end_matches :: "u8 \<Rightarrow> string \<Rightarrow> string" where
  "trim_end_matches d s = rev (dropWhile (\<lambda>c. c = d) (rev s))"

definition KubernetesTokenReviewer_new ::
  "(string \<Rightarrow> string + string) \<Rightarrow> (string \<Rightarrow> string + bytes) \<Rightarrow> (bytes \<Rightarrow> string + 'cert) \<Rightarrow> ('cert \<Rightarrow> string + 'c) \<Rightarrow>
   string \<Rightarrow> string \<Rightarrow> string \<Rightarrow> EnrollmentError + 'c KubernetesTokenReviewer" where
  "KubernetesTokenReviewer_new read_to_string read from_pem build api_url token_path ca_path =
     bind_result (map_err (configuration_error ''reviewer token'') (read_to_string token_path)) (\<lambda>contents.
       let reviewer_token = str_trim contents
       in if reviewer_token = [] then Inl (configuration_error ''reviewer token'' ''file is empty'')
          else
            bind_result (map_err (configuration_error ''cluster CA'') (read ca_path)) (\<lambda>ca.
            bind_result (map_err (configuration_error ''cluster CA'') (from_pem ca)) (\<lambda>certificate.
            bind_result (map_err (configuration_error ''HTTP client'') (build certificate)) (\<lambda>client.
              Inr \<lparr>ktr_client = client,
                   ktr_endpoint = trim_end_matches (CHR ''/'') api_url @ ''/apis/authentication.k8s.io/v1/tokenreviews'',
                   ktr_reviewer_token = reviewer_token\<rparr>))))"

text \<open>\<open>env::var(name).unwrap_or_else(|_| default)\<close>.\<close>

definition var_or :: "(string \<Rightarrow> string option) \<Rightarrow> string \<Rightarrow> string \<Rightarrow> string" where
  "var_or var name alternative = (case var name of None \<Rightarrow> alternative | Some v \<Rightarrow> v)"

definition KubernetesTokenReviewer_from_env ::
  "(string \<Rightarrow> string option) \<Rightarrow> (string \<Rightarrow> string + string) \<Rightarrow> (string \<Rightarrow> string + bytes) \<Rightarrow>
   (bytes \<Rightarrow> string + 'cert) \<Rightarrow> ('cert \<Rightarrow> string + 'c) \<Rightarrow> EnrollmentError + 'c KubernetesTokenReviewer" where
  "KubernetesTokenReviewer_from_env var read_to_string read from_pem build =
     KubernetesTokenReviewer_new read_to_string read from_pem build
       (var_or var ''KUBERNETES_API_URL'' ''https://kubernetes.default.svc'')
       (var_or var ''KUBERNETES_REVIEWER_TOKEN_PATH'' ''/var/run/secrets/infernal-law-kubernetes/token'')
       (var_or var ''KUBERNETES_CA_PATH'' ''/var/run/secrets/infernal-law-kubernetes/ca.crt'')"


section \<open>What a verified workload rests on\<close>

lemma single_extra_Inr [simp]: "single_extra extra key = Inr v \<longleftrightarrow> extra key = Some [v]"
  by (cases "extra key") (auto simp: single_extra_def split: list.split_asm list.split)

text \<open>\<open>review_accepts review audience w\<close>: the cluster says the token authenticates, for the
  audience, a ServiceAccount in one Pod, and these are the fields of \<open>w\<close>.\<close>

definition review_accepts :: "TokenReviewResponse \<Rightarrow> string \<Rightarrow> VerifiedWorkload \<Rightarrow> bool" where
  "review_accepts review audience w \<longleftrightarrow>
     (\<exists>status user ns sa pod_name pod_uid.
        trr_status review = Some status \<and> trs_authenticated status \<and> audience \<in> set (trs_audiences status) \<and>
        trs_user status = Some user \<and> tru_username user = ''system:serviceaccount:'' @ ns @ '':'' @ sa \<and>
        CHR '':'' \<notin> set ns \<and>
        tru_extra user ''authentication.kubernetes.io/pod-name'' = Some [pod_name] \<and>
        tru_extra user ''authentication.kubernetes.io/pod-uid'' = Some [pod_uid] \<and>
        w = \<lparr>vw_namespace = str_trim ns, vw_service_account = str_trim sa,
             vw_service_account_uid = str_trim (tru_uid user), vw_pod_name = str_trim pod_name,
             vw_pod_uid = str_trim pod_uid, vw_audiences = trs_audiences status\<rparr>)"

lemma split_once_no_sep: "split_once [c] s = Some (a, b) \<Longrightarrow> c \<notin> set a"
  by (induction s arbitrary: a) (auto split: option.splits if_splits)

lemma enrollment_field_trims: "enrollment_field v n = Inr s \<Longrightarrow> s = str_trim v"
  by (auto simp: enrollment_field_def Let_def split: if_splits)

lemma parse_review_Inr:
  assumes "parse_review review audience = Inr w"
  shows "review_accepts review audience w"
proof -
  from assms obtain status user account ns sa pod_name pod_uid where
    "trr_status review = Some status" "trs_authenticated status" "audience \<in> set (trs_audiences status)"
    "trs_user status = Some user" and u: "tru_username user = ''system:serviceaccount:'' @ account"
    and sp: "split_once '':'' account = Some (ns, sa)"
    and "tru_extra user ''authentication.kubernetes.io/pod-name'' = Some [pod_name]"
    "tru_extra user ''authentication.kubernetes.io/pod-uid'' = Some [pod_uid]"
    and w: "VerifiedWorkload_new ns sa (tru_uid user) pod_name pod_uid (trs_audiences status) = Inr w"
    by (auto simp: parse_review_def split: if_splits)
  moreover have "account = ns @ '':'' @ sa" and "CHR '':'' \<notin> set ns"
    using split_once_SomeD [OF sp] split_once_no_sep [OF sp] by simp_all
  moreover from w have "w = \<lparr>vw_namespace = str_trim ns, vw_service_account = str_trim sa,
      vw_service_account_uid = str_trim (tru_uid user), vw_pod_name = str_trim pod_name,
      vw_pod_uid = str_trim pod_uid, vw_audiences = trs_audiences status\<rparr>"
    by (auto simp: VerifiedWorkload_new_def dest!: enrollment_field_trims)
  ultimately show ?thesis unfolding review_accepts_def by blast
qed

lemma review_Inr:
  assumes "KubernetesTokenReviewer_review post json R token audience = Inr w"
  shows "\<exists>status body review.
    post (ktr_client R) (ktr_endpoint R) (ktr_reviewer_token R)
      \<lparr>trq_api_version = ''authentication.k8s.io/v1'', trq_kind = ''TokenReview'',
       trq_spec = \<lparr>trsp_token = token, trsp_audiences = [audience]\<rparr>\<rparr> = Inr (status, body) \<and>
    200 \<le> status \<and> status < 300 \<and> json body = Inr review \<and> review_accepts review audience w"
  using assms by (auto simp: KubernetesTokenReviewer_review_def dest!: parse_review_Inr split: if_splits)

end
