(* ===== verification/Registrar.thy ===== *)
theory Registrar
  imports Pg_Identity Pg_Enrollment Pg_Authority Token_Reviewer "HOL-Library.List_Lexorder" "HOL-Library.Char_ord"
begin

text \<open>
  \<open>src/bin/registrar.rs\<close>: the process that brings identities, enrollment bindings, communication
  admission and authority grants in line with a declarative manifest, statement by statement, each
  committing by itself. The administrative functions of the migrations it calls
  (\<open>set_service_communication_admission\<close> of 0007, \<open>create_authority_grant\<close> of 0012,
  \<open>revoke_authority_grant\<close> of 0019) are modelled with the tables only they write. The cluster, the
  casts between \<open>text\<close> and \<open>uuid\<close>, the clock and the random UUIDs of the database are the
  environment; what they answer may differ from statement to statement.
\<close>

section \<open>Manifests\<close>

datatype RegistrarError =
    RGE_Configuration string
  | RGE_Database string
  | RGE_Kubernetes string
  | RGE_Manifest string

primrec RegistrarError_show :: "RegistrarError \<Rightarrow> string" where
  "RegistrarError_show (RGE_Configuration d) = ''configuration: '' @ d"
| "RegistrarError_show (RGE_Database d) = ''database: '' @ d"
| "RegistrarError_show (RGE_Kubernetes d) = ''kubernetes: '' @ d"
| "RegistrarError_show (RGE_Manifest d) = ''manifest: '' @ d"

record GrantSpec =
  gsp_action :: string
  gsp_scope :: string

record ServiceSpec =
  ssp_service_id :: string
  ssp_kind :: string
  ssp_display_name :: string
  ssp_namespace :: "string option"
  ssp_service_account :: "string option"
  ssp_communication_enabled :: bool
  ssp_grants :: "GrantSpec list"

record Manifest =
  mf_services :: "ServiceSpec list"


section \<open>What the registrar works on\<close>

record admission_history_row =
  adh_service_id :: ActorId
  adh_old_enabled :: bool
  adh_new_enabled :: bool
  adh_revision :: i64
  adh_outcome :: string
  adh_administrator_identity :: string
  adh_reason :: string
  adh_correlation_id :: Uuid
  adh_committed_at :: i64

text \<open>The columns of \<open>authority_grants\<close> that nothing else reads.\<close>

record grant_administration_row =
  gad_grant_id :: GrantId
  gad_administrator_identity :: string
  gad_reason :: string
  gad_correlation_id :: Uuid
  gad_created_at :: i64

record grant_audit_row =
  gau_grant_id :: GrantId
  gau_outcome :: string
  gau_administrator_identity :: string
  gau_reason :: string
  gau_correlation_id :: Uuid
  gau_recorded_at :: i64

record Admin_State =
  rg_db :: Db
  rg_admission_history :: "admission_history_row list"
  rg_grant_administration :: "grant_administration_row list"
  rg_grant_audit :: "grant_audit_row list"
  rg_statements :: nat

text \<open>
  The \<open>n\<close>-th statement sees the clock \<open>re_now n\<close> and draws the UUIDs \<open>re_fresh n 0\<close>,
  \<open>re_fresh n 1\<close>; the resolver asked after \<open>n\<close> statements answers \<open>re_uid n\<close>.
\<close>

record Registrar_Env =
  re_cast :: "string \<Rightarrow> Uuid option"
  re_text :: "Uuid \<Rightarrow> string"
  re_now :: "nat \<Rightarrow> i64"
  re_fresh :: "nat \<Rightarrow> nat \<Rightarrow> Uuid"
  re_uid :: "nat \<Rightarrow> string \<Rightarrow> string \<Rightarrow> RegistrarError + string"

definition cast_actor :: "Registrar_Env \<Rightarrow> string \<Rightarrow> ActorId option" where
  "cast_actor env s = (if sql_text s then map_option ActorId (re_cast env s) else None)"

text \<open>A statement either fails with the driver, is rejected by the database, or takes effect.\<close>

definition admin_stmt ::
  "faults \<Rightarrow> Admin_State \<Rightarrow> (Admin_State \<Rightarrow> (Admin_State \<times> 'a) option) \<Rightarrow> Admin_State \<times> (RegistrarError + 'a)" where
  "admin_stmt io s q =
     (let n = rg_statements s
      in case io n of
           Some m \<Rightarrow> (s\<lparr>rg_statements := n + 1\<rparr>, Inl (RGE_Database m))
         | None \<Rightarrow>
             (case q s of
                None \<Rightarrow> (s\<lparr>rg_statements := n + 1\<rparr>, Inl (RGE_Database db_error))
              | Some (s', x) \<Rightarrow> (s'\<lparr>rg_statements := n + 1\<rparr>, Inr x)))"

definition bind_admin ::
  "'s \<times> ('e + 'a) \<Rightarrow> ('s \<Rightarrow> 'a \<Rightarrow> 's \<times> ('e + 'b)) \<Rightarrow> 's \<times> ('e + 'b)" where
  "bind_admin p f = (case p of (s, Inl e) \<Rightarrow> (s, Inl e) | (s, Inr x) \<Rightarrow> f s x)"


section \<open>The administrative functions of the database\<close>

definition admin_metadata_check :: "string \<Rightarrow> string \<Rightarrow> i64 \<Rightarrow> bool" where
  "admin_metadata_check administrator reason at \<longleftrightarrow>
     sql_text administrator \<and> length_between 1 200 (btrim administrator) \<and>
     sql_text reason \<and> length_between 1 1000 (btrim reason) \<and> 0 \<le> at"

definition set_service_communication_admission ::
  "ActorId \<Rightarrow> bool \<Rightarrow> string \<Rightarrow> string \<Rightarrow> Uuid \<Rightarrow> i64 \<Rightarrow> Admin_State \<Rightarrow> (Admin_State \<times> string) option" where
  "set_service_communication_admission service enabled administrator reason correlation changed_at s =
     (if \<not> admin_metadata_check administrator reason changed_at then None
      else case find (\<lambda>r. amr_service_id r = service) (service_communication_admission (rg_db s)) of
        None \<Rightarrow> None
      | Some current \<Rightarrow>
          (case find (\<lambda>h. adh_service_id h = service \<and> adh_correlation_id h = correlation) (rg_admission_history s) of
             Some h \<Rightarrow>
               if adh_new_enabled h \<noteq> enabled \<or> adh_administrator_identity h \<noteq> btrim administrator
                  \<or> adh_reason h \<noteq> btrim reason \<or> adh_committed_at h \<noteq> changed_at
               then None else Some (s, adh_outcome h)
           | None \<Rightarrow>
               if changed_at < amr_updated_at current then None
               else
                 let changed = (amr_communication_enabled current \<noteq> enabled);
                     next_revision = (if changed then amr_revision current + 1 else amr_revision current);
                     outcome = (if changed then ''changed'' else ''no_op'');
                     db = rg_db s;
                     db' = (if changed then
                              db\<lparr>service_communication_admission :=
                                   update_where (\<lambda>r. amr_service_id r = service)
                                     (\<lambda>r. r\<lparr>amr_communication_enabled := enabled, amr_revision := next_revision,
                                            amr_updated_at := changed_at\<rparr>)
                                     (service_communication_admission db)\<rparr>
                            else db)
                 in if changed \<and> \<not> (0 \<le> next_revision \<and> in_i64 next_revision) then None
                    else Some (s\<lparr>rg_db := db', rg_admission_history := rg_admission_history s @
                           [\<lparr>adh_service_id = service, adh_old_enabled = amr_communication_enabled current,
                             adh_new_enabled = enabled, adh_revision = next_revision, adh_outcome = outcome,
                             adh_administrator_identity = btrim administrator, adh_reason = btrim reason,
                             adh_correlation_id = correlation, adh_committed_at = changed_at\<rparr>]\<rparr>, outcome)))"

definition schema_kind_is :: "Db \<Rightarrow> SchemaVersionId \<Rightarrow> string \<Rightarrow> bool" where
  "schema_kind_is db i kind \<longleftrightarrow>
     (case find (\<lambda>r. svw_schema_version_id r = i) (authority_schema_versions db) of
        None \<Rightarrow> False | Some r \<Rightarrow> svw_kind r = kind)"

definition authority_grants_check :: "Db \<Rightarrow> grant_row \<Rightarrow> bool" where
  "authority_grants_check db r \<longleftrightarrow>
     action_check (agr_action r) \<and> scope_check (agr_scope r) \<and> 0 \<le> agr_valid_from r \<and>
     (case agr_valid_until r of None \<Rightarrow> True | Some until \<Rightarrow> agr_valid_from r < until) \<and>
     fk idr_id (identities db) (agr_source_service_id r) \<and>
     (case agr_destination_service_id r of None \<Rightarrow> True | Some d \<Rightarrow> fk idr_id (identities db) d)"

text \<open>A repeated correlation ID returns the grant it created; the audit row of a repeated grant ID
  is rolled back with the exception that follows it.\<close>

definition create_authority_grant ::
  "grant_row \<Rightarrow> string \<Rightarrow> string \<Rightarrow> Uuid \<Rightarrow> i64 \<Rightarrow> Admin_State \<Rightarrow> (Admin_State \<times> unit) option" where
  "create_authority_grant row administrator reason correlation created_at s =
     (let db = rg_db s
      in if \<not> admin_metadata_check administrator reason created_at then None
         else if \<not> schema_kind_is db (agr_artifact_schema_version_id row) ''artifact'' then None
         else if \<not> schema_kind_is db (agr_permission_policy_schema_version_id row) ''permission_policy'' then None
         else case find (\<lambda>a. gad_correlation_id a = correlation) (rg_grant_administration s) of
           Some a \<Rightarrow>
             (case find (\<lambda>r. agr_grant_id r = gad_grant_id a) (authority_grants db) of
                None \<Rightarrow> None
              | Some existing \<Rightarrow>
                  if existing\<lparr>agr_revoked_at := None\<rparr> \<noteq> row\<lparr>agr_revoked_at := None\<rparr> then None else Some (s, ()))
         | None \<Rightarrow>
             if fk agr_grant_id (authority_grants db) (agr_grant_id row) then None
             else if \<not> authority_grants_check db row then None
             else Some (s\<lparr>rg_db := db\<lparr>authority_grants := authority_grants db @ [row]\<rparr>,
                          rg_grant_administration := rg_grant_administration s @
                            [\<lparr>gad_grant_id = agr_grant_id row, gad_administrator_identity = btrim administrator,
                              gad_reason = btrim reason, gad_correlation_id = correlation, gad_created_at = created_at\<rparr>],
                          rg_grant_audit := rg_grant_audit s @
                            [\<lparr>gau_grant_id = agr_grant_id row, gau_outcome = ''created'',
                              gau_administrator_identity = btrim administrator, gau_reason = btrim reason,
                              gau_correlation_id = correlation, gau_recorded_at = created_at\<rparr>]\<rparr>, ()))"

definition revoke_authority_grant ::
  "GrantId \<Rightarrow> string \<Rightarrow> string \<Rightarrow> Uuid \<Rightarrow> i64 \<Rightarrow> Admin_State \<Rightarrow> (Admin_State \<times> string) option" where
  "revoke_authority_grant grant administrator reason correlation revoked_at s =
     (let db = rg_db s;
          audit = (\<lambda>outcome. rg_grant_audit s @
            [\<lparr>gau_grant_id = grant, gau_outcome = outcome, gau_administrator_identity = btrim administrator,
              gau_reason = btrim reason, gau_correlation_id = correlation, gau_recorded_at = revoked_at\<rparr>])
      in if \<not> admin_metadata_check administrator reason revoked_at then None
         else case find (\<lambda>r. agr_grant_id r = grant) (authority_grants db) of
           None \<Rightarrow> None
         | Some existing \<Rightarrow>
             if agr_revoked_at existing \<noteq> None then Some (s\<lparr>rg_grant_audit := audit ''revoke_no_op''\<rparr>, ''no_op'')
             else Some (s\<lparr>rg_db := db\<lparr>authority_grants :=
                            update_where (\<lambda>r. agr_grant_id r = grant) (\<lambda>r. r\<lparr>agr_revoked_at := Some revoked_at\<rparr>)
                              (authority_grants db)\<rparr>,
                          rg_grant_audit := audit ''revoked''\<rparr>, ''revoked''))"


section \<open>Resolving a ServiceAccount\<close>

text \<open>\<open>serde_json::Value\<close>, with the lookups the source uses.\<close>

datatype JsonValue =
    JNull
  | JBool bool
  | JNumber string
  | JString string
  | JArray "JsonValue list"
  | JObject "(string \<times> JsonValue) list"

fun json_get :: "string \<Rightarrow> JsonValue \<Rightarrow> JsonValue option" where
  "json_get k (JObject m) = map_of m k"
| "json_get k _ = None"

fun json_as_str :: "JsonValue \<Rightarrow> string option" where
  "json_as_str (JString s) = Some s"
| "json_as_str _ = None"

record KubernetesResolver =
  kr_api_url :: string
  kr_token :: string

text \<open>\<open>KubernetesResolver::from_env\<close>: \<open>var\<close> reads the environment, \<open>read\<close> a file,
  \<open>client\<close> builds the HTTPS client that trusts the certificate.\<close>

definition KubernetesResolver_from_env ::
  "(string \<Rightarrow> string option) \<Rightarrow> (string \<Rightarrow> string + string) \<Rightarrow> (string \<Rightarrow> string + bytes) \<Rightarrow>
   (bytes \<Rightarrow> string + 'c) \<Rightarrow> ('c \<Rightarrow> string + unit) \<Rightarrow> RegistrarError + KubernetesResolver" where
  "KubernetesResolver_from_env var read_to_string read from_pem client =
     (let api_url = var_or var ''KUBERNETES_API_URL'' ''https://kubernetes.default.svc'';
          token_path = var_or var ''REGISTRAR_TOKEN_PATH'' ''/var/run/secrets/kubernetes.io/serviceaccount/token'';
          ca_path = var_or var ''KUBERNETES_CA_PATH'' ''/var/run/secrets/kubernetes.io/serviceaccount/ca.crt''
      in bind_result (map_err (\<lambda>e. RGE_Configuration (token_path @ '': '' @ e)) (read_to_string token_path)) (\<lambda>token.
         bind_result (map_err (\<lambda>e. RGE_Configuration (ca_path @ '': '' @ e)) (read ca_path)) (\<lambda>ca.
         bind_result (map_err (\<lambda>e. RGE_Configuration (''cluster CA: '' @ e)) (from_pem ca)) (\<lambda>certificate.
         bind_result (map_err (\<lambda>e. RGE_Configuration (''HTTP client: '' @ e)) (client certificate)) (\<lambda>_.
           Inr \<lparr>kr_api_url = trim_end_matches (CHR ''/'') api_url, kr_token = str_trim token\<rparr>)))))"

text \<open>The GET request with the token is \<open>send\<close>, decoding the body \<open>json\<close>.\<close>

definition KubernetesResolver_uid ::
  "(string \<Rightarrow> string \<Rightarrow> string + nat \<times> bytes) \<Rightarrow> (nat \<Rightarrow> string) \<Rightarrow> (bytes \<Rightarrow> string + JsonValue) \<Rightarrow>
   KubernetesResolver \<Rightarrow> string \<Rightarrow> string \<Rightarrow> RegistrarError + string" where
  "KubernetesResolver_uid send status_text json r namespace name =
     bind_result (map_err RGE_Kubernetes
       (send (kr_api_url r @ ''/api/v1/namespaces/'' @ namespace @ ''/serviceaccounts/'' @ name) (kr_token r)))
       (\<lambda>(status, body).
          if \<not> (200 \<le> status \<and> status < 300)
          then Inl (RGE_Kubernetes (''serviceaccount '' @ namespace @ ''/'' @ name @ '': HTTP '' @ status_text status))
          else bind_result (map_err RGE_Kubernetes (json body)) (\<lambda>v.
            ok_or (RGE_Kubernetes (''serviceaccount '' @ namespace @ ''/'' @ name @ '' has no metadata.uid''))
              (Option.bind (Option.bind (json_get ''metadata'' v) (json_get ''uid'')) json_as_str)))"


section \<open>Reconciliation\<close>

text \<open>\<open>INSERT ... ON CONFLICT (key) DO UPDATE SET \<dots> WHERE\<close> a column differs: the rows after it and
  the number it changed.\<close>

definition upsert :: "('r \<Rightarrow> 'k) \<Rightarrow> 'r \<Rightarrow> 'r list \<Rightarrow> nat \<times> 'r list" where
  "upsert key row rs =
     (case find (\<lambda>r. key r = key row) rs of
        None \<Rightarrow> (1, rs @ [row])
      | Some old \<Rightarrow> if old = row then (0, rs) else (1, update_where (\<lambda>r. key r = key row) (\<lambda>_. row) rs))"

definition identity_upsert :: "Registrar_Env \<Rightarrow> ServiceSpec \<Rightarrow> Admin_State \<Rightarrow> (Admin_State \<times> nat) option" where
  "identity_upsert env service s =
     (case cast_actor env (ssp_service_id service) of
        None \<Rightarrow> None
      | Some u \<Rightarrow>
          let db = rg_db s;
              row = \<lparr>idr_id = u, idr_kind = ssp_kind service, idr_display_name = ssp_display_name service,
                     idr_status = ''active''\<rparr>;
              new = \<not> fk idr_id (identities db) u;
              (rows, ids) = upsert idr_id row (identities db);
              now = re_now env (rg_statements s)
          in if \<not> identities_check row then None
             else if new \<and> (now < 0 \<or> fk amr_service_id (service_communication_admission db) u) then None
             else Some (s\<lparr>rg_db := db\<lparr>identities := ids,
                    service_communication_admission := service_communication_admission db @
                      (if new then [\<lparr>amr_service_id = u, amr_communication_enabled = False, amr_revision = 0,
                                     amr_updated_at = now\<rparr>] else [])\<rparr>\<rparr>, rows))"

definition binding_upsert ::
  "Registrar_Env \<Rightarrow> string \<Rightarrow> string \<Rightarrow> string \<Rightarrow> string \<Rightarrow> Admin_State \<Rightarrow> (Admin_State \<times> nat) option" where
  "binding_upsert env service_id namespace service_account uid s =
     (case cast_actor env service_id of
        None \<Rightarrow> None
      | Some u \<Rightarrow>
          let db = rg_db s;
              row = \<lparr>ebr_service_id = u, ebr_namespace = namespace, ebr_service_account = service_account,
                     ebr_service_account_uid = uid, ebr_enabled = True\<rparr>;
              others = filter (\<lambda>r. ebr_service_id r \<noteq> u) (service_enrollment_bindings db);
              (rows, bindings) = upsert ebr_service_id row (service_enrollment_bindings db)
          in if \<not> (enrollment_text_check namespace \<and> enrollment_text_check service_account \<and> enrollment_text_check uid)
             then None
             else if rows \<noteq> 0 \<and> (fk workload_key others (workload_key row) \<or> \<not> fk idr_id (identities db) u) then None
             else Some (s\<lparr>rg_db := db\<lparr>service_enrollment_bindings := bindings\<rparr>\<rparr>, rows))"

definition reconcile_binding ::
  "Registrar_Env \<Rightarrow> faults \<Rightarrow> Admin_State \<Rightarrow> ServiceSpec \<Rightarrow> Admin_State \<times> (RegistrarError + string list)" where
  "reconcile_binding env io s service =
     (case (ssp_namespace service, ssp_service_account service) of
        (Some namespace, Some service_account) \<Rightarrow>
          (case re_uid env (rg_statements s) namespace service_account of
             Inl e \<Rightarrow> (s, Inl e)
           | Inr uid \<Rightarrow>
               bind_admin (admin_stmt io s (binding_upsert env (ssp_service_id service) namespace service_account uid))
                 (\<lambda>s rows. (s, Inr (if rows > 0 then [''binding -> '' @ uid] else []))))
      | _ \<Rightarrow> (s, Inr []))"

definition show_bool :: "bool \<Rightarrow> string" where
  "show_bool b = (if b then ''true'' else ''false'')"

definition reconcile_admission ::
  "Registrar_Env \<Rightarrow> faults \<Rightarrow> string \<Rightarrow> Admin_State \<Rightarrow> ServiceSpec \<Rightarrow> Admin_State \<times> (RegistrarError + string list)" where
  "reconcile_admission env io administrator s service =
     bind_admin (admin_stmt io s (\<lambda>s.
         case cast_actor env (ssp_service_id service) of
           None \<Rightarrow> None
         | Some u \<Rightarrow> set_service_communication_admission u (ssp_communication_enabled service) administrator
                       ''registrar reconciliation'' (re_fresh env (rg_statements s) 0) (re_now env (rg_statements s)) s))
       (\<lambda>s outcome. (s, Inr (if outcome \<noteq> ''no_op''
          then [''admission='' @ show_bool (ssp_communication_enabled service) @ '' ('' @ outcome @ '')''] else [])))"

text \<open>The condition of the \<open>count(*)\<close>.\<close>

definition live_equivalent :: "ActorId \<Rightarrow> GrantSpec \<Rightarrow> i64 \<Rightarrow> grant_row \<Rightarrow> bool" where
  "live_equivalent u g now r \<longleftrightarrow>
     agr_source_service_id r = u \<and> agr_action r = gsp_action g \<and> agr_scope r = gsp_scope g \<and>
     agr_destination_service_id r = None \<and> agr_revoked_at r = None \<and>
     (case agr_valid_until r of None \<Rightarrow> True | Some until \<Rightarrow> now < until)"

definition count_live_grants ::
  "Registrar_Env \<Rightarrow> string \<Rightarrow> GrantSpec \<Rightarrow> Admin_State \<Rightarrow> (Admin_State \<times> nat) option" where
  "count_live_grants env service_id g s =
     (case cast_actor env service_id of
        None \<Rightarrow> None
      | Some u \<Rightarrow>
          if \<not> (sql_text (gsp_action g) \<and> sql_text (gsp_scope g)) then None
          else Some (s, count_where (live_equivalent u g (re_now env (rg_statements s))) (authority_grants (rg_db s))))"

definition declared_grant_row :: "GrantId \<Rightarrow> ActorId \<Rightarrow> GrantSpec \<Rightarrow> grant_row" where
  "declared_grant_row i u g =
     \<lparr>agr_grant_id = i, agr_source_service_id = u, agr_action = gsp_action g, agr_scope = gsp_scope g,
      agr_artifact_schema_version_id = NO_ARTIFACT_SCHEMA_VERSION,
      agr_permission_policy_schema_version_id = NO_ARTIFACT_PERMISSION_POLICY_SCHEMA_VERSION,
      agr_destination_service_id = None, agr_valid_from = 0, agr_valid_until = None, agr_revoked_at = None\<rparr>"

definition grant_insert ::
  "Registrar_Env \<Rightarrow> string \<Rightarrow> string \<Rightarrow> GrantSpec \<Rightarrow> Admin_State \<Rightarrow> (Admin_State \<times> unit) option" where
  "grant_insert env administrator service_id g s =
     (case cast_actor env service_id of
        None \<Rightarrow> None
      | Some u \<Rightarrow>
          let n = rg_statements s
          in create_authority_grant (declared_grant_row (GrantId (re_fresh env n 0)) u g) administrator
               (''registrar grant for '' @ gsp_action g) (re_fresh env n 1) (re_now env n) s)"

fun reconcile_grants ::
  "Registrar_Env \<Rightarrow> faults \<Rightarrow> string \<Rightarrow> string \<Rightarrow> Admin_State \<Rightarrow> GrantSpec list \<Rightarrow>
   Admin_State \<times> (RegistrarError + string list)" where
  "reconcile_grants env io administrator service_id s [] = (s, Inr [])"
| "reconcile_grants env io administrator service_id s (g # gs) =
     bind_admin (admin_stmt io s (count_live_grants env service_id g)) (\<lambda>s count.
       if count > 0 then reconcile_grants env io administrator service_id s gs
       else bind_admin (admin_stmt io s (grant_insert env administrator service_id g)) (\<lambda>s _.
         bind_admin (reconcile_grants env io administrator service_id s gs) (\<lambda>s applied.
           (s, Inr ((''grant '' @ gsp_action g @ '' '' @ gsp_scope g) # applied)))))"

text \<open>The body of the loop over the services.\<close>

definition reconcile_service ::
  "Registrar_Env \<Rightarrow> faults \<Rightarrow> string \<Rightarrow> Admin_State \<Rightarrow> ServiceSpec \<Rightarrow> Admin_State \<times> (RegistrarError + string list)" where
  "reconcile_service env io administrator s service =
     bind_admin (admin_stmt io s (identity_upsert env service)) (\<lambda>s rows.
     bind_admin (reconcile_binding env io s service) (\<lambda>s bound.
     bind_admin (reconcile_admission env io administrator s service) (\<lambda>s admitted.
     bind_admin (reconcile_grants env io administrator (ssp_service_id service) s (ssp_grants service)) (\<lambda>s granted.
       (s, Inr ((if rows > 0 then [''identity''] else []) @ bound @ admitted @ granted))))))"

text \<open>\<open>BTreeMap::insert\<close>: sorted by key, a later value replacing an earlier one.\<close>

fun btree_insert :: "string \<Rightarrow> 'v \<Rightarrow> (string \<times> 'v) list \<Rightarrow> (string \<times> 'v) list" where
  "btree_insert k v [] = [(k, v)]"
| "btree_insert k v ((k', v') # m) =
     (if k < k' then (k, v) # (k', v') # m else if k = k' then (k, v) # m else (k', v') # btree_insert k v m)"

fun reconcile_services ::
  "Registrar_Env \<Rightarrow> faults \<Rightarrow> string \<Rightarrow> Admin_State \<Rightarrow> (string \<times> string list) list \<Rightarrow> ServiceSpec list \<Rightarrow>
   Admin_State \<times> (RegistrarError + (string \<times> string list) list)" where
  "reconcile_services env io administrator s changes [] = (s, Inr changes)"
| "reconcile_services env io administrator s changes (service # services) =
     bind_admin (reconcile_service env io administrator s service) (\<lambda>s applied.
       reconcile_services env io administrator s (btree_insert (ssp_display_name service) applied changes) services)"

definition registrar_reconcile ::
  "Registrar_Env \<Rightarrow> faults \<Rightarrow> Admin_State \<Rightarrow> Manifest \<Rightarrow> string \<Rightarrow>
   Admin_State \<times> (RegistrarError + (string \<times> string list) list)" where
  "registrar_reconcile env io s manifest administrator = reconcile_services env io administrator s [] (mf_services manifest)"


section \<open>Withdrawal\<close>

definition disable_unmanaged ::
  "Registrar_Env \<Rightarrow> string list \<Rightarrow> Admin_State \<Rightarrow> (Admin_State \<times> string list) option" where
  "disable_unmanaged env managed s =
     (let db = rg_db s;
          c = (\<lambda>r. ebr_enabled r \<and> re_text env (ActorId_as_uuid (ebr_service_id r)) \<notin> set managed)
      in if \<not> list_all sql_text managed then None
         else Some (s\<lparr>rg_db := db\<lparr>service_enrollment_bindings :=
                        update_where c (\<lambda>r. r\<lparr>ebr_enabled := False\<rparr>) (service_enrollment_bindings db)\<rparr>\<rparr>,
                    map ebr_service_account (filter c (service_enrollment_bindings db))))"

definition wanted_grants :: "Manifest \<Rightarrow> (string \<times> string \<times> string) list" where
  "wanted_grants manifest =
     concat (map (\<lambda>service. map (\<lambda>g. (ssp_service_id service, gsp_action g, gsp_scope g)) (ssp_grants service))
               (mf_services manifest))"

definition grant_text :: "Registrar_Env \<Rightarrow> grant_row \<Rightarrow> string \<times> string \<times> string" where
  "grant_text env r = (re_text env (ActorId_as_uuid (agr_source_service_id r)), agr_action r, agr_scope r)"

fun prune_grants ::
  "Registrar_Env \<Rightarrow> faults \<Rightarrow> string \<Rightarrow> (string \<times> string \<times> string) list \<Rightarrow> Admin_State \<Rightarrow> grant_row list \<Rightarrow>
   Admin_State \<times> (RegistrarError + string list)" where
  "prune_grants env io administrator wanted s [] = (s, Inr [])"
| "prune_grants env io administrator wanted s (r # rs) =
     (if grant_text env r \<in> set wanted then prune_grants env io administrator wanted s rs
      else bind_admin (admin_stmt io s (\<lambda>s.
             revoke_authority_grant (agr_grant_id r) administrator ''registrar prune: not present in manifest''
               (re_fresh env (rg_statements s) 0) (re_now env (rg_statements s)) s)) (\<lambda>s _.
           bind_admin (prune_grants env io administrator wanted s rs) (\<lambda>s removed.
             (s, Inr ((''grant revoked: '' @ agr_action r @ '' '' @ agr_scope r @ '' for '' @
                         re_text env (ActorId_as_uuid (agr_source_service_id r))) # removed)))))"

definition prune ::
  "Registrar_Env \<Rightarrow> faults \<Rightarrow> Admin_State \<Rightarrow> Manifest \<Rightarrow> string \<Rightarrow> Admin_State \<times> (RegistrarError + string list)" where
  "prune env io s manifest administrator =
     bind_admin (admin_stmt io s (disable_unmanaged env (map ssp_service_id (mf_services manifest)))) (\<lambda>s accounts.
     bind_admin (admin_stmt io s (\<lambda>s. Some (s, filter (\<lambda>r. agr_revoked_at r = None) (authority_grants (rg_db s))))) (\<lambda>s live.
     bind_admin (prune_grants env io administrator (wanted_grants manifest) s live) (\<lambda>s removed.
       (s, Inr (map (\<lambda>a. ''binding disabled: '' @ a) accounts @ removed)))))"


section \<open>The program\<close>

text \<open>\<open>run\<close>, given the environment variables, the file system and the connection: the lines it
  prints before it ends, and how it ends.\<close>

fun join_comma :: "string list \<Rightarrow> string" where
  "join_comma [] = []"
| "join_comma [x] = x"
| "join_comma (x # y # ys) = x @ '', '' @ join_comma (y # ys)"

definition service_line :: "string \<times> string list \<Rightarrow> string" where
  "service_line c =
     (if snd c = [] then fst c @ '': already reconciled'' else fst c @ '': '' @ join_comma (snd c))"

definition registrar_report ::
  "(string \<times> string list) list \<Rightarrow> (RegistrarError + string list) option \<Rightarrow> string list \<times> (RegistrarError + unit)" where
  "registrar_report changes pruned =
     (let lines = map service_line changes;
          changed = show_nat (length (filter (\<lambda>c. snd c \<noteq> []) changes));
          total = show_nat (length changes)
      in case pruned of
           None \<Rightarrow> (lines @ [''reconciled '' @ total @ '' service(s), '' @ changed @
             '' changed (prune disabled; set REGISTRAR_PRUNE=true to withdraw what the manifest omits)''], Inr ())
         | Some (Inl e) \<Rightarrow> (lines, Inl e)
         | Some (Inr removed) \<Rightarrow>
             (lines @ (if removed = [] then [''prune: nothing to withdraw''] else []) @
                map (\<lambda>entry. ''prune: '' @ entry) removed @
                [''reconciled '' @ total @ '' service(s), '' @ changed @ '' changed, '' @
                   show_nat (length removed) @ '' withdrawn''], Inr ()))"

definition registrar_run ::
  "(string \<Rightarrow> string option) \<Rightarrow> (string \<Rightarrow> string + string) \<Rightarrow> (string \<Rightarrow> string + Manifest) \<Rightarrow>
   (string \<Rightarrow> string + unit) \<Rightarrow> RegistrarError + KubernetesResolver \<Rightarrow> (KubernetesResolver \<Rightarrow> Registrar_Env) \<Rightarrow>
   faults \<Rightarrow> Admin_State \<Rightarrow>
   Admin_State \<times> string list \<times> (RegistrarError + unit)" where
  "registrar_run var read_to_string from_str connect resolver env io s =
     (case bind_result (ok_or (RGE_Configuration ''DATABASE_URL is not set'') (var ''DATABASE_URL'')) (\<lambda>database_url.
           bind_result (ok_or (RGE_Configuration ''REGISTRAR_MANIFEST is not set'') (var ''REGISTRAR_MANIFEST'')) (\<lambda>path.
           bind_result (map_err (\<lambda>e. RGE_Manifest (path @ '': '' @ e)) (read_to_string path)) (\<lambda>text.
           bind_result (map_err RGE_Manifest (from_str text)) (\<lambda>manifest.
           bind_result (map_err RGE_Database (connect database_url)) (\<lambda>_.
           bind_result resolver (\<lambda>r. Inr (manifest, env r))))))) of
        Inl e \<Rightarrow> (s, [], Inl e)
      | Inr (manifest, env) \<Rightarrow>
          let administrator = var_or var ''REGISTRAR_ADMINISTRATOR'' ''registrar@unattended'';
              prune_enabled = (var ''REGISTRAR_PRUNE'' = Some ''true'')
          in (case registrar_reconcile env io s manifest administrator of
                (s', Inl e) \<Rightarrow> (s', [], Inl e)
              | (s', Inr changes) \<Rightarrow>
                  if prune_enabled
                  then (case prune env io s' manifest administrator of
                          (s'', pruned) \<Rightarrow> (s'', registrar_report changes (Some pruned)))
                  else (s', registrar_report changes None)))"

end
