(* ===== verification/Registrar_Properties.thy ===== *)
theory Registrar_Properties
  imports Registrar Authority_Properties
begin

text \<open>
  What ADR-0015 promises of the registrar: a pass that succeeds leaves every declared service as
  declared; a second pass finds nothing to do, when the entries name different services; and a prune
  withdraws exactly the bindings and grants the manifest does not ask for.
\<close>

section \<open>Statements and their sequences\<close>

lemma bind_admin_Inr_iff [simp]:
  "bind_admin p f = (s', Inr y) \<longleftrightarrow> (\<exists>s x. p = (s, Inr x) \<and> f s x = (s', Inr y))"
  by (auto simp: bind_admin_def split: prod.splits sum.splits)

lemma bind_admin_Inr [simp]: "bind_admin (s, Inr x) f = f s x"
  by (simp add: bind_admin_def)

lemma admin_stmt_Inr_iff:
  "admin_stmt io s q = (s', Inr x) \<longleftrightarrow>
     io (rg_statements s) = None \<and> (\<exists>s1. q s = Some (s1, x) \<and> s' = s1\<lparr>rg_statements := rg_statements s + 1\<rparr>)"
  by (auto simp: admin_stmt_def Let_def split: option.splits)

lemma admin_stmt_Some:
  "q s = Some (s1, x) \<Longrightarrow> admin_stmt no_faults s q = (s1\<lparr>rg_statements := rg_statements s + 1\<rparr>, Inr x)"
  by (simp add: admin_stmt_def no_faults_def)

lemma find_append_other: "\<not> P r \<Longrightarrow> find P (rs @ [r]) = find P rs"
  by (simp add: find_append_single split: option.split)

lemma fk_find: "fk key rs k \<longleftrightarrow> find (\<lambda>r. key r = k) rs \<noteq> None"
  by (auto simp: fk_iff find_None_iff)


section \<open>Upserts\<close>

lemma find_overwrite:
  "find (\<lambda>r. key r = j) (update_where (\<lambda>r. key r = key row) (\<lambda>_. row) rs) =
     (if j = key row then map_option (\<lambda>_. row) (find (\<lambda>r. key r = j) rs) else find (\<lambda>r. key r = j) rs)"
  by (induction rs) (auto simp: update_where_def)

lemma map_key_overwrite: "map key (update_where (\<lambda>r. key r = key row) (\<lambda>_. row) rs) = map key rs"
  by (rule map_update_where) simp

lemma upsert_find:
  "find (\<lambda>r. key r = k) (snd (upsert key row rs)) = (if k = key row then Some row else find (\<lambda>r. key r = k) rs)"
  by (cases "find (\<lambda>r. key r = key row) rs") (auto simp: upsert_def find_append_single find_overwrite split: option.split)

lemma upsert_distinct:
  assumes "distinct (map key rs)"
  shows "distinct (map key (snd (upsert key row rs)))"
proof (cases "find (\<lambda>r. key r = key row) rs")
  case None
  then have "key row \<notin> key ` set rs" by (auto simp: find_None_iff)
  with None assms show ?thesis by (simp add: upsert_def)
next
  case (Some old)
  with assms show ?thesis by (simp add: upsert_def map_key_overwrite)
qed

lemma upsert_again: "find (\<lambda>r. key r = key row) rs = Some row \<Longrightarrow> upsert key row rs = (0, rs)"
  by (simp add: upsert_def)



section \<open>What a pass leaves alone\<close>

definition correlations :: "Admin_State \<Rightarrow> Uuid set" where
  "correlations s =
     adh_correlation_id ` set (rg_admission_history s) \<union> gad_correlation_id ` set (rg_grant_administration s)"

text \<open>The rows of every other service, the grants so far, and the correlation IDs in use.\<close>

definition service_step :: "Registrar_Env \<Rightarrow> ActorId \<Rightarrow> Admin_State \<Rightarrow> Admin_State \<Rightarrow> bool" where
  "service_step env u s s' \<longleftrightarrow>
     rg_statements s \<le> rg_statements s' \<and>
     correlations s' \<subseteq> correlations s \<union> {re_fresh env i k | i k. rg_statements s \<le> i \<and> i < rg_statements s'} \<and>
     (\<forall>v. v \<noteq> u \<longrightarrow>
        find (\<lambda>r. idr_id r = v) (identities (rg_db s')) = find (\<lambda>r. idr_id r = v) (identities (rg_db s)) \<and>
        find (\<lambda>r. ebr_service_id r = v) (service_enrollment_bindings (rg_db s')) =
          find (\<lambda>r. ebr_service_id r = v) (service_enrollment_bindings (rg_db s)) \<and>
        find (\<lambda>r. amr_service_id r = v) (service_communication_admission (rg_db s')) =
          find (\<lambda>r. amr_service_id r = v) (service_communication_admission (rg_db s))) \<and>
     set (authority_grants (rg_db s)) \<subseteq> set (authority_grants (rg_db s'))"

lemma service_step_refl [simp]: "service_step env u s s"
  by (simp add: service_step_def)

lemma service_step_trans:
  assumes "service_step env u s s'" and "service_step env u s' s''"
  shows "service_step env u s s''"
proof -
  have "correlations s'' \<subseteq> correlations s' \<union> {re_fresh env i k | i k. rg_statements s' \<le> i \<and> i < rg_statements s''}"
    and "correlations s' \<subseteq> correlations s \<union> {re_fresh env i k | i k. rg_statements s \<le> i \<and> i < rg_statements s'}"
    and le: "rg_statements s \<le> rg_statements s'" "rg_statements s' \<le> rg_statements s''"
    using assms by (simp_all add: service_step_def)
  then have "correlations s'' \<subseteq> correlations s \<union> {re_fresh env i k | i k. rg_statements s \<le> i \<and> i < rg_statements s''}"
    by (fastforce intro: order_trans less_le_trans)
  moreover from le have "rg_statements s \<le> rg_statements s''" by simp
  ultimately show ?thesis using assms unfolding service_step_def by (auto dest: subsetD)
qed

text \<open>No correlation ID drawn by statements up to the \<open>N\<close>-th is in use, and no two statements draw
  the same.\<close>

definition fresh_draws :: "Registrar_Env \<Rightarrow> nat \<Rightarrow> Admin_State \<Rightarrow> bool" where
  "fresh_draws env N s \<longleftrightarrow>
     (\<forall>i k. rg_statements s \<le> i \<longrightarrow> i < N \<longrightarrow> re_fresh env i k \<notin> correlations s) \<and>
     (\<forall>i j k l. i < j \<longrightarrow> j < N \<longrightarrow> re_fresh env i k \<noteq> re_fresh env j l)"

lemma fresh_draws_step:
  assumes "fresh_draws env N s" and "service_step env u s s'"
  shows "fresh_draws env N s'"
proof -
  have "re_fresh env i k \<notin> correlations s'" if i: "rg_statements s' \<le> i" "i < N" for i k
  proof
    assume "re_fresh env i k \<in> correlations s'"
    then consider "re_fresh env i k \<in> correlations s" | j l where "j < rg_statements s'" "re_fresh env i k = re_fresh env j l"
      using assms(2) by (auto simp: service_step_def)
    then show False
    proof cases
      case 1
      moreover have "rg_statements s \<le> i" using assms(2) i by (simp add: service_step_def)
      ultimately show False using assms(1) i by (simp add: fresh_draws_def)
    next
      case 2
      then have "j < i" using i by simp
      then have "re_fresh env j l \<noteq> re_fresh env i k" using assms(1) i(2) by (simp add: fresh_draws_def)
      with 2 show False by simp
    qed
  qed
  with assms(1) show ?thesis unfolding fresh_draws_def by blast
qed

lemma fresh_draws_now:
  "fresh_draws env N s \<Longrightarrow> rg_statements s < N \<Longrightarrow> re_fresh env (rg_statements s) k \<notin> correlations s"
  unfolding fresh_draws_def by blast

lemma unused_history:
  "x \<notin> correlations s \<Longrightarrow>
     find (\<lambda>h. adh_service_id h = u \<and> adh_correlation_id h = x) (rg_admission_history s) = None"
  by (auto simp: correlations_def find_None_iff)

lemma unused_grants:
  "x \<notin> correlations s \<Longrightarrow> find (\<lambda>a. gad_correlation_id a = x) (rg_grant_administration s) = None"
  by (auto simp: correlations_def find_None_iff)


section \<open>One service\<close>

definition declared_identity :: "ActorId \<Rightarrow> ServiceSpec \<Rightarrow> identity_row" where
  "declared_identity u service =
     \<lparr>idr_id = u, idr_kind = ssp_kind service, idr_display_name = ssp_display_name service, idr_status = ''active''\<rparr>"

definition declared_binding :: "ActorId \<Rightarrow> string \<Rightarrow> string \<Rightarrow> string \<Rightarrow> binding_row" where
  "declared_binding u namespace service_account uid =
     \<lparr>ebr_service_id = u, ebr_namespace = namespace, ebr_service_account = service_account,
      ebr_service_account_uid = uid, ebr_enabled = True\<rparr>"

lemmas declared_defs = declared_identity_def declared_binding_def

lemma identity_upsert_Some:
  assumes "identity_upsert env service s = Some (s1, rows)" and "cast_actor env (ssp_service_id service) = Some u"
  shows "service_step env u s (s1\<lparr>rg_statements := rg_statements s + 1\<rparr>)"
    and "find (\<lambda>r. idr_id r = u) (identities (rg_db s1)) = Some (declared_identity u service)"
    and "identities_check (declared_identity u service)"
proof -
  define up where "up = upsert idr_id (declared_identity u service) (identities (rg_db s))"
  define adm where "adm = service_communication_admission (rg_db s) @
    (if \<not> fk idr_id (identities (rg_db s)) u
     then [\<lparr>amr_service_id = u, amr_communication_enabled = False, amr_revision = 0,
            amr_updated_at = re_now env (rg_statements s)\<rparr>] else [])"
  have s1: "s1 = s\<lparr>rg_db := rg_db s\<lparr>identities := snd up, service_communication_admission := adm\<rparr>\<rparr>"
    and chk: "identities_check (declared_identity u service)"
    using assms by (auto simp: identity_upsert_def Let_def up_def adm_def declared_identity_def split: prod.splits if_splits)
  show "identities_check (declared_identity u service)" by (rule chk)
  show "find (\<lambda>r. idr_id r = u) (identities (rg_db s1)) = Some (declared_identity u service)"
    by (simp add: s1 up_def upsert_find) (simp add: declared_identity_def)
  have "find (\<lambda>r. amr_service_id r = v) adm = find (\<lambda>r. amr_service_id r = v) (service_communication_admission (rg_db s))"
    if "v \<noteq> u" for v
    using that by (simp add: adm_def find_append_other)
  moreover have "find (\<lambda>r. idr_id r = v) (snd up) = find (\<lambda>r. idr_id r = v) (identities (rg_db s))" if "v \<noteq> u" for v
    using that by (simp add: up_def upsert_find) (simp add: declared_identity_def)
  ultimately show "service_step env u s (s1\<lparr>rg_statements := rg_statements s + 1\<rparr>)"
    by (simp add: service_step_def s1 correlations_def)
qed

lemma binding_upsert_Some:
  assumes "binding_upsert env service_id ns sa uid s = Some (s1, rows)" and "cast_actor env service_id = Some u"
  shows "service_step env u s (s1\<lparr>rg_statements := rg_statements s + 1\<rparr>)"
    and "find (\<lambda>r. ebr_service_id r = u) (service_enrollment_bindings (rg_db s1)) = Some (declared_binding u ns sa uid)"
    and "enrollment_text_check ns \<and> enrollment_text_check sa \<and> enrollment_text_check uid"
    and "identities (rg_db s1) = identities (rg_db s)"
proof -
  define up where "up = upsert ebr_service_id (declared_binding u ns sa uid) (service_enrollment_bindings (rg_db s))"
  have s1: "s1 = s\<lparr>rg_db := rg_db s\<lparr>service_enrollment_bindings := snd up\<rparr>\<rparr>"
    and chk: "enrollment_text_check ns \<and> enrollment_text_check sa \<and> enrollment_text_check uid"
    using assms by (auto simp: binding_upsert_def Let_def up_def declared_binding_def split: prod.splits if_splits)
  show "enrollment_text_check ns \<and> enrollment_text_check sa \<and> enrollment_text_check uid" by (rule chk)
  show "find (\<lambda>r. ebr_service_id r = u) (service_enrollment_bindings (rg_db s1)) = Some (declared_binding u ns sa uid)"
    by (simp add: s1 up_def upsert_find) (simp add: declared_binding_def)
  show "identities (rg_db s1) = identities (rg_db s)" by (simp add: s1)
  have "find (\<lambda>r. ebr_service_id r = v) (snd up) = find (\<lambda>r. ebr_service_id r = v) (service_enrollment_bindings (rg_db s))"
    if "v \<noteq> u" for v
    using that by (simp add: up_def upsert_find) (simp add: declared_binding_def)
  then show "service_step env u s (s1\<lparr>rg_statements := rg_statements s + 1\<rparr>)"
    by (simp add: service_step_def s1 correlations_def)
qed

text \<open>What the binding of a declared service must be, given what the cluster answers.\<close>

definition binding_declared ::
  "(string \<Rightarrow> string \<Rightarrow> RegistrarError + string) \<Rightarrow> Db \<Rightarrow> ActorId \<Rightarrow> ServiceSpec \<Rightarrow> bool" where
  "binding_declared uids db u service \<longleftrightarrow>
     (case (ssp_namespace service, ssp_service_account service) of
        (Some ns, Some sa) \<Rightarrow> \<exists>uid. uids ns sa = Inr uid \<and>
          find (\<lambda>r. ebr_service_id r = u) (service_enrollment_bindings db) = Some (declared_binding u ns sa uid) \<and>
          enrollment_text_check ns \<and> enrollment_text_check sa \<and> enrollment_text_check uid
      | _ \<Rightarrow> True)"

lemma reconcile_binding_Inr:
  assumes "reconcile_binding env io s service = (s', Inr bound)"
    and "cast_actor env (ssp_service_id service) = Some u" and "re_uid env = (\<lambda>_. uids)"
  shows "service_step env u s s'" and "binding_declared uids (rg_db s') u service"
    and "identities (rg_db s') = identities (rg_db s)"
proof -
  have "service_step env u s s' \<and> binding_declared uids (rg_db s') u service \<and> identities (rg_db s') = identities (rg_db s)"
  proof (cases "\<exists>ns sa. ssp_namespace service = Some ns \<and> ssp_service_account service = Some sa")
    case False
    with assms(1) have "s' = s" by (auto simp: reconcile_binding_def split: option.splits)
    with False show ?thesis by (auto simp: binding_declared_def split: option.splits)
  next
    case True
    then obtain ns sa where ns: "ssp_namespace service = Some ns" "ssp_service_account service = Some sa" by blast
    with assms(1,3) obtain uid s1 rows where uid: "uids ns sa = Inr uid"
      and st: "binding_upsert env (ssp_service_id service) ns sa uid s = Some (s1, rows)"
      and s': "s' = s1\<lparr>rg_statements := rg_statements s + 1\<rparr>"
      by (auto simp: reconcile_binding_def admin_stmt_Inr_iff split: sum.splits)
    from binding_upsert_Some [OF st assms(2)] ns uid s' show ?thesis
      by (simp add: binding_declared_def)
  qed
  then show "service_step env u s s'" and "binding_declared uids (rg_db s') u service"
    and "identities (rg_db s') = identities (rg_db s)" by blast+
qed

lemma set_admission_Some:
  assumes "set_service_communication_admission u enabled a reason x t s = Some (s1, outcome)" and "x \<notin> correlations s"
  shows "\<exists>c. find (\<lambda>r. amr_service_id r = u) (service_communication_admission (rg_db s1)) = Some c \<and>
      amr_communication_enabled c = enabled"
    and "rg_db s1 = (rg_db s)\<lparr>service_communication_admission := service_communication_admission (rg_db s1)\<rparr>"
    and "v \<noteq> u \<Longrightarrow> find (\<lambda>r. amr_service_id r = v) (service_communication_admission (rg_db s1)) =
      find (\<lambda>r. amr_service_id r = v) (service_communication_admission (rg_db s))"
    and "correlations s1 = insert x (correlations s)" and "admin_metadata_check a reason t"
proof -
  have none: "find (\<lambda>h. adh_service_id h = u \<and> adh_correlation_id h = x) (rg_admission_history s) = None"
    by (rule unused_history [OF assms(2)])
  from assms(1) obtain c where c: "find (\<lambda>r. amr_service_id r = u) (service_communication_admission (rg_db s)) = Some c"
    and chk: "admin_metadata_check a reason t"
    by (auto simp: set_service_communication_admission_def split: if_splits option.splits)
  define up where "up = (if amr_communication_enabled c \<noteq> enabled
     then update_where (\<lambda>r. amr_service_id r = u)
       (\<lambda>r. r\<lparr>amr_communication_enabled := enabled, amr_revision := amr_revision c + 1, amr_updated_at := t\<rparr>)
       (service_communication_admission (rg_db s))
     else service_communication_admission (rg_db s))"
  define h where "h = \<lparr>adh_service_id = u, adh_old_enabled = amr_communication_enabled c, adh_new_enabled = enabled,
     adh_revision = (if amr_communication_enabled c \<noteq> enabled then amr_revision c + 1 else amr_revision c),
     adh_outcome = outcome, adh_administrator_identity = btrim a, adh_reason = btrim reason,
     adh_correlation_id = x, adh_committed_at = t\<rparr>"
  have s1: "s1 = s\<lparr>rg_db := rg_db s\<lparr>service_communication_admission := up\<rparr>, rg_admission_history := rg_admission_history s @ [h]\<rparr>"
    using assms(1) c none
    by (simp add: set_service_communication_admission_def up_def h_def Let_def split: if_splits)
  have h: "adh_correlation_id h = x" by (simp add: h_def)
  show "\<exists>c. find (\<lambda>r. amr_service_id r = u) (service_communication_admission (rg_db s1)) = Some c \<and>
      amr_communication_enabled c = enabled"
    using c by (auto simp: s1 up_def find_update_key)
  show "rg_db s1 = (rg_db s)\<lparr>service_communication_admission := service_communication_admission (rg_db s1)\<rparr>"
    by (simp add: s1)
  show "find (\<lambda>r. amr_service_id r = v) (service_communication_admission (rg_db s1)) =
      find (\<lambda>r. amr_service_id r = v) (service_communication_admission (rg_db s))" if "v \<noteq> u"
    using that by (simp add: s1 up_def find_update_key)
  show "correlations s1 = insert x (correlations s)" by (simp add: s1 correlations_def h)
  show "admin_metadata_check a reason t" by (rule chk)
qed

definition admission_declared :: "Db \<Rightarrow> ActorId \<Rightarrow> ServiceSpec \<Rightarrow> bool" where
  "admission_declared db u service \<longleftrightarrow>
     (\<exists>c. find (\<lambda>r. amr_service_id r = u) (service_communication_admission db) = Some c \<and>
        amr_communication_enabled c = ssp_communication_enabled service)"

lemma reconcile_admission_Inr:
  assumes "reconcile_admission env io a s service = (s', Inr admitted)"
    and "cast_actor env (ssp_service_id service) = Some u"
    and "fresh_draws env N s" and "rg_statements s' \<le> N"
  shows "service_step env u s s'" and "admission_declared (rg_db s') u service"
    and "rg_db s' = (rg_db s)\<lparr>service_communication_admission := service_communication_admission (rg_db s')\<rparr>"
    and "sql_text a \<and> length_between 1 200 (btrim a)"
proof -
  let ?n = "rg_statements s"
  from assms(1,2) obtain s1 outcome where
    st: "set_service_communication_admission u (ssp_communication_enabled service) a ''registrar reconciliation''
           (re_fresh env ?n 0) (re_now env ?n) s = Some (s1, outcome)"
    and s': "s' = s1\<lparr>rg_statements := ?n + 1\<rparr>"
    by (auto simp: reconcile_admission_def admin_stmt_Inr_iff)
  with assms(4) have "?n < N" by simp
  with assms(3) have "re_fresh env ?n 0 \<notin> correlations s" by (rule fresh_draws_now)
  note post = set_admission_Some [OF st this]
  show "admission_declared (rg_db s') u service" using post(1) by (simp add: admission_declared_def s')
  show db: "rg_db s' = (rg_db s)\<lparr>service_communication_admission := service_communication_admission (rg_db s')\<rparr>"
    using post(2) by (simp add: s')
  have "correlations s' = insert (re_fresh env ?n 0) (correlations s)"
    using post(4) by (simp add: s' correlations_def)
  moreover have "identities (rg_db s') = identities (rg_db s)"
    and "service_enrollment_bindings (rg_db s') = service_enrollment_bindings (rg_db s)"
    and "authority_grants (rg_db s') = authority_grants (rg_db s)"
    by (subst db, simp)+
  ultimately show "service_step env u s s'" using post(3) by (auto simp: service_step_def s')
  show "sql_text a \<and> length_between 1 200 (btrim a)" using post(5) by (simp add: admin_metadata_check_def)
qed

text \<open>A row is in force at one of the given times, and the grant of the manifest has such a row.\<close>

definition in_force :: "i64 set \<Rightarrow> grant_row \<Rightarrow> bool" where
  "in_force T r \<longleftrightarrow> agr_revoked_at r = None \<and> (\<forall>until. agr_valid_until r = Some until \<longrightarrow> (\<exists>t \<in> T. t < until))"

definition grant_declared :: "i64 set \<Rightarrow> Db \<Rightarrow> ActorId \<Rightarrow> GrantSpec \<Rightarrow> bool" where
  "grant_declared T db u g \<longleftrightarrow> sql_text (gsp_action g) \<and> sql_text (gsp_scope g) \<and>
     (\<exists>r \<in> set (authority_grants db). agr_source_service_id r = u \<and> agr_action r = gsp_action g \<and>
        agr_scope r = gsp_scope g \<and> agr_destination_service_id r = None \<and> in_force T r)"

lemma grant_declared_mono:
  "grant_declared T db u g \<Longrightarrow> set (authority_grants db) \<subseteq> set (authority_grants db') \<Longrightarrow> grant_declared T db' u g"
  unfolding grant_declared_def by blast

text \<open>The statements from here to the \<open>N\<close>-th run at times in \<open>T\<close>.\<close>

definition run_times :: "Registrar_Env \<Rightarrow> nat \<Rightarrow> i64 set \<Rightarrow> Admin_State \<Rightarrow> bool" where
  "run_times env N T s \<longleftrightarrow> re_now env ` {rg_statements s..<N} \<subseteq> T"

lemma run_times_step: "run_times env N T s \<Longrightarrow> service_step env u s s' \<Longrightarrow> run_times env N T s'"
  unfolding run_times_def service_step_def by fastforce

lemma run_times_now: "run_times env N T s \<Longrightarrow> rg_statements s < N \<Longrightarrow> re_now env (rg_statements s) \<in> T"
  unfolding run_times_def by auto

lemma create_authority_grant_Some:
  assumes "create_authority_grant row a reason x t s = Some (s1, y)" and "x \<notin> correlations s"
  shows "rg_db s1 = (rg_db s)\<lparr>authority_grants := authority_grants (rg_db s) @ [row]\<rparr>"
    and "correlations s1 = insert x (correlations s)"
    and "rg_admission_history s1 = rg_admission_history s"
proof -
  have "find (\<lambda>g. gad_correlation_id g = x) (rg_grant_administration s) = None"
    by (rule unused_grants [OF assms(2)])
  with assms(1) show "rg_db s1 = (rg_db s)\<lparr>authority_grants := authority_grants (rg_db s) @ [row]\<rparr>"
    and "correlations s1 = insert x (correlations s)"
    and "rg_admission_history s1 = rg_admission_history s"
    by (auto simp: create_authority_grant_def Let_def correlations_def split: if_splits)
qed

lemma grant_insert_Some:
  assumes "grant_insert env a service_id g s = Some (s1, y)" and "cast_actor env service_id = Some u"
    and "re_fresh env (rg_statements s) 1 \<notin> correlations s"
  shows "service_step env u s (s1\<lparr>rg_statements := rg_statements s + 1\<rparr>)"
    and "rg_db s1 = (rg_db s)\<lparr>authority_grants := authority_grants (rg_db s1)\<rparr>"
    and "declared_grant_row (GrantId (re_fresh env (rg_statements s) 0)) u g \<in> set (authority_grants (rg_db s1))"
proof -
  let ?row = "declared_grant_row (GrantId (re_fresh env (rg_statements s) 0)) u g"
  from assms(1,2) have c: "create_authority_grant ?row a (''registrar grant for '' @ gsp_action g)
      (re_fresh env (rg_statements s) 1) (re_now env (rg_statements s)) s = Some (s1, y)"
    by (simp add: grant_insert_def Let_def)
  note post = create_authority_grant_Some [OF c assms(3)]
  show "rg_db s1 = (rg_db s)\<lparr>authority_grants := authority_grants (rg_db s1)\<rparr>" by (simp add: post(1))
  show "?row \<in> set (authority_grants (rg_db s1))" by (simp add: post(1))
  have "correlations (s1\<lparr>rg_statements := rg_statements s + 1\<rparr>) = correlations s1" by (simp add: correlations_def)
  then show "service_step env u s (s1\<lparr>rg_statements := rg_statements s + 1\<rparr>)"
    using post by (auto simp: service_step_def)
qed

lemma count_live_grants_Some:
  assumes "count_live_grants env service_id g s = Some (s1, n)" and "cast_actor env service_id = Some u"
  shows "s1 = s" and "sql_text (gsp_action g)" and "sql_text (gsp_scope g)"
    and "0 < n \<Longrightarrow> re_now env (rg_statements s) \<in> T \<Longrightarrow> grant_declared T (rg_db s) u g"
proof -
  show "s1 = s" and t: "sql_text (gsp_action g)" "sql_text (gsp_scope g)"
    using assms by (simp_all add: count_live_grants_def split: if_splits)
  assume "0 < n" and now: "re_now env (rg_statements s) \<in> T"
  moreover have "n = count_where (live_equivalent u g (re_now env (rg_statements s))) (authority_grants (rg_db s))"
    using assms by (auto simp: count_live_grants_def split: if_splits)
  ultimately obtain r where "r \<in> set (authority_grants (rg_db s))" and "live_equivalent u g (re_now env (rg_statements s)) r"
    by (metis count_where_0_iff not_gr_zero)
  then show "grant_declared T (rg_db s) u g"
    using t now by (auto simp: grant_declared_def live_equivalent_def in_force_def intro!: bexI)
qed

lemma grants_only_trans:
  "(y :: Db) = x\<lparr>authority_grants := authority_grants y\<rparr> \<Longrightarrow> z = y\<lparr>authority_grants := authority_grants z\<rparr> \<Longrightarrow>
     z = x\<lparr>authority_grants := authority_grants z\<rparr>"
  by (cases x; cases y; cases z) simp

lemma service_step_count: "service_step env u s (s\<lparr>rg_statements := rg_statements s + 1\<rparr>)"
  by (auto simp: service_step_def correlations_def)

lemma admin_stmt_statements: "admin_stmt io s q = (s', r) \<Longrightarrow> rg_statements s' = rg_statements s + 1"
  by (auto simp: admin_stmt_def Let_def split: option.splits)

lemma reconcile_grants_statements:
  "reconcile_grants env io a service_id s gs = (s', r) \<Longrightarrow> rg_statements s \<le> rg_statements s'"
proof (induction gs arbitrary: s r)
  case (Cons g gs)
  then show ?case
    by (fastforce simp: bind_admin_def dest: admin_stmt_statements split: prod.splits sum.splits if_splits)
qed simp

lemma reconcile_grants_Inr:
  assumes "reconcile_grants env io a service_id s gs = (s', Inr granted)" and "cast_actor env service_id = Some u"
    and "fresh_draws env N s" and "rg_statements s' \<le> N" and "run_times env N T s"
  shows "service_step env u s s' \<and> rg_db s' = (rg_db s)\<lparr>authority_grants := authority_grants (rg_db s')\<rparr> \<and>
    (\<forall>g \<in> set gs. grant_declared T (rg_db s') u g)"
  using assms(1,3,4,5)
proof (induction gs arbitrary: s granted)
  case Nil
  then show ?case by simp
next
  case (Cons g gs)
  from Cons.prems(1) obtain s1 n where c: "admin_stmt io s (count_live_grants env service_id g) = (s1, Inr n)"
    and rest: "(if n > 0 then reconcile_grants env io a service_id s1 gs
       else bind_admin (admin_stmt io s1 (grant_insert env a service_id g)) (\<lambda>s _.
         bind_admin (reconcile_grants env io a service_id s gs) (\<lambda>s applied.
           (s, Inr ((''grant '' @ gsp_action g @ '' '' @ gsp_scope g) # applied))))) = (s', Inr granted)"
    by (auto simp del: of_nat_0_less_iff)
  from c obtain s0 where "count_live_grants env service_id g s = Some (s0, n)"
    and s1: "s1 = s0\<lparr>rg_statements := rg_statements s + 1\<rparr>" by (auto simp: admin_stmt_Inr_iff)
  note count = count_live_grants_Some [OF this(1) assms(2)]
  from s1 count(1) have s1: "s1 = s\<lparr>rg_statements := rg_statements s + 1\<rparr>" by simp
  have step1: "service_step env u s s1" unfolding s1 by (rule service_step_count)
  have f1: "fresh_draws env N s1" by (rule fresh_draws_step [OF Cons.prems(2) step1])
  have t1: "run_times env N T s1" by (rule run_times_step [OF Cons.prems(4) step1])
  have db1: "rg_db s1 = rg_db s" by (simp add: s1)
  show ?case
  proof (cases "n > 0")
    case True
    with rest have r: "reconcile_grants env io a service_id s1 gs = (s', Inr granted)" by simp
    note IH = Cons.IH [OF r f1 Cons.prems(3) t1]
    have "rg_statements s < N" using reconcile_grants_statements [OF r] Cons.prems(3) by (simp add: s1)
    then have "grant_declared T (rg_db s1) u g"
      using count(4) [OF True run_times_now [OF Cons.prems(4)]] by (simp add: db1)
    then have "grant_declared T (rg_db s') u g"
      by (rule grant_declared_mono) (use IH in \<open>simp add: service_step_def\<close>)
    with IH step1 show ?thesis unfolding db1 by (auto intro: service_step_trans)
  next
    case False
    with rest obtain s2 y granted' where i: "admin_stmt io s1 (grant_insert env a service_id g) = (s2, Inr y)"
      and r: "reconcile_grants env io a service_id s2 gs = (s', Inr granted')" by auto
    from i obtain s3 where g: "grant_insert env a service_id g s1 = Some (s3, y)"
      and s2: "s2 = s3\<lparr>rg_statements := rg_statements s1 + 1\<rparr>" by (auto simp: admin_stmt_Inr_iff)
    have mono: "rg_statements s2 \<le> rg_statements s'" by (rule reconcile_grants_statements [OF r])
    have "rg_statements s1 < N" using mono Cons.prems(3) by (simp add: s2)
    note post = grant_insert_Some [OF g assms(2) fresh_draws_now [OF f1 this]]
    from post(1) have step2: "service_step env u s1 s2" by (simp add: s2)
    note IH = Cons.IH [OF r fresh_draws_step [OF f1 step2] Cons.prems(3) run_times_step [OF t1 step2]]
    have "grant_declared T (rg_db s2) u g"
      using post(3) count(2,3) by (auto simp: grant_declared_def in_force_def s2 declared_grant_row_def intro!: bexI)
    then have "grant_declared T (rg_db s') u g"
      by (rule grant_declared_mono) (use IH in \<open>simp add: service_step_def\<close>)
    moreover have "rg_db s' = (rg_db s)\<lparr>authority_grants := authority_grants (rg_db s')\<rparr>"
      by (rule grants_only_trans [of "rg_db s2"]) (use IH post(2) in \<open>simp_all add: s2 db1\<close>)
    ultimately show ?thesis using IH step1 step2 by (auto intro: service_step_trans)
  qed
qed

text \<open>A service as its entry in the manifest declares it.\<close>

definition declared ::
  "i64 set \<Rightarrow> (string \<Rightarrow> string \<Rightarrow> RegistrarError + string) \<Rightarrow> Db \<Rightarrow> ActorId \<Rightarrow> ServiceSpec \<Rightarrow> bool" where
  "declared T uids db u service \<longleftrightarrow>
     find (\<lambda>r. idr_id r = u) (identities db) = Some (declared_identity u service) \<and>
     identities_check (declared_identity u service) \<and>
     binding_declared uids db u service \<and> admission_declared db u service \<and>
     (\<forall>g \<in> set (ssp_grants service). grant_declared T db u g)"

text \<open>Another service's step leaves it so.\<close>

lemma declared_step:
  assumes "declared T uids (rg_db s) v service" and "service_step env u s s'" and "v \<noteq> u"
  shows "declared T uids (rg_db s') v service"
proof -
  have "\<forall>g \<in> set (ssp_grants service). grant_declared T (rg_db s') v g"
    using assms(1,2) by (auto simp: declared_def service_step_def intro: grant_declared_mono)
  with assms show ?thesis
    by (auto simp: declared_def service_step_def binding_declared_def admission_declared_def split: option.split)
qed

lemma reconcile_admission_statements:
  "reconcile_admission env io a s service = (s', r) \<Longrightarrow> rg_statements s \<le> rg_statements s'"
  by (auto simp: reconcile_admission_def bind_admin_def dest!: admin_stmt_statements split: prod.splits sum.splits)

lemma reconcile_service_Inr:
  assumes "reconcile_service env io a s service = (s', Inr applied)"
    and "cast_actor env (ssp_service_id service) = Some u" and "re_uid env = (\<lambda>_. uids)"
    and "fresh_draws env N s" and "rg_statements s' \<le> N" and "run_times env N T s"
  shows "service_step env u s s'" and "declared T uids (rg_db s') u service"
    and "sql_text a \<and> length_between 1 200 (btrim a)"
proof -
  from assms(1) obtain s1 s2 s3 rows bound admitted granted where
    i: "admin_stmt io s (identity_upsert env service) = (s1, Inr rows)"
    and b: "reconcile_binding env io s1 service = (s2, Inr bound)"
    and c: "reconcile_admission env io a s2 service = (s3, Inr admitted)"
    and g: "reconcile_grants env io a (ssp_service_id service) s3 (ssp_grants service) = (s', Inr granted)"
    by (auto simp: reconcile_service_def)
  from i obtain s0 where i0: "identity_upsert env service s = Some (s0, rows)"
    and s1: "s1 = s0\<lparr>rg_statements := rg_statements s + 1\<rparr>" by (auto simp: admin_stmt_Inr_iff)
  note I = identity_upsert_Some [OF i0 assms(2)]
  note B = reconcile_binding_Inr [OF b assms(2,3)]
  from I(1) have step1: "service_step env u s s1" by (simp add: s1)
  have f2: "fresh_draws env N s2"
    by (rule fresh_draws_step [OF fresh_draws_step [OF assms(4) step1] B(1)])
  have "rg_statements s3 \<le> N" using reconcile_grants_statements [OF g] assms(5) by simp
  note A = reconcile_admission_Inr [OF c assms(2) f2 this]
  have t3: "run_times env N T s3"
    by (rule run_times_step [OF run_times_step [OF run_times_step [OF assms(6) step1] B(1)] A(1)])
  note G = reconcile_grants_Inr [OF g assms(2) fresh_draws_step [OF f2 A(1)] assms(5) t3]
  from G have steps: "service_step env u s3 s'" and dbg: "rg_db s' = (rg_db s3)\<lparr>authority_grants := authority_grants (rg_db s')\<rparr>"
    and gs: "\<forall>g \<in> set (ssp_grants service). grant_declared T (rg_db s') u g" by blast+
  show "service_step env u s s'"
    by (rule service_step_trans [OF step1 service_step_trans [OF B(1) service_step_trans [OF A(1) steps]]])
  show "sql_text a \<and> length_between 1 200 (btrim a)" by (rule A(4))
  have ids: "identities (rg_db s') = identities (rg_db s0)"
    using B(3) by (subst dbg, subst A(3)) (simp add: s1)
  have "service_enrollment_bindings (rg_db s') = service_enrollment_bindings (rg_db s2)"
    by (subst dbg, subst A(3)) simp
  then have "binding_declared uids (rg_db s') u service" using B(2) by (simp add: binding_declared_def split: option.splits)
  moreover have "service_communication_admission (rg_db s') = service_communication_admission (rg_db s3)"
    by (subst dbg) simp
  then have "admission_declared (rg_db s') u service" using A(2) by (simp add: admission_declared_def)
  ultimately show "declared T uids (rg_db s') u service"
    using I(2,3) gs ids by (simp add: declared_def)
qed

text \<open>After a pass every service is as declared.\<close>

abbreviation service_uuids :: "Registrar_Env \<Rightarrow> ServiceSpec list \<Rightarrow> ActorId option list" where
  "service_uuids env services \<equiv> map (\<lambda>service. cast_actor env (ssp_service_id service)) services"

lemma reconcile_service_cast:
  "reconcile_service env io a s service = (s', Inr applied) \<Longrightarrow> \<exists>u. cast_actor env (ssp_service_id service) = Some u"
  by (auto simp: reconcile_service_def admin_stmt_Inr_iff identity_upsert_def split: option.splits)

lemma reconcile_binding_statements:
  "reconcile_binding env io s service = (s', r) \<Longrightarrow> rg_statements s \<le> rg_statements s'"
  by (auto simp: reconcile_binding_def bind_admin_def dest!: admin_stmt_statements
      split: prod.splits sum.splits option.splits)

lemma reconcile_service_statements:
  assumes "reconcile_service env io a s service = (s', Inr applied)"
  shows "rg_statements s \<le> rg_statements s'"
proof -
  from assms obtain s1 s2 s3 rows bound admitted granted where
    "admin_stmt io s (identity_upsert env service) = (s1, Inr rows)"
    and "reconcile_binding env io s1 service = (s2, Inr bound)"
    and "reconcile_admission env io a s2 service = (s3, Inr admitted)"
    and "reconcile_grants env io a (ssp_service_id service) s3 (ssp_grants service) = (s', Inr granted)"
    by (auto simp: reconcile_service_def)
  from admin_stmt_statements [OF this(1)] reconcile_binding_statements [OF this(2)]
    reconcile_admission_statements [OF this(3)] reconcile_grants_statements [OF this(4)]
  show ?thesis by simp
qed

lemma reconcile_services_statements:
  "reconcile_services env io a s changes services = (s', Inr changes') \<Longrightarrow> rg_statements s \<le> rg_statements s'"
  by (induction services arbitrary: s changes) (auto dest: reconcile_service_statements order_trans)

lemma reconcile_services_Inr:
  assumes "reconcile_services env io a s changes services = (s', Inr changes')"
    and "distinct (service_uuids env services)" and "re_uid env = (\<lambda>_. uids)"
    and "fresh_draws env N s" and "rg_statements s' \<le> N" and "run_times env N T s"
  shows "(\<forall>service \<in> set services. \<exists>u. cast_actor env (ssp_service_id service) = Some u \<and>
      declared T uids (rg_db s') u service \<and> sql_text a \<and> length_between 1 200 (btrim a)) \<and>
    (\<forall>v service. Some v \<notin> set (service_uuids env services) \<longrightarrow> declared T uids (rg_db s) v service \<longrightarrow>
       declared T uids (rg_db s') v service)"
  using assms(1,2,4,6)
proof (induction services arbitrary: s changes)
  case Nil
  then show ?case by simp
next
  case (Cons service services)
  from Cons.prems(1) obtain s1 applied where x: "reconcile_service env io a s service = (s1, Inr applied)"
    and rest: "reconcile_services env io a s1 (btree_insert (ssp_display_name service) applied changes) services = (s', Inr changes')"
    by auto
  from reconcile_service_cast [OF x] obtain u where u: "cast_actor env (ssp_service_id service) = Some u" ..
  have "rg_statements s1 \<le> N" using reconcile_services_statements [OF rest] assms(5) by simp
  note X = reconcile_service_Inr [OF x u assms(3) Cons.prems(3) this Cons.prems(4)]
  have d: "distinct (service_uuids env services)" and new: "Some u \<notin> set (service_uuids env services)"
    using Cons.prems(2) u by auto
  note IH = Cons.IH [OF rest d fresh_draws_step [OF Cons.prems(3) X(1)] run_times_step [OF Cons.prems(4) X(1)]]
  have "declared T uids (rg_db s') u service" using IH new X(2) by blast
  moreover have "declared T uids (rg_db s') v other"
    if "Some v \<notin> set (service_uuids env (service # services))" and "declared T uids (rg_db s) v other" for v other
  proof -
    from that u have "v \<noteq> u" and "Some v \<notin> set (service_uuids env services)" by auto
    with declared_step [OF that(2) X(1)] IH show ?thesis by blast
  qed
  ultimately show ?case using IH u X(3) by auto
qed


section \<open>A second pass\<close>

lemma identity_upsert_again:
  assumes "declared T uids (rg_db s) u service" and "cast_actor env (ssp_service_id service) = Some u"
  shows "identity_upsert env service s = Some (s, 0)"
proof -
  have f: "find (\<lambda>r. idr_id r = u) (identities (rg_db s)) = Some (declared_identity u service)"
    and c: "identities_check (declared_identity u service)"
    using assms(1) by (auto simp: declared_def)
  have "fk idr_id (identities (rg_db s)) u" by (simp add: fk_find f)
  moreover have "upsert idr_id (declared_identity u service) (identities (rg_db s)) = (0, identities (rg_db s))"
    by (rule upsert_again) (use f in \<open>simp add: declared_identity_def\<close>)
  ultimately show ?thesis
    using assms(2) c by (simp add: identity_upsert_def declared_identity_def Let_def)
qed

lemma reconcile_binding_again:
  assumes "declared T uids (rg_db s) u service" and "cast_actor env (ssp_service_id service) = Some u"
    and "re_uid env = (\<lambda>_. uids)"
  shows "\<exists>n. reconcile_binding env no_faults s service = (s\<lparr>rg_statements := n\<rparr>, Inr [])"
proof (cases "\<exists>ns sa. ssp_namespace service = Some ns \<and> ssp_service_account service = Some sa")
  case False
  then have "reconcile_binding env no_faults s service = (s\<lparr>rg_statements := rg_statements s\<rparr>, Inr [])"
    by (auto simp: reconcile_binding_def split: option.split)
  then show ?thesis ..
next
  case True
  then obtain ns sa where ns: "ssp_namespace service = Some ns" "ssp_service_account service = Some sa" by blast
  with assms(1) obtain uid where uid: "uids ns sa = Inr uid"
    and f: "find (\<lambda>r. ebr_service_id r = u) (service_enrollment_bindings (rg_db s)) = Some (declared_binding u ns sa uid)"
    and chk: "enrollment_text_check ns" "enrollment_text_check sa" "enrollment_text_check uid"
    by (auto simp: declared_def binding_declared_def)
  have "upsert ebr_service_id (declared_binding u ns sa uid) (service_enrollment_bindings (rg_db s)) =
      (0, service_enrollment_bindings (rg_db s))"
    by (rule upsert_again) (use f in \<open>simp add: declared_binding_def\<close>)
  with assms(2) chk have "binding_upsert env (ssp_service_id service) ns sa uid s = Some (s, 0)"
    by (simp add: binding_upsert_def declared_binding_def Let_def)
  with ns uid assms(3) have "reconcile_binding env no_faults s service = (s\<lparr>rg_statements := rg_statements s + 1\<rparr>, Inr [])"
    by (simp add: reconcile_binding_def admin_stmt_Some)
  then show ?thesis ..
qed

lemma set_admission_again:
  assumes "find (\<lambda>r. amr_service_id r = u) (service_communication_admission (rg_db s)) = Some c"
    and "amr_communication_enabled c = enabled" and "amr_updated_at c \<le> t"
    and "admin_metadata_check a reason t"
    and "\<forall>h \<in> set (rg_admission_history s). adh_service_id h = u \<longrightarrow> adh_correlation_id h \<noteq> x"
  shows "\<exists>h. set_service_communication_admission u enabled a reason x t s =
      Some (s\<lparr>rg_admission_history := rg_admission_history s @ [h]\<rparr>, ''no_op'') \<and> adh_service_id h = u"
proof -
  have "find (\<lambda>h. adh_service_id h = u \<and> adh_correlation_id h = x) (rg_admission_history s) = None"
    using assms(5) by (auto simp: find_None_iff)
  with assms(1-4) show ?thesis
    by (intro exI [of _ "\<lparr>adh_service_id = u, adh_old_enabled = enabled, adh_new_enabled = enabled,
        adh_revision = amr_revision c, adh_outcome = ''no_op'', adh_administrator_identity = btrim a,
        adh_reason = btrim reason, adh_correlation_id = x, adh_committed_at = t\<rparr>"])
      (simp add: set_service_communication_admission_def Let_def)
qed

text \<open>A later time at the same cluster: no grant that was in force at one of the times \<open>T\<close> has expired,
  no timestamp lies ahead.\<close>

definition later_run :: "i64 set \<Rightarrow> Registrar_Env \<Rightarrow> Admin_State \<Rightarrow> bool" where
  "later_run T env s \<longleftrightarrow>
     (\<forall>n. 0 \<le> re_now env n) \<and>
     (\<forall>r \<in> set (service_communication_admission (rg_db s)). \<forall>n. amr_updated_at r \<le> re_now env n) \<and>
     (\<forall>r \<in> set (authority_grants (rg_db s)). in_force T r \<longrightarrow> (\<forall>n. in_force {re_now env n} r))"

lemma reconcile_admission_again:
  assumes "declared T uids (rg_db s) u service" and "cast_actor env (ssp_service_id service) = Some u"
    and "later_run T env s" and "sql_text a" and "length_between 1 200 (btrim a)"
    and "\<forall>h \<in> set (rg_admission_history s). adh_service_id h = u \<longrightarrow> (\<forall>n. adh_correlation_id h \<noteq> re_fresh env n 0)"
  shows "\<exists>h n. reconcile_admission env no_faults a s service =
      (s\<lparr>rg_admission_history := rg_admission_history s @ [h], rg_statements := n\<rparr>, Inr []) \<and> adh_service_id h = u"
proof -
  let ?n = "rg_statements s"
  from assms(1) obtain c where c: "find (\<lambda>r. amr_service_id r = u) (service_communication_admission (rg_db s)) = Some c"
    "amr_communication_enabled c = ssp_communication_enabled service"
    by (auto simp: declared_def admission_declared_def)
  have t: "amr_updated_at c \<le> re_now env ?n"
    using assms(3) find_SomeD [OF c(1)] by (simp add: later_run_def)
  have "sql_text ''registrar reconciliation''" "length_between 1 1000 (btrim ''registrar reconciliation'')" by code_simp+
  with assms(3-5) have m: "admin_metadata_check a ''registrar reconciliation'' (re_now env ?n)"
    by (simp add: admin_metadata_check_def later_run_def)
  from assms(6) have "\<forall>h \<in> set (rg_admission_history s). adh_service_id h = u \<longrightarrow> adh_correlation_id h \<noteq> re_fresh env ?n 0"
    by blast
  from set_admission_again [OF c t m this] obtain h where
    "set_service_communication_admission u (ssp_communication_enabled service) a ''registrar reconciliation''
       (re_fresh env ?n 0) (re_now env ?n) s = Some (s\<lparr>rg_admission_history := rg_admission_history s @ [h]\<rparr>, ''no_op'')"
    and "adh_service_id h = u" by blast
  moreover from this assms(2) have "reconcile_admission env no_faults a s service =
      (s\<lparr>rg_admission_history := rg_admission_history s @ [h], rg_statements := ?n + 1\<rparr>, Inr [])"
    by (simp add: reconcile_admission_def admin_stmt_Some)
  ultimately show ?thesis by blast
qed

lemma reconcile_grants_again:
  assumes "\<forall>g \<in> set gs. grant_declared T (rg_db s) u g" and "cast_actor env service_id = Some u" and "later_run T env s"
  shows "\<exists>n. reconcile_grants env no_faults a service_id s gs = (s\<lparr>rg_statements := n\<rparr>, Inr [])"
  using assms(1,3)
proof (induction gs arbitrary: s)
  case Nil
  have "s = s\<lparr>rg_statements := rg_statements s\<rparr>" by simp
  then show ?case unfolding reconcile_grants.simps by blast
next
  case (Cons g gs)
  let ?n = "rg_statements s" and ?s1 = "s\<lparr>rg_statements := rg_statements s + 1\<rparr>"
  from Cons.prems(1) have g: "grant_declared T (rg_db s) u g" by simp
  then obtain r where r: "r \<in> set (authority_grants (rg_db s))" "live_equivalent u g (re_now env ?n) r"
    using Cons.prems(2) by (fastforce simp: grant_declared_def live_equivalent_def later_run_def in_force_def split: option.split)
  define m where "m = count_where (live_equivalent u g (re_now env ?n)) (authority_grants (rg_db s))"
  have "m \<noteq> 0" using r by (auto simp: m_def)
  moreover have "count_live_grants env service_id g s = Some (s, m)"
    using g assms(2) by (simp add: count_live_grants_def m_def grant_declared_def)
  moreover obtain n where "reconcile_grants env no_faults a service_id ?s1 gs = (?s1\<lparr>rg_statements := n\<rparr>, Inr [])"
    using Cons.IH [of ?s1] Cons.prems by (auto simp: later_run_def)
  ultimately have "reconcile_grants env no_faults a service_id s (g # gs) = (s\<lparr>rg_statements := n\<rparr>, Inr [])"
    by (simp add: admin_stmt_Some)
  then show ?case by blast
qed

lemma reconcile_service_again:
  assumes "declared T uids (rg_db s) u service" and "cast_actor env (ssp_service_id service) = Some u"
    and "re_uid env = (\<lambda>_. uids)"
    and "later_run T env s" and "sql_text a" and "length_between 1 200 (btrim a)"
    and "\<forall>h \<in> set (rg_admission_history s). adh_service_id h = u \<longrightarrow> (\<forall>n. adh_correlation_id h \<noteq> re_fresh env n 0)"
  shows "\<exists>h n. reconcile_service env no_faults a s service =
      (s\<lparr>rg_admission_history := rg_admission_history s @ [h], rg_statements := n\<rparr>, Inr []) \<and> adh_service_id h = u"
proof -
  define s1 where "s1 = s\<lparr>rg_statements := rg_statements s + 1\<rparr>"
  have i: "admin_stmt no_faults s (identity_upsert env service) = (s1, Inr 0)"
    using identity_upsert_again [OF assms(1,2)] by (simp add: s1_def admin_stmt_Some)
  have d1: "declared T uids (rg_db s1) u service" using assms(1) by (simp add: s1_def)
  from reconcile_binding_again [OF d1 assms(2,3)] obtain n2
    where b: "reconcile_binding env no_faults s1 service = (s1\<lparr>rg_statements := n2\<rparr>, Inr [])" ..
  define s2 where "s2 = s1\<lparr>rg_statements := n2\<rparr>"
  have d2: "declared T uids (rg_db s2) u service" and l2: "later_run T env s2"
    and h2: "\<forall>h \<in> set (rg_admission_history s2). adh_service_id h = u \<longrightarrow> (\<forall>n. adh_correlation_id h \<noteq> re_fresh env n 0)"
    using assms(1,4,7) by (simp_all add: s2_def s1_def later_run_def)
  from reconcile_admission_again [OF d2 assms(2) l2 assms(5,6) h2] obtain h n3 where
    c: "reconcile_admission env no_faults a s2 service =
      (s2\<lparr>rg_admission_history := rg_admission_history s2 @ [h], rg_statements := n3\<rparr>, Inr [])" and h: "adh_service_id h = u"
    by blast
  define s3 where "s3 = s2\<lparr>rg_admission_history := rg_admission_history s2 @ [h], rg_statements := n3\<rparr>"
  have "\<forall>g \<in> set (ssp_grants service). grant_declared T (rg_db s3) u g" and "later_run T env s3"
    using assms(1,4) by (simp_all add: s3_def s2_def s1_def later_run_def declared_def)
  from reconcile_grants_again [OF this(1) assms(2) this(2)] obtain n4 where
    g: "reconcile_grants env no_faults a (ssp_service_id service) s3 (ssp_grants service) = (s3\<lparr>rg_statements := n4\<rparr>, Inr [])" ..
  have "reconcile_service env no_faults a s service = (s3\<lparr>rg_statements := n4\<rparr>, Inr [])"
    unfolding reconcile_service_def i bind_admin_Inr b s2_def [symmetric] c s3_def [symmetric] g by simp
  then show ?thesis using h by (auto simp: s3_def s2_def s1_def)
qed

lemma btree_insert_values: "snd ` set (btree_insert k v m) \<subseteq> insert v (snd ` set m)"
  by (induction k v m rule: btree_insert.induct) auto

lemma reconcile_services_again:
  assumes "\<forall>service \<in> set services. \<exists>u. cast_actor env (ssp_service_id service) = Some u \<and>
      declared T uids (rg_db s) u service \<and> sql_text a \<and> length_between 1 200 (btrim a)"
    and "distinct (service_uuids env services)" and "re_uid env = (\<lambda>_. uids)" and "later_run T env s"
    and "\<forall>h \<in> set (rg_admission_history s). Some (adh_service_id h) \<in> set (service_uuids env services) \<longrightarrow>
      (\<forall>n. adh_correlation_id h \<noteq> re_fresh env n 0)"
    and "snd ` set changes \<subseteq> {[]}"
  shows "\<exists>hs n changes'. reconcile_services env no_faults a s changes services =
      (s\<lparr>rg_admission_history := hs, rg_statements := n\<rparr>, Inr changes') \<and> snd ` set changes' \<subseteq> {[]}"
  using assms(1,2,4-6)
proof (induction services arbitrary: s changes)
  case Nil
  have "s = s\<lparr>rg_admission_history := rg_admission_history s, rg_statements := rg_statements s\<rparr>" by simp
  with Nil show ?case unfolding reconcile_services.simps by blast
next
  case (Cons service services)
  from Cons.prems(1) obtain u where u: "cast_actor env (ssp_service_id service) = Some u"
    and d: "declared T uids (rg_db s) u service" and a: "sql_text a" "length_between 1 200 (btrim a)" by auto
  have "\<forall>h \<in> set (rg_admission_history s). adh_service_id h = u \<longrightarrow> (\<forall>n. adh_correlation_id h \<noteq> re_fresh env n 0)"
    using Cons.prems(4) u by simp
  from reconcile_service_again [OF d u assms(3) Cons.prems(3) a this] obtain h n where
    x: "reconcile_service env no_faults a s service =
      (s\<lparr>rg_admission_history := rg_admission_history s @ [h], rg_statements := n\<rparr>, Inr [])" (is "_ = (?s1, _)")
    and h: "adh_service_id h = u" by blast
  let ?c = "btree_insert (ssp_display_name service) [] changes"
  have "snd ` set ?c \<subseteq> {[]}" using btree_insert_values [of "ssp_display_name service" "[]" changes] Cons.prems(5) by blast
  moreover have "\<forall>h \<in> set (rg_admission_history ?s1). Some (adh_service_id h) \<in> set (service_uuids env services) \<longrightarrow>
      (\<forall>n. adh_correlation_id h \<noteq> re_fresh env n 0)"
    using Cons.prems(2,4) u h by auto
  moreover have "later_run T env ?s1" using Cons.prems(3) by (simp add: later_run_def)
  ultimately obtain hs m changes' where
    "reconcile_services env no_faults a ?s1 ?c services = (?s1\<lparr>rg_admission_history := hs, rg_statements := m\<rparr>, Inr changes')"
    and "snd ` set changes' \<subseteq> {[]}"
    using Cons.IH [of ?s1 ?c] Cons.prems(1,2) by auto
  then have "reconcile_services env no_faults a s changes (service # services) =
      (s\<lparr>rg_admission_history := hs, rg_statements := m\<rparr>, Inr changes')"
    by (simp add: x)
  with \<open>snd ` set changes' \<subseteq> {[]}\<close> show ?case by blast
qed


section \<open>What the registrar promises\<close>

text \<open>The times at which the statements between two states run.\<close>

definition times_between :: "Registrar_Env \<Rightarrow> Admin_State \<Rightarrow> Admin_State \<Rightarrow> i64 set" where
  "times_between env s s' = re_now env ` {rg_statements s..<rg_statements s'}"

lemma reconcile_Inr:
  assumes "registrar_reconcile env io s manifest administrator = (s', Inr changes)"
    and "distinct (service_uuids env (mf_services manifest))" and "re_uid env = (\<lambda>_. uids)"
    and "fresh_draws env (rg_statements s') s"
  shows "\<forall>service \<in> set (mf_services manifest). \<exists>u. cast_actor env (ssp_service_id service) = Some u \<and>
    declared (times_between env s s') uids (rg_db s') u service \<and>
    sql_text administrator \<and> length_between 1 200 (btrim administrator)"
proof -
  have "run_times env (rg_statements s') (times_between env s s') s"
    by (simp add: run_times_def times_between_def)
  from reconcile_services_Inr [OF assms(1) [unfolded registrar_reconcile_def] assms(2-4) order_refl this]
  show ?thesis by blast
qed

text \<open>C40: A successful pass leaves every service of the manifest as its entry declares it: an active
  identity of that kind and name; where the entry names both a namespace and a service account, its
  enrollment binding to them, enabled, with the UID the cluster answered; its communication admission
  as declared; and for each grant listed a grant of that service, action and scope, to any
  destination, that is not revoked and had not expired when the pass looked (it has no end, or one
  after the time of a statement of this pass). An expired or revoked grant is therefore issued anew.
  The entries must name different services, and the correlation IDs the database draws must not be in use.\<close>

theorem reconcile_establishes_manifest:
  assumes "registrar_reconcile env io s manifest administrator = (s', Inr changes)"
    and "distinct (service_uuids env (mf_services manifest))" and "re_uid env = (\<lambda>_. uids)"
    and "fresh_draws env (rg_statements s') s"
  shows "\<forall>service \<in> set (mf_services manifest). \<exists>u. cast_actor env (ssp_service_id service) = Some u \<and>
    declared (times_between env s s') uids (rg_db s') u service"
  using reconcile_Inr [OF assms] by blast

text \<open>C24: Running the registrar twice changes nothing the second time, provided the entries of the
  manifest name pairwise different services (by UUID) and the cluster and the UUID casts answer as
  before. After a successful pass, a second pass over the same manifest in which no statement fails,
  at a later time (no timestamp of the admission table lies ahead, no grant that was in force during
  the first pass has expired) and with fresh correlation IDs, succeeds, reports no change for any
  service, and leaves every table of the kernel, the grants' administration and its audit exactly as
  they were; only the history of admission calls grows.\<close>

theorem reconcile_idempotent:
  assumes "registrar_reconcile env io s manifest administrator = (s', Inr changes)"
    and "distinct (service_uuids env (mf_services manifest))" and "re_uid env = (\<lambda>_. uids)"
    and "fresh_draws env (rg_statements s') s"
    and "re_cast env' = re_cast env" and "re_uid env' = re_uid env" and "later_run (times_between env s s') env' s'"
    and "\<forall>h \<in> set (rg_admission_history s'). \<forall>n. adh_correlation_id h \<noteq> re_fresh env' n 0"
  shows "\<exists>s'' changes'. registrar_reconcile env' no_faults s' manifest administrator = (s'', Inr changes') \<and>
    (\<forall>c \<in> set changes'. snd c = []) \<and> rg_db s'' = rg_db s' \<and>
    rg_grant_administration s'' = rg_grant_administration s' \<and> rg_grant_audit s'' = rg_grant_audit s'"
proof -
  have cast: "cast_actor env' = cast_actor env" using assms(5) by (simp add: cast_actor_def fun_eq_iff)
  note first = reconcile_Inr [OF assms(1-4)]
  have "\<exists>hs n changes'. reconcile_services env' no_faults administrator s' [] (mf_services manifest) =
      (s'\<lparr>rg_admission_history := hs, rg_statements := n\<rparr>, Inr changes') \<and> snd ` set changes' \<subseteq> {[]}"
    by (rule reconcile_services_again [where uids = uids and T = "times_between env s s'"])
      (use first assms in \<open>simp_all add: cast\<close>)
  then show ?thesis unfolding registrar_reconcile_def by (fastforce simp: image_subset_iff)
qed

text \<open>The condition on the services is needed. A manifest that lists one service twice, under two
  display names, is never settled: each entry overwrites the identity row of the other, so every pass
  that succeeds, the hundredth as well as the first, reports a change for it.\<close>

lemma btree_insert_in: "(k, v) \<in> set (btree_insert k v m)"
  by (induction k v m rule: btree_insert.induct) auto

theorem double_entry_never_settles:
  assumes "registrar_reconcile env io s \<lparr>mf_services = [a, b]\<rparr> administrator = (s', Inr changes)"
    and "cast_actor env (ssp_service_id a) = Some u" and "cast_actor env (ssp_service_id b) = Some u"
    and "ssp_display_name a \<noteq> ssp_display_name b"
    and "re_uid env = (\<lambda>_. uids)" and "fresh_draws env (rg_statements s') s"
  shows "\<exists>c \<in> set changes. snd c \<noteq> []"
proof -
  from assms(1) obtain s1 xa xb where a: "reconcile_service env io administrator s a = (s1, Inr xa)"
    and b: "reconcile_service env io administrator s1 b = (s', Inr xb)"
    and changes: "changes = btree_insert (ssp_display_name b) xb (btree_insert (ssp_display_name a) xa [])"
    by (auto simp: registrar_reconcile_def)
  have "run_times env (rg_statements s') UNIV s" by (simp add: run_times_def)
  from reconcile_service_Inr(2) [OF a assms(2,5,6) reconcile_service_statements [OF b] this]
  have named: "find (\<lambda>r. idr_id r = u) (identities (rg_db s1)) = Some (declared_identity u a)"
    by (simp add: declared_def)
  have "upsert idr_id (declared_identity u b) (identities (rg_db s1)) =
      (1, update_where (\<lambda>r. idr_id r = u) (\<lambda>_. declared_identity u b) (identities (rg_db s1)))"
    using named assms(4) by (simp add: upsert_def declared_identity_def)
  then have "n = 1" if "identity_upsert env b s1 = Some (s2, n)" for s2 n
    using that assms(3) by (auto simp: identity_upsert_def declared_identity_def Let_def split: if_splits)
  with b have "xb \<noteq> []" by (auto simp: reconcile_service_def admin_stmt_Inr_iff)
  with changes btree_insert_in show ?thesis by fastforce
qed


section \<open>Withdrawal\<close>

text \<open>Revoking one grant sets that row's \<open>revoked_at\<close>, unless it is set already.\<close>

lemma revoke_authority_grant_Some:
  assumes "revoke_authority_grant i a reason x t s = Some (s1, out)" and "distinct (map agr_grant_id (authority_grants (rg_db s)))"
  shows "rg_db s1 = (rg_db s)\<lparr>authority_grants :=
    map (\<lambda>r. if agr_grant_id r = i \<and> agr_revoked_at r = None then r\<lparr>agr_revoked_at := Some t\<rparr> else r)
      (authority_grants (rg_db s))\<rparr>"
proof -
  let ?f = "\<lambda>r. if agr_grant_id r = i \<and> agr_revoked_at r = None then r\<lparr>agr_revoked_at := Some t\<rparr> else r"
  from assms(1) obtain e where e: "find (\<lambda>r. agr_grant_id r = i) (authority_grants (rg_db s)) = Some e"
    by (auto simp: revoke_authority_grant_def Let_def split: if_splits option.splits)
  have same: "r = e" if "r \<in> set (authority_grants (rg_db s))" and "agr_grant_id r = i" for r
    using that find_SomeD [OF e] assms(2) by (auto simp: distinct_map dest: inj_onD)
  show ?thesis
  proof (cases "agr_revoked_at e")
    case None
    with e assms(1) have "rg_db s1 = (rg_db s)\<lparr>authority_grants := update_where (\<lambda>r. agr_grant_id r = i)
        (\<lambda>r. r\<lparr>agr_revoked_at := Some t\<rparr>) (authority_grants (rg_db s))\<rparr>"
      by (auto simp: revoke_authority_grant_def Let_def split: if_splits)
    moreover have "update_where (\<lambda>r. agr_grant_id r = i) (\<lambda>r. r\<lparr>agr_revoked_at := Some t\<rparr>) (authority_grants (rg_db s)) =
        map ?f (authority_grants (rg_db s))"
      using same None by (auto simp: update_where_def)
    ultimately show ?thesis by simp
  next
    case (Some t0)
    with e assms(1) have "rg_db s1 = rg_db s"
      by (auto simp: revoke_authority_grant_def Let_def split: if_splits)
    moreover have "map ?f (authority_grants (rg_db s)) = authority_grants (rg_db s)"
      using same Some by (auto intro!: map_idI)
    ultimately show ?thesis by simp
  qed
qed

text \<open>What becomes of a row when the rows \<open>gone\<close> are withdrawn: a live one of them is revoked at one of
  the times, any other row stays.\<close>

definition withdrawn :: "i64 set \<Rightarrow> (grant_row \<Rightarrow> bool) \<Rightarrow> grant_row \<Rightarrow> grant_row \<Rightarrow> bool" where
  "withdrawn T gone r r' \<longleftrightarrow>
     (if agr_revoked_at r = None \<and> gone r then \<exists>t \<in> T. r' = r\<lparr>agr_revoked_at := Some t\<rparr> else r' = r)"

lemma list_all2_in_set1: "list_all2 P xs ys \<Longrightarrow> x \<in> set xs \<Longrightarrow> \<exists>y \<in> set ys. P x y"
  by (induction rule: list_all2_induct) auto

lemma prune_grants_statements:
  "prune_grants env io a wanted s live = (s', r) \<Longrightarrow> rg_statements s \<le> rg_statements s'"
proof (induction live arbitrary: s r)
  case (Cons q live)
  then show ?case
    by (fastforce simp: bind_admin_def dest: admin_stmt_statements split: prod.splits sum.splits if_splits)
qed simp

lemma prune_grants_Inr:
  assumes "prune_grants env io a wanted s live = (s', Inr removed)"
    and "distinct (map agr_grant_id (authority_grants (rg_db s)))"
  shows "\<exists>rs. rg_db s' = (rg_db s)\<lparr>authority_grants := rs\<rparr> \<and>
    list_all2 (withdrawn (times_between env s s')
      (\<lambda>r. \<exists>q \<in> set live. agr_grant_id q = agr_grant_id r \<and> grant_text env q \<notin> set wanted)) (authority_grants (rg_db s)) rs"
  using assms
proof (induction live arbitrary: s removed)
  case Nil
  then show ?case by (intro exI [of _ "authority_grants (rg_db s)"]) (simp add: withdrawn_def list.rel_refl)
next
  case (Cons q live)
  show ?case
  proof (cases "grant_text env q \<in> set wanted")
    case True
    with Cons.prems have "prune_grants env io a wanted s live = (s', Inr removed)" by simp
    from Cons.IH [OF this Cons.prems(2)] True show ?thesis by simp
  next
    let ?t = "re_now env (rg_statements s)"
    case False
    with Cons.prems(1) obtain s1 out removed' where
      r: "admin_stmt io s (\<lambda>s. revoke_authority_grant (agr_grant_id q) a ''registrar prune: not present in manifest''
            (re_fresh env (rg_statements s) 0) (re_now env (rg_statements s)) s) = (s1, Inr out)"
      and rest: "prune_grants env io a wanted s1 live = (s', Inr removed')" by auto
    from r obtain s0 where r0: "revoke_authority_grant (agr_grant_id q) a ''registrar prune: not present in manifest''
            (re_fresh env (rg_statements s) 0) ?t s = Some (s0, out)"
      and db1: "rg_db s1 = rg_db s0" and n: "rg_statements s1 = rg_statements s + 1" by (auto simp: admin_stmt_Inr_iff)
    let ?f = "\<lambda>r. if agr_grant_id r = agr_grant_id q \<and> agr_revoked_at r = None then r\<lparr>agr_revoked_at := Some ?t\<rparr> else r"
    have first: "rg_db s1 = (rg_db s)\<lparr>authority_grants := map ?f (authority_grants (rg_db s))\<rparr>"
      unfolding db1 by (rule revoke_authority_grant_Some [OF r0 Cons.prems(2)])
    have "map agr_grant_id (map ?f (authority_grants (rg_db s))) = map agr_grant_id (authority_grants (rg_db s))" by simp
    moreover have "authority_grants (rg_db s1) = map ?f (authority_grants (rg_db s))" by (simp add: first)
    ultimately have "distinct (map agr_grant_id (authority_grants (rg_db s1)))" using Cons.prems(2) by metis
    from Cons.IH [OF rest this] obtain rs where rs: "rg_db s' = (rg_db s1)\<lparr>authority_grants := rs\<rparr>"
      "list_all2 (withdrawn (times_between env s1 s')
        (\<lambda>r. \<exists>q \<in> set live. agr_grant_id q = agr_grant_id r \<and> grant_text env q \<notin> set wanted))
        (map ?f (authority_grants (rg_db s))) rs"
      by (auto simp: first)
    have T: "times_between env s1 s' \<subseteq> times_between env s s'" "?t \<in> times_between env s s'"
      using prune_grants_statements [OF rest] n by (auto simp: times_between_def)
    have "list_all2 (withdrawn (times_between env s s')
        (\<lambda>r. \<exists>q \<in> set (q # live). agr_grant_id q = agr_grant_id r \<and> grant_text env q \<notin> set wanted)) (authority_grants (rg_db s)) rs"
      using rs(2) unfolding list_all2_map1
    proof (rule list_all2_mono)
      fix r r'
      assume w: "withdrawn (times_between env s1 s')
        (\<lambda>r. \<exists>q \<in> set live. agr_grant_id q = agr_grant_id r \<and> grant_text env q \<notin> set wanted) (?f r) r'"
      show "withdrawn (times_between env s s')
        (\<lambda>r. \<exists>q \<in> set (q # live). agr_grant_id q = agr_grant_id r \<and> grant_text env q \<notin> set wanted) r r'"
      proof (cases "agr_grant_id r = agr_grant_id q \<and> agr_revoked_at r = None")
        case True
        with w have "r' = r\<lparr>agr_revoked_at := Some ?t\<rparr>" by (simp add: withdrawn_def)
        with True T(2) False show ?thesis unfolding withdrawn_def by auto
      next
        case other: False
        then have "?f r = r" by auto
        with w have "withdrawn (times_between env s1 s')
          (\<lambda>r. \<exists>q \<in> set live. agr_grant_id q = agr_grant_id r \<and> grant_text env q \<notin> set wanted) r r'" by simp
        with other T(1) show ?thesis unfolding withdrawn_def by (auto split: if_splits)
      qed
    qed
    with rs(1) first show ?thesis by auto
  qed
qed

lemma disable_unmanaged_Some:
  "disable_unmanaged env managed s = Some (s1, accounts) \<Longrightarrow>
     rg_db s1 = (rg_db s)\<lparr>service_enrollment_bindings :=
       map (\<lambda>b. if re_text env (ActorId_as_uuid (ebr_service_id b)) \<in> set managed then b else b\<lparr>ebr_enabled := False\<rparr>)
         (service_enrollment_bindings (rg_db s))\<rparr>"
  by (auto simp: disable_unmanaged_def Let_def update_where_def split: if_splits)

text \<open>The whole effect of a prune on the database.\<close>

definition pruned_binding :: "Registrar_Env \<Rightarrow> Manifest \<Rightarrow> binding_row \<Rightarrow> binding_row" where
  "pruned_binding env manifest b =
     (if re_text env (ActorId_as_uuid (ebr_service_id b)) \<in> set (map ssp_service_id (mf_services manifest)) then b
      else b\<lparr>ebr_enabled := False\<rparr>)"

lemma prune_exact:
  assumes "prune env io s manifest administrator = (s', Inr removed)"
    and "distinct (map agr_grant_id (authority_grants (rg_db s)))"
  shows "\<exists>rs. rg_db s' = (rg_db s)
      \<lparr>service_enrollment_bindings := map (pruned_binding env manifest) (service_enrollment_bindings (rg_db s)),
       authority_grants := rs\<rparr> \<and>
    list_all2 (withdrawn (times_between env s s') (\<lambda>r. grant_text env r \<notin> set (wanted_grants manifest)))
      (authority_grants (rg_db s)) rs"
proof -
  from assms(1) obtain s1 accounts s2 live removed' where
    d: "admin_stmt io s (disable_unmanaged env (map ssp_service_id (mf_services manifest))) = (s1, Inr accounts)"
    and l: "admin_stmt io s1 (\<lambda>s. Some (s, filter (\<lambda>r. agr_revoked_at r = None) (authority_grants (rg_db s)))) = (s2, Inr live)"
    and g: "prune_grants env io administrator (wanted_grants manifest) s2 live = (s', Inr removed')"
    by (auto simp: prune_def simp del: set_map)
  from d obtain s0 where d0: "disable_unmanaged env (map ssp_service_id (mf_services manifest)) s = Some (s0, accounts)"
    and s1: "rg_db s1 = rg_db s0" by (auto simp: admin_stmt_Inr_iff simp del: set_map)
  have db1: "rg_db s1 = (rg_db s)\<lparr>service_enrollment_bindings :=
      map (pruned_binding env manifest) (service_enrollment_bindings (rg_db s))\<rparr>"
    unfolding s1 using disable_unmanaged_Some [OF d0] by (simp add: pruned_binding_def [abs_def])
  from l have db2: "rg_db s2 = rg_db s1" and live: "live = filter (\<lambda>r. agr_revoked_at r = None) (authority_grants (rg_db s))"
    by (auto simp: admin_stmt_Inr_iff db1)
  have "rg_statements s \<le> rg_statements s2" using admin_stmt_statements [OF d] admin_stmt_statements [OF l] by simp
  then have T: "times_between env s2 s' \<subseteq> times_between env s s'" by (auto simp: times_between_def)
  have same: "q = r" if "q \<in> set (authority_grants (rg_db s))" "r \<in> set (authority_grants (rg_db s))" "agr_grant_id q = agr_grant_id r" for q r
    using assms(2) that by (auto simp: distinct_map dest: inj_onD)
  from prune_grants_Inr [OF g] assms(2) obtain rs where rs: "rg_db s' = (rg_db s2)\<lparr>authority_grants := rs\<rparr>"
    "list_all2 (withdrawn (times_between env s2 s')
      (\<lambda>r. \<exists>q \<in> set live. agr_grant_id q = agr_grant_id r \<and> grant_text env q \<notin> set (wanted_grants manifest)))
      (authority_grants (rg_db s)) rs"
    by (auto simp: db2 db1)
  have "list_all2 (withdrawn (times_between env s s') (\<lambda>r. grant_text env r \<notin> set (wanted_grants manifest)))
      (authority_grants (rg_db s)) rs"
  proof (rule list.rel_mono_strong [OF rs(2)])
    fix r r'
    assume r: "r \<in> set (authority_grants (rg_db s))"
      and w: "withdrawn (times_between env s2 s')
        (\<lambda>r. \<exists>q \<in> set live. agr_grant_id q = agr_grant_id r \<and> grant_text env q \<notin> set (wanted_grants manifest)) r r'"
    have "(\<exists>q \<in> set live. agr_grant_id q = agr_grant_id r \<and> grant_text env q \<notin> set (wanted_grants manifest)) \<longleftrightarrow>
        grant_text env r \<notin> set (wanted_grants manifest)" if "agr_revoked_at r = None"
      using that r same by (auto simp: live)
    with w T show "withdrawn (times_between env s s') (\<lambda>r. grant_text env r \<notin> set (wanted_grants manifest)) r r'"
      by (auto simp: withdrawn_def split: if_splits)
  qed
  with rs(1) db2 db1 show ?thesis by auto
qed

lemma prune_Inr:
  assumes "prune env io s manifest administrator = (s', Inr removed)"
    and "distinct (map agr_grant_id (authority_grants (rg_db s)))"
  shows "(\<forall>b \<in> set (service_enrollment_bindings (rg_db s')).
       ebr_enabled b \<longrightarrow> re_text env (ActorId_as_uuid (ebr_service_id b)) \<in> set (map ssp_service_id (mf_services manifest))) \<and>
    (\<forall>r \<in> set (authority_grants (rg_db s')). agr_revoked_at r = None \<longrightarrow> grant_text env r \<in> set (wanted_grants manifest))"
proof -
  from prune_exact [OF assms] obtain rs where rs: "rg_db s' = (rg_db s)
      \<lparr>service_enrollment_bindings := map (pruned_binding env manifest) (service_enrollment_bindings (rg_db s)),
       authority_grants := rs\<rparr>"
    "list_all2 (withdrawn (times_between env s s') (\<lambda>r. grant_text env r \<notin> set (wanted_grants manifest)))
      (authority_grants (rg_db s)) rs" by blast
  have "grant_text env r \<in> set (wanted_grants manifest)" if "r \<in> set rs" "agr_revoked_at r = None" for r
  proof -
    from rs(2) that(1) obtain q where
      "withdrawn (times_between env s s') (\<lambda>r. grant_text env r \<notin> set (wanted_grants manifest)) q r"
      by (auto simp: list_all2_conv_all_nth in_set_conv_nth)
    with that(2) show ?thesis by (auto simp: withdrawn_def split: if_splits)
  qed
  then show ?thesis by (auto simp: rs(1) pruned_binding_def split: if_splits)
qed

text \<open>C25: A successful prune withdraws what the manifest does not ask for, and nothing else. Every
  enrollment binding of a service the manifest names stays exactly as it was, every other one is
  disabled. Every grant the manifest lists, and every grant that was revoked before, stays exactly as
  it was; every other grant is revoked, at the time of one of the prune's statements. No other column
  and no other table of the kernel changes. So afterwards every enabled binding is of a service the
  manifest names and every grant that is not revoked is listed in it. (Services are compared by the
  text of their UUID, as the source does.)\<close>

theorem prune_withdraws_undeclared:
  assumes "prune env io s manifest administrator = (s', Inr removed)"
    and "distinct (map agr_grant_id (authority_grants (rg_db s)))"
  shows "(\<exists>rs. rg_db s' = (rg_db s)
      \<lparr>service_enrollment_bindings :=
         map (\<lambda>b. if re_text env (ActorId_as_uuid (ebr_service_id b)) \<in> ssp_service_id ` set (mf_services manifest)
           then b else b\<lparr>ebr_enabled := False\<rparr>) (service_enrollment_bindings (rg_db s)),
       authority_grants := rs\<rparr> \<and>
    list_all2 (\<lambda>r r'. if agr_revoked_at r = None \<and> grant_text env r \<notin> set (wanted_grants manifest)
         then \<exists>n. rg_statements s \<le> n \<and> n < rg_statements s' \<and> r' = r\<lparr>agr_revoked_at := Some (re_now env n)\<rparr>
         else r' = r)
      (authority_grants (rg_db s)) rs) \<and>
    (\<forall>b \<in> set (service_enrollment_bindings (rg_db s')).
       ebr_enabled b \<longrightarrow> re_text env (ActorId_as_uuid (ebr_service_id b)) \<in> set (map ssp_service_id (mf_services manifest))) \<and>
    (\<forall>r \<in> set (authority_grants (rg_db s')). agr_revoked_at r = None \<longrightarrow> grant_text env r \<in> set (wanted_grants manifest)) \<and>
    (\<forall>r \<in> set (authority_grants (rg_db s)). grant_text env r \<in> set (wanted_grants manifest) \<longrightarrow>
       r \<in> set (authority_grants (rg_db s'))) \<and>
    identities (rg_db s') = identities (rg_db s) \<and>
    service_communication_admission (rg_db s') = service_communication_admission (rg_db s)"
proof -
  from prune_exact [OF assms] obtain rs where rs: "rg_db s' = (rg_db s)
      \<lparr>service_enrollment_bindings := map (pruned_binding env manifest) (service_enrollment_bindings (rg_db s)),
       authority_grants := rs\<rparr>"
    and w: "list_all2 (withdrawn (times_between env s s') (\<lambda>r. grant_text env r \<notin> set (wanted_grants manifest)))
      (authority_grants (rg_db s)) rs" by blast
  have exact: "list_all2 (\<lambda>r r'. if agr_revoked_at r = None \<and> grant_text env r \<notin> set (wanted_grants manifest)
         then \<exists>n. rg_statements s \<le> n \<and> n < rg_statements s' \<and> r' = r\<lparr>agr_revoked_at := Some (re_now env n)\<rparr>
         else r' = r)
      (authority_grants (rg_db s)) rs"
    using w by (rule list_all2_mono) (auto simp: withdrawn_def times_between_def split: if_splits)
  have kept: "\<forall>r \<in> set (authority_grants (rg_db s)). grant_text env r \<in> set (wanted_grants manifest) \<longrightarrow>
      r \<in> set (authority_grants (rg_db s'))"
    using list_all2_in_set1 [OF w] by (fastforce simp: rs withdrawn_def)
  have frame: "identities (rg_db s') = identities (rg_db s)"
    "service_communication_admission (rg_db s') = service_communication_admission (rg_db s)"
    by (simp_all add: rs)
  note left = prune_Inr [OF assms]
  show ?thesis
    by (intro conjI exI [of _ rs] frame kept exact conjunct1 [OF left] conjunct2 [OF left])
      (simp add: rs pruned_binding_def [abs_def])
qed

text \<open>Once a prune has succeeded, no authority decision of the kernel sees a grant the manifest does not
  list, and no enrollment finds an enabled binding of a service it does not name.\<close>

theorem undeclared_authority_not_offered:
  assumes "prune env io s manifest administrator = (s', Inr removed)"
    and "distinct (map agr_grant_id (authority_grants (rg_db s)))"
    and "pg_matching_grants io' (rg_db s') facts now = Inr gs" and "g \<in> set gs"
    and "pg_find_workload io'' (rg_db s') namespace service_account uid = Inr (Some b)" and "eb_enabled b"
  shows "(re_text env (ActorId_as_uuid (gr_source g)), ActionName_as_str (gr_action g), Scope_as_str (gr_scope g))
      \<in> set (wanted_grants manifest) \<and>
    re_text env (ActorId_as_uuid (eb_service_id b)) \<in> ssp_service_id ` set (mf_services manifest)"
proof -
  note pruned = prune_Inr [OF assms(1,2)]
  from assms(4) pg_matching_grants_Inr [OF assms(3)] obtain r where
    "r \<in> set (authority_grants (rg_db s'))" "agr_revoked_at r = None" "g = row_grant r"
    by (auto simp: live_grants_of_def)
  with pruned have "grant_text env r \<in> set (wanted_grants manifest)" by blast
  with \<open>g = row_grant r\<close> have "(re_text env (ActorId_as_uuid (gr_source g)), ActionName_as_str (gr_action g),
      Scope_as_str (gr_scope g)) \<in> set (wanted_grants manifest)"
    by (simp add: grant_text_def row_grant_def)
  moreover from assms(5,6) obtain row where "row \<in> set (service_enrollment_bindings (rg_db s'))" "ebr_enabled row"
    "eb_service_id b = ebr_service_id row"
    by (auto simp: pg_find_workload_def transpose_option_def binding_from_row_def EnrollmentBinding_restore_def
        split: db_stmt_splits if_splits option.splits sum.splits dest!: find_SomeD)
  with pruned have "re_text env (ActorId_as_uuid (eb_service_id b)) \<in> ssp_service_id ` set (mf_services manifest)" by auto
  ultimately show ?thesis ..
qed

text \<open>Reconciliation reads a service ID as a UUID, prune compares it as text. A service the manifest
  names by another spelling of its UUID (upper case, braces) than the one PostgreSQL prints is
  declared by the pass and withdrawn by the prune that follows: its enrollment binding ends up
  disabled and all its grants revoked.\<close>

theorem uncanonical_service_withdrawn:
  assumes "registrar_reconcile env io s manifest administrator = (s1, Inr changes)"
    and "prune env io s1 manifest administrator = (s', Inr removed)"
    and "distinct (map agr_grant_id (authority_grants (rg_db s1)))"
    and "distinct (service_uuids env (mf_services manifest))" and "re_uid env = (\<lambda>_. uids)"
    and "fresh_draws env (rg_statements s1) s"
    and "service \<in> set (mf_services manifest)" and "cast_actor env (ssp_service_id service) = Some u"
    and "re_text env (ActorId_as_uuid u) \<notin> ssp_service_id ` set (mf_services manifest)"
  shows "declared (times_between env s s1) uids (rg_db s1) u service \<and>
    (\<forall>b \<in> set (service_enrollment_bindings (rg_db s')). ebr_service_id b = u \<longrightarrow> \<not> ebr_enabled b) \<and>
    (\<forall>r \<in> set (authority_grants (rg_db s')). agr_source_service_id r = u \<longrightarrow> agr_revoked_at r \<noteq> None)"
proof -
  have "declared (times_between env s s1) uids (rg_db s1) u service"
    using reconcile_Inr [OF assms(1,4-6)] assms(7,8) by auto
  moreover have "fst ` set (wanted_grants manifest) \<subseteq> ssp_service_id ` set (mf_services manifest)"
    by (auto simp: wanted_grants_def)
  then have "grant_text env r \<notin> set (wanted_grants manifest)" if "agr_source_service_id r = u" for r
    using assms(9) that by (force simp: grant_text_def)
  ultimately show ?thesis using prune_Inr [OF assms(2,3)] assms(9) by auto
qed


section \<open>A concrete pass\<close>

text \<open>The sample database, a manifest that changes service 2 and adds service 3, and one that spells
  service 2 in upper case.\<close>

definition sample_registrar_env :: Registrar_Env where
  "sample_registrar_env =
     \<lparr>re_cast = (\<lambda>s. if s = ''b2'' \<or> s = ''B2'' then Some 2 else if s = ''c3'' then Some 3 else None),
      re_text = (\<lambda>u. if u = 2 then ''b2'' else if u = 3 then ''c3'' else ''00''),
      re_now = (\<lambda>_. 200), re_fresh = (\<lambda>n _. word_of_nat n), re_uid = (\<lambda>_ ns sa. Inr (''uid-'' @ sa))\<rparr>"

definition later_registrar_env :: Registrar_Env where
  "later_registrar_env = sample_registrar_env\<lparr>re_now := (\<lambda>_. 300), re_fresh := (\<lambda>_ _. 5000)\<rparr>"

definition sample_manifest :: Manifest where
  "sample_manifest = \<lparr>mf_services =
     [\<lparr>ssp_service_id = ''b2'', ssp_kind = ''worker'', ssp_display_name = ''bookkeeper'',
       ssp_namespace = Some ''default'', ssp_service_account = Some ''ledger'', ssp_communication_enabled = True,
       ssp_grants = [\<lparr>gsp_action = ''subscription.create'', gsp_scope = ''*''\<rparr>]\<rparr>,
      \<lparr>ssp_service_id = ''c3'', ssp_kind = ''service'', ssp_display_name = ''evaluator'',
       ssp_namespace = None, ssp_service_account = None, ssp_communication_enabled = False, ssp_grants = []\<rparr>]\<rparr>"

definition upper_case_manifest :: Manifest where
  "upper_case_manifest = \<lparr>mf_services =
     [(hd (mf_services sample_manifest))\<lparr>ssp_service_id := ''B2''\<rparr>]\<rparr>"

definition admin_state :: "Db \<Rightarrow> Admin_State" where
  "admin_state db = \<lparr>rg_db = db, rg_admission_history = [], rg_grant_administration = [], rg_grant_audit = [],
     rg_statements = 0\<rparr>"

definition sample_pass :: "Manifest \<Rightarrow> Admin_State \<times> (RegistrarError + (string \<times> string list) list)" where
  "sample_pass manifest = registrar_reconcile sample_registrar_env no_faults (admin_state sample_db) manifest ''operator''"

definition sample_prune :: "Manifest \<Rightarrow> Admin_State \<Rightarrow> Admin_State \<times> (RegistrarError + string list)" where
  "sample_prune m s = prune sample_registrar_env no_faults s m ''operator''"

lemma sample_pass_evaluated:
  "case sample_pass sample_manifest of (s, r) \<Rightarrow>
     \<not> isl r \<and> rg_statements s = 7 \<and>
     list_all (\<lambda>h. adh_correlation_id h \<noteq> 5000) (rg_admission_history s) \<and>
     list_all (\<lambda>r. amr_updated_at r \<le> 300) (service_communication_admission (rg_db s)) \<and>
     list_all (\<lambda>r. agr_valid_until r = None) (authority_grants (rg_db s)) \<and>
     distinct (map agr_grant_id (authority_grants (rg_db s))) \<and>
     \<not> isl (snd (sample_prune \<lparr>mf_services = []\<rparr> s)) \<and>
     (case sample_prune sample_manifest s of (s', r') \<Rightarrow>
        \<not> isl r' \<and>
        pg_matching_grants no_faults (rg_db s') (for_request_acceptance (ActorId 2) (ActionName ''subscription.create'')
            Scope_wildcard no_artifact_schema_versions) 250 =
          Inr [row_grant (declared_grant_row (GrantId 4) (ActorId 2) \<lparr>gsp_action = ''subscription.create'', gsp_scope = ''*''\<rparr>)] \<and>
        pg_find_workload no_faults (rg_db s') ''default'' ''ledger'' ''uid-ledger'' =
          Inr (Some \<lparr>eb_service_id = ActorId 2, eb_namespace = ''default'', eb_service_account = ''ledger'',
            eb_service_account_uid = ''uid-ledger'', eb_enabled = True\<rparr>))"
  by code_simp

lemmas sample_pass_Inr = sample_pass_evaluated [unfolded split_beta, THEN conjunct1]
  sample_pass_evaluated [unfolded split_beta, THEN conjunct2, THEN conjunct1]
  sample_pass_evaluated [unfolded split_beta, THEN conjunct2, THEN conjunct2, THEN conjunct1]
  sample_pass_evaluated [unfolded split_beta, THEN conjunct2, THEN conjunct2, THEN conjunct2, THEN conjunct1]
  sample_pass_evaluated [unfolded split_beta, THEN conjunct2, THEN conjunct2, THEN conjunct2, THEN conjunct2, THEN conjunct1]

lemma sample_prunes:
  "distinct (map agr_grant_id (authority_grants (rg_db (fst (sample_pass sample_manifest)))))"
  "\<not> isl (snd (sample_prune \<lparr>mf_services = []\<rparr> (fst (sample_pass sample_manifest))))"
  "\<not> isl (snd (sample_prune sample_manifest (fst (sample_pass sample_manifest))))"
  "pg_matching_grants no_faults (rg_db (fst (sample_prune sample_manifest (fst (sample_pass sample_manifest)))))
     (for_request_acceptance (ActorId 2) (ActionName ''subscription.create'') Scope_wildcard no_artifact_schema_versions) 250 =
   Inr [row_grant (declared_grant_row (GrantId 4) (ActorId 2) \<lparr>gsp_action = ''subscription.create'', gsp_scope = ''*''\<rparr>)]"
  "pg_find_workload no_faults (rg_db (fst (sample_prune sample_manifest (fst (sample_pass sample_manifest)))))
     ''default'' ''ledger'' ''uid-ledger'' =
   Inr (Some \<lparr>eb_service_id = ActorId 2, eb_namespace = ''default'', eb_service_account = ''ledger'',
     eb_service_account_uid = ''uid-ledger'', eb_enabled = True\<rparr>)"
  using sample_pass_evaluated unfolding split_beta by blast+

lemma sample_pass_run:
  "\<not> isl (snd (sample_pass m)) \<Longrightarrow> registrar_reconcile sample_registrar_env no_faults (admin_state sample_db) m ''operator'' =
     (fst (sample_pass m), Inr (projr (snd (sample_pass m))))"
  by (simp add: sample_pass_def prod_eq_iff)

lemma sample_fresh_draws: "N \<le> 100 \<Longrightarrow> fresh_draws sample_registrar_env N (admin_state sample_db)"
proof -
  assume N: "N \<le> 100"
  have "word_of_nat i \<noteq> (word_of_nat j :: Uuid)" if "i < j" "j < N" for i j
  proof -
    from that N have "unat (word_of_nat i :: Uuid) = i" and "unat (word_of_nat j :: Uuid) = j"
      by (simp_all add: unat_of_nat)
    then show ?thesis using that(1) by (metis less_irrefl)
  qed
  then show ?thesis
    by (simp add: fresh_draws_def admin_state_def correlations_def sample_registrar_env_def)
qed

lemma sample_services: "distinct (service_uuids sample_registrar_env (mf_services sample_manifest))"
  "distinct (service_uuids sample_registrar_env (mf_services upper_case_manifest))"
  by code_simp+

lemma sample_uids: "re_uid sample_registrar_env = (\<lambda>_ ns sa. Inr (''uid-'' @ sa))"
  by (simp add: sample_registrar_env_def)

theorem reconcile_establishes_manifest_witness:
  "\<exists>u. cast_actor sample_registrar_env ''b2'' = Some u \<and>
     declared {200} (\<lambda>ns sa. Inr (''uid-'' @ sa)) (rg_db (fst (sample_pass sample_manifest))) u (hd (mf_services sample_manifest))"
proof -
  have "hd (mf_services sample_manifest) \<in> set (mf_services sample_manifest)"
    and "ssp_service_id (hd (mf_services sample_manifest)) = ''b2''"
    by (simp_all add: sample_manifest_def)
  moreover have "times_between sample_registrar_env (admin_state sample_db) (fst (sample_pass sample_manifest)) = {200}"
    unfolding times_between_def sample_pass_Inr(2) by (simp add: admin_state_def sample_registrar_env_def image_constant_conv)
  ultimately show ?thesis
    using reconcile_establishes_manifest [OF sample_pass_run [OF sample_pass_Inr(1)] sample_services(1) sample_uids
        sample_fresh_draws] sample_pass_Inr(2)
    by fastforce
qed

lemma sample_later: "later_run T later_registrar_env (fst (sample_pass sample_manifest))"
  using sample_pass_Inr(4,5)
  by (auto simp: later_run_def in_force_def later_registrar_env_def sample_registrar_env_def list_all_iff)

theorem reconcile_idempotent_witness:
  "\<exists>s'' changes'. registrar_reconcile later_registrar_env no_faults (fst (sample_pass sample_manifest)) sample_manifest ''operator'' =
     (s'', Inr changes') \<and> rg_db s'' = rg_db (fst (sample_pass sample_manifest))"
proof -
  have "re_cast later_registrar_env = re_cast sample_registrar_env" "re_uid later_registrar_env = re_uid sample_registrar_env"
    by (simp_all add: later_registrar_env_def)
  moreover have "\<forall>h \<in> set (rg_admission_history (fst (sample_pass sample_manifest))).
      \<forall>n. adh_correlation_id h \<noteq> re_fresh later_registrar_env n 0"
    using sample_pass_Inr(3) by (simp add: later_registrar_env_def list_all_iff)
  ultimately show ?thesis
    using reconcile_idempotent [OF sample_pass_run [OF sample_pass_Inr(1)] sample_services(1) sample_uids _ _ _ sample_later]
      sample_fresh_draws sample_pass_Inr(2) by fastforce
qed

definition double_manifest :: Manifest where
  "double_manifest = \<lparr>mf_services =
     [hd (mf_services sample_manifest), (hd (mf_services sample_manifest))\<lparr>ssp_display_name := ''ledger''\<rparr>]\<rparr>"

lemma double_pass: "\<not> isl (snd (sample_pass double_manifest)) \<and> rg_statements (fst (sample_pass double_manifest)) \<le> 100"
  by code_simp

theorem double_entry_never_settles_witness:
  "\<exists>c \<in> set (projr (snd (sample_pass double_manifest))). snd c \<noteq> []"
proof -
  let ?a = "hd (mf_services sample_manifest)"
  have c: "cast_actor sample_registrar_env (ssp_service_id ?a) = Some (ActorId 2)" by code_simp
  have run: "registrar_reconcile sample_registrar_env no_faults (admin_state sample_db)
      \<lparr>mf_services = [?a, ?a\<lparr>ssp_display_name := ''ledger''\<rparr>]\<rparr> ''operator'' =
      (fst (sample_pass double_manifest), Inr (projr (snd (sample_pass double_manifest))))"
    using sample_pass_run [of double_manifest] double_pass by (simp add: double_manifest_def)
  show ?thesis
    by (rule double_entry_never_settles [OF run c _ _ sample_uids sample_fresh_draws [OF conjunct2 [OF double_pass]]])
      (use c in \<open>simp_all add: sample_manifest_def\<close>)
qed

lemma sample_prune_run:
  "\<not> isl (snd (sample_prune m s)) \<Longrightarrow> prune sample_registrar_env no_faults s m ''operator'' =
     (fst (sample_prune m s), Inr (projr (snd (sample_prune m s))))"
  by (simp add: sample_prune_def prod_eq_iff)

theorem prune_withdraws_undeclared_witness:
  "filter ebr_enabled (service_enrollment_bindings (rg_db (fst (sample_prune \<lparr>mf_services = []\<rparr> (fst (sample_pass sample_manifest)))))) = [] \<and>
   map ebr_service_id (service_enrollment_bindings (rg_db (fst (sample_prune \<lparr>mf_services = []\<rparr> (fst (sample_pass sample_manifest)))))) =
   map ebr_service_id (service_enrollment_bindings (rg_db (fst (sample_pass sample_manifest))))"
  using prune_withdraws_undeclared [OF sample_prune_run [OF sample_prunes(2)] sample_prunes(1)]
  by (auto simp: comp_def filter_empty_conv)

theorem undeclared_authority_not_offered_witness:
  "(''b2'', ''subscription.create'', ''*'') \<in> set (wanted_grants sample_manifest)"
proof -
  note offered = undeclared_authority_not_offered [OF sample_prune_run [OF sample_prunes(3)] sample_prunes(1) sample_prunes(4) _
      sample_prunes(5)]
  show ?thesis
    using offered by (simp add: row_grant_def declared_grant_row_def sample_registrar_env_def)
qed

lemma upper_case_evaluated:
  "case sample_pass upper_case_manifest of (s, r) \<Rightarrow>
     \<not> isl r \<and> rg_statements s = 5 \<and> distinct (map agr_grant_id (authority_grants (rg_db s))) \<and>
     \<not> isl (snd (sample_prune upper_case_manifest s))"
  "re_text sample_registrar_env 2 \<notin> ssp_service_id ` set (mf_services upper_case_manifest)"
  by code_simp+

lemma upper_case_pass:
  "\<not> isl (snd (sample_pass upper_case_manifest))" "rg_statements (fst (sample_pass upper_case_manifest)) = 5"
  "distinct (map agr_grant_id (authority_grants (rg_db (fst (sample_pass upper_case_manifest)))))"
  "\<not> isl (snd (sample_prune upper_case_manifest (fst (sample_pass upper_case_manifest))))"
  using upper_case_evaluated(1) unfolding split_beta by blast+

theorem uncanonical_service_withdrawn_witness:
  "filter (\<lambda>r. agr_source_service_id r = ActorId 2 \<and> agr_revoked_at r = None)
     (authority_grants (rg_db (fst (sample_prune upper_case_manifest (fst (sample_pass upper_case_manifest)))))) = []"
proof -
  define service where "service = hd (mf_services upper_case_manifest)"
  have s: "service \<in> set (mf_services upper_case_manifest)" "cast_actor sample_registrar_env (ssp_service_id service) = Some (ActorId 2)"
    unfolding service_def by code_simp+
  from uncanonical_service_withdrawn [OF sample_pass_run [OF upper_case_pass(1)] sample_prune_run [OF upper_case_pass(4)]
      upper_case_pass(3) sample_services(2) sample_uids sample_fresh_draws s] upper_case_pass(2) upper_case_evaluated(2)
  show ?thesis by (auto simp: filter_empty_conv)
qed

end
