(* ===== verification/Policy_Evaluator.thy ===== *)
theory Policy_Evaluator
  imports Authority Instance_Keys Http_Dto
begin

text \<open>
  \<open>src/infrastructure/http_policy_evaluator.rs\<close>: the signed call to the external policy evaluator, and
  what of its answer counts as a verdict. The crate \<open>infernal-client\<close>, the HTTPS exchange,
  \<open>serde_json\<close> and the clock are arguments.
\<close>

definition EVALUATE_PATH :: string where
  "EVALUATE_PATH = ''/v1/authority/evaluate''"

definition EVALUATION_VALIDITY_SECONDS :: i64 where
  "EVALUATION_VALIDITY_SECONDS = 30"

record EvaluateGrant =
  evg_grant_id :: string
  evg_source_service_id :: string
  evg_action :: string
  evg_scope :: string
  evg_artifact_schema_version_id :: string
  evg_permission_policy_schema_version_id :: string
  evg_destination_service_id :: "string option"
  evg_valid_from :: i64
  evg_valid_until :: "i64 option"

primrec GrantId_show :: "Crates \<Rightarrow> GrantId \<Rightarrow> string" where
  "GrantId_show X (GrantId u) = uuid_show X u"

definition EvaluateGrant_from :: "Crates \<Rightarrow> Grant \<Rightarrow> EvaluateGrant" where
  "EvaluateGrant_from X grant =
     \<lparr>evg_grant_id = GrantId_show X (gr_id grant), evg_source_service_id = ActorId_show X (gr_source grant),
      evg_action = ActionName_as_str (gr_action grant), evg_scope = Scope_as_str (gr_scope grant),
      evg_artifact_schema_version_id = SchemaVersionId_show X (svr_artifact (gr_schema_versions grant)),
      evg_permission_policy_schema_version_id =
        SchemaVersionId_show X (svr_permission_policy (gr_schema_versions grant)),
      evg_destination_service_id = map_option (ActorId_show X) (gr_destination grant),
      evg_valid_from = gr_valid_from grant, evg_valid_until = gr_valid_until grant\<rparr>"

record EvaluateRequest =
  evr_source_service_id :: string
  evr_action :: string
  evr_scope :: string
  evr_artifact_schema_version_id :: string
  evr_permission_policy_schema_version_id :: string
  evr_destination_service_id :: "string option"
  evr_grants :: "EvaluateGrant list"

definition EvaluateRequest_from_facts_and_grants :: "Crates \<Rightarrow> PolicyFacts \<Rightarrow> Grant list \<Rightarrow> EvaluateRequest" where
  "EvaluateRequest_from_facts_and_grants X facts grants =
     \<lparr>evr_source_service_id = ActorId_show X (pf_source facts),
      evr_action = ActionName_as_str (pf_action facts), evr_scope = Scope_as_str (pf_scope facts),
      evr_artifact_schema_version_id = SchemaVersionId_show X (svr_artifact (pf_schema_versions facts)),
      evr_permission_policy_schema_version_id =
        SchemaVersionId_show X (svr_permission_policy (pf_schema_versions facts)),
      evr_destination_service_id = map_option (ActorId_show X) (pf_destination facts),
      evr_grants = map (EvaluateGrant_from X) grants\<rparr>"

record EvaluateResponse =
  evs_verdict :: string
  evs_policy_bundle_version :: string

definition EvaluateResponse_into_evaluation :: "EvaluateResponse \<Rightarrow> AuthorityError + PolicyEvaluation" where
  "EvaluateResponse_into_evaluation r =
     bind_result
       (if evs_verdict r = ''allow'' then Inr Allow
        else if evs_verdict r = ''deny'' then Inr Deny
        else Inl (AE_Evaluator (''unknown verdict: '' @ evs_verdict r)))
       (\<lambda>verdict.
          bind_result (map_err (\<lambda>_. AE_Evaluator ''invalid policy bundle version'')
             (PolicyBundleVersion_new (evs_policy_bundle_version r)))
            (\<lambda>version. Inr \<lparr>pe_verdict = verdict, pe_policy_bundle_version = version\<rparr>))"

definition parse_response ::
  "(bytes \<Rightarrow> string + EvaluateResponse) \<Rightarrow> nat \<Rightarrow> bytes \<Rightarrow> AuthorityError + PolicyEvaluation" where
  "parse_response from_slice status body =
     (if \<not> (200 \<le> status \<and> status < 300)
      then Inl (AE_Evaluator (''policy evaluator returned status '' @ show_nat status))
      else bind_result (map_err AE_Evaluator (from_slice body)) EvaluateResponse_into_evaluation)"

text \<open>The crate's client: its key, request parts and signed requests are of its own types. The errors
  are the texts the source keeps of them.\<close>

record ('k, 'p, 'r) InfernalClient =
  cl_generate_nonce :: "string + bytes"
  cl_restore_key :: "Uuid \<Rightarrow> Uuid \<Rightarrow> Uuid \<Rightarrow> bytes \<Rightarrow> string + 'k"
  cl_parts :: "string \<Rightarrow> string \<Rightarrow> string \<Rightarrow> string \<Rightarrow> bytes \<Rightarrow> Uuid \<Rightarrow> string + 'p"
  cl_sign_with :: "'p \<Rightarrow> 'k \<Rightarrow> i64 \<Rightarrow> i64 \<Rightarrow> bytes \<Rightarrow> (bytes \<Rightarrow> bytes) \<Rightarrow> string + 'r"
  cl_send :: "'r \<Rightarrow> string + nat \<times> bytes"

definition client_public_key :: "('k, 'p, 'r) InfernalClient \<Rightarrow> InstancePublicKey \<Rightarrow> AuthorityError + 'k" where
  "client_public_key C key =
     map_err AE_Evaluator (cl_restore_key C (ActorId_as_uuid (ipk_service_id key))
       (InstanceId_as_uuid (ipk_instance_id key)) (KeyId_as_uuid (ipk_key_id key)) (ipk_public_key key))"

definition build_signed_request ::
  "Crates \<Rightarrow> ('k, 'p, 'r) InfernalClient \<Rightarrow> (EvaluateRequest \<Rightarrow> string + bytes) \<Rightarrow> Uuid \<Rightarrow> i64 \<Rightarrow>
   InstanceCredential \<Rightarrow> string \<Rightarrow> PolicyFacts \<Rightarrow> Grant list \<Rightarrow> AuthorityError + 'r" where
  "build_signed_request X C to_vec request_id now credential authority facts grants =
     bind_result (map_err AE_Evaluator (to_vec (EvaluateRequest_from_facts_and_grants X facts grants))) (\<lambda>body.
     bind_result (map_err AE_Evaluator (cl_generate_nonce C)) (\<lambda>nonce.
     bind_result (map_err AE_Evaluator (cl_parts C ''POST'' authority EVALUATE_PATH ''application/json'' body request_id)) (\<lambda>parts.
     bind_result (client_public_key C (ic_public_key credential)) (\<lambda>public_key.
       map_err AE_Evaluator (cl_sign_with C parts public_key now (wrapping_add now EVALUATION_VALIDITY_SECONDS) nonce
         (\<lambda>message. InstanceSignature_as_bytes (InstanceCredential_sign X credential message)))))))"

text \<open>\<open>HttpPolicyEvaluator\<close>: the client, the credential and the evaluator's host are its fields.\<close>

definition HttpPolicyEvaluator_evaluate ::
  "Crates \<Rightarrow> ('k, 'p, 'r) InfernalClient \<Rightarrow> (EvaluateRequest \<Rightarrow> string + bytes) \<Rightarrow>
   (bytes \<Rightarrow> string + EvaluateResponse) \<Rightarrow> Uuid \<Rightarrow> i64 \<Rightarrow> InstanceCredential \<Rightarrow> string \<Rightarrow>
   PolicyFacts \<Rightarrow> Grant list \<Rightarrow> AuthorityError + PolicyEvaluation" where
  "HttpPolicyEvaluator_evaluate X C to_vec from_slice request_id now credential authority facts grants =
     bind_result (build_signed_request X C to_vec request_id now credential authority facts grants) (\<lambda>signed_request.
     bind_result (map_err AE_Evaluator (cl_send C signed_request)) (\<lambda>(status, body).
       parse_response from_slice status body))"

text \<open>The evaluator the HTTP layer takes from its environment (\<open>policy_evaluator_from_env\<close> of
  \<open>src/http.rs\<close>): its ID and its call, or nothing. \<open>client\<close> builds the HTTPS client, trusting
  the extra root certificate when one is configured.\<close>

definition policy_evaluator_from_env ::
  "Crates \<Rightarrow> (string \<Rightarrow> string option) \<Rightarrow> (string \<Rightarrow> string + bytes) \<Rightarrow>
   (bytes option \<Rightarrow> string + ('k, 'p, 'r) InfernalClient) \<Rightarrow> (EvaluateRequest \<Rightarrow> string + bytes) \<Rightarrow>
   (bytes \<Rightarrow> string + EvaluateResponse) \<Rightarrow> Uuid \<Rightarrow> i64 \<Rightarrow> InstanceCredential \<Rightarrow>
   (ActorId \<times> (PolicyFacts \<Rightarrow> Grant list \<Rightarrow> AuthorityError + PolicyEvaluation)) option" where
  "policy_evaluator_from_env X var read client to_vec from_slice request_id now credential =
     (case (var ''POLICY_EVALUATOR_AUTHORITY'', var ''POLICY_EVALUATOR_ID'') of
        (Some authority, Some value) \<Rightarrow>
          (case ActorId_from_str X value of
             Inl _ \<Rightarrow> None
           | Inr evaluator_id \<Rightarrow>
               (case (case var ''POLICY_EVALUATOR_CA_CERT_PATH'' of
                        None \<Rightarrow> Inr None
                      | Some path \<Rightarrow> (case read path of Inl e \<Rightarrow> Inl e | Inr pem \<Rightarrow> Inr (Some pem))) of
                  Inl _ \<Rightarrow> None
                | Inr ca \<Rightarrow>
                    (case client ca of
                       Inl _ \<Rightarrow> None
                     | Inr C \<Rightarrow> Some (evaluator_id, HttpPolicyEvaluator_evaluate X C to_vec from_slice request_id now
                                        credential authority))))
      | _ \<Rightarrow> None)"


section \<open>What an answer means\<close>

text \<open>\<open>answer_means\<close>: the body of a successful response says the verdict and a bundle version.\<close>

definition answer_means :: "EvaluateResponse \<Rightarrow> PolicyEvaluation \<Rightarrow> bool" where
  "answer_means r e \<longleftrightarrow>
     evs_verdict r = (case pe_verdict e of Allow \<Rightarrow> ''allow'' | Deny \<Rightarrow> ''deny'') \<and>
     pe_policy_bundle_version e = PolicyBundleVersion (evs_policy_bundle_version r) \<and>
     evs_policy_bundle_version r \<noteq> [] \<and> length (evs_policy_bundle_version r) \<le> 200"

lemma into_evaluation_Inr: "EvaluateResponse_into_evaluation r = Inr e \<Longrightarrow> answer_means r e"
  by (auto simp: EvaluateResponse_into_evaluation_def answer_means_def PolicyBundleVersion_new_def
      MAX_POLICY_BUNDLE_VERSION_LENGTH_def split: if_splits)

lemma evaluate_Inr:
  assumes "HttpPolicyEvaluator_evaluate X C to_vec from_slice i now c authority facts grants = Inr e"
  shows "\<exists>q status body r. build_signed_request X C to_vec i now c authority facts grants = Inr q \<and>
    cl_send C q = Inr (status, body) \<and> 200 \<le> status \<and> status < 300 \<and> from_slice body = Inr r \<and> answer_means r e"
  using assms
  by (auto simp: HttpPolicyEvaluator_evaluate_def parse_response_def dest!: into_evaluation_Inr split: if_splits)

lemma evaluate_Inl:
  assumes "HttpPolicyEvaluator_evaluate X C to_vec from_slice i now c authority facts grants = Inl e"
  shows "\<exists>m. e = AE_Evaluator m"
  using assms
  by (auto simp: HttpPolicyEvaluator_evaluate_def build_signed_request_def client_public_key_def parse_response_def
      EvaluateResponse_into_evaluation_def split: if_splits)

end
