(* ===== verification/Peer_Properties.thy ===== *)
theory Peer_Properties
  imports Token_Reviewer Policy_Evaluator Enrollment_Properties Authority_Properties Http_Wiring
begin

text \<open>
  What the kernel's word rests on when it asks its two external peers: the cluster about a workload
  token, the policy evaluator about a decision. The peers may answer anything.
\<close>

section \<open>The cluster\<close>

text \<open>C18: An instance is registered by enrollment only on the cluster's word. The TokenReview call for the
  submitted token and the kernel's audience was answered with a 2xx status and a body that says
  the token authenticates, for that audience, a ServiceAccount in exactly the Pod the request
  claims; and the enabled binding of that namespace, ServiceAccount and UID names the service whose key is
  registered.\<close>

theorem enrolled_pod_was_reviewed:
  assumes "pg_enroll X (KubernetesTokenReviewer_review post json R) io io' io'' db r now = (db', Inr inst)"
  shows "\<exists>status body review w row.
    post (ktr_client R) (ktr_endpoint R) (ktr_reviewer_token R)
      \<lparr>trq_api_version = ''authentication.k8s.io/v1'', trq_kind = ''TokenReview'',
       trq_spec = \<lparr>trsp_token = er_workload_token r, trsp_audiences = [ENROLLMENT_AUDIENCE]\<rparr>\<rparr> = Inr (status, body) \<and>
    200 \<le> status \<and> status < 300 \<and> json body = Inr review \<and> review_accepts review ENROLLMENT_AUDIENCE w \<and>
    vw_pod_uid w = er_claimed_pod_uid r \<and>
    row \<in> set (service_enrollment_bindings db) \<and> ebr_enabled row \<and>
    workload_key row = (vw_namespace w, vw_service_account w, vw_service_account_uid w) \<and>
    ebr_service_id row = ipk_service_id (er_public_key r)"
proof -
  from assms have "enrollment_admissible X (KubernetesTokenReviewer_review post json R) (pg_find_workload io) db r = Inr ()"
    by (auto simp: pg_enroll_def authenticate_and_register_def split: sum.splits)
  then obtain b where
    b: "enabled_binding_of (KubernetesTokenReviewer_review post json R) (pg_find_workload io) db (er_workload_token r)
          (er_claimed_pod_uid r) = Inr b" "eb_service_id b = ipk_service_id (er_public_key r)"
    by (auto simp: enrollment_admissible_def split: if_splits)
  from enabled_binding_ofD [OF b(1)] obtain w row where
    w: "KubernetesTokenReviewer_review post json R (er_workload_token r) ENROLLMENT_AUDIENCE = Inr w"
    and rest: "vw_pod_uid w = er_claimed_pod_uid r" "row \<in> set (service_enrollment_bindings db)" "ebr_enabled row"
      "workload_key row = (vw_namespace w, vw_service_account w, vw_service_account_uid w)" "ebr_service_id row = eb_service_id b"
    by blast
  from review_Inr [OF w] rest b(2) show ?thesis by metis
qed

definition sample_post :: "unit \<Rightarrow> string \<Rightarrow> string \<Rightarrow> TokenReviewRequest \<Rightarrow> string + nat \<times> bytes" where
  "sample_post c endpoint reviewer_token q =
     (if trsp_token (trq_spec q) = ''token'' then Inr (201, concat (trsp_audiences (trq_spec q))) else Inl ''unauthorized'')"

definition sample_json :: "bytes \<Rightarrow> string + TokenReviewResponse" where
  "sample_json body = Inr \<lparr>trr_status = Some \<lparr>trs_authenticated = True, trs_audiences = [body],
     trs_user = Some \<lparr>tru_username = ''system:serviceaccount:apps:billing'', tru_uid = ''uid-1'',
       tru_extra = [''authentication.kubernetes.io/pod-name'' \<mapsto> [''billing-0''],
                    ''authentication.kubernetes.io/pod-uid'' \<mapsto> [''pod-1'']]\<rparr>\<rparr>\<rparr>"

definition sample_reviewer :: "unit KubernetesTokenReviewer" where
  "sample_reviewer = \<lparr>ktr_client = (), ktr_endpoint = ''https://cluster/apis/authentication.k8s.io/v1/tokenreviews'',
     ktr_reviewer_token = ''reviewer''\<rparr>"

lemma sample_reviewer_reviews: "KubernetesTokenReviewer_review sample_post sample_json sample_reviewer = sample_review"
proof (intro ext)
  fix token audience
  have "split_once '':'' ''apps:billing'' = Some (''apps'', ''billing'')"
    and "strip_prefix ''system:serviceaccount:'' ''system:serviceaccount:apps:billing'' = Some ''apps:billing''"
    by code_simp+
  then show "KubernetesTokenReviewer_review sample_post sample_json sample_reviewer token audience = sample_review token audience"
    by (simp add: KubernetesTokenReviewer_review_def sample_post_def sample_json_def sample_reviewer_def sample_review_def
        parse_review_def single_extra_def del: strip_prefix.simps split_once.simps strip_prefix_Some_iff)
qed

lemma signed_token: "EnrollmentRequest_sign X k c e p t = Inr r \<Longrightarrow> er_workload_token r = t"
  by (auto simp: EnrollmentRequest_sign_def Let_def split: if_splits)

theorem enrolled_pod_was_reviewed_witness:
  "\<exists>review w. sample_json ENROLLMENT_AUDIENCE = Inr review \<and> review_accepts review ENROLLMENT_AUDIENCE w \<and>
     vw_pod_uid w = er_claimed_pod_uid sample_enrollment"
proof -
  have "er_workload_token sample_enrollment = ''token''"
    by (rule signed_token [OF sample_enrollment_sign])
  with enrolled_pod_was_reviewed [OF sample_enroll [folded sample_reviewer_reviews]]
  show ?thesis by (auto simp: sample_post_def)
qed


section \<open>The policy evaluator\<close>

text \<open>C17: A decision says what the evaluator said, and a failing evaluator denies. With the evaluator of the
  process environment, every decision returned is recorded under the evaluator's ID. When the
  call fails in any way (building or signing the request, the exchange, a status outside 2xx, a body that
  does not parse, an unknown verdict, a bundle version that is empty or too long) the decision is Deny without a
  version; otherwise it carries the answer's verdict and version. So an allowing decision comes from
  a 2xx response whose body says allow.\<close>

theorem decisions_speak_for_the_evaluator:
  assumes "policy_evaluator_from_env X var read client to_vec from_slice i now c = Some ev"
    and "pg_authority io io' decision_id ev db facts t = (db', Inr d)"
  shows "\<exists>ca C authority gs. client ca = Inr C \<and> var ''POLICY_EVALUATOR_AUTHORITY'' = Some authority \<and>
    pg_matching_grants io db facts t = Inr gs \<and> ad_facts d = facts \<and> ad_evaluator d = fst ev \<and>
    d \<in> set (decisions_of db') \<and>
    (case HttpPolicyEvaluator_evaluate X C to_vec from_slice i now c authority facts gs of
       Inl e \<Rightarrow> ad_verdict d = Deny \<and> ad_policy_bundle_version d = None
     | Inr e \<Rightarrow> ad_verdict d = pe_verdict e \<and> ad_policy_bundle_version d = Some (pe_policy_bundle_version e)) \<and>
    (is_allowed d \<longrightarrow>
       (\<exists>q status body a. build_signed_request X C to_vec i now c authority facts gs = Inr q \<and>
          cl_send C q = Inr (status, body) \<and> 200 \<le> status \<and> status < 300 \<and> from_slice body = Inr a \<and>
          evs_verdict a = ''allow'' \<and> ad_policy_bundle_version d = Some (PolicyBundleVersion (evs_policy_bundle_version a))))"
proof -
  from assms(1) have "\<exists>authority ca C. var ''POLICY_EVALUATOR_AUTHORITY'' = Some authority \<and> client ca = Inr C \<and>
      snd ev = HttpPolicyEvaluator_evaluate X C to_vec from_slice i now c authority"
    by (fastforce simp: policy_evaluator_from_env_def split: option.splits sum.splits)
  then obtain authority ca C where a: "var ''POLICY_EVALUATOR_AUTHORITY'' = Some authority" "client ca = Inr C"
    and ev: "snd ev = HttpPolicyEvaluator_evaluate X C to_vec from_slice i now c authority" by blast
  let ?eval = "HttpPolicyEvaluator_evaluate X C to_vec from_slice i now c authority facts"
  from assms(2) obtain gs u where gs: "pg_matching_grants io db facts t = Inr gs"
    and rec: "pg_record_decision io' db d = (db', Inr u)"
    and d: "d = \<lparr>ad_id = decision_id, ad_facts = facts,
        ad_verdict = (case ?eval gs of Inr e \<Rightarrow> pe_verdict e | Inl _ \<Rightarrow> Deny), ad_evaluator = fst ev,
        ad_policy_bundle_version = (case ?eval gs of Inr e \<Rightarrow> Some (pe_policy_bundle_version e) | Inl _ \<Rightarrow> None),
        ad_decided_at = t\<rparr>"
    unfolding pg_authority_def ev by (auto simp: authorize_def Let_def split: sum.splits prod.splits)
  have "d \<in> set (decisions_of db')" using rec by (simp add: decisions_of_def pg_record_decision_Inr)
  moreover have "\<exists>q status body a. build_signed_request X C to_vec i now c authority facts gs = Inr q \<and>
          cl_send C q = Inr (status, body) \<and> 200 \<le> status \<and> status < 300 \<and> from_slice body = Inr a \<and>
          evs_verdict a = ''allow'' \<and> ad_policy_bundle_version d = Some (PolicyBundleVersion (evs_policy_bundle_version a))"
    if "is_allowed d"
  proof (cases "?eval gs")
    case (Inl e)
    with that d show ?thesis by (simp add: is_allowed_def)
  next
    case (Inr e)
    with that d have "pe_verdict e = Allow" by (simp add: is_allowed_def)
    with evaluate_Inr [OF Inr] d Inr show ?thesis by (fastforce simp: answer_means_def)
  qed
  ultimately show ?thesis
    using a gs by (intro exI [of _ ca] exI [of _ C] exI [of _ authority] exI [of _ gs]) (simp add: d split: sum.split)
qed

text \<open>A concrete peer that is down, and one that allows.\<close>

definition sample_client :: "nat \<Rightarrow> (bytes, bytes, bytes) InfernalClient" where
  "sample_client status = \<lparr>cl_generate_nonce = Inr ''nonce'', cl_restore_key = (\<lambda>_ _ _ k. Inr k),
     cl_parts = (\<lambda>_ _ _ _ body _. Inr body), cl_sign_with = (\<lambda>p k _ _ nonce sign. Inr (p @ sign (nonce @ p))),
     cl_send = (\<lambda>_. Inr (status, []))\<rparr>"

definition sample_var :: "string \<Rightarrow> string option" where
  "sample_var = [''POLICY_EVALUATOR_AUTHORITY'' \<mapsto> ''evaluator.test'',
     ''POLICY_EVALUATOR_ID'' \<mapsto> ActorId_show sample_crates (ActorId 0)]"

definition sample_evaluator :: "nat \<Rightarrow> ActorId \<times> (PolicyFacts \<Rightarrow> Grant list \<Rightarrow> AuthorityError + PolicyEvaluation)" where
  "sample_evaluator status = (ActorId 0, HttpPolicyEvaluator_evaluate sample_crates (sample_client status) (\<lambda>_. Inr [])
     (\<lambda>_. Inr \<lparr>evs_verdict = ''allow'', evs_policy_bundle_version = ''v1''\<rparr>) 90 100 sample_credential ''evaluator.test'')"

lemma sample_evaluator_from_env:
  "policy_evaluator_from_env sample_crates sample_var (\<lambda>_. Inl []) (\<lambda>_. Inr (sample_client status)) (\<lambda>_. Inr [])
     (\<lambda>_. Inr \<lparr>evs_verdict = ''allow'', evs_policy_bundle_version = ''v1''\<rparr>) 90 100 sample_credential =
   Some (sample_evaluator status)"
  using sample_crates_ok(1)
  by (simp add: policy_evaluator_from_env_def sample_var_def sample_evaluator_def ActorId_from_str_def ActorId_show_def uuid_text_ok_def)

lemma sample_decisions:
  "snd (pg_authority no_faults no_faults (DecisionId 70) (sample_evaluator 200) granted_db sample_facts 100) = Inr sample_decision"
  "is_allowed sample_decision"
  by code_simp+

theorem decisions_speak_for_the_evaluator_witness:
  "\<exists>gs q. pg_matching_grants no_faults granted_db sample_facts 100 = Inr gs \<and>
     build_signed_request sample_crates (sample_client 200) (\<lambda>_. Inr []) 90 100 sample_credential ''evaluator.test''
       sample_facts gs = Inr q"
proof -
  let ?r = "pg_authority no_faults no_faults (DecisionId 70) (sample_evaluator 200) granted_db sample_facts 100"
  have r: "?r = (fst ?r, Inr sample_decision)" using sample_decisions(1) by (simp add: prod_eq_iff)
  have "sample_var ''POLICY_EVALUATOR_AUTHORITY'' = Some ''evaluator.test''" by (simp add: sample_var_def)
  with decisions_speak_for_the_evaluator [OF sample_evaluator_from_env r] sample_decisions(2)
  show ?thesis by auto
qed

end
