(* ===== verification/Http_Server.thy ===== *)
theory Http_Server
  imports Http_Wiring Registrar
begin

text \<open>
  \<open>serve\<close> of \<open>src/http.rs\<close>: every accepted connection is handled by a thread of its own, and all
  threads work on the one database. A thread is \<open>handle_connection\<close> over an application whose
  state is the thread's own log; each of its repository calls is one transaction on whatever database
  the history of the server has at that moment, and between two calls any other thread or client of the
  database may have run.
\<close>

section \<open>The listener\<close>

definition DEFAULT_ADDRESS :: string where
  "DEFAULT_ADDRESS = ''0.0.0.0''"

definition DEFAULT_PORT :: string where
  "DEFAULT_PORT = ''8080''"

definition listen_address :: "(string \<Rightarrow> string option) \<Rightarrow> string" where
  "listen_address var =
     (let address = (case var ''BIND_ADDRESS'' of Some a \<Rightarrow> a | None \<Rightarrow> DEFAULT_ADDRESS);
          port = (case var ''PORT'' of Some p \<Rightarrow> p | None \<Rightarrow> DEFAULT_PORT)
      in address @ '':'' @ port)"

text \<open>
  What a connection's thread runs with: the bytes it receives, its clock, the failing statements, the
  environment, and the rest of the world. The thread's \<open>m\<close>-th writing call is the transaction
  at \<open>cn_time m\<close>; by then the others have turned the database its previous call left (or, before
  the first, the one it arrived at) by \<open>cn_others m\<close>; by the time it makes the reading call number
  \<open>j\<close> in between, by \<open>cn_others_read m j\<close>.
\<close>

record Connection =
  cn_stream :: "segment list"
  cn_clock :: "nat \<Rightarrow> i64"
  cn_faults :: "nat \<Rightarrow> faults"
  cn_route_faults :: "RouteId \<Rightarrow> faults"
  cn_environment :: Environment
  cn_arrival :: nat
  cn_time :: "nat \<Rightarrow> nat"
  cn_others :: "nat \<Rightarrow> Db \<Rightarrow> Db"
  cn_read_time :: "nat \<Rightarrow> nat \<Rightarrow> nat"
  cn_others_read :: "nat \<Rightarrow> nat \<Rightarrow> Db \<Rightarrow> Db"

text \<open>A connection that could not be accepted is reported and skipped.\<close>

definition accepted_connections :: "(string + Connection) list \<Rightarrow> Connection list" where
  "accepted_connections incoming = map projr (filter (\<lambda>c. \<not> isl c) incoming)"


section \<open>A thread\<close>

text \<open>The database a thread last left, and the log of its writing calls: when, on which database, and
  what it left.\<close>

record Thread =
  th_db :: Db
  th_log :: "(nat \<times> Db \<times> Db) list"

definition atomically :: "Connection \<Rightarrow> (Db \<Rightarrow> Db \<times> 'r) \<Rightarrow> Thread \<Rightarrow> Thread \<times> 'r" where
  "atomically c call th =
     (let m = length (th_log th);
          before = cn_others c m (th_db th);
          (after, r) = call before
      in (\<lparr>th_db = after, th_log = th_log th @ [(cn_time c m, before, after)]\<rparr>, r))"

definition reading :: "Connection \<Rightarrow> nat \<Rightarrow> (Db \<Rightarrow> 'r) \<Rightarrow> Thread \<Rightarrow> 'r" where
  "reading c j call th = call (cn_others_read c (length (th_log th)) j (th_db th))"

text \<open>The application of \<open>wiring.rs\<close> as a thread sees it. Repository calls are numbered as in
  \<open>pg_application\<close>.\<close>

definition concurrent_application :: "Crates \<Rightarrow> Connection \<Rightarrow> Thread Application" where
  "concurrent_application X c =
     (let io = cn_faults c; env = cn_environment c
      in \<lparr>app_gate = ServiceRequestGate_admit
            (\<lambda>th r now. reading c 0 (\<lambda>db. pg_verify X (io 0) db r now) th)
            (\<lambda>th v now. atomically c (\<lambda>db. ReplayProtectionService_protect (pg_replay_reserve (io 1)) db v now) th)
            (\<lambda>th a. reading c 2 (\<lambda>db. require_communication (pg_admission_find (io 2)) db a) th),
          app_reviewer_error = (case env_reviewer env of Inl e \<Rightarrow> Some e | Inr _ \<Rightarrow> None),
          app_issue_challenge = (\<lambda>th token pod now. case env_reviewer env of
              Inl e \<Rightarrow> (th, Inl e)
            | Inr review \<Rightarrow> issue_challenge_for_workload review
                (\<lambda>th n a u. reading c 3 (\<lambda>db. pg_find_workload (io 3) db n a u) th)
                (\<lambda>th a ch e. atomically c (\<lambda>db. pg_insert_challenge X (io 4) db a ch e) th)
                (env_challenge env) th token pod now),
          app_enroll = (\<lambda>th request now. case env_reviewer env of
              Inl e \<Rightarrow> (th, Inl e)
            | Inr review \<Rightarrow> authenticate_and_register X review
                (\<lambda>th n a u. reading c 3 (\<lambda>db. pg_find_workload (io 3) db n a u) th)
                (\<lambda>th a ch t. atomically c (\<lambda>db. pg_consume_challenge X (io 4) db a ch t) th)
                (\<lambda>th k e t. atomically c (\<lambda>db. register_verified LeasePolicy_default (pg_instance_insert X (io 5)) db k e t) th)
                th request now),
          app_authority = map_option (\<lambda>evaluator. authorize
              (\<lambda>th facts now. reading c 6 (\<lambda>db. pg_matching_grants (io 6) db facts now) th)
              (snd evaluator) (fst evaluator)
              (\<lambda>th d. atomically c (\<lambda>db. pg_record_decision (io 7) db d) th) (env_decision_id env)) (env_evaluator env),
          app_publish = (\<lambda>th k n a d t. atomically c
              (\<lambda>db. SchemaService_publish (pg_schema_publish (io 8) (env_schema_id env)) db k n a d t) th),
          app_eligible = eligible_for X
              (\<lambda>th a. reading c 8 (\<lambda>db. pg_list_for_destination (io 8) db a) th)
              (\<lambda>th ids now. reading c 9 (\<lambda>db. WorkClaimService_active_route_ids (pg_active_route_ids (io 9)) db ids now) th)
              (\<lambda>th ids. reading c 10 (\<lambda>db. pg_completed_route_ids (io 10) db ids) th),
          app_find_routed = find_for_destination
              (\<lambda>th i. reading c 8 (\<lambda>db. pg_route_find (io 8) db i) th)
              (\<lambda>th a i. reading c 9 (\<lambda>db. pg_request_find (io 9) db a i) th),
          app_claim = (\<lambda>th r a w lease now. atomically c
              (\<lambda>db. WorkClaimService_claim (pg_claim (io 8) (env_claim_id env)) db r a w lease now) th),
          app_renew_claim = (\<lambda>th i k lease now. atomically c (\<lambda>db. WorkClaimService_renew (pg_renew (io 8)) db i k lease now) th),
          app_release = (\<lambda>th i k now. atomically c (\<lambda>db. WorkClaimService_release (pg_release (io 8)) db i k now) th),
          app_complete = (\<lambda>th i k now. atomically c (\<lambda>db. WorkClaimService_complete (pg_complete (io 8)) db i k now) th),
          app_renew_instance = (\<lambda>th i v now. atomically c
              (\<lambda>db. InstanceRegistryService_renew LeasePolicy_default (pg_instance_renew X (io 8)) db i v now) th),
          app_accept = (\<lambda>th r f. atomically c (\<lambda>db. pg_request_accept (io 8) db (env_accepted_at env) r f) th),
          app_materialize = materialize_routes X
              (\<lambda>th e. reading c 9 (\<lambda>db. pg_find_active_by_event_type (io 9) db e) th)
              (\<lambda>th r. atomically c (\<lambda>db. pg_materialize (cn_route_faults c) db r) th) (env_route_ids env),
          app_find_request = (\<lambda>th a i. reading c 8 (\<lambda>db. pg_request_find (io 8) db a i) th),
          app_create_subscription = (\<lambda>th a e m now. atomically c
              (\<lambda>db. SubscriptionService_create (pg_subscription_insert (io 8)) (env_subscription_id env) db a e m now) th),
          app_list_subscriptions = (\<lambda>th a. reading c 8 (\<lambda>db. pg_list_for_service (io 8) db a) th),
          app_list_active_subscriptions = (\<lambda>th a. reading c 8 (\<lambda>db. pg_list_active_for_service (io 8) db a) th),
          app_disable_subscription = (\<lambda>th a i now. atomically c
              (\<lambda>db. SubscriptionService_disable (pg_subscription_disable (io 8)) db a i now) th),
          app_database_ready = (\<lambda>th. io 0 0 = None \<and> io 0 1 = None),
          app_instance_public_key = env_public_key env\<rparr>)"

definition connection_thread :: "Crates \<Rightarrow> Serde \<Rightarrow> Connection \<Rightarrow> Db \<Rightarrow> Thread \<times> bytes" where
  "connection_thread X J c db =
     handle_connection X J (concurrent_application X c) (cn_clock c) \<lparr>th_db = db, th_log = []\<rparr> (cn_stream c)"


section \<open>Histories of the server\<close>

text \<open>A thread makes its calls one after another, and sees at each what the history \<open>h\<close> has
  then; \<open>h t\<close> is the database after \<open>t\<close> transactions.\<close>

definition left_by :: "(nat \<times> Db \<times> Db) list \<Rightarrow> Db \<Rightarrow> nat \<Rightarrow> Db" where
  "left_by log db m = (case m of 0 \<Rightarrow> db | Suc n \<Rightarrow> snd (snd (log ! n)))"

definition well_timed :: "Connection \<Rightarrow> nat \<Rightarrow> bool" where
  "well_timed c n \<longleftrightarrow> cn_arrival c \<le> cn_time c 0 \<and>
     (\<forall>m < n. cn_time c m < cn_time c (m + 1)) \<and>
     (\<forall>m \<le> n. \<forall>j \<le> 10. (if m = 0 then cn_arrival c \<le> cn_read_time c m j else cn_time c (m - 1) < cn_read_time c m j) \<and>
        (m < n \<longrightarrow> cn_read_time c m j \<le> cn_time c m))"

definition sees_history :: "(nat \<Rightarrow> Db) \<Rightarrow> nat \<Rightarrow> Connection \<Rightarrow> (nat \<times> Db \<times> Db) list \<Rightarrow> bool" where
  "sees_history h N c log \<longleftrightarrow>
     (\<forall>(t, before, after) \<in> set log. t < N \<longrightarrow> before = h t \<and> after = h (t + 1)) \<and>
     (\<forall>m \<le> length log. \<forall>j \<le> 10. cn_read_time c m j \<le> N \<longrightarrow>
        cn_others_read c m j (left_by log (h (cn_arrival c)) m) = h (cn_read_time c m j))"

text \<open>The other clients of the database: what the registrar's and an operator's statements and the
  handshake reconciler write. They leave the tables of the running services alone and remove no
  identity.\<close>

definition service_tables_kept :: "Db \<Rightarrow> Db \<Rightarrow> bool" where
  "service_tables_kept db db' \<longleftrightarrow>
     work_claims db' = work_claims db \<and> request_routes db' = request_routes db \<and>
     accepted_requests db' = accepted_requests db \<and> subscriptions db' = subscriptions db \<and>
     service_request_nonces db' = service_request_nonces db \<and> service_request_ids db' = service_request_ids db \<and>
     service_instances db' = service_instances db \<and> service_instance_keys db' = service_instance_keys db \<and>
     service_enrollment_challenges db' = service_enrollment_challenges db \<and>
     idr_id ` set (identities db) \<subseteq> idr_id ` set (identities db')"

text \<open>\<open>turn t\<close> is who runs transaction \<open>t\<close>: the thread of connection \<open>k\<close>, or another
  client. Every call a thread makes before time \<open>N\<close> is the transaction of its time.\<close>

definition server_history ::
  "Crates \<Rightarrow> Serde \<Rightarrow> Connection list \<Rightarrow> (nat \<Rightarrow> nat option) \<Rightarrow> nat \<Rightarrow> (nat \<Rightarrow> Db) \<Rightarrow> bool" where
  "server_history X J cs turn N h \<longleftrightarrow>
     (let log = (\<lambda>k. th_log (fst (connection_thread X J (cs ! k) (h (cn_arrival (cs ! k))))))
      in (\<forall>k < length cs. well_timed (cs ! k) (length (log k)) \<and> sees_history h N (cs ! k) (log k) \<and>
            (\<forall>(t, _) \<in> set (log k). t < N \<longrightarrow> turn t = Some k)) \<and>
         (\<forall>t < N. case turn t of
            Some k \<Rightarrow> k < length cs \<and> t \<in> fst ` set (log k)
          | None \<Rightarrow> service_tables_kept (h t) (h (t + 1))))"

end
