(* ===== verification/Http_Parametric.thy ===== *)
theory Http_Parametric
  imports Http_Properties
begin

text \<open>
  The HTTP layer is generic in the state its operations share, so it treats that state as abstract:
  over two applications whose operations correspond under a relation \<open>S\<close> of their states, it answers
  the same and leaves related states.
\<close>

abbreviation rel_op :: "('s \<Rightarrow> 't \<Rightarrow> bool) \<Rightarrow> 's \<times> 'r \<Rightarrow> 't \<times> 'r \<Rightarrow> bool" where
  "rel_op S \<equiv> rel_prod S (=)"

text \<open>\<open>eq3 R\<close>: for three equal arguments, results in \<open>R\<close>.\<close>

abbreviation eq1 :: "('r \<Rightarrow> 'q \<Rightarrow> bool) \<Rightarrow> ('a \<Rightarrow> 'r) \<Rightarrow> ('a \<Rightarrow> 'q) \<Rightarrow> bool" where
  "eq1 R \<equiv> rel_fun (=) R"

abbreviation eq2 :: "('r \<Rightarrow> 'q \<Rightarrow> bool) \<Rightarrow> ('a \<Rightarrow> 'b \<Rightarrow> 'r) \<Rightarrow> ('a \<Rightarrow> 'b \<Rightarrow> 'q) \<Rightarrow> bool" where
  "eq2 R \<equiv> rel_fun (=) (eq1 R)"

abbreviation eq3 :: "('r \<Rightarrow> 'q \<Rightarrow> bool) \<Rightarrow> ('a \<Rightarrow> 'b \<Rightarrow> 'c \<Rightarrow> 'r) \<Rightarrow> ('a \<Rightarrow> 'b \<Rightarrow> 'c \<Rightarrow> 'q) \<Rightarrow> bool" where
  "eq3 R \<equiv> rel_fun (=) (eq2 R)"

abbreviation eq4 :: "('r \<Rightarrow> 'q \<Rightarrow> bool) \<Rightarrow> ('a \<Rightarrow> 'b \<Rightarrow> 'c \<Rightarrow> 'd \<Rightarrow> 'r) \<Rightarrow> ('a \<Rightarrow> 'b \<Rightarrow> 'c \<Rightarrow> 'd \<Rightarrow> 'q) \<Rightarrow> bool" where
  "eq4 R \<equiv> rel_fun (=) (eq3 R)"

abbreviation eq5 :: "('r \<Rightarrow> 'q \<Rightarrow> bool) \<Rightarrow> ('a \<Rightarrow> 'b \<Rightarrow> 'c \<Rightarrow> 'd \<Rightarrow> 'e \<Rightarrow> 'r) \<Rightarrow> ('a \<Rightarrow> 'b \<Rightarrow> 'c \<Rightarrow> 'd \<Rightarrow> 'e \<Rightarrow> 'q) \<Rightarrow> bool" where
  "eq5 R \<equiv> rel_fun (=) (eq4 R)"

abbreviation eq6 :: "('r \<Rightarrow> 'q \<Rightarrow> bool) \<Rightarrow> ('a \<Rightarrow> 'b \<Rightarrow> 'c \<Rightarrow> 'd \<Rightarrow> 'e \<Rightarrow> 'f \<Rightarrow> 'r) \<Rightarrow> ('a \<Rightarrow> 'b \<Rightarrow> 'c \<Rightarrow> 'd \<Rightarrow> 'e \<Rightarrow> 'f \<Rightarrow> 'q) \<Rightarrow> bool" where
  "eq6 R \<equiv> rel_fun (=) (eq5 R)"

definition key_ok :: "Crates \<Rightarrow> EnrollmentRequest \<Rightarrow> bool" where
  "key_ok X r \<longleftrightarrow> public_key_wf X (er_public_key r)"

definition rel_application :: "Crates \<Rightarrow> ('s \<Rightarrow> 't \<Rightarrow> bool) \<Rightarrow> 's Application \<Rightarrow> 't Application \<Rightarrow> bool" where
  "rel_application X S a b \<longleftrightarrow>
     rel_fun S (eq2 (rel_op S)) (app_gate a) (app_gate b) \<and>
     app_reviewer_error a = app_reviewer_error b \<and>
     rel_fun S (eq3 (rel_op S)) (app_issue_challenge a) (app_issue_challenge b) \<and>
     rel_fun S (rel_fun (eq_onp (key_ok X)) (eq1 (rel_op S))) (app_enroll a) (app_enroll b) \<and>
     rel_option (rel_fun S (eq2 (rel_op S))) (app_authority a) (app_authority b) \<and>
     rel_fun S (eq5 (rel_op S)) (app_publish a) (app_publish b) \<and>
     rel_fun S (eq2 (=)) (app_eligible a) (app_eligible b) \<and>
     rel_fun S (eq2 (=)) (app_find_routed a) (app_find_routed b) \<and>
     rel_fun S (eq5 (rel_op S)) (app_claim a) (app_claim b) \<and>
     rel_fun S (eq4 (rel_op S)) (app_renew_claim a) (app_renew_claim b) \<and>
     rel_fun S (eq3 (rel_op S)) (app_release a) (app_release b) \<and>
     rel_fun S (eq3 (rel_op S)) (app_complete a) (app_complete b) \<and>
     rel_fun S (eq3 (rel_op S)) (app_renew_instance a) (app_renew_instance b) \<and>
     rel_fun S (rel_fun (eq_onp request_wf) (eq1 (rel_op S))) (app_accept a) (app_accept b) \<and>
     rel_fun S (eq4 (rel_op S)) (app_materialize a) (app_materialize b) \<and>
     rel_fun S (eq2 (=)) (app_find_request a) (app_find_request b) \<and>
     rel_fun S (eq1 (rel_fun (eq_onp event_type_wf) (eq2 (rel_op S)))) (app_create_subscription a) (app_create_subscription b) \<and>
     rel_fun S (eq1 (=)) (app_list_subscriptions a) (app_list_subscriptions b) \<and>
     rel_fun S (eq1 (=)) (app_list_active_subscriptions a) (app_list_active_subscriptions b) \<and>
     rel_fun S (eq3 (rel_op S)) (app_disable_subscription a) (app_disable_subscription b) \<and>
     rel_fun S (=) (app_database_ready a) (app_database_ready b) \<and>
     app_instance_public_key a = app_instance_public_key b"

lemma application_transfer [transfer_rule]:
  "rel_fun (rel_application X S) (rel_fun S (eq2 (rel_op S))) app_gate app_gate"
  "rel_fun (rel_application X S) (=) app_reviewer_error app_reviewer_error"
  "rel_fun (rel_application X S) (rel_fun S (eq3 (rel_op S))) app_issue_challenge app_issue_challenge"
  "rel_fun (rel_application X S) (rel_fun S (rel_fun (eq_onp (key_ok X)) (eq1 (rel_op S)))) app_enroll app_enroll"
  "rel_fun (rel_application X S) (rel_option (rel_fun S (eq2 (rel_op S)))) app_authority app_authority"
  "rel_fun (rel_application X S) (rel_fun S (eq5 (rel_op S))) app_publish app_publish"
  "rel_fun (rel_application X S) (rel_fun S (eq2 (=))) app_eligible app_eligible"
  "rel_fun (rel_application X S) (rel_fun S (eq2 (=))) app_find_routed app_find_routed"
  "rel_fun (rel_application X S) (rel_fun S (eq5 (rel_op S))) app_claim app_claim"
  "rel_fun (rel_application X S) (rel_fun S (eq4 (rel_op S))) app_renew_claim app_renew_claim"
  "rel_fun (rel_application X S) (rel_fun S (eq3 (rel_op S))) app_release app_release"
  "rel_fun (rel_application X S) (rel_fun S (eq3 (rel_op S))) app_complete app_complete"
  "rel_fun (rel_application X S) (rel_fun S (eq3 (rel_op S))) app_renew_instance app_renew_instance"
  "rel_fun (rel_application X S) (rel_fun S (rel_fun (eq_onp request_wf) (eq1 (rel_op S)))) app_accept app_accept"
  "rel_fun (rel_application X S) (rel_fun S (eq4 (rel_op S))) app_materialize app_materialize"
  "rel_fun (rel_application X S) (rel_fun S (eq2 (=))) app_find_request app_find_request"
  "rel_fun (rel_application X S) (rel_fun S (eq1 (rel_fun (eq_onp event_type_wf) (eq2 (rel_op S))))) app_create_subscription app_create_subscription"
  "rel_fun (rel_application X S) (rel_fun S (eq1 (=))) app_list_subscriptions app_list_subscriptions"
  "rel_fun (rel_application X S) (rel_fun S (eq1 (=))) app_list_active_subscriptions app_list_active_subscriptions"
  "rel_fun (rel_application X S) (rel_fun S (eq3 (rel_op S))) app_disable_subscription app_disable_subscription"
  "rel_fun (rel_application X S) (rel_fun S (=)) app_database_ready app_database_ready"
  "rel_fun (rel_application X S) (=) app_instance_public_key app_instance_public_key"
  by (rule rel_funI, simp add: rel_application_def)+

section \<open>The handlers\<close>

lemma respond_transfer [transfer_rule]:
  "rel_fun S (rel_fun (rel_sum (=) A) (rel_fun (rel_fun A (rel_op S)) (rel_op S))) respond respond"
  unfolding respond_def by transfer_prover

lemma claim_response_transfer [transfer_rule]:
  "eq3 (rel_fun (rel_op S) (rel_op S)) claim_response claim_response"
  unfolding claim_response_def by transfer_prover

lemma check_authorized_transfer [transfer_rule]:
  "eq1 (rel_fun (rel_fun S (eq2 (rel_op S))) (rel_fun S (eq3 (rel_op S)))) check_authorized check_authorized"
  unfolding check_authorized_def authorize_subscription_action_def by transfer_prover

lemma claim_handlers_transfer [transfer_rule]:
  "eq2 (rel_fun (rel_fun S (eq5 (rel_op S))) (eq1 (rel_fun S (eq4 (rel_op S)))))
     claim_route claim_route"
  "eq2 (rel_fun (rel_fun S (eq4 (rel_op S))) (eq1 (rel_fun S (eq2 (rel_op S)))))
     renew_claim_route renew_claim_route"
  "eq2 (rel_fun (rel_fun S (eq3 (rel_op S))) (eq1 (rel_fun S (eq2 (rel_op S)))))
     release_claim_route release_claim_route"
  "eq2 (rel_fun (rel_fun S (eq3 (rel_op S))) (eq1 (rel_fun S (eq2 (rel_op S)))))
     complete_claim_route complete_claim_route"
  unfolding claim_route_def renew_claim_route_def release_claim_route_def complete_claim_route_def by transfer_prover+

lemma checked_inputs_transfer [transfer_rule]:
  "eq1 (rel_sum (=) (eq_onp event_type_wf)) CreateSubscriptionRequest_event_type CreateSubscriptionRequest_event_type"
  "eq4 (rel_sum (=) (eq_onp request_wf)) SubmitRequestRequest_into_request SubmitRequestRequest_into_request"
  "rel_fun (eq_onp request_wf) (=) rq_action rq_action" "rel_fun (eq_onp request_wf) (=) rq_scope rq_scope"
  "rel_fun (eq_onp request_wf) (=) rq_schema_versions rq_schema_versions"
  "eq1 (rel_fun (eq_onp request_wf) (=)) Request_fingerprint Request_fingerprint"
proof -
  have "rel_sum (=) (eq_onp event_type_wf) (CreateSubscriptionRequest_event_type d) (CreateSubscriptionRequest_event_type d)" for d
    by (cases "CreateSubscriptionRequest_event_type d")
      (auto simp: eq_onp_def CreateSubscriptionRequest_event_type_def dest: EventType_new_wf)
  then show "eq1 (rel_sum (=) (eq_onp event_type_wf)) CreateSubscriptionRequest_event_type CreateSubscriptionRequest_event_type"
    by (simp add: rel_fun_def)
  have "rel_sum (=) (eq_onp request_wf) (SubmitRequestRequest_into_request X d a i) (SubmitRequestRequest_into_request X d a i)" for X d a i
    by (cases "SubmitRequestRequest_into_request X d a i") (auto simp: eq_onp_def dest: into_request_Inr(3))
  then show "eq4 (rel_sum (=) (eq_onp request_wf))
      SubmitRequestRequest_into_request SubmitRequestRequest_into_request"
    by (simp add: rel_fun_def)
qed (simp_all add: rel_fun_def eq_onp_def)

lemma result_transfer:
  "rel_fun (rel_sum (=) A) (rel_fun (rel_fun A (rel_sum (=) B)) (rel_sum (=) B)) bind_result bind_result"
  "eq1 (rel_fun (rel_sum (=) A) (rel_sum (=) A)) map_err map_err"
  by (auto simp: rel_fun_def elim!: rel_sum.cases)

lemma subscription_handlers_transfer [transfer_rule]:
  "eq2 (rel_fun (rel_fun S (eq2 (rel_op S))) (rel_fun (rel_fun S (eq1 (rel_fun (eq_onp event_type_wf) (eq2 (rel_op S))))) (eq2 (rel_fun S (eq2 (rel_op S)))))) create_subscription create_subscription"
  "eq2 (rel_fun (rel_fun S (eq1 (=))) (rel_fun (rel_fun S (eq1 (=))) (rel_fun S (eq2 (=)))))
     list_subscriptions_route list_subscriptions_route"
  "eq2 (rel_fun (rel_fun S (eq2 (rel_op S))) (rel_fun (rel_fun S (eq3 (rel_op S))) (eq2 (rel_fun S (eq2 (rel_op S)))))) disable_subscription disable_subscription"
  subgoal
    supply result_transfer [transfer_rule]
    unfolding create_subscription_def by transfer_prover
  subgoal unfolding list_subscriptions_route_def by transfer_prover
  subgoal unfolding disable_subscription_def by transfer_prover
  done

lemma request_handlers_transfer [transfer_rule]:
  "eq2 (rel_fun (rel_fun S (eq2 (rel_op S))) (rel_fun (rel_fun S (rel_fun (eq_onp request_wf) (eq1 (rel_op S)))) (rel_fun (rel_fun S (eq4 (rel_op S))) (eq1 (rel_fun S (eq3 (rel_op S)))))))
     submit_request submit_request"
  "eq2 (rel_fun (rel_fun S (eq2 (=))) (rel_fun S (eq2 (=)))) find_request find_request"
  "eq2 (rel_fun (rel_fun S (eq5 (rel_op S))) (eq1 (rel_fun S (eq2 (rel_op S)))))
     publish_schema publish_schema"
  "eq2 (rel_fun (rel_fun S (eq2 (=))) (eq1 (rel_fun S (eq1 (=))))) list_eligible_routes list_eligible_routes"
  "eq2 (rel_fun (rel_fun S (eq2 (=))) (rel_fun S (eq2 (=)))) find_routed_request find_routed_request"
  subgoal
    supply result_transfer [transfer_rule]
    unfolding submit_request_def by transfer_prover
  unfolding find_request_def publish_schema_def list_eligible_routes_def find_routed_request_def
  by transfer_prover+


lemma registry_handlers_transfer [transfer_rule]:
  "eq2 (rel_fun (rel_fun S (eq3 (rel_op S))) (eq1 (rel_fun S (eq2 (rel_op S)))))
     renew_instance_route renew_instance_route"
  "eq2 (rel_fun (rel_fun S (eq3 (rel_op S))) (eq1 (rel_fun S (eq1 (rel_op S)))))
     issue_workload_challenge issue_workload_challenge"
  "eq2 (rel_fun (rel_fun S (rel_fun (eq_onp (key_ok X)) (eq1 (rel_op S)))) (eq1 (rel_fun S (rel_fun (eq_onp (key_ok X)) (rel_op S)))))
     authenticate_enrollment authenticate_enrollment"
  unfolding renew_instance_route_def issue_workload_challenge_def authenticate_enrollment_def by transfer_prover+

lemma parse_enrollment_transfer [transfer_rule]:
  "eq3 (rel_sum (=) (eq_onp (key_ok X))) (parse_enrollment_request X) (parse_enrollment_request X)"
proof -
  have "key_ok X q" if "EnrollmentSubmissionRequest_into_domain X d = Inr q" for d q
    using that by (auto simp: EnrollmentSubmissionRequest_into_domain_def EnrollmentRequest_restore_def key_ok_def
        InstancePublicKey_restore_def public_key_wf_def decode_fixed_def split: if_splits)
  then have "key_ok X q" if "parse_enrollment_request X J t b = Inr q" for J t b q
    using that by (auto simp: parse_enrollment_request_def)
  then have "rel_sum (=) (eq_onp (key_ok X)) (parse_enrollment_request X J t b) (parse_enrollment_request X J t b)" for J t b
    by (cases "parse_enrollment_request X J t b") (auto simp: eq_onp_def)
  then show ?thesis by (simp add: rel_fun_def)
qed


section \<open>Dispatch\<close>

lemma routes_transfer [transfer_rule]:
  "eq2 (rel_fun (rel_application X S) (rel_fun (rel_fun S (eq2 (rel_op S))) (eq1 (rel_fun S (eq2 (rel_op S))))))
     subscription_route subscription_route"
  "eq2 (rel_fun (rel_application X S) (rel_fun (rel_fun S (eq2 (rel_op S))) (eq1 (rel_fun S (eq3 (rel_op S))))))
     request_route request_route"
  "eq2 (rel_fun (rel_fun S (eq2 (rel_op S))) (rel_fun S (eq2 (rel_op S))))
     authenticate_governed_request authenticate_governed_request"
  unfolding subscription_route_def request_route_def authenticate_governed_request_def by transfer_prover+

lemma governed_route_transfer [transfer_rule]:
  "eq2 (rel_fun (rel_application X S) (eq1 (rel_fun S (eq2 (rel_op S))))) governed_route governed_route"
  unfolding governed_route_def by transfer_prover

lemma dispatch_transfer [transfer_rule]:
  "eq1 (rel_fun (rel_application X S) (eq1 (rel_fun S (eq1 (rel_op S))))) (dispatch X) (dispatch X)"
  unfolding dispatch_def by transfer_prover

lemma handle_connection_transfer [transfer_rule]:
  "eq1 (rel_fun (rel_application X S) (eq1 (rel_fun S (eq1 (rel_op S))))) (handle_connection X) (handle_connection X)"
proof -
  have "rel_op S (dispatch X J a clock s r) (dispatch X J b clock t r)" if "rel_application X S a b" "S s t" for J a b clock s t r
    by (intro dispatch_transfer [THEN rel_funD, THEN rel_funD, THEN rel_funD, THEN rel_funD, THEN rel_funD] that refl)
  moreover have "rel_op S (case p of (s', r) \<Rightarrow> (s', response_bytes r)) (case q of (s', r) \<Rightarrow> (s', response_bytes r))"
    if "rel_op S p q" for p q
    using that by (auto elim!: rel_prod.cases)
  ultimately show ?thesis
    by (intro rel_funI) (simp add: handle_connection_def split: sum.split RequestReadError.split)
qed

section \<open>The services\<close>

lemma services_transfer [transfer_rule]:
  "rel_fun (rel_fun S (eq2 (=))) (rel_fun (rel_fun S (eq2 (rel_op S))) (rel_fun (rel_fun S (eq1 (=))) (rel_fun S (eq2 (rel_op S))))) ServiceRequestGate_admit ServiceRequestGate_admit"
  "rel_fun (rel_fun S (eq1 (rel_op S))) (rel_fun S (eq2 (rel_op S))) ReplayProtectionService_protect ReplayProtectionService_protect"
  "rel_fun (rel_fun S (eq1 (=))) (rel_fun S (eq1 (=))) require_communication require_communication"
  "eq1 (rel_fun (rel_fun S (eq3 (=))) (rel_fun (rel_fun S (eq3 (rel_op S))) (eq1 (rel_fun S (eq3 (rel_op S)))))) issue_challenge_for_workload issue_challenge_for_workload"
  "rel_fun (rel_fun S (eq2 (=))) (eq2 (rel_fun (rel_fun S (eq1 (rel_op S))) (eq1 (rel_fun S (eq2 (rel_op S))))))
     authorize authorize"
  "rel_fun (rel_fun S (eq5 (rel_op S))) (rel_fun S (eq5 (rel_op S)))
     SchemaService_publish SchemaService_publish"
  "eq1 (rel_fun (rel_fun S (eq1 (=))) (rel_fun (rel_fun S (eq2 (=))) (rel_fun (rel_fun S (eq1 (=))) (rel_fun S (eq2 (=))))))
     eligible_for eligible_for"
  "rel_fun (rel_fun S (eq2 (=))) (rel_fun S (eq2 (=))) WorkClaimService_active_route_ids WorkClaimService_active_route_ids"
  "rel_fun (rel_fun S (eq1 (=))) (rel_fun (rel_fun S (eq2 (=))) (rel_fun S (eq2 (=)))) find_for_destination find_for_destination"
  unfolding ServiceRequestGate_admit_def ReplayProtectionService_protect_def require_communication_def require_enabled_def
    issue_challenge_for_workload_def issue_challenge_def authorize_def SchemaService_publish_def eligible_for_def
    WorkClaimService_active_route_ids_def find_for_destination_def enabled_binding_of_def
  by transfer_prover+


text \<open>A materialization is only asked of a route \<open>Route::create\<close> made.\<close>

definition route_created :: "Route \<Rightarrow> bool" where
  "route_created r \<longleftrightarrow> (\<exists>i src q sub dst now. Route_create i src q sub dst now = Inr r)"

lemma RouteService_materialize_transfer [transfer_rule]:
  "rel_fun (rel_fun S (rel_fun (eq_onp route_created) (rel_op S))) (eq1 (rel_fun S (eq5 (rel_op S))))
     RouteService_materialize RouteService_materialize"
proof -
  have "rel_sum (=) (eq_onp route_created) (Route_create i src q sub dst now) (Route_create i src q sub dst now)" for i src q sub dst now
    by (cases "Route_create i src q sub dst now") (auto simp: eq_onp_def route_created_def intro!: exI)
  then have [transfer_rule]: "eq6 (rel_sum (=) (eq_onp route_created)) Route_create Route_create"
    by (simp add: rel_fun_def)
  show ?thesis unfolding RouteService_materialize_def by transfer_prover
qed

lemma materialize_each_transfer [transfer_rule]:
  "rel_fun (rel_fun S (rel_fun (eq_onp route_created) (rel_op S))) (eq4 (rel_fun S (eq2 (rel_op S))))
     materialize_each materialize_each"
proof -
  have "rel_op S (materialize_each mat ids src q now s k xs) (materialize_each mat' ids src q now t k xs)"
    if m: "rel_fun S (rel_fun (eq_onp route_created) (rel_op S)) mat mat'" and st: "S s t" for mat mat' ids src q now s t k xs
    using st
  proof (induction xs arbitrary: s t k)
    case (Cons x xs)
    have "rel_op S (RouteService_materialize mat (ids k) s src q (sub_id x) (sub_service_id x) now)
        (RouteService_materialize mat' (ids k) t src q (sub_id x) (sub_service_id x) now)"
      by (intro RouteService_materialize_transfer [of S, THEN rel_funD, THEN rel_funD, THEN rel_funD, THEN rel_funD, THEN rel_funD,
          THEN rel_funD, THEN rel_funD, THEN rel_funD] m Cons.prems refl)
    then obtain s' t' y where one: "RouteService_materialize mat (ids k) s src q (sub_id x) (sub_service_id x) now = (s', y)"
      "RouteService_materialize mat' (ids k) t src q (sub_id x) (sub_service_id x) now = (t', y)" "S s' t'"
      by (auto elim!: rel_prod.cases)
    from Cons.IH [OF this(3), of "k + 1"] obtain s'' t'' z where
      "materialize_each mat ids src q now s' (k + 1) xs = (s'', z)"
      "materialize_each mat' ids src q now t' (k + 1) xs = (t'', z)" "S s'' t''"
      by (auto elim!: rel_prod.cases)
    with one show ?case by (simp split: sum.split)
  qed simp
  then show ?thesis by (intro rel_funI) (simp only:)
qed

lemma materialize_routes_transfer [transfer_rule]:
  "eq1 (rel_fun (rel_fun S (eq1 (=))) (rel_fun (rel_fun S (rel_fun (eq_onp route_created) (rel_op S))) (eq1 (rel_fun S (eq4 (rel_op S))))))
     materialize_routes materialize_routes"
  unfolding materialize_routes_def by transfer_prover

lemma enrollment_admissible_transfer [transfer_rule]:
  "eq2 (rel_fun (rel_fun S (eq3 (=))) (rel_fun S (eq1 (=)))) enrollment_admissible enrollment_admissible"
  unfolding enrollment_admissible_def enabled_binding_of_def by transfer_prover

lemma enroll_transfer [transfer_rule]:
  "eq1 (rel_fun (rel_fun S (eq3 (=))) (rel_fun (rel_fun S (eq3 (rel_op S))) (rel_fun (rel_fun S (rel_fun (eq_onp (public_key_wf X)) (eq2 (rel_op S)))) (rel_fun S (rel_fun (eq_onp (key_ok X)) (eq1 (rel_op S)))))))
     (authenticate_and_register X) (authenticate_and_register X)"
proof -
  have admit: "enrollment_admissible X review find s r = enrollment_admissible X review find' t r"
    if "rel_fun S (eq3 (=)) find find'" "S s t" for review find find' s t r
    by (intro enrollment_admissible_transfer [of S, THEN rel_funD, THEN rel_funD, THEN rel_funD, THEN rel_funD, THEN rel_funD] that refl)
  have [transfer_rule]: "rel_fun (eq_onp (key_ok X)) (eq_onp (public_key_wf X)) er_public_key er_public_key"
    "rel_fun (eq_onp (key_ok X)) (=) er_challenge er_challenge" "rel_fun (eq_onp (key_ok X)) (=) er_endpoint er_endpoint"
    "rel_fun (eq_onp (public_key_wf X)) (=) ipk_service_id ipk_service_id"
    "eq1 (rel_fun (rel_fun S (eq3 (=))) (rel_fun S (rel_fun (eq_onp (key_ok X)) (=)))) (enrollment_admissible X) (enrollment_admissible X)"
    using admit by (auto simp: rel_fun_def eq_onp_def key_ok_def)
  show ?thesis unfolding authenticate_and_register_def by transfer_prover
qed

end
