(* ===== verification/Server_Calls.thy ===== *)
theory Server_Calls
  imports Http_Server Http_Parametric Handshake_Properties Claim_Properties Subscription_Properties Registry_Properties
begin

text \<open>
  What every repository call of a thread respects holds between any two moments of a history of the
  server, however the threads interleave. The components' run relations are such, and so are the
  monotonicity of the replay tables and of the enrollment challenges.
\<close>

lemmas service_fields =
  services_transfer(1) [THEN rel_funD, THEN rel_funD, THEN rel_funD]
  services_transfer(5) [THEN rel_funD, THEN rel_funD, THEN rel_funD, THEN rel_funD, THEN rel_funD]
  services_transfer(7) [THEN rel_funD, THEN rel_funD, THEN rel_funD, THEN rel_funD]
  services_transfer(9) [THEN rel_funD, THEN rel_funD]
  materialize_routes_transfer [THEN rel_funD, THEN rel_funD, THEN rel_funD, THEN rel_funD]

definition thread_log :: "Crates \<Rightarrow> Serde \<Rightarrow> (nat \<Rightarrow> Db) \<Rightarrow> Connection \<Rightarrow> (nat \<times> Db \<times> Db) list" where
  "thread_log X J h c = th_log (fst (connection_thread X J c (h (cn_arrival c))))"

lemma server_history_call:
  assumes "server_history X J cs turn N h" and "k < length cs" and "(t, before, after) \<in> set (thread_log X J h (cs ! k))" and "t < N"
  shows "turn t = Some k" "before = h t" "after = h (t + 1)"
  using assms by (fastforce simp: server_history_def thread_log_def sees_history_def Let_def)+

lemma server_history_step:
  assumes "server_history X J cs turn N h" and "t < N"
  shows "service_tables_kept (h t) (h (t + 1)) \<or> (\<exists>k < length cs. (t, h t, h (t + 1)) \<in> set (thread_log X J h (cs ! k)))"
proof (cases "turn t")
  case None
  with assms show ?thesis by (fastforce simp: server_history_def Let_def)
next
  case (Some k)
  with assms obtain before after where "k < length cs" "(t, before, after) \<in> set (thread_log X J h (cs ! k))"
    by (fastforce simp: server_history_def thread_log_def Let_def)
  with server_history_call [OF assms(1) this assms(2)] show ?thesis by blast
qed

section \<open>Relations every repository call respects\<close>

locale repository_relation =
  fixes X :: Crates and R :: "Db \<Rightarrow> Db \<Rightarrow> bool"
  assumes kept: "service_tables_kept db db' \<Longrightarrow> R db db'"
    and protect: "R db (fst (ReplayProtectionService_protect (pg_replay_reserve io) db v now))"
    and issue: "R db (fst (pg_insert_challenge X io db a ch expires))"
    and consume: "R db (fst (pg_consume_challenge X io db a ch now))"
    and register: "public_key_wf X k \<Longrightarrow> R db (fst (register_verified LeasePolicy_default (pg_instance_insert X io) db k e now))"
    and renew_instance: "R db (fst (InstanceRegistryService_renew LeasePolicy_default (pg_instance_renew X io) db i w now))"
    and recorded: "R db (fst (pg_record_decision io db d))"
    and publish: "R db (fst (SchemaService_publish (pg_schema_publish io s) db kind name a digest now))"
    and claim: "R db (fst (WorkClaimService_claim (pg_claim io ci) db r a wi lease now))"
    and renew: "R db (fst (WorkClaimService_renew (pg_renew io) db ci token lease now))"
    and release: "R db (fst (WorkClaimService_release (pg_release io) db ci token now))"
    and complete: "R db (fst (WorkClaimService_complete (pg_complete io) db ci token now))"
    and accept: "request_wf q \<Longrightarrow> R db (fst (pg_request_accept io db at q f))"
    and materialize: "route_created rt \<Longrightarrow> R db (fst (pg_materialize ios db rt))"
    and create: "event_type_wf ev \<Longrightarrow> R db (fst (SubscriptionService_create (pg_subscription_insert io) si db a ev m now))"
    and disable: "R db (fst (SubscriptionService_disable (pg_subscription_disable io) db a si now))"
begin

definition call_stable :: "Connection \<Rightarrow> (Thread \<Rightarrow> bool) \<Rightarrow> bool" where
  "call_stable c P \<longleftrightarrow> (\<forall>before th t after. R before after \<longrightarrow> P th \<longrightarrow> before = cn_others c (length (th_log th)) (th_db th) \<longrightarrow>
     t = cn_time c (length (th_log th)) \<longrightarrow> P (\<lparr>th_db = after, th_log = th_log th @ [(t, before, after)]\<rparr>))"

lemma atomically_related:
  "call_stable c P \<Longrightarrow> (\<And>db. R db (fst (call db))) \<Longrightarrow> eq_onp P th th' \<Longrightarrow> rel_op (eq_onp P) (atomically c call th) (atomically c call th')"
  by (auto simp: eq_onp_def call_stable_def atomically_def Let_def split_beta rel_prod_sel)

lemma reading_eq: "eq_onp P th th' \<Longrightarrow> reading c j call th = reading c j call th'"
  by (simp add: eq_onp_def)

lemma thread_enrollment:
  assumes "call_stable c P" and "eq_onp P th th'"
  shows "rel_op (eq_onp P)
      (issue_challenge_for_workload review (\<lambda>th n a u. reading c j (\<lambda>db. look db n a u) th)
        (\<lambda>th a ch e. atomically c (\<lambda>db. pg_insert_challenge X io db a ch e) th) new th token pod now)
      (issue_challenge_for_workload review (\<lambda>th n a u. reading c j (\<lambda>db. look db n a u) th)
        (\<lambda>th a ch e. atomically c (\<lambda>db. pg_insert_challenge X io db a ch e) th) new th' token pod now)"
    and "key_ok X q \<Longrightarrow> rel_op (eq_onp P)
      (authenticate_and_register X review (\<lambda>th n a u. reading c j (\<lambda>db. look db n a u) th)
        (\<lambda>th a ch t. atomically c (\<lambda>db. pg_consume_challenge X io db a ch t) th)
        (\<lambda>th k e t. atomically c (\<lambda>db. register_verified LeasePolicy_default (pg_instance_insert X io') db k e t) th) th q now)
      (authenticate_and_register X review (\<lambda>th n a u. reading c j (\<lambda>db. look db n a u) th)
        (\<lambda>th a ch t. atomically c (\<lambda>db. pg_consume_challenge X io db a ch t) th)
        (\<lambda>th k e t. atomically c (\<lambda>db. register_verified LeasePolicy_default (pg_instance_insert X io') db k e t) th) th' q now)"
  by (rule services_transfer(4) [THEN rel_funD, THEN rel_funD, THEN rel_funD, THEN rel_funD, THEN rel_funD, THEN rel_funD,
        THEN rel_funD, THEN rel_funD] enroll_transfer [THEN rel_funD, THEN rel_funD, THEN rel_funD, THEN rel_funD, THEN rel_funD,
        THEN rel_funD, THEN rel_funD] refl; (intro rel_funI)?; (simp only: eq_onp_def [of "public_key_wf X"])?;
      simp add: assms atomically_related reading_eq issue consume register eq_onp_def [of "key_ok X"] del: eq_onp_same_args)+

lemma thread_authority:
  assumes "call_stable c P"
  shows "rel_option (rel_fun (eq_onp P) (eq2 (rel_op (eq_onp P))))
     (map_option (\<lambda>ev. authorize (\<lambda>th f t. reading c j (\<lambda>db. look db f t) th) (snd ev) (fst ev)
        (\<lambda>th d. atomically c (\<lambda>db. pg_record_decision io db d) th) i) e)
     (map_option (\<lambda>ev. authorize (\<lambda>th f t. reading c j (\<lambda>db. look db f t) th) (snd ev) (fst ev)
        (\<lambda>th d. atomically c (\<lambda>db. pg_record_decision io db d) th) i) e)"
proof -
  have "rel_fun (eq_onp P) (eq2 (rel_op (eq_onp P)))
     (authorize (\<lambda>th f t. reading c j (\<lambda>db. look db f t) th) (snd ev) (fst ev) (\<lambda>th d. atomically c (\<lambda>db. pg_record_decision io db d) th) i)
     (authorize (\<lambda>th f t. reading c j (\<lambda>db. look db f t) th) (snd ev) (fst ev) (\<lambda>th d. atomically c (\<lambda>db. pg_record_decision io db d) th) i)"
    for ev
    by (rule service_fields(2); (intro rel_funI)?; simp add: assms atomically_related reading_eq recorded)
  then show ?thesis by (cases e) auto
qed

lemma thread_application:
  assumes "call_stable c P"
  shows "rel_application X (eq_onp P) (concurrent_application X c) (concurrent_application X c)"
  unfolding rel_application_def concurrent_application_def Let_def
  by ((intro conjI; (simp only: Application.select_convs)?; (rule service_fields thread_authority [OF assms])?; (intro rel_funI)?),
      (simp_all only: reading_eq eq_onp_def [of event_type_wf] eq_onp_def [of request_wf] eq_onp_def [of "key_ok X"]
      eq_onp_def [of route_created]),
      (simp_all add: assms atomically_related protect issue consume renew_instance recorded publish claim renew release complete
      accept materialize create disable thread_enrollment [OF assms] split: sum.split))

lemma connection_related:
  assumes "call_stable c P" and "P (\<lparr>th_db = db, th_log = []\<rparr>)"
  shows "P (fst (connection_thread X J c db))"
  using handle_connection_transfer [THEN rel_funD, THEN rel_funD, THEN rel_funD, THEN rel_funD, THEN rel_funD,
      OF refl thread_application [OF assms(1)] refl _ refl, of "\<lparr>th_db = db, th_log = []\<rparr>" "\<lparr>th_db = db, th_log = []\<rparr>" J "cn_clock c" "cn_stream c"]
    assms(2)
  by (simp add: connection_thread_def rel_prod_sel eq_onp_def)

text \<open>Every call of a thread takes the database it finds to a related one.\<close>

lemma calls_related:
  assumes "(t, before, after) \<in> set (thread_log X J h c)"
  shows "R before after"
proof -
  have "call_stable c (\<lambda>th. \<forall>(t, b, a) \<in> set (th_log th). R b a)" by (auto simp: call_stable_def)
  from connection_related [OF this, of "h (cn_arrival c)" J] assms show ?thesis by (auto simp: thread_log_def)
qed

lemma server_history_related:
  assumes "server_history X J cs turn N h" and "m \<le> n" and "n \<le> N"
  shows "R\<^sup>*\<^sup>* (h m) (h n)"
  using assms(2,3)
proof (induction n rule: dec_induct)
  case (step n)
  then have "R (h n) (h (n + 1))"
    using server_history_step [OF assms(1), of n] kept calls_related by auto
  with step show ?case by (simp add: rtranclp.rtrancl_into_rtrancl)
qed simp

end

section \<open>The components\<close>

definition registry_tables :: "Db \<Rightarrow> instance_row list \<times> instance_key_row list" where
  "registry_tables db = (service_instances db, service_instance_keys db)"

definition routing_tables :: "Db \<Rightarrow> accepted_request_row list \<times> route_row list \<times> subscription_row list \<times> identity_row list" where
  "routing_tables db = (accepted_requests db, request_routes db, subscriptions db, identities db)"

definition replay_tables :: "Db \<Rightarrow> nonce_row list \<times> request_id_row list" where
  "replay_tables db = (service_request_nonces db, service_request_ids db)"

lemma service_keeps:
  assumes "service_tables_kept db db'"
  shows "keeps work_claims db db'" "keeps subscriptions db db'" "keeps registry_tables db db'" "routing_run db db'"
    "keeps replay_tables db db'" "keeps service_enrollment_challenges db db'"
  using assms by (simp_all add: service_tables_kept_def keeps_def registry_tables_def replay_tables_def routing_run.rrun_other)

lemma keeps_protect:
  assumes "\<And>s x. t (s\<lparr>service_request_nonces := x\<rparr>) = t s" and "\<And>s x. t (s\<lparr>service_request_ids := x\<rparr>) = t s"
    and "\<And>s x. t (s\<lparr>service_request_replay_audit := x\<rparr>) = t s"
  shows "keeps t db (fst (ReplayProtectionService_protect (pg_replay_reserve io) db v now))"
  unfolding ReplayProtectionService_protect_def by (intro keeps_intros; simp add: keeps_reserve assms)

lemma keeps_materialize:
  assumes "\<And>s x. t (s\<lparr>request_routes := x\<rparr>) = t s"
  shows "keeps t db (fst (pg_materialize ios db r))"
  unfolding pg_materialize_def pg_route_materialize_def Let_def by (intro keeps_intros; simp add: keeps_def assms)

lemmas keeps_calls = keeps_protect keeps_challenges keeps_instance_services keeps_decision keeps_publish_service
  keeps_claim_services keeps_accept keeps_materialize keeps_subscription_services

lemma claims_runs: "keeps work_claims db db' \<Longrightarrow> work_claims_run db db'"
  by (simp add: keeps_def run_other)

lemma subscriptions_kept_run: "keeps subscriptions db db' \<Longrightarrow> subscription_run db db'"
  by (simp add: keeps_def subscription_run.srun_other)

interpretation server_claims: repository_relation X work_claims_run for X
  by unfold_locales
    (simp_all add: claims_runs service_keeps keeps_calls run_claim [OF prod.collapse [symmetric]] run_renew [OF prod.collapse [symmetric]]
      run_release [OF prod.collapse [symmetric]] run_complete [OF prod.collapse [symmetric]])

interpretation server_subscriptions: repository_relation X subscription_run for X
  by unfold_locales
    (simp_all add: subscriptions_kept_run service_keeps keeps_calls subscription_run.srun_create [OF _ prod.collapse [symmetric]]
      subscription_run.srun_disable [OF prod.collapse [symmetric]])

lemma registry_runs: "keeps registry_tables db db' \<Longrightarrow> registry_run X db db'"
  by (simp add: keeps_def registry_tables_def registry_run.rrun_other)

interpretation server_registry: repository_relation X "registry_run X" for X
  by unfold_locales
    (simp_all add: registry_runs service_keeps registry_tables_def keeps_calls registry_run.rrun_register [OF _ prod.collapse [symmetric]]
      registry_run.rrun_renew [OF prod.collapse [symmetric]])

lemma routing_runs: "keeps routing_tables db db' \<Longrightarrow> routing_run db db'"
  by (simp add: keeps_def routing_tables_def routing_run.rrun_other)

lemma materialize_runs:
  assumes "route_created rt"
  shows "routing_run db (fst (pg_materialize ios db rt))"
proof -
  from assms obtain i src q sub dst now where c: "Route_create i src q sub dst now = Inr rt"
    by (auto simp: route_created_def)
  then have "RouteService_materialize (pg_route_materialize (ios (rt_id rt))) i db src q sub dst now =
      (fst (pg_materialize ios db rt), snd (pg_materialize ios db rt))"
    by (simp add: RouteService_materialize_def pg_materialize_def)
  then show ?thesis by (rule routing_run.rrun_materialize)
qed

definition subscribed :: "Db \<Rightarrow> accepted_request_row list \<times> route_row list \<times> identity_row list \<times> SubscriptionId set" where
  "subscribed db = (accepted_requests db, request_routes db, identities db, sbr_id ` set (subscriptions db))"

lemma disable_keeps_ids: "keeps subscribed db (fst (SubscriptionService_disable (pg_subscription_disable io) db a i now))"
proof -
  have "sbr_id ` set (update_where c (\<lambda>r. r\<lparr>sbr_disabled_at := Some now\<rparr>) xs) = sbr_id ` set xs" for c xs
    by (induction xs) (simp_all add: update_where_def)
  then have "keeps subscribed db (fst (pg_subscription_disable io db a i now))"
    unfolding pg_subscription_disable_def Let_def
    by (intro keeps_intros keeps_audits; simp add: keeps_def subscribed_def)
  then show ?thesis unfolding SubscriptionService_disable_def by (intro keeps_intros) simp_all
qed

lemma create_adds_ids:
  "sbr_id ` set (subscriptions db) \<subseteq>
     sbr_id ` set (subscriptions (fst (SubscriptionService_create (pg_subscription_insert io) si db a ev m now)))"
proof -
  have "sbr_id ` set (subscriptions db) \<subseteq> sbr_id ` set (subscriptions (fst (pg_subscription_insert io db x)))" for x
    unfolding pg_subscription_insert_def append_subscription_audit_def Let_def
    by (auto simp: db_stmt_def split: option.split)
  note insert = this
  show ?thesis
  proof (cases "Subscription_create si a ev m now")
    case (Inr x)
    obtain s y where "pg_subscription_insert io db x = (s, y)" by fastforce
    with Inr insert [of x] show ?thesis by (simp add: SubscriptionService_create_def split: sum.split)
  qed (simp add: SubscriptionService_create_def)
qed

lemma subscription_calls_run:
  "routing_run db (fst (SubscriptionService_create (pg_subscription_insert io) si db a ev m now))"
  "routing_run db (fst (SubscriptionService_disable (pg_subscription_disable io) db a i now))"
proof -
  let ?t = "\<lambda>db. (accepted_requests db, request_routes db, identities db)"
  have "keeps ?t db (fst (SubscriptionService_create (pg_subscription_insert io) si db a ev m now))"
    by (rule keeps_subscription_services) simp_all
  with create_adds_ids [of db io si a ev m now]
  show "routing_run db (fst (SubscriptionService_create (pg_subscription_insert io) si db a ev m now))"
    by (intro routing_run.rrun_other) (simp_all add: keeps_def)
  show "routing_run db (fst (SubscriptionService_disable (pg_subscription_disable io) db a i now))"
    using disable_keeps_ids [of db io a i now] by (intro routing_run.rrun_other) (simp_all add: keeps_def subscribed_def)
qed

interpretation server_routing: repository_relation X routing_run for X
  by unfold_locales
    (simp_all add: routing_runs service_keeps routing_tables_def keeps_calls
      routing_run.rrun_accept [OF _ prod.collapse [symmetric]] materialize_runs subscription_calls_run)

text \<open>Calls that are no step of a run of their own, such as the gate's reservation, respect what the runs
  preserve.\<close>

definition replay_evolves :: "Db \<Rightarrow> Db \<Rightarrow> bool" where
  "replay_evolves db db' \<longleftrightarrow> (good_replay db \<longrightarrow>
     good_replay db' \<and> used_nonces_of db \<subseteq> used_nonces_of db' \<and> bound_id_of db \<subseteq>\<^sub>m bound_id_of db')"

lemma replay_kept: "keeps replay_tables db db' \<Longrightarrow> replay_evolves db db'"
  using bound_id_reserve [of db' db]
  by (simp add: replay_evolves_def keeps_def replay_tables_def good_replay_def used_nonces_of_def)

interpretation server_replay: repository_relation X replay_evolves for X
proof -
  have "replay_evolves db (fst (ReplayProtectionService_protect (pg_replay_reserve io) db v now))" for db io v now
    using pgrp.protect_mono [OF _ prod.collapse [symmetric]] by (simp add: replay_evolves_def)
  then show "repository_relation X replay_evolves"
    by unfold_locales (simp_all add: replay_kept service_keeps replay_tables_def keeps_calls)
qed

definition challenges_evolve :: "Crates \<Rightarrow> Db \<Rightarrow> Db \<Rightarrow> bool" where
  "challenges_evolve X db db' \<longleftrightarrow> (good_challenges db \<longrightarrow>
     good_challenges db' \<and> (\<forall>c. pgenr.used X db c \<longrightarrow> pgenr.used X db' c))"

lemma challenges_kept: "keeps service_enrollment_challenges db db' \<Longrightarrow> challenges_evolve X db db'"
  using challenges_cong [of db' db X] by (simp add: challenges_evolve_def keeps_def)

interpretation server_challenges: repository_relation X "challenges_evolve X" for X
proof -
  have "challenges_evolve X db (fst (pg_insert_challenge X io db a ch e))" for db io a ch e
    using pgenr.insert_good pgenr.used_stays(1) prod.collapse by (metis challenges_evolve_def)
  moreover have "challenges_evolve X db (fst (pg_consume_challenge X io db a ch e))" for db io a ch e
    using pgenr.consume_good pgenr.used_stays(2) prod.collapse by (metis challenges_evolve_def)
  ultimately show "repository_relation X (challenges_evolve X)"
    by unfold_locales (simp_all add: challenges_kept service_keeps keeps_calls)
qed

interpretation server_any: repository_relation X "\<lambda>_ _. True" for X
  by unfold_locales simp_all


text \<open>The other clients the repository has: the registrar's statements and the reconciler's calls
  leave the tables of the services alone.\<close>

lemma upsert_keys: "key ` set rs \<subseteq> key ` set (snd (upsert key row rs))"
  by (auto simp: upsert_def update_where_def split: option.split)

theorem registrar_statements_are_other_clients:
  "identity_upsert env service s = Some (s', n) \<Longrightarrow> service_tables_kept (rg_db s) (rg_db s')"
  "binding_upsert env i ns sa uid s = Some (s', n) \<Longrightarrow> service_tables_kept (rg_db s) (rg_db s')"
  "set_service_communication_admission u enabled admin reason corr at s = Some (s', out) \<Longrightarrow>
     service_tables_kept (rg_db s) (rg_db s')"
  "create_authority_grant row admin reason corr at s = Some (s', x) \<Longrightarrow> service_tables_kept (rg_db s) (rg_db s')"
  "revoke_authority_grant g admin reason corr at s = Some (s', out) \<Longrightarrow> service_tables_kept (rg_db s) (rg_db s')"
  "disable_unmanaged env managed s = Some (s', accounts) \<Longrightarrow> service_tables_kept (rg_db s) (rg_db s')"
proof -
  show "identity_upsert env service s = Some (s', n) \<Longrightarrow> service_tables_kept (rg_db s) (rg_db s')"
    by (auto simp: identity_upsert_def service_tables_kept_def Let_def split_beta split: option.splits if_splits
        intro!: upsert_keys [THEN subsetD])
qed (auto simp: binding_upsert_def set_service_communication_admission_def create_authority_grant_def
    revoke_authority_grant_def disable_unmanaged_def service_tables_kept_def Let_def split_beta split: option.splits if_splits)

definition service_tables where
  "service_tables db = (work_claims db, request_routes db, accepted_requests db, subscriptions db, service_request_nonces db,
     service_request_ids db, service_instances db, service_instance_keys db, service_enrollment_challenges db, identities db)"

theorem reconciler_calls_are_other_clients:
  "service_tables_kept db (fst (pg_handshake_insert_challenge io db challenge))"
  "service_tables_kept db (fst (pg_handshake_complete io db handshake))"
proof -
  have "service_tables_kept db db'" if "keeps service_tables db db'" for db'
    using that by (simp add: keeps_def service_tables_def service_tables_kept_def)
  moreover have "keeps service_tables db (fst (append_handshake_audit io k b s d i j a t))"
    if "keeps service_tables db b" "keeps service_tables db s" for io k b s d i j a t
    unfolding append_handshake_audit_def Let_def using that by (intro keeps_intros; simp add: keeps_def service_tables_def)
  note audit = this
  moreover have "keeps service_tables db (fst (pg_handshake_insert_challenge io db challenge))"
    unfolding pg_handshake_insert_challenge_def Let_def by (intro keeps_intros audit; simp add: keeps_def service_tables_def)
  moreover have "keeps service_tables db (fst (pg_handshake_complete io db handshake))"
    unfolding pg_handshake_complete_def Let_def by (intro keeps_intros audit; simp add: keeps_def service_tables_def)
  ultimately show "service_tables_kept db (fst (pg_handshake_insert_challenge io db challenge))"
    "service_tables_kept db (fst (pg_handshake_complete io db handshake))" by blast+
qed

end
