(* ===== verification/Server_Properties.thy ===== *)
theory Server_Properties
  imports Server_Calls
begin

text \<open>
  What the server guarantees with all its threads: the threads together are histories of the components,
  and neither a race of workers nor a race of replays breaks what their sequential theorems promise. Two
  concrete connections at the end, whose threads are evaluated as sequential handlers.
\<close>

section \<open>A thread that is not disturbed\<close>

definition undisturbed :: "Connection \<Rightarrow> bool" where
  "undisturbed c \<longleftrightarrow> (\<forall>m. cn_others c m = id \<and> (\<forall>j. cn_others_read c m j = id))"

definition synced :: "Thread \<Rightarrow> Db \<Rightarrow> bool" where
  "synced th db \<longleftrightarrow> th_db th = db"

lemma synced_call: "undisturbed c \<Longrightarrow> call (th_db th) = r \<Longrightarrow> rel_op synced (atomically c call th) r"
  by (simp add: synced_def undisturbed_def atomically_def Let_def split_beta rel_prod_sel)

lemma synced_read: "undisturbed c \<Longrightarrow> reading c j call th = call (th_db th)"
  by (simp add: undisturbed_def reading_def)

lemma synced_enrollment:
  assumes "undisturbed c" and "th_db th = db"
  shows "rel_op synced
      (issue_challenge_for_workload review (\<lambda>th n a u. reading c j (\<lambda>db. look db n a u) th)
        (\<lambda>th a ch e. atomically c (\<lambda>db. ins db a ch e) th) new th token pod now)
      (issue_challenge_for_workload review look ins new db token pod now)"
    and "key_ok X q \<Longrightarrow> rel_op synced
      (authenticate_and_register X review (\<lambda>th n a u. reading c j (\<lambda>db. look db n a u) th)
        (\<lambda>th a ch t. atomically c (\<lambda>db. con db a ch t) th) (\<lambda>th k e t. atomically c (\<lambda>db. reg db k e t) th) th q now)
      (authenticate_and_register X review look con reg db q now)"
  by (rule services_transfer(4) [THEN rel_funD, THEN rel_funD, THEN rel_funD, THEN rel_funD, THEN rel_funD, THEN rel_funD,
        THEN rel_funD, THEN rel_funD] enroll_transfer [THEN rel_funD, THEN rel_funD, THEN rel_funD, THEN rel_funD, THEN rel_funD,
        THEN rel_funD, THEN rel_funD] refl; (intro rel_funI)?; (simp only: eq_onp_def [of "public_key_wf X"])?;
      simp add: assms synced_call synced_read synced_def eq_onp_def [of "key_ok X"] del: eq_onp_same_args)+

lemma synced_authority:
  assumes "undisturbed c"
  shows "rel_option (rel_fun synced (eq2 (rel_op synced)))
     (map_option (\<lambda>ev. authorize (\<lambda>th f t. reading c j (\<lambda>db. look db f t) th) (snd ev) (fst ev)
        (\<lambda>th d. atomically c (\<lambda>db. rec db d) th) i) e)
     (map_option (\<lambda>ev. authorize look (snd ev) (fst ev) rec i) e)"
proof -
  have "rel_fun synced (eq2 (rel_op synced))
     (authorize (\<lambda>th f t. reading c j (\<lambda>db. look db f t) th) (snd ev) (fst ev) (\<lambda>th d. atomically c (\<lambda>db. rec db d) th) i)
     (authorize look (snd ev) (fst ev) rec i)" for ev
    by (rule service_fields(2); (intro rel_funI)?; simp add: assms synced_call synced_read synced_def)
  then show ?thesis by (cases e) auto
qed

lemma undisturbed_application:
  assumes "undisturbed c"
  shows "rel_application X synced (concurrent_application X c)
    (pg_application X (cn_faults c) (cn_route_faults c) (cn_environment c))"
  unfolding rel_application_def concurrent_application_def pg_application_def pg_gate_def pg_enroll_def pg_authority_def
    pg_materialize_routes_def Let_def
  by ((intro conjI; (simp only: Application.select_convs)?; (rule service_fields synced_authority [OF assms])?; (intro rel_funI)?),
      (simp_all add: synced_def synced_enrollment [OF assms] eq_onp_def [of event_type_wf] eq_onp_def [of request_wf]
      eq_onp_def [of "key_ok X"] eq_onp_def [of route_created] split: sum.split),
      (simp_all add: synced_read [OF assms] synced_call [OF assms]))


section \<open>Properties\<close>

text \<open>C7: However the threads of the server interleave, what they do together is, for every component, a
  history of that component. Between any two moments of a history of the server the database went
  through steps of the claim service, of the subscription service, of the instance registry and of
  request routing, and nothing else, so what holds of all their histories holds of the server.\<close>

theorem server_refines_components:
  assumes "server_history X J cs turn N h" and "m \<le> n" and "n \<le> N"
  shows "work_claims_run\<^sup>*\<^sup>* (h m) (h n) \<and> subscription_run\<^sup>*\<^sup>* (h m) (h n) \<and>
    (registry_run X)\<^sup>*\<^sup>* (h m) (h n) \<and> routing_run\<^sup>*\<^sup>* (h m) (h n)"
  using server_claims.server_history_related [OF assms] server_subscriptions.server_history_related [OF assms]
    server_registry.server_history_related [OF assms] server_routing.server_history_related [OF assms]
  by blast

text \<open>C3: Two workers never hold the same work, however their requests race. In every database of a history
  of the server, two claims of one route that are active or completed are the same claim.\<close>

theorem racing_workers_exclude_each_other:
  assumes "server_history X J cs turn N h" and "work_claims_run\<^sup>*\<^sup>* empty_db (h 0)" and "n \<le> N"
    and "c \<in> set (pg_claims (h n))" and "d \<in> set (pg_claims (h n))" and "wc_route_id c = wc_route_id d"
    and "wc_status c \<in> {WcActive, WcCompleted}" and "wc_status d \<in> {WcActive, WcCompleted}"
  shows "c = d"
proof -
  have "work_claims_run\<^sup>*\<^sup>* empty_db (h n)"
    using assms(2) server_claims.server_history_related [OF assms(1) le0 assms(3)] by (rule rtranclp_trans)
  from active_claim_unique [OF claims_inv_reachable [OF this] assms(4-8)] show ?thesis .
qed


section \<open>Replay under concurrency\<close>

text \<open>The governed request a connection carries, and what the gate answers it: the state of the thread
  then, and the admission.\<close>

definition governed_request :: "Connection \<Rightarrow> (ParsedRequest \<times> GovernedHttpRequest) option" where
  "governed_request c =
     (case read_request (cn_stream c) of
        Inl _ \<Rightarrow> None
      | Inr r \<Rightarrow>
          if is_governed_route (pr_path r) \<and> is_supported_governed_method (pr_method r) (pr_path r)
          then map_option (Pair r) (as_governed r) else None)"

definition connection_admission :: "Crates \<Rightarrow> Serde \<Rightarrow> Connection \<Rightarrow> Db \<Rightarrow> (Thread \<times> AdmittedServiceRequest) option" where
  "connection_admission X J c db =
     Option.bind (governed_request c) (\<lambda>(r, g).
       case authenticate_governed_request X J (app_gate (concurrent_application X c)) \<lparr>th_db = db, th_log = []\<rparr> g (cn_clock c 0) of
         (th, Inl _) \<Rightarrow> None
       | (th, Inr admitted) \<Rightarrow> Some (th, admitted))"

lemma governed_request_Some:
  assumes "governed_request c = Some (r, g)"
  shows "read_request (cn_stream c) = Inr r" "is_governed_route (pr_path r)" "is_supported_governed_method (pr_method r) (pr_path r)"
    "as_governed r = Some g" "pr_path r \<noteq> ''/v1/enrollments/challenges''" "pr_path r \<noteq> ''/v1/enrollments''"
proof -
  have c: "read_request (cn_stream c) = Inr r \<and> is_governed_route (pr_path r) \<and>
      is_supported_governed_method (pr_method r) (pr_path r) \<and> as_governed r = Some g"
    using assms unfolding governed_request_def by (auto split: sum.splits if_splits)
  then show "read_request (cn_stream c) = Inr r" "is_governed_route (pr_path r)" "is_supported_governed_method (pr_method r) (pr_path r)"
    "as_governed r = Some g" by blast+
  have "\<not> is_governed_route ''/v1/enrollments/challenges''" "\<not> is_governed_route ''/v1/enrollments''" by code_simp+
  with c show "pr_path r \<noteq> ''/v1/enrollments/challenges''" "pr_path r \<noteq> ''/v1/enrollments''" by metis+
qed

lemma connection_admission_Some:
  assumes "connection_admission X J c db = Some (th, a)"
  obtains r g where "governed_request c = Some (r, g)"
    and "authenticate_governed_request X J (app_gate (concurrent_application X c)) \<lparr>th_db = db, th_log = []\<rparr> g (cn_clock c 0) = (th, Inr a)"
proof -
  have "x = (th, Inr a)" if "(case x of (th, Inl _) \<Rightarrow> None | (th, Inr y) \<Rightarrow> Some (th, y)) = Some (th, a)" for x :: "Thread \<times> (Response + AdmittedServiceRequest)"
    using that by (auto split: prod.splits sum.splits)
  note admitted = this
  from assms obtain r g where g: "governed_request c = Some (r, g)"
    unfolding connection_admission_def by (cases "governed_request c") auto
  with assms admitted that [OF g] show thesis unfolding connection_admission_def by simp
qed

lemma admit_asks:
  "ServiceRequestGate_admit verify protect require s r now = (s', Inr a) \<Longrightarrow> \<exists>d. protect s (asr_verified a) now = (s', Inr d)"
  by (auto simp: ServiceRequestGate_admit_def split: sum.splits prod.splits)

lemma admission_reserves:
  assumes "connection_admission X J c db = Some (th, a)"
  shows "\<exists>d. th_log th = [(cn_time c 0, cn_others c 0 db, th_db th)] \<and>
    ReplayProtectionService_protect (pg_replay_reserve (cn_faults c 1)) (cn_others c 0 db) (asr_verified a) (cn_clock c 0) = (th_db th, Inr d)"
proof -
  from assms obtain r g where
    "authenticate_governed_request X J (app_gate (concurrent_application X c)) \<lparr>th_db = db, th_log = []\<rparr> g (cn_clock c 0) = (th, Inr a)"
    by (rule connection_admission_Some)
  then obtain sr where "app_gate (concurrent_application X c) \<lparr>th_db = db, th_log = []\<rparr> sr (cn_clock c 0) = (th, Inr a)"
    by (auto simp: authenticate_governed_request_def split: sum.splits prod.splits)
  moreover have "app_gate (concurrent_application X c) = ServiceRequestGate_admit
     (\<lambda>th r now. reading c 0 (\<lambda>db. pg_verify X (cn_faults c 0) db r now) th)
     (\<lambda>th v now. atomically c (\<lambda>db. ReplayProtectionService_protect (pg_replay_reserve (cn_faults c 1)) db v now) th)
     (\<lambda>th a. reading c 2 (\<lambda>db. require_communication (pg_admission_find (cn_faults c 2)) db a) th)"
    by (simp add: concurrent_application_def Let_def)
  ultimately obtain d where
    "atomically c (\<lambda>db. ReplayProtectionService_protect (pg_replay_reserve (cn_faults c 1)) db (asr_verified a) (cn_clock c 0))
       \<lparr>th_db = db, th_log = []\<rparr> = (th, Inr d)"
    using admit_asks by fastforce
  then show ?thesis by (auto simp: atomically_def Let_def split: prod.splits)
qed

lemma admission_continues:
  assumes "connection_admission X J c db = Some (th, a)"
  shows "\<exists>r. fst (connection_thread X J c db) = fst (governed_route X J (concurrent_application X c) (cn_clock c) th r (asr_verified a))"
proof -
  from assms obtain r g where g: "governed_request c = Some (r, g)" and
    "authenticate_governed_request X J (app_gate (concurrent_application X c)) \<lparr>th_db = db, th_log = []\<rparr> g (cn_clock c 0) = (th, Inr a)"
    by (rule connection_admission_Some)
  with governed_request_Some [OF g]
  have "connection_thread X J c db = map_prod id response_bytes (governed_route X J (concurrent_application X c) (cn_clock c) th r (asr_verified a))"
    by (simp add: connection_thread_def handle_connection_def dispatch_def map_prod_def)
  then show ?thesis by (metis fst_map_prod id_apply)
qed

text \<open>The reservation is the first call of an admitted connection's thread.\<close>

lemma admitted_log:
  assumes "connection_admission X J c db = Some (th, a)"
  shows "\<exists>rest. th_log (fst (connection_thread X J c db)) = th_log th @ rest"
proof -
  define P where "P = (\<lambda>s :: Thread. \<exists>rest. th_log s = th_log th @ rest)"
  from admission_continues [OF assms] obtain r
    where r: "fst (connection_thread X J c db) = fst (governed_route X J (concurrent_application X c) (cn_clock c) th r (asr_verified a))" by blast
  have "server_any.call_stable c P" by (auto simp: server_any.call_stable_def P_def)
  moreover have "eq_onp P th th" by (simp add: eq_onp_def P_def)
  ultimately have "rel_op (eq_onp P) (governed_route X J (concurrent_application X c) (cn_clock c) th r (asr_verified a))
      (governed_route X J (concurrent_application X c) (cn_clock c) th r (asr_verified a))"
    by (intro governed_route_transfer [of X "eq_onp P", THEN rel_funD, THEN rel_funD, THEN rel_funD, THEN rel_funD, THEN rel_funD,
        THEN rel_funD, THEN rel_funD] server_any.thread_application refl)
  then show ?thesis by (simp add: r rel_prod_sel eq_onp_def P_def)
qed

text \<open>C9: A signed request that arrives twice is admitted once, even on two connections at the same time:
  if two threads of the server are both admitted, their requests differ in the key or in the nonce.\<close>

theorem racing_replays_not_both_admitted:
  assumes "server_history X J cs turn N h" and "good_replay (h 0)"
    and "k < length cs" and "l < length cs" and "k \<noteq> l" and "cn_time (cs ! k) 0 < N" and "cn_time (cs ! l) 0 < N"
    and "connection_admission X J (cs ! k) (h (cn_arrival (cs ! k))) = Some (th, a)"
    and "connection_admission X J (cs ! l) (h (cn_arrival (cs ! l))) = Some (th', b)"
  shows "(vsr_key_id (asr_verified a), vsr_nonce_digest (asr_verified a)) \<noteq>
    (vsr_key_id (asr_verified b), vsr_nonce_digest (asr_verified b))"
proof -
  let ?nonce = "\<lambda>a. (vsr_key_id (asr_verified a), vsr_nonce_digest (asr_verified a))"
  have evolve: "good_replay (h n) \<and> used_nonces_of (h m) \<subseteq> used_nonces_of (h n)" if "m \<le> n" "n \<le> N" for m n
  proof -
    have "replay_evolves\<^sup>*\<^sup>* (h 0) (h m)" "replay_evolves\<^sup>*\<^sup>* (h m) (h n)"
      using server_replay.server_history_related [OF assms(1)] that by simp_all
    moreover have "good_replay d \<longrightarrow> good_replay d' \<and> used_nonces_of d \<subseteq> used_nonces_of d'" if "replay_evolves\<^sup>*\<^sup>* d d'" for d d'
      using that by (induction rule: rtranclp_induct) (auto simp: replay_evolves_def)
    ultimately show ?thesis using assms(2) by blast
  qed
  have call: "?nonce a \<notin> used_nonces_of (h t) \<and> ?nonce a \<in> used_nonces_of (h (t + 1)) \<and> turn t = Some k"
    if "k < length cs" "t = cn_time (cs ! k) 0" "t < N"
      "connection_admission X J (cs ! k) (h (cn_arrival (cs ! k))) = Some (th, a)" for k t th a
  proof -
    note c = that
    from admission_reserves [OF c(4)] c(2) obtain d where
      log: "th_log th = [(t, cn_others (cs ! k) 0 (h (cn_arrival (cs ! k))), th_db th)]" and
      protect: "ReplayProtectionService_protect (pg_replay_reserve (cn_faults (cs ! k) 1))
        (cn_others (cs ! k) 0 (h (cn_arrival (cs ! k)))) (asr_verified a) (cn_clock (cs ! k) 0) = (th_db th, Inr d)"
      by auto
    have "(t, cn_others (cs ! k) 0 (h (cn_arrival (cs ! k))), th_db th) \<in> set (thread_log X J h (cs ! k))"
      using admitted_log [OF c(4)] log by (auto simp: thread_log_def)
    note h = server_history_call [OF assms(1) c(1) this c(3)]
    from pgrp.protect_ok [OF _ protect [unfolded h]] evolve [of 0 t] c(3) h(1) show ?thesis by auto
  qed
  note k = call [OF assms(3) refl assms(6,8)] and l = call [OF assms(4) refl assms(7,9)]
  show ?thesis
  proof
    assume same: "?nonce a = ?nonce b"
    consider "cn_time (cs ! k) 0 < cn_time (cs ! l) 0" | "cn_time (cs ! l) 0 < cn_time (cs ! k) 0" | "cn_time (cs ! k) 0 = cn_time (cs ! l) 0"
      by linarith
    then show False
    proof cases
      case 1
      with evolve [of "cn_time (cs ! k) 0 + 1" "cn_time (cs ! l) 0"] k l same assms(7) show ?thesis by auto
    next
      case 2
      with evolve [of "cn_time (cs ! l) 0 + 1" "cn_time (cs ! k) 0"] k l same assms(6) show ?thesis by auto
    next
      case 3
      with k l assms(5) show ?thesis by simp
    qed
  qed
qed

section \<open>Two connections at once\<close>

text \<open>Two requests of the sample instance with different nonces, on two connections: the second arrives
  after the first has reserved its nonce and reserves its own before either goes on.\<close>

definition racing :: "string \<Rightarrow> nat \<Rightarrow> Connection" where
  "racing nonce k = \<lparr>cn_stream = [Data (governed_wire sample_crates (sample_request nonce))], cn_clock = (\<lambda>_. 125),
     cn_faults = (\<lambda>_. no_faults), cn_route_faults = (\<lambda>_. no_faults), cn_environment = sample_env, cn_arrival = k,
     cn_time = (\<lambda>m. if m = 0 then k else 2 * m + k + 2), cn_others = (\<lambda>_. id),
     cn_read_time = (\<lambda>m j. if m = 0 then k else if m = 1 then k + 1 else 2 * m + k + 1), cn_others_read = (\<lambda>_ _. id)\<rparr>"

definition racing_history :: "nat \<Rightarrow> Db" where
  "racing_history t = (if t = 0 then sample_db else if t = 1 then admitted_db else retried_db)"

lemma undisturbed_racing: "undisturbed (racing n k)"
  by (simp add: undisturbed_def racing_def)

lemma wire_shape:
  "as_governed p = Some g \<Longrightarrow> into_signed X g = Inr r \<Longrightarrow> pr_method p = srp_method (ssr_parts r) \<and> pr_path p = srp_path_and_query (ssr_parts r)"
  by (auto simp: as_governed_def into_signed_def SignedServiceRequest_from_wire_def ServiceRequestParts_new_def Let_def
      bind_eq_Some_conv split: if_splits)

lemma racing_admission:
  assumes "n \<in> {''nonce-0123456789'', ''nonce-abcdefghij''}"
    and "pg_gate sample_crates no_faults no_faults no_faults db (sample_request n) 125 = (db', Inr a)"
  shows "\<exists>th. connection_admission sample_crates J (racing n k) db = Some (th, a) \<and> th_db th = db'"
proof -
  let ?c = "racing n k"
  have "rel_op synced (app_gate (concurrent_application sample_crates ?c) \<lparr>th_db = db, th_log = []\<rparr> (sample_request n) 125)
      (app_gate (pg_application sample_crates (cn_faults ?c) (cn_route_faults ?c) (cn_environment ?c)) db (sample_request n) 125)"
    by (intro application_transfer(1) [of sample_crates synced, THEN rel_funD, THEN rel_funD, THEN rel_funD, THEN rel_funD]
        undisturbed_application [OF undisturbed_racing] refl) (simp add: synced_def)
  then obtain th where gate: "app_gate (concurrent_application sample_crates ?c) \<lparr>th_db = db, th_log = []\<rparr> (sample_request n) 125 = (th, Inr a)"
    "th_db th = db'"
    using assms(2) by (auto simp: pg_application_simps racing_def synced_def elim!: rel_prod.cases)
  obtain p g where p: "read_request (cn_stream ?c) = Inr p" "as_governed p = Some g" "into_signed sample_crates g = Inr (sample_request n)"
    using sample_wire [OF assms(1)] by (auto simp: racing_def)
  have "is_governed_route ''/v1/subscriptions''" "is_supported_governed_method ''POST'' ''/v1/subscriptions''" by code_simp+
  with wire_shape [OF p(2,3)] sign_parts [OF sample_sign [OF assms(1)]] p
  have "governed_request ?c = Some (p, g)" by (simp add: governed_request_def sample_parts_def)
  with gate p(3) show ?thesis
    by (simp add: connection_admission_def authenticate_governed_request_def racing_def)
qed

text \<open>The calls of a thread are at its own times.\<close>

lemma log_times:
  "map fst (th_log (fst (connection_thread X J c db))) = map (cn_time c) [0..<length (th_log (fst (connection_thread X J c db)))]"
proof -
  have "server_any.call_stable c (\<lambda>th. map fst (th_log th) = map (cn_time c) [0..<length (th_log th)])"
    by (simp add: server_any.call_stable_def)
  from server_any.connection_related [OF this, of db X J] show ?thesis by simp
qed

lemma racing_log:
  assumes "n \<in> {''nonce-0123456789'', ''nonce-abcdefghij''}"
    and "pg_gate sample_crates no_faults no_faults no_faults db (sample_request n) 125 = (db', Inr a)"
  shows "\<exists>rest. th_log (fst (connection_thread sample_crates J (racing n k) db)) = (k, db, db') # rest \<and>
    (\<forall>(t, b, e) \<in> set rest. k + 4 \<le> t)"
proof -
  let ?log = "th_log (fst (connection_thread sample_crates J (racing n k) db))"
  obtain th where th: "connection_admission sample_crates J (racing n k) db = Some (th, a)" "th_db th = db'"
    using racing_admission [OF assms] by blast
  from admission_reserves [OF th(1)] th(2) have "th_log th = [(k, db, db')]" by (simp add: racing_def)
  with admitted_log [OF th(1)] obtain rest where log: "?log = (k, db, db') # rest" by auto
  have "k + 4 \<le> t" if "(t, b, e) \<in> set rest" for t b e
  proof -
    from that obtain i where i: "i < length rest" "rest ! i = (t, b, e)" by (auto simp: in_set_conv_nth)
    have "map fst ?log ! (i + 1) = cn_time (racing n k) (i + 1)"
      unfolding log_times using i(1) log by (simp del: upt_Suc)
    with i log show ?thesis by (simp add: racing_def)
  qed
  with log show ?thesis by auto
qed

lemma racing_timed: "well_timed (racing n k) len"
  by (auto simp: well_timed_def racing_def)

lemma racing_sees:
  assumes "th_log (fst (connection_thread sample_crates J (racing n k) (racing_history k))) = (k, racing_history k, racing_history (k + 1)) # rest"
    and "\<forall>(t, b, e) \<in> set rest. k + 4 \<le> t" and "k \<le> 1"
  shows "sees_history racing_history 2 (racing n k) (th_log (fst (connection_thread sample_crates J (racing n k) (racing_history k))))"
proof -
  have "cn_others_read (racing n k) m j (left_by ((k, racing_history k, racing_history (k + 1)) # rest) (racing_history (cn_arrival (racing n k))) m) =
      racing_history (cn_read_time (racing n k) m j)" if "cn_read_time (racing n k) m j \<le> 2" for m j
  proof -
    from that have "m = 0 \<or> m = 1" by (auto simp: racing_def split: if_splits)
    then show ?thesis by (auto simp: racing_def left_by_def)
  qed
  with assms show ?thesis by (fastforce simp: sees_history_def)
qed

lemma racing_server:
  "server_history sample_crates sample_serde [racing ''nonce-0123456789'' 0, racing ''nonce-abcdefghij'' 1] Some 2 racing_history"
proof -
  let ?cs = "[racing ''nonce-0123456789'' 0, racing ''nonce-abcdefghij'' 1]"
  let ?log = "\<lambda>n k. th_log (fst (connection_thread sample_crates sample_serde (racing n k) (racing_history k)))"
  have h: "racing_history 0 = sample_db" "racing_history 1 = admitted_db" "racing_history 2 = retried_db"
    by (simp_all add: racing_history_def)
  obtain r0 where l0: "?log ''nonce-0123456789'' 0 = (0, racing_history 0, racing_history 1) # r0" "\<forall>(t, b, e) \<in> set r0. 0 + 4 \<le> t"
    using racing_log [OF _ sample_admit, of sample_serde 0] unfolding h by auto
  obtain r1 where l1: "?log ''nonce-abcdefghij'' 1 = (1, racing_history 1, racing_history 2) # r1" "\<forall>(t, b, e) \<in> set r1. 1 + 4 \<le> t"
    using racing_log [OF _ sample_retry, of sample_serde 1] unfolding h by auto
  have sees: "sees_history racing_history 2 (racing ''nonce-0123456789'' 0) (?log ''nonce-0123456789'' 0)"
    "sees_history racing_history 2 (racing ''nonce-abcdefghij'' 1) (?log ''nonce-abcdefghij'' 1)"
    using racing_sees [of sample_serde "''nonce-0123456789''" 0 r0] racing_sees [of sample_serde "''nonce-abcdefghij''" 1 r1] l0 l1
    by (simp_all add: numeral_2_eq_2)
  have arrival: "cn_arrival (racing n k) = k" for n k by (simp add: racing_def)
  have turns: "\<forall>(t, _) \<in> set (?log ''nonce-0123456789'' 0). t < 2 \<longrightarrow> t = 0" "\<forall>(t, _) \<in> set (?log ''nonce-abcdefghij'' 1). t < 2 \<longrightarrow> t = 1"
    unfolding l0(1) l1(1) using l0(2) l1(2) by fastforce+
  have mem: "0 \<in> fst ` set (?log ''nonce-0123456789'' 0)" "1 \<in> fst ` set (?log ''nonce-abcdefghij'' 1)"
    unfolding l0(1) l1(1) by simp_all
  show ?thesis
    unfolding server_history_def Let_def
    using sees turns mem by (simp add: racing_timed arrival All_less_Suc numeral_2_eq_2)
qed

theorem server_refines_components_witness:
  "work_claims_run\<^sup>*\<^sup>* sample_db retried_db \<and> subscription_run\<^sup>*\<^sup>* sample_db retried_db \<and>
   (registry_run sample_crates)\<^sup>*\<^sup>* sample_db retried_db \<and> routing_run\<^sup>*\<^sup>* sample_db retried_db"
  using server_refines_components [OF racing_server, of 0 2] by (simp add: racing_history_def)

theorem racing_replays_not_both_admitted_witness:
  "vsr_nonce_digest (asr_verified (sample_admitted ''nonce-0123456789'' Fresh)) \<noteq>
   vsr_nonce_digest (asr_verified (sample_admitted ''nonce-abcdefghij'' SafeRetry))"
proof -
  have good: "good_replay (racing_history 0)" by (simp add: racing_history_def) code_simp
  obtain th th' where "connection_admission sample_crates sample_serde (racing ''nonce-0123456789'' 0) sample_db =
      Some (th, sample_admitted ''nonce-0123456789'' Fresh)"
    "connection_admission sample_crates sample_serde (racing ''nonce-abcdefghij'' 1) admitted_db =
      Some (th', sample_admitted ''nonce-abcdefghij'' SafeRetry)"
    using racing_admission [OF _ sample_admit, of sample_serde 0] racing_admission [OF _ sample_retry, of sample_serde 1] by auto
  with racing_replays_not_both_admitted [OF racing_server good, of 0 1]
  have "(vsr_key_id (asr_verified (sample_admitted ''nonce-0123456789'' Fresh)), vsr_nonce_digest (asr_verified (sample_admitted ''nonce-0123456789'' Fresh))) \<noteq>
    (vsr_key_id (asr_verified (sample_admitted ''nonce-abcdefghij'' SafeRetry)), vsr_nonce_digest (asr_verified (sample_admitted ''nonce-abcdefghij'' SafeRetry)))"
    by (simp add: racing_def racing_history_def)
  then show ?thesis by (simp add: sample_admitted_def)
qed

text \<open>A history that starts with claims: a connection breaks before it is read, and an operator adds an
  identity.\<close>

definition idle_connection :: Connection where
  "idle_connection = (racing [] 0)\<lparr>cn_stream := [Broken]\<rparr>"

definition operated_history :: "nat \<Rightarrow> Db" where
  "operated_history t = (if t = 0 then reclaimed_db else reclaimed_db\<lparr>identities := identities reclaimed_db @
     [\<lparr>idr_id = ActorId 3, idr_kind = ''service'', idr_display_name = ''audit'', idr_status = ''active''\<rparr>]\<rparr>)"

theorem racing_workers_exclude_each_other_witness:
  "wc_status second_claim = WcActive \<and> pg_claims (operated_history 1) ! 1 = second_claim"
proof -
  have "read_request [Broken] = Inl Malformed" by code_simp
  then have log: "th_log (fst (connection_thread sample_crates sample_serde idle_connection db)) = []" for db
    by (simp add: connection_thread_def handle_connection_def idle_connection_def)
  have hist: "server_history sample_crates sample_serde [idle_connection] (\<lambda>_. None) 1 operated_history"
  proof -
    have "sees_history operated_history 1 idle_connection []"
      by (auto simp: sees_history_def idle_connection_def racing_def left_by_def)
    moreover have "well_timed idle_connection 0" by (auto simp: well_timed_def idle_connection_def racing_def)
    ultimately show ?thesis
      by (auto simp: server_history_def Let_def log operated_history_def service_tables_kept_def)
  qed
  have claims: "pg_claims (operated_history 1) = [first_claim\<lparr>wc_status := WcExpired\<rparr>, second_claim]"
    using reclaimed_claims by (simp add: operated_history_def pg_claims_def)
  have "work_claims_run\<^sup>*\<^sup>* empty_db (operated_history 0)" using reclaimed_reachable by (simp add: operated_history_def)
  moreover have st: "wc_status second_claim = WcActive" by (simp add: second_claim_def)
  ultimately have "pg_claims (operated_history 1) ! 1 = second_claim"
    by (intro racing_workers_exclude_each_other [OF hist, of 1]) (simp_all add: claims [simplified])
  with st show ?thesis by simp
qed

end
