(* ===== verification/Requirements.thy ===== *)
theory Requirements
  imports Prelude
begin

text \<open>
  The registry of kernel capabilities (\<open>src/kernel/mod.rs\<close>, \<open>src/kernel/requirement.rs\<close>): every
  capability module names the requirement it implements, and \<open>REQUIREMENTS\<close> lists them all.
\<close>

record Requirement =
  req_id :: string
  req_capability :: string
  req_summary :: string

definition Requirement_new :: "string \<Rightarrow> string \<Rightarrow> string \<Rightarrow> Requirement" where
  "Requirement_new req capability summary =
     \<lparr>req_id = req, req_capability = capability, req_summary = summary\<rparr>"

definition identity_requirement :: Requirement where
  "identity_requirement = Requirement_new ''ILK-001'' ''Identity''
     ''Every calling service and worker has a stable service identity.''"

definition authority_requirement :: Requirement where
  "authority_requirement = Requirement_new ''ILK-002'' ''Authority''
     ''The kernel decides whether an identity may perform an operation.''"

definition requests_requirement :: Requirement where
  "requests_requirement = Requirement_new ''ILK-003'' ''Requests''
     ''Governed communications are immutable requests with stable, non-reusable IDs.''"

definition versions_requirement :: Requirement where
  "versions_requirement = Requirement_new ''ILK-004'' ''Versions''
     ''Accepted resource history is versioned and never silently overwritten.''"

definition relationships_requirement :: Requirement where
  "relationships_requirement = Requirement_new ''ILK-005'' ''Relationships''
     ''Requests and artifacts can be connected by typed links.''"

definition artifacts_requirement :: Requirement where
  "artifacts_requirement = Requirement_new ''ILK-006'' ''Artifacts''
     ''Workers can submit immutable evidence and results.''"

definition decisions_requirement :: Requirement where
  "decisions_requirement = Requirement_new ''ILK-007'' ''Decisions''
     ''Governed decisions are explicit durable records.''"

definition audit_requirement :: Requirement where
  "audit_requirement = Requirement_new ''ILK-008'' ''Audit''
     ''Security and governance actions produce append-only audit records.''"

definition events_requirement :: Requirement where
  "events_requirement = Requirement_new ''ILK-009'' ''Events''
     ''Committed changes can produce typed events.''"

definition subscriptions_requirement :: Requirement where
  "subscriptions_requirement = Requirement_new ''ILK-010'' ''Subscriptions''
     ''Workers can declare the event types in which they are interested.''"

definition work_claims_requirement :: Requirement where
  "work_claims_requirement = Requirement_new ''ILK-011'' ''Work claims''
     ''At most one worker can hold the active claim for a piece of work.''"

definition idempotency_requirement :: Requirement where
  "idempotency_requirement = Requirement_new ''ILK-012'' ''Idempotency''
     ''Retrying a request cannot accidentally perform it twice.''"

definition mediation_requirement :: Requirement where
  "mediation_requirement = Requirement_new ''ILK-013'' ''Mediation''
     ''Workers use typed kernel contracts and cannot submit SQL or directly mutate kernel state.''"

definition REQUIREMENTS :: "Requirement list" where
  "REQUIREMENTS =
     [identity_requirement,
      authority_requirement,
      requests_requirement,
      versions_requirement,
      relationships_requirement,
      artifacts_requirement,
      decisions_requirement,
      audit_requirement,
      events_requirement,
      subscriptions_requirement,
      work_claims_requirement,
      idempotency_requirement,
      mediation_requirement]"

text \<open>The registry is complete: it holds the requirements ILK-001 to ILK-013, each once, in order.\<close>

lemma requirements_complete:
  "map req_id REQUIREMENTS = map (\<lambda>n. ''ILK-0'' @ (if n < 10 then ''0'' else []) @ show_nat n) [1..<14]"
  by code_simp

end
