(* ===== verification/Startup.thy ===== *)
theory Startup
  imports Http_Server Requirements
begin

text \<open>
  How the process starts (\<open>src/main.rs\<close>, \<open>Application::from_env\<close> and \<open>new\<close> of \<open>src/wiring.rs\<close>,
  \<open>src/infrastructure/database.rs\<close>, the head of \<open>serve\<close>): configuration from the environment, the
  connection pool, the readiness checks, the migrations, the instance credential, the listener. The
  PostgreSQL driver, the pool and the socket are a parameter that answers every call given all calls so
  far; the calls are what the process did to the outside.
\<close>

section \<open>The outside\<close>

datatype 'c driver_call =
    BuildPool 'c "32 word" "nat option"
  | TakeConnection
  | SimpleQuery string
  | QueryOpt string
  | BatchExecute string
  | BindListener string

text \<open>An answer is the error's text or success; a query's answer is the selected column of its row, if
  it has one.\<close>

record 'c Driver =
  dv_parse :: "string \<Rightarrow> string + 'c"
  dv_connect_timeout :: "nat \<Rightarrow> 'c \<Rightarrow> 'c"
  dv_answer :: "'c driver_call list \<Rightarrow> string + string option"

definition perform ::
  "'c Driver \<Rightarrow> (string \<Rightarrow> 'e) \<Rightarrow> 'c driver_call \<Rightarrow> 'c driver_call list \<Rightarrow> 'c driver_call list \<times> ('e + string option)" where
  "perform D wrap c calls = (calls @ [c], map_err wrap (dv_answer D (calls @ [c])))"


section \<open>The database\<close>

datatype DatabaseError =
    DBE_EmptyUrl
  | DBE_InvalidPoolSize
  | DBE_InvalidPostgresConfig string
  | DBE_MissingEnvironment string
  | DBE_Pool string
  | DBE_Query string
  | DBE_VectorExtensionMissing

primrec DatabaseError_show :: "DatabaseError \<Rightarrow> string" where
  "DatabaseError_show DBE_EmptyUrl = ''database URL cannot be empty''"
| "DatabaseError_show DBE_InvalidPoolSize = ''database pool size must be positive''"
| "DatabaseError_show (DBE_InvalidPostgresConfig e) = ''invalid PostgreSQL configuration: '' @ e"
| "DatabaseError_show (DBE_MissingEnvironment name) = ''required environment variable '' @ name @ '' is not set''"
| "DatabaseError_show (DBE_Pool e) = ''database pool error: '' @ e"
| "DatabaseError_show (DBE_Query e) = ''database query failed: '' @ e"
| "DatabaseError_show DBE_VectorExtensionMissing = ''required PostgreSQL extension '' @ [CHR 0x27] @ ''vector'' @ [CHR 0x27] @ '' is not installed''"

definition DATABASE_URL_ENV :: string where
  "DATABASE_URL_ENV = ''DATABASE_URL''"

definition DEFAULT_MAX_POOL_SIZE :: "32 word" where
  "DEFAULT_MAX_POOL_SIZE = 10"

text \<open>In seconds.\<close>

definition CONNECT_TIMEOUT :: nat where
  "CONNECT_TIMEOUT = 5"

record DatabaseConfig =
  dc_url :: string
  dc_max_pool_size :: "32 word"

definition DatabaseConfig_new :: "string \<Rightarrow> DatabaseError + DatabaseConfig" where
  "DatabaseConfig_new url =
     (if str_trim url = [] then Inl DBE_EmptyUrl
      else Inr \<lparr>dc_url = url, dc_max_pool_size = DEFAULT_MAX_POOL_SIZE\<rparr>)"

definition DatabaseConfig_from_env :: "(string \<Rightarrow> string option) \<Rightarrow> DatabaseError + DatabaseConfig" where
  "DatabaseConfig_from_env var =
     bind_result (ok_or (DBE_MissingEnvironment DATABASE_URL_ENV) (var DATABASE_URL_ENV)) DatabaseConfig_new"

definition with_max_pool_size :: "DatabaseConfig \<Rightarrow> 32 word \<Rightarrow> DatabaseError + DatabaseConfig" where
  "with_max_pool_size config max_pool_size =
     (if max_pool_size = 0 then Inl DBE_InvalidPoolSize
      else Inr (config\<lparr>dc_max_pool_size := max_pool_size\<rparr>))"

definition db_connection :: "'c Driver \<Rightarrow> 'c driver_call list \<Rightarrow> 'c driver_call list \<times> (DatabaseError + string option)" where
  "db_connection D = perform D DBE_Pool TakeConnection"

definition check_connection :: "'c Driver \<Rightarrow> 'c driver_call list \<Rightarrow> 'c driver_call list \<times> (DatabaseError + unit)" where
  "check_connection D calls =
     bind_admin (perform D DBE_Pool TakeConnection calls) (\<lambda>calls _.
     bind_admin (perform D DBE_Query (SimpleQuery ''SELECT 1'') calls) (\<lambda>calls _. (calls, Inr ())))"

definition extension_query :: string where
  "extension_query = ''SELECT extversion FROM pg_extension WHERE extname = '' @ [CHR 0x27] @ ''vector'' @ [CHR 0x27]"

definition vector_extension_version ::
  "'c Driver \<Rightarrow> 'c driver_call list \<Rightarrow> 'c driver_call list \<times> (DatabaseError + string)" where
  "vector_extension_version D calls =
     bind_admin (db_connection D calls) (\<lambda>calls _.
     bind_admin (perform D DBE_Query
       (QueryOpt extension_query) calls) (\<lambda>calls row.
     (calls, ok_or DBE_VectorExtensionMissing row)))"

definition require_vector_extension ::
  "'c Driver \<Rightarrow> 'c driver_call list \<Rightarrow> 'c driver_call list \<times> (DatabaseError + unit)" where
  "require_vector_extension D calls = bind_admin (vector_extension_version D calls) (\<lambda>calls _. (calls, Inr ()))"

definition Database_connect ::
  "'c Driver \<Rightarrow> DatabaseConfig \<Rightarrow> 'c driver_call list \<Rightarrow> 'c driver_call list \<times> (DatabaseError + unit)" where
  "Database_connect D config calls =
     (case dv_parse D (dc_url config) of
        Inl e \<Rightarrow> (calls, Inl (DBE_InvalidPostgresConfig e))
      | Inr c \<Rightarrow>
          let postgres_config = dv_connect_timeout D CONNECT_TIMEOUT c
          in bind_admin (perform D DBE_Pool (BuildPool postgres_config (dc_max_pool_size config) (Some 1)) calls) (\<lambda>calls _.
             bind_admin (check_connection D calls) (\<lambda>calls _.
             require_vector_extension D calls)))"

definition connect_from_env ::
  "'c Driver \<Rightarrow> (string \<Rightarrow> string option) \<Rightarrow> 'c driver_call list \<Rightarrow> 'c driver_call list \<times> (DatabaseError + unit)" where
  "connect_from_env D var calls =
     bind_admin (calls, DatabaseConfig_from_env var) (\<lambda>calls config. Database_connect D config calls)"

definition migrations :: "string list" where
  "migrations =
     [''0001_identities.sql'', ''0002_instance_public_key_registry.sql'', ''0003_service_enrollment_bindings.sql'',
      ''0004_subscriptions.sql'', ''0005_instance_handshakes.sql'', ''0006_service_request_replay_protection.sql'',
      ''0007_communication_admission.sql'', ''0008_requests.sql'', ''0009_authority_grants.sql'',
      ''0010_authority_schema_versions.sql'', ''0011_authority_decisions.sql'',
      ''0012_authority_grant_schema_versions.sql'', ''0013_authority_decision_schema_versions.sql'',
      ''0014_request_schema_versions.sql'', ''0015_subscription_delivery_modes.sql'', ''0016_request_routes.sql'',
      ''0017_work_claims.sql'', ''0018_seed_no_artifact_schema_versions.sql'', ''0019_revoke_authority_grants.sql'']"

text \<open>\<open>include_str file\<close> is the text of a file of \<open>migrations/\<close>; the script goes to the server as one
  batch.\<close>

fun concat_lines :: "string list \<Rightarrow> string" where
  "concat_lines [] = []"
| "concat_lines [s] = s"
| "concat_lines (s # t # ss) = s @ [CHR 0x0A] @ concat_lines (t # ss)"

definition migrate ::
  "'c Driver \<Rightarrow> (string \<Rightarrow> string) \<Rightarrow> 'c driver_call list \<Rightarrow> 'c driver_call list \<times> (DatabaseError + unit)" where
  "migrate D include_str calls =
     bind_admin (db_connection D calls) (\<lambda>calls _.
     bind_admin (perform D DBE_Query (BatchExecute (concat_lines (map include_str migrations))) calls) (\<lambda>calls _. (calls, Inr ())))"


section \<open>The application and the process\<close>

datatype WiringError =
    WRE_Database DatabaseError
  | WRE_InvalidServiceId IdentityError
  | WRE_MissingEnvironment string

primrec IdentityError_show :: "Crates \<Rightarrow> IdentityError \<Rightarrow> string" where
  "IdentityError_show X (IE_AlreadyExists i) = ''identity '' @ ActorId_show X i @ '' already exists''"
| "IdentityError_show X (IE_Disabled i) = ''identity '' @ ActorId_show X i @ '' is disabled''"
| "IdentityError_show X IE_InvalidActorId = ''service ID must be a valid UUID''"
| "IdentityError_show X (IE_InvalidActorKind value) = ''invalid service kind '' @ [CHR 0x27] @ value @ [CHR 0x27]"
| "IdentityError_show X IE_InvalidDisplayName = ''display name must contain 1 to '' @ show_nat MAX_DISPLAY_NAME_LENGTH @ '' characters''"
| "IdentityError_show X (IE_InvalidIdentityStatus value) = ''invalid identity status '' @ [CHR 0x27] @ value @ [CHR 0x27]"
| "IdentityError_show X (IE_NotFound i) = ''identity '' @ ActorId_show X i @ '' was not found''"
| "IdentityError_show X (IE_Repository message) = ''identity repository failed: '' @ message"

primrec WiringError_show :: "Crates \<Rightarrow> WiringError \<Rightarrow> string" where
  "WiringError_show X (WRE_Database e) = DatabaseError_show e"
| "WiringError_show X (WRE_InvalidServiceId e) = IdentityError_show X e"
| "WiringError_show X (WRE_MissingEnvironment name) = ''required environment variable '' @ name @ '' is not set''"

definition SERVICE_ID_ENV :: string where
  "SERVICE_ID_ENV = ''INFERNAL_LAW_SERVICE_ID''"

text \<open>What a started application holds besides its database: the services over the PostgreSQL
  adapters are \<open>pg_application\<close>. The generated key and its two random IDs are arguments.\<close>

definition Application_new ::
  "Crates \<Rightarrow> 'c Driver \<Rightarrow> (string \<Rightarrow> string) \<Rightarrow> SigningKey \<Rightarrow> InstanceId \<Rightarrow> KeyId \<Rightarrow> ActorId \<Rightarrow> 'c driver_call list \<Rightarrow>
   'c driver_call list \<times> (WiringError + InstanceCredential)" where
  "Application_new X D include_str signing_key instance_id key_id service_id calls =
     (case migrate D include_str calls of
        (calls, Inl e) \<Rightarrow> (calls, Inl (WRE_Database e))
      | (calls, Inr _) \<Rightarrow> (calls, Inr (InstanceCredential_generate X signing_key instance_id key_id service_id)))"

definition Application_from_env ::
  "Crates \<Rightarrow> 'c Driver \<Rightarrow> (string \<Rightarrow> string option) \<Rightarrow> (string \<Rightarrow> string) \<Rightarrow> SigningKey \<Rightarrow> InstanceId \<Rightarrow> KeyId \<Rightarrow>
   'c driver_call list \<Rightarrow> 'c driver_call list \<times> (WiringError + InstanceCredential)" where
  "Application_from_env X D var include_str signing_key instance_id key_id calls =
     (case var SERVICE_ID_ENV of
        None \<Rightarrow> (calls, Inl (WRE_MissingEnvironment SERVICE_ID_ENV))
      | Some value \<Rightarrow>
          (case ActorId_from_str X value of
             Inl e \<Rightarrow> (calls, Inl (WRE_InvalidServiceId e))
           | Inr service_id \<Rightarrow>
               (case connect_from_env D var calls of
                  (calls, Inl e) \<Rightarrow> (calls, Inl (WRE_Database e))
                | (calls, Inr _) \<Rightarrow> Application_new X D include_str signing_key instance_id key_id service_id calls)))"

definition sign_as_instance :: "Crates \<Rightarrow> InstanceCredential \<Rightarrow> bytes \<Rightarrow> InstanceSignature" where
  "sign_as_instance X credential message = InstanceCredential_sign X credential message"

text \<open>\<open>serve\<close> up to its loop, which \<open>server_history\<close> describes.\<close>

definition serve_bind ::
  "'c Driver \<Rightarrow> (string \<Rightarrow> string option) \<Rightarrow> 'c driver_call list \<Rightarrow> 'c driver_call list \<times> (string + unit)" where
  "serve_bind D var calls =
     bind_admin (perform D id (BindListener (listen_address var)) calls) (\<lambda>calls _. (calls, Inr ()))"

text \<open>\<open>main\<close>: the text it fails with, or the credential of the application that now serves.\<close>

definition main_process ::
  "Crates \<Rightarrow> 'c Driver \<Rightarrow> (string \<Rightarrow> string option) \<Rightarrow> (string \<Rightarrow> string) \<Rightarrow> SigningKey \<Rightarrow> InstanceId \<Rightarrow> KeyId \<Rightarrow>
   'c driver_call list \<times> (string + InstanceCredential)" where
  "main_process X D var include_str signing_key instance_id key_id =
     (case Application_from_env X D var include_str signing_key instance_id key_id [] of
        (calls, Inl e) \<Rightarrow> (calls, Inl (WiringError_show X e))
      | (calls, Inr application) \<Rightarrow>
          bind_admin (serve_bind D var calls) (\<lambda>calls _. (calls, Inr application)))"


section \<open>What has happened before the first connection\<close>

definition startup_calls ::
  "'c Driver \<Rightarrow> (string \<Rightarrow> string option) \<Rightarrow> (string \<Rightarrow> string) \<Rightarrow> 'c \<Rightarrow> 'c driver_call list" where
  "startup_calls D var include_str c =
     [BuildPool (dv_connect_timeout D CONNECT_TIMEOUT c) DEFAULT_MAX_POOL_SIZE (Some 1),
      TakeConnection, SimpleQuery ''SELECT 1'',
      TakeConnection, QueryOpt extension_query,
      TakeConnection, BatchExecute (concat_lines (map include_str migrations)),
      BindListener (listen_address var)]"

lemma bind_perform [simp]:
  "bind_admin (perform D wrap c calls) f =
     (case dv_answer D (calls @ [c]) of Inl e \<Rightarrow> (calls @ [c], Inl (wrap e)) | Inr r \<Rightarrow> f (calls @ [c]) r)"
  by (simp add: bind_admin_def perform_def map_err_def split: sum.split)

lemma bind_admin_Pair [simp]: "bind_admin (calls, Inr x) f = f calls x" "bind_admin (calls, Inl e) f = (calls, Inl e)"
  by (simp_all add: bind_admin_def)

lemma bind_admin_case_sum [simp]:
  "bind_admin (case r of Inl e \<Rightarrow> l e | Inr x \<Rightarrow> k x) f = (case r of Inl e \<Rightarrow> bind_admin (l e) f | Inr x \<Rightarrow> bind_admin (k x) f)"
  by (simp split: sum.split)

lemmas startup_defs = Application_from_env_def Application_new_def connect_from_env_def Database_connect_def
  check_connection_def require_vector_extension_def vector_extension_version_def db_connection_def migrate_def
  serve_bind_def

text \<open>The driver's answers to the first seven calls succeed, and the extension query has a row.\<close>

definition prepared :: "'c Driver \<Rightarrow> 'c driver_call list \<Rightarrow> bool" where
  "prepared D calls \<longleftrightarrow> (\<forall>n \<in> set [1..<8]. \<not> isl (dv_answer D (take n calls))) \<and> dv_answer D (take 5 calls) \<noteq> Inr None"

lemma not_isl_iff: "\<not> isl r \<longleftrightarrow> (\<exists>x. r = Inr x)"
  by (cases r) auto

text \<open>The first calls connect; a connected database is migrated; only then does the listener open.\<close>

lemma connect_calls:
  assumes "Database_connect D config [] = (calls, r)"
  shows "BindListener a \<notin> set calls"
    and "r = Inr u \<Longrightarrow> dc_max_pool_size config = DEFAULT_MAX_POOL_SIZE \<Longrightarrow>
      \<exists>c. dv_parse D (dc_url config) = Inr c \<and> calls = take 5 (startup_calls D var include_str c) \<and>
        (\<forall>n \<in> {1 .. 5}. \<exists>x. dv_answer D (take n calls) = Inr x) \<and> dv_answer D calls \<noteq> Inr None"
proof -
  have five: "{1 .. 5 :: nat} = {1, 2, 3, 4, 5}" by auto
  show "BindListener a \<notin> set calls"
    using assms by (auto simp: startup_defs Let_def ok_or_def split: sum.split_asm option.split_asm)
  show "\<exists>c. dv_parse D (dc_url config) = Inr c \<and> calls = take 5 (startup_calls D var include_str c) \<and>
      (\<forall>n \<in> {1 .. 5}. \<exists>x. dv_answer D (take n calls) = Inr x) \<and> dv_answer D calls \<noteq> Inr None"
    if "r = Inr u" "dc_max_pool_size config = DEFAULT_MAX_POOL_SIZE"
    using assms that unfolding five
    by (auto simp: startup_defs Let_def startup_calls_def ok_or_def numeral_eq_Suc split: sum.split_asm option.split_asm)
qed

lemma new_calls:
  assumes "Application_new X D include_str sk i k service_id calls = (calls', r)"
  shows "\<exists>rest. calls' = calls @ rest \<and> BindListener a \<notin> set rest"
    and "r = Inr app \<Longrightarrow> calls' = calls @ [TakeConnection, BatchExecute (concat_lines (map include_str migrations))] \<and>
      (\<exists>x. dv_answer D (calls @ [TakeConnection]) = Inr x) \<and> (\<exists>x. dv_answer D calls' = Inr x) \<and>
      app = InstanceCredential_generate X sk i k service_id"
  using assms by (auto simp: startup_defs split: sum.split_asm)

text \<open>C13: The server accepts connections only on a checked and migrated database, and only as the
  service it was configured to be. Whatever the environment, the driver and the database answer: if
  \<open>main\<close> ever opens its listener, then \<open>INFERNAL_LAW_SERVICE_ID\<close> is set to a valid service ID and
  \<open>DATABASE_URL\<close> to a non-blank URL the driver can read, and what the process did before is exactly this,
  in this order, each step successful: build the pool, take a connection and run the liveness query,
  take a connection and find the vector extension, take a connection and run all 19 migrations as one
  batch. Only then comes the one bind, to the configured address, and the process either fails with the
  listener's error or serves with a fresh credential for that service ID. So a database that is down,
  without the extension, or that rejects a migration never gets a listener.\<close>

theorem server_starts_only_prepared:
  assumes "main_process X D var include_str signing_key instance_id key_id = (calls, outcome)"
    and "BindListener address \<in> set calls"
  shows "\<exists>value service_id url c.
    var ''INFERNAL_LAW_SERVICE_ID'' = Some value \<and> ActorId_from_str X value = Inr service_id \<and>
    var ''DATABASE_URL'' = Some url \<and> str_trim url \<noteq> [] \<and> dv_parse D url = Inr c \<and>
    calls = startup_calls D var include_str c \<and> prepared D calls \<and>
    outcome = map_sum id (\<lambda>_. InstanceCredential_generate X signing_key instance_id key_id service_id) (dv_answer D calls)"
proof -
  obtain calls1 r1 where app: "Application_from_env X D var include_str signing_key instance_id key_id [] = (calls1, r1)"
    by fastforce
  have unbound: "BindListener address \<notin> set calls1"
  proof -
    have new: "BindListener address \<notin> set c'" if "Application_new X D include_str sk i k s c = (c', r)"
      "BindListener address \<notin> set c" for sk i k s c c' r
      using new_calls(1) [OF that(1), of address] that(2) by auto
    have conn: "BindListener address \<notin> set c'" if "connect_from_env D var [] = (c', r)" for c' r
      using that connect_calls(1) [of D _ c' r address]
      by (cases "DatabaseConfig_from_env var") (auto simp: connect_from_env_def)
    show ?thesis
      using app new conn
      by (fastforce simp: Application_from_env_def split: option.split_asm sum.split_asm prod.split_asm)
  qed
  with assms app obtain credential where r1: "r1 = Inr credential"
    by (cases r1) (auto simp: main_process_def)
  from app [unfolded r1] obtain service_text service_id calls0 where
    env: "var ''INFERNAL_LAW_SERVICE_ID'' = Some service_text" "ActorId_from_str X service_text = Inr service_id"
    and conn: "connect_from_env D var [] = (calls0, Inr ())"
    and new: "Application_new X D include_str signing_key instance_id key_id service_id calls0 = (calls1, Inr credential)"
    by (auto simp: Application_from_env_def SERVICE_ID_ENV_def split: option.split_asm sum.split_asm prod.split_asm)
  from conn obtain url config where
    url: "var ''DATABASE_URL'' = Some url" "str_trim url \<noteq> []" "config = \<lparr>dc_url = url, dc_max_pool_size = DEFAULT_MAX_POOL_SIZE\<rparr>"
    and connect: "Database_connect D config [] = (calls0, Inr ())"
    by (auto simp: connect_from_env_def DatabaseConfig_from_env_def DATABASE_URL_ENV_def DatabaseConfig_new_def ok_or_def
        split: option.split_asm if_splits)
  from connect_calls(2) [OF connect refl, of var include_str] url(3) obtain c where
    c: "dv_parse D url = Inr c" "calls0 = take 5 (startup_calls D var include_str c)"
    and five: "\<forall>n \<in> {1 .. 5}. \<exists>x. dv_answer D (take n calls0) = Inr x" "dv_answer D calls0 \<noteq> Inr None"
    by auto
  note n = new_calls(2) [OF new refl]
  have bind: "calls = calls1 @ [BindListener (listen_address var)]"
    "outcome = map_sum id (\<lambda>_. credential) (dv_answer D calls)"
    using assms(1) app r1 by (auto simp: main_process_def serve_bind_def map_sum_def split: sum.split_asm)
  have all: "calls = startup_calls D var include_str c"
    using bind(1) n c(2) by (simp add: startup_calls_def numeral_eq_Suc)
  have takes: "take m calls = take m calls0" if "m \<le> 5" for m
    using that by (simp add: all c(2) min_absorb1)
  have later: "take 6 calls = calls0 @ [TakeConnection]" "take 7 calls = calls1"
    using bind(1) n c(2) by (simp_all add: startup_calls_def numeral_eq_Suc)
  have "\<exists>x. dv_answer D (take m calls) = Inr x" if "m \<in> set [1..<8]" for m
  proof (cases "m \<le> 5")
    case False
    with that have "m = 6 \<or> m = 7" by auto
    with later n show ?thesis by auto
  qed (use that five takes in auto)
  moreover have "take 5 calls = calls0" by (simp add: all c(2))
  ultimately have "prepared D calls" using five(2) by (simp add: prepared_def not_isl_iff del: set_upt)
  with env url c all bind(2) n show ?thesis by blast
qed

text \<open>A driver that knows every URL and has the extension.\<close>

definition sample_driver :: "string Driver" where
  "sample_driver = \<lparr>dv_parse = Inr, dv_connect_timeout = (\<lambda>_. id),
     dv_answer = (\<lambda>calls. Inr (if last calls = QueryOpt extension_query then Some ''0.8.0'' else None))\<rparr>"

definition sample_var :: "string \<Rightarrow> string option" where
  "sample_var = [''INFERNAL_LAW_SERVICE_ID'' \<mapsto> ''7'', ''DATABASE_URL'' \<mapsto> ''postgres://db'', ''PORT'' \<mapsto> ''9000'']"

theorem server_starts_only_prepared_witness:
  "snd (main_process sample_crates sample_driver sample_var id [] (InstanceId 1) (KeyId 2)) =
     Inr (InstanceCredential_generate sample_crates [] (InstanceId 1) (KeyId 2) (ActorId 7)) \<and>
   prepared sample_driver (fst (main_process sample_crates sample_driver sample_var id [] (InstanceId 1) (KeyId 2)))"
proof -
  let ?run = "main_process sample_crates sample_driver sample_var id [] (InstanceId 1) (KeyId 2)"
  have run: "BindListener ''0.0.0.0:9000'' \<in> set (fst ?run) \<and> ?run = (fst ?run, snd ?run) \<and>
      snd ?run = Inr (InstanceCredential_generate sample_crates [] (InstanceId 1) (KeyId 2) (ActorId 7))"
    by code_simp
  with server_starts_only_prepared [of sample_crates sample_driver sample_var id "[]" "InstanceId 1" "KeyId 2" "fst ?run" "snd ?run"]
  show ?thesis by blast
qed

end
