(* ===== verification/Spec2Isabelle.thy ===== *)
theory Spec2Isabelle
  imports Claim_Properties Pg_Identity Registry_Properties Subscription_Properties Authority_Properties
    Gate_Properties Routing_Properties Enrollment_Properties Handshake_Properties
    Http_Reading_Properties Http_Governed Http_Dto Http_Properties Http_Answers Registrar_Properties
    Peer_Properties Server_Properties Startup
begin

text \<open>
  The kernel of Infernal Law: a verification library.

  \<^bold>\<open>The program.\<close> Infernal Law is a mediation kernel: services submit requests, the kernel decides with an
  external policy evaluator whether they may, stores the accepted ones, routes them to the
  subscribers of their action, and lets workers claim, renew, release and complete the routed
  work under leases and fencing tokens. Services prove who they are by signing HTTP requests with the
  ephemeral key of a registered instance; an instance gets into the registry by enrollment, against a
  Kubernetes workload token, and becomes deliverable by a mutual handshake. All state is in
  PostgreSQL. The sources are in three layers: \<open>src/kernel\<close> (domain types and services,
  generic over repository traits), \<open>src/infrastructure\<close> (the PostgreSQL adapters and two HTTPS clients),
  and \<open>src/http.rs\<close>, \<open>src/http\<close>, \<open>src/wiring.rs\<close> (the server and the composition). The
  administrative side is a program of its own, \<open>src/bin/registrar.rs\<close>.

  \<^bold>\<open>Theories and sources.\<close>
  \<^item> \<open>Prelude\<close>: \<open>i64\<close> arithmetic, results, byte strings, decimal numbers, the external crates, the
    statement discipline, tables. \<open>Sample_Crates\<close>: one concrete instance of the crates.
  \<^item> Kernel, one theory per module: \<open>Identity\<close>, \<open>Instance_Keys\<close>, \<open>Instance_Registry\<close>,
    \<open>Subscriptions\<close>, \<open>Action_Names\<close> and \<open>Requests\<close> (\<open>requests.rs\<close>), \<open>Authority\<close>,
    \<open>Work_Claims\<close>, \<open>Service_Requests\<close>, \<open>Replay_Protection\<close>, \<open>Admission\<close>,
    \<open>Request_Gate\<close>, \<open>Enrollment\<close>, \<open>Handshakes\<close>; \<open>Error_Texts\<close> has the \<open>Display\<close>
    texts that are composed into other errors. A struct is a record with prefixed fields, an enum a
    datatype, a trait a locale, a service a group of definitions over the trait's operations.
  \<^item> Adapters: \<open>Database\<close> (the tables), \<open>Pg_Identity\<close>, \<open>Pg_Instance_Registry\<close>,
    \<open>Pg_Subscriptions\<close>, \<open>Pg_Requests\<close>, \<open>Pg_Routes\<close>, \<open>Pg_Work_Claims\<close>,
    \<open>Pg_Authority\<close>, \<open>Pg_Replay\<close>, \<open>Pg_Admission\<close>, \<open>Pg_Enrollment\<close>, \<open>Pg_Handshakes\<close>, each with
    the constraints and triggers of \<open>migrations/*.sql\<close> its statements can run into and the
    interpretation of its trait's locale. \<open>Token_Reviewer\<close> and \<open>Policy_Evaluator\<close> are the two HTTPS
    clients.
  \<^item> HTTP: \<open>Http_Reading\<close> (the request reader, which returns what it leaves on the connection), \<open>Http_Governed\<close> (signed requests on the wire),
    \<open>Http_Dto\<close>, \<open>Http_Responses\<close>, \<open>Routing\<close> (the compositions \<open>SubscriptionRouter\<close>,
    \<open>EligibleRouteQuery\<close>, \<open>RoutedRequestQuery\<close>), \<open>Http_Handlers\<close>, \<open>Http_Dispatch\<close>,
    \<open>Http_Wiring\<close> (\<open>wiring.rs\<close>), \<open>Http_Server\<close> (\<open>serve\<close>: a thread per connection).
  \<^item> \<open>Registrar\<close>: \<open>src/bin/registrar.rs\<close> with the administrative functions of the migrations.
  \<^item> \<open>Startup\<close>: \<open>main.rs\<close>, \<open>Application::from_env\<close> and \<open>database.rs\<close>. \<open>Requirements\<close>: the registry of
    \<open>kernel/mod.rs\<close>.

  \<^bold>\<open>What is shown.\<close>
  \<^item> \<open>Claim_Properties\<close>: one active claim per route, growing fencing tokens, fenced holders, permanent
    completion; the adapter refines the pure specification of \<open>Work_Claims\<close>.
  \<^item> \<open>Gate_Properties\<close>: an admitted request was signed by an eligible instance of the service it
    names and of an enabled service; nonces work once; what the signature covers.
  \<^item> \<open>Routing_Properties\<close>: acceptance; materialization, with exactly one stored route per active
    subscription and request, retries adding none; what workers are offered and may read.
  \<^item> \<open>Registry_Properties\<close>, \<open>Subscription_Properties\<close>, \<open>Pg_Identity\<close>: leases, revocation,
    subscriptions and identities over histories.
  \<^item> \<open>Authority_Properties\<close>, \<open>Peer_Properties\<close>: which grants reach the evaluator, schema ownership, what
    a decision rests on, what the cluster must have said.
  \<^item> \<open>Enrollment_Properties\<close>, \<open>Handshake_Properties\<close>: authenticity, single use and liveness of the two
    challenge protocols; a fresh handshake is traced to the registry rows of the database its pass found.
  \<^item> \<open>Http_Reading_Properties\<close>: the reader against a reference that sees all bytes at once, the
    number of bytes it takes whatever the outcome, its termination on endless streams. \<open>Http_Answers\<close>: the
    answers, and that no message of a lower layer reaches them (erasing all of them changes no byte). \<open>Http_Frames\<close>: which tables each operation
    leaves alone. \<open>Http_Properties\<close>: what a request on a connection can change, on whose authority.
  \<^item> \<open>Registrar_Properties\<close>: a pass establishes its manifest, with a grant in force for each one listed,
    and is idempotent when the entries name different services (a service listed twice under two names is
    never settled); a prune withdraws exactly what is not declared, and also services spelled by another
    form of their UUID.
  \<^item> \<open>Http_Parametric\<close>: the handlers treat the state they work on as abstract (by \<open>transfer_prover\<close>).
    \<open>Server_Calls\<close> uses this to read a thread as a sequence of repository calls, once for any relation
    that every call respects (locale \<open>repository_relation\<close>, interpreted there for every component);
    \<open>Server_Properties\<close> concludes that with all threads interleaved at their calls each component goes through one of its own histories, so
    racing workers and racing replays exclude each other.
  \<^item> \<open>Startup\<close>: the listener opens only after the pool, the liveness query, the extension check and the
    migrations have succeeded, in that order.

  Most of these hold over every history: a reflexive-transitive closure of an inductive step relation
  (\<open>work_claims_run\<close>, \<open>registry_run\<close>, \<open>subscription_run\<close>, \<open>authority_run\<close>, \<open>enrollment_run\<close>,
  \<dots>) whose steps are the adapter's operations with any arguments, times, fresh IDs and failing statements,
  and any statement that leaves the tables in question alone. In a history of the server
  (\<open>server_history\<close>) the calls of all connections' threads interleave freely, each call one transaction;
  between them other clients of the database may write what \<open>service_tables_kept\<close> allows, which the
  registrar's statements and the handshake reconciler are shown to satisfy.

  \<^bold>\<open>Failures.\<close> An operation numbers its statements in source order (0 is taking the connection);
  \<open>io k = Some m\<close> makes the \<open>k\<close>-th fail with message \<open>m\<close>. The adapter then returns its
  \<open>Repository\<close> error, and what its transaction did is rolled back. A composition passes a fault
  function per repository call (per route ID in \<open>pg_materialize_routes\<close>). Driver messages for a statement
  the database rejects are the one text \<open>db_error\<close>. The registrar has no transactions: each statement
  commits by itself and the next faults, clock readings and random UUIDs are those of the statement
  counter.

  \<^bold>\<open>Bounds and termination.\<close> No definition takes fuel: every function is total. The reader's loops
  terminate because every read that does not end them adds a byte towards a bound, 8192 bytes of header and 40960
  of body, so that it never holds more than 49156 bytes. Integers the source keeps as \<open>i64\<close> are
  integers with the checked, saturating and wrapping operations written out; fencing tokens wrap as in a
  release build, where the table rejects the wrapped value.

  \<^bold>\<open>What is outside.\<close> Parameters, with the documented behaviour the source relies on as named
  predicates: the crates \<open>uuid\<close>, \<open>sha2\<close>, \<open>ed25519-dalek\<close> and \<open>base64\<close> (the record \<open>Crates\<close>),
  \<open>serde_json\<close> (\<open>Serde\<close> and the decoders of the HTTPS clients), \<open>infernal-client\<close>
  (\<open>InfernalClient\<close>), the HTTPS exchanges, the handshake transport, environment variables and files. The clock, fresh UUIDs,
  challenges and nonces are arguments. A connection is the list of segments its bytes arrive in. UUIDs
  order as 128-bit numbers, as PostgreSQL orders them; \<open>ORDER BY ... LIMIT 1\<close> takes the first of equal
  rows. The constraints of a statement are checked in PostgreSQL's order: \<open>CHECK\<close>, the \<open>ON CONFLICT\<close>
  arbiter, other unique indexes, foreign keys.

  \<^bold>\<open>Not modelled.\<close> The text \<open>serve\<close> prints, \<open>Debug\<close> formatting, and a write to the socket that fails
  (the thread ends, its effects stay). How PostgreSQL isolates two transactions that run at once is
  taken as serial execution; the statements rely on row locks and unique indexes for it. The database
  functions \<open>set_authority_schema_status\<close> and those nobody in the repository calls occur only as the steps their
  tables' triggers allow. Timestamps of type \<open>timestamptz\<close>, which nothing reads, are left out.
\<close>

end
